(* ===== verification/Spork_Prelude.thy ===== *)
theory Spork_Prelude
  imports Complex_Main "HOL-Library.Sublist"
begin

text \<open>
  Shared vocabulary of the development: the lemma collections the component theories add to,
  Python strings (as lists of characters, code points 0 to 255), dictionaries as association
  lists in insertion order, Python floats (with NaN and the infinities), and the list facts
  that several components use.
\<close>

named_theorems pystr_simps \<open>equations for the string helpers\<close>
named_theorems prog_simps \<open>equations for the state-and-exception monad\<close>
named_theorems stage_defs \<open>definitions of pipeline stages\<close>

section \<open>Strings\<close>

text \<open>The characters \<open>str.strip()\<close> removes, over the first 256 code points.\<close>

definition py_space :: "char \<Rightarrow> bool" where
  "py_space c \<longleftrightarrow>
     (let n = (of_char c :: nat)
      in (9 \<le> n \<and> n \<le> 13) \<or> (28 \<le> n \<and> n \<le> 32) \<or> n = 133 \<or> n = 160)"

definition py_lstrip :: "string \<Rightarrow> string" where
  "py_lstrip s = dropWhile py_space s"

definition py_strip :: "string \<Rightarrow> string" where
  "py_strip s = rev (dropWhile py_space (rev (dropWhile py_space s)))"

text \<open>\<open>str.lower()\<close> on one character: the ASCII letters, and the Latin-1 capitals.\<close>

definition py_lower_char :: "char \<Rightarrow> char" where
  "py_lower_char c =
     (let n = (of_char c :: nat)
      in if (65 \<le> n \<and> n \<le> 90) \<or> (192 \<le> n \<and> n \<le> 214) \<or> (216 \<le> n \<and> n \<le> 222)
         then char_of (n + 32) else c)"

definition py_lower :: "string \<Rightarrow> string" where
  "py_lower s = map py_lower_char s"

text \<open>\<open>needle in haystack\<close>.\<close>

fun py_contains :: "string \<Rightarrow> string \<Rightarrow> bool" where
  "py_contains needle [] = (needle = [])"
| "py_contains needle (c # cs) = (prefix needle (c # cs) \<or> py_contains needle cs)"

lemma py_contains_iff: "py_contains needle s \<longleftrightarrow> (\<exists>a b. s = a @ needle @ b)"
proof (induction s)
  case Nil
  show ?case by auto
next
  case (Cons c s)
  have "(\<exists>a b. c # s = a @ needle @ b) \<longleftrightarrow>
      (\<exists>b. c # s = needle @ b) \<or> (\<exists>a b. s = a @ needle @ b)" (is "?l = ?r")
  proof
    assume ?l
    then obtain a b where "c # s = a @ needle @ b" by blast
    then show ?r by (cases a) auto
  next
    assume ?r
    then show ?l by (metis append_Cons append_Nil)
  qed
  with Cons show ?case by (auto simp: prefix_def)
qed

text \<open>\<open>s.split(sep)\<close> for a one-character separator: never empty.\<close>

fun py_split :: "char \<Rightarrow> string \<Rightarrow> string list" where
  "py_split d [] = [[]]"
| "py_split d (c # cs) =
     (if c = d then [] # py_split d cs
      else (case py_split d cs of [] \<Rightarrow> [[c]] | w # ws \<Rightarrow> (c # w) # ws))"

text \<open>\<open>sep.join(parts)\<close>.\<close>

fun py_join :: "string \<Rightarrow> string list \<Rightarrow> string" where
  "py_join sep [] = []"
| "py_join sep [x] = x"
| "py_join sep (x # y # ys) = x @ sep @ py_join sep (y # ys)"

lemma py_split_nonempty [simp]: "py_split d s \<noteq> []"
  by (induction s) (auto split: list.splits)

lemma py_join_Cons: "xs \<noteq> [] \<Longrightarrow> py_join sep (x # xs) = x @ sep @ py_join sep xs"
  by (cases xs) auto

lemma py_join_split: "py_join [d] (py_split d s) = s"
proof (induction s)
  case Nil
  show ?case by simp
next
  case (Cons c s)
  obtain w ws where ws: "py_split d s = w # ws"
    by (cases "py_split d s") auto
  show ?case
    using Cons ws by (cases ws) (auto simp: py_join_Cons)
qed

lemma py_split_no_sep: "w \<in> set (py_split d s) \<Longrightarrow> d \<notin> set w"
proof (induction s arbitrary: w)
  case Nil
  then show ?case by simp
next
  case (Cons c s)
  obtain v vs where vs: "py_split d s = v # vs"
    by (cases "py_split d s") auto
  show ?case using Cons.prems Cons.IH vs by (auto split: if_splits)
qed

lemma dropWhile_idem [simp]: "dropWhile P (dropWhile P xs) = dropWhile P xs"
  by (induction xs) auto

lemma py_strip_hd: "py_strip s \<noteq> [] \<Longrightarrow> \<not> py_space (last (py_strip s))"
  by (simp add: py_strip_def last_rev hd_dropWhile)

lemma dropWhile_last: "xs \<noteq> [] \<Longrightarrow> \<not> P (last xs) \<Longrightarrow> dropWhile P xs \<noteq> [] \<and> last (dropWhile P xs) = last xs"
  by (induction xs) (auto split: if_splits)

lemma set_dropWhileD: "x \<in> set (dropWhile P xs) \<Longrightarrow> x \<in> set xs"
  by (induction xs) (auto split: if_splits)

text \<open>\<open>str(n)\<close> of an integer.\<close>

function digits_of :: "nat \<Rightarrow> string" where
  "digits_of n =
     (if n < 10 then [char_of (48 + n)] else digits_of (n div 10) @ [char_of (48 + n mod 10)])"
  by pat_completeness auto
termination
  by (relation "measure (\<lambda>n. n)") auto

definition py_str_int :: "int \<Rightarrow> string" where
  "py_str_int n = (if n < 0 then CHR ''-'' # digits_of (nat (- n)) else digits_of (nat n))"

text \<open>One hexadecimal digit, lower case.\<close>

definition hex_digit :: "nat \<Rightarrow> char" where
  "hex_digit n = char_of (if n < 10 then 48 + n else 87 + n)"

definition backslash :: char where
  "backslash = char_of (92::nat)"

definition dquote :: char where
  "dquote = char_of (34::nat)"

definition squote :: char where
  "squote = char_of (39::nat)"

definition newline :: char where
  "newline = char_of (10::nat)"

text \<open>\<open>json.dumps\<close> of a string with the default \<open>ensure_ascii\<close>: everything outside the
  printable ASCII range is escaped.\<close>

definition json_char :: "char \<Rightarrow> string" where
  "json_char c =
     (let n = (of_char c :: nat)
      in if c = dquote \<or> c = backslash then [backslash, c]
         else if n = 8 then backslash # ''b'' else if n = 9 then backslash # ''t''
         else if n = 10 then backslash # ''n'' else if n = 12 then backslash # ''f''
         else if n = 13 then backslash # ''r''
         else if n < 32 \<or> 127 \<le> n
         then backslash # ''u00'' @ [hex_digit (n div 16), hex_digit (n mod 16)]
         else [c])"

definition json_string :: "string \<Rightarrow> string" where
  "json_string s = dquote # concat (map json_char s) @ [dquote]"

text \<open>\<open>repr(s)\<close>: single quotes unless the text holds a single quote and no double one.\<close>

definition py_printable :: "char \<Rightarrow> bool" where
  "py_printable c \<longleftrightarrow>
     (let n = (of_char c :: nat) in (32 \<le> n \<and> n < 127) \<or> (161 \<le> n \<and> n \<noteq> 173))"

definition repr_char :: "char \<Rightarrow> char \<Rightarrow> string" where
  "repr_char q c =
     (let n = (of_char c :: nat)
      in if c = q \<or> c = backslash then [backslash, c]
         else if n = 9 then backslash # ''t'' else if n = 10 then backslash # ''n''
         else if n = 13 then backslash # ''r''
         else if py_printable c then [c]
         else backslash # ''x'' @ [hex_digit (n div 16), hex_digit (n mod 16)])"

definition py_repr :: "string \<Rightarrow> string" where
  "py_repr s =
     (let q = (if squote \<in> set s \<and> dquote \<notin> set s then dquote else squote)
      in q # concat (map (repr_char q) s) @ [q])"

section \<open>Dictionaries in insertion order\<close>

type_synonym ('k, 'v) dict = "('k \<times> 'v) list"

text \<open>\<open>d[k] = v\<close>: a present key keeps its place, a new key goes to the end.\<close>

fun dict_set :: "('k, 'v) dict \<Rightarrow> 'k \<Rightarrow> 'v \<Rightarrow> ('k, 'v) dict" where
  "dict_set [] k v = [(k, v)]"
| "dict_set ((k', v') # d) k v =
     (if k' = k then (k', v) # d else (k', v') # dict_set d k v)"

abbreviation dict_get :: "('k, 'v) dict \<Rightarrow> 'k \<Rightarrow> 'v option" where
  "dict_get d k \<equiv> map_of d k"

lemma dict_get_set [simp]: "dict_get (dict_set d k v) k' = (if k' = k then Some v else dict_get d k')"
  by (induction d) auto

lemma keys_dict_set: "fst ` set (dict_set d k v) = insert k (fst ` set d)"
proof (induction d)
  case Nil
  show ?case by simp
next
  case (Cons p d)
  then show ?case by (cases p) (auto simp: insert_commute)
qed

lemma distinct_dict_set [simp]:
  "distinct (map fst d) \<Longrightarrow> distinct (map fst (dict_set d k v))"
proof (induction d)
  case Nil
  show ?case by simp
next
  case (Cons p d)
  obtain k' v' where p: "p = (k', v')" by (cases p)
  have "fst ` set (dict_set d k v) = insert k (fst ` set d)"
    by (rule keys_dict_set)
  with Cons p show ?case by auto
qed

text \<open>\<open>d.update(pairs)\<close>, and \<open>{k: v for ...}\<close>: a later pair wins.\<close>

definition dict_update :: "('k, 'v) dict \<Rightarrow> ('k \<times> 'v) list \<Rightarrow> ('k, 'v) dict" where
  "dict_update d kvs = fold (\<lambda>kv d. dict_set d (fst kv) (snd kv)) kvs d"

abbreviation dict_of :: "('k \<times> 'v) list \<Rightarrow> ('k, 'v) dict" where
  "dict_of kvs \<equiv> dict_update [] kvs"

lemma dict_get_update:
  "dict_get (dict_update d kvs) k = (case map_of (rev kvs) k of Some v \<Rightarrow> Some v | None \<Rightarrow> dict_get d k)"
  unfolding dict_update_def
  by (induction kvs arbitrary: d) (auto simp: map_add_def split: option.splits)

lemma distinct_dict_update [simp]: "distinct (map fst d) \<Longrightarrow> distinct (map fst (dict_update d kvs))"
  unfolding dict_update_def by (induction kvs arbitrary: d) auto

lemma map_of_rev_distinct: "distinct (map fst ts) \<Longrightarrow> map_of (rev ts) = map_of ts"
proof (induction ts)
  case Nil
  show ?case by simp
next
  case (Cons p ts)
  obtain k v where p: "p = (k, v)" by (cases p)
  have "map_of ts k = None" using Cons.prems by (auto simp: p map_of_eq_None_iff)
  with Cons show ?case
    by (auto simp: p fun_eq_iff map_add_def split: option.splits)
qed

section \<open>Floats\<close>

text \<open>
  A Python float is NaN, an infinity or a finite value; every finite double is a rational.
  Comparisons with NaN are false.
\<close>

datatype pyfloat = NaN | NegInf | Num rat | PosInf

fun pf_le :: "pyfloat \<Rightarrow> pyfloat \<Rightarrow> bool" where
  "pf_le NaN y = False"
| "pf_le x NaN = False"
| "pf_le NegInf y = True"
| "pf_le x PosInf = True"
| "pf_le (Num a) (Num b) = (a \<le> b)"
| "pf_le x y = False"

fun pf_lt :: "pyfloat \<Rightarrow> pyfloat \<Rightarrow> bool" where
  "pf_lt NaN y = False"
| "pf_lt x NaN = False"
| "pf_lt x NegInf = False"
| "pf_lt NegInf y = True"
| "pf_lt PosInf y = False"
| "pf_lt x PosInf = True"
| "pf_lt (Num a) (Num b) = (a < b)"

lemma pf_le_trans: "pf_le x y \<Longrightarrow> pf_le y z \<Longrightarrow> pf_le x z"
  by (cases x; cases y; cases z) auto

lemma pf_lt_le: "x \<noteq> NaN \<Longrightarrow> y \<noteq> NaN \<Longrightarrow> pf_lt x y \<longleftrightarrow> \<not> pf_le y x"
  by (cases x; cases y) auto

lemma pf_le_refl: "x \<noteq> NaN \<Longrightarrow> pf_le x x"
  by (cases x) auto

section \<open>Lists\<close>

text \<open>
  Python's \<open>max(items, key=f)\<close>: the first item whose key no later item exceeds. The
  running best is replaced only by a strictly greater key, so ties go to the earlier item.
\<close>

fun max_from :: "('a \<Rightarrow> 'b::linorder) \<Rightarrow> 'a \<Rightarrow> 'a list \<Rightarrow> 'a" where
  "max_from f best [] = best"
| "max_from f best (x # xs) = max_from f (if f best < f x then x else best) xs"

fun py_max_by :: "('a \<Rightarrow> 'b::linorder) \<Rightarrow> 'a list \<Rightarrow> 'a option" where
  "py_max_by f [] = None"
| "py_max_by f (x # xs) = Some (max_from f x xs)"

lemma max_from_in: "max_from f b xs \<in> insert b (set xs)"
  by (induction xs arbitrary: b) auto

lemma max_from_ge: "f b \<le> f (max_from f b xs) \<and> (\<forall>x \<in> set xs. f x \<le> f (max_from f b xs))"
proof (induction xs arbitrary: b)
  case Nil
  show ?case by simp
next
  case (Cons y ys)
  show ?case
    using Cons [of "if f b < f y then y else b"] by (auto split: if_splits)
qed

lemma max_from_first:
  "\<exists>pre post. b # xs = pre @ max_from f b xs # post \<and> (\<forall>x \<in> set pre. f x < f (max_from f b xs))"
proof (induction xs arbitrary: b)
  case Nil
  have "[b] = [] @ b # []" by simp
  then show ?case by fastforce
next
  case (Cons y ys)
  define m where "m = max_from f b (y # ys)"
  have "\<exists>pre post. b # y # ys = pre @ m # post \<and> (\<forall>x \<in> set pre. f x < f m)"
  proof (cases "f b < f y")
    case True
    then have m: "m = max_from f y ys" by (simp add: m_def)
    obtain pre post where s: "y # ys = pre @ m # post" and p: "\<forall>x \<in> set pre. f x < f m"
      using Cons [of y] m by auto
    have "f y \<le> f m" by (simp add: m max_from_ge)
    with True have "f b < f m" by simp
    with s p have "b # y # ys = (b # pre) @ m # post \<and> (\<forall>x \<in> set (b # pre). f x < f m)"
      by simp
    then show ?thesis by blast
  next
    case False
    then have m: "m = max_from f b ys" by (simp add: m_def)
    obtain pre post where s: "b # ys = pre @ m # post" and p: "\<forall>x \<in> set pre. f x < f m"
      using Cons [of b] m by auto
    show ?thesis
    proof (cases pre)
      case Nil
      with s have "b # y # ys = [] @ m # y # ys" by simp
      then show ?thesis by fastforce
    next
      case (Cons z zs)
      with s have z: "z = b" and ys: "ys = zs @ m # post" by auto
      have "f b < f m" using p Cons z by simp
      with False have "f y < f m" by simp
      with p Cons z ys \<open>f b < f m\<close>
      have "b # y # ys = (b # y # zs) @ m # post \<and> (\<forall>x \<in> set (b # y # zs). f x < f m)"
        by simp
      then show ?thesis by blast
    qed
  qed
  then show ?case by (simp only: m_def)
qed

lemma py_max_by_SomeD:
  assumes "py_max_by f xs = Some m"
  shows "m \<in> set xs" and "\<forall>x \<in> set xs. f x \<le> f m"
    and "\<exists>pre post. xs = pre @ m # post \<and> (\<forall>x \<in> set pre. f x < f m)"
proof -
  obtain b ys where xs: "xs = b # ys" and m: "m = max_from f b ys"
    using assms by (cases xs) auto
  show "m \<in> set xs" using max_from_in [of f b ys] xs m by simp
  show "\<forall>x \<in> set xs. f x \<le> f m" using max_from_ge [of f b ys] xs m by simp
  show "\<exists>pre post. xs = pre @ m # post \<and> (\<forall>x \<in> set pre. f x < f m)"
    using max_from_first [of b ys f] xs m by simp
qed

lemma map_of_eq_Some_in: "map_of xs k = Some v \<Longrightarrow> (k, v) \<in> set xs"
  by (rule map_of_SomeD)

end
