(* ===== verification/Spork_Data.thy ===== *)
theory Spork_Data
  imports Spork_Prelude
begin

text \<open>
  The value types of the program: \<open>core/models.py\<close>, \<open>core/rules/schema.py\<close>,
  \<open>core/classify/base.py\<close>, \<open>core/context/base.py\<close>, \<open>core/llm/base.py\<close>,
  \<open>core/providers/base.py\<close>, \<open>core/sources/base.py\<close>, \<open>core/alerts/base.py\<close>
  and the \<open>[tiering]\<close> table of \<open>core/config/schema.py\<close>. Record fields carry a short
  prefix where the source's name is shared by several classes.
\<close>

section \<open>Messages (core/models.py)\<close>

record message =
  message_id :: string
  thread_id :: string
  from_address :: string
  from_domain :: string
  subject :: string
  body_text :: string
  headers :: "(string, string) dict"
  mailbox_ids :: "string list"

record attachment =
  att_filename :: string
  att_content_type :: string
  att_data :: string

section \<open>Rules (core/rules/schema.py)\<close>

datatype action_type = Move | Tag | Escalate | Ignore | Archive_Receipt

fun action_type_name :: "action_type \<Rightarrow> string" where
  "action_type_name Move = ''move''"
| "action_type_name Tag = ''tag''"
| "action_type_name Escalate = ''escalate''"
| "action_type_name Ignore = ''ignore''"
| "action_type_name Archive_Receipt = ''archive_receipt''"

record action =
  a_type :: action_type
  a_mailbox :: "string option"
  a_reason :: "string option"
  a_alert_immediately :: bool

record condition =
  c_always :: bool
  c_from_domain_in :: "string list option"
  c_from_in :: "string list option"
  c_local_classifier_category_in :: "string list option"

record rule =
  r_id :: string
  r_description :: string
  r_when :: condition
  r_action :: action
  r_enabled :: bool

text \<open>\<open>Action(type=t)\<close>: the other fields take their defaults.\<close>

definition action_of_type :: "action_type \<Rightarrow> action" where
  "action_of_type t =
     \<lparr>a_type = t, a_mailbox = None, a_reason = None, a_alert_immediately = False\<rparr>"

record rule_verdict =
  rv_action :: action
  rv_matched_rule_id :: "string option"

section \<open>Classification (core/classify/base.py)\<close>

record classification_result =
  cr_category :: string
  cr_scores :: "(string, rat) dict"

section \<open>Alert urgency (core/alerts/base.py)\<close>

datatype alert_urgency = Low | Normal | Critical

text \<open>The urgencies are ordered by how much they interrupt.\<close>

fun urgency_rank :: "alert_urgency \<Rightarrow> nat" where
  "urgency_rank Low = 0"
| "urgency_rank Normal = 1"
| "urgency_rank Critical = 2"

lemma urgency_rank_inject: "urgency_rank u = urgency_rank v \<Longrightarrow> u = v"
  by (cases u; cases v) auto

instantiation alert_urgency :: linorder
begin

definition less_eq_alert_urgency :: "alert_urgency \<Rightarrow> alert_urgency \<Rightarrow> bool" where
  "less_eq_alert_urgency u v \<longleftrightarrow> urgency_rank u \<le> urgency_rank v"

definition less_alert_urgency :: "alert_urgency \<Rightarrow> alert_urgency \<Rightarrow> bool" where
  "less_alert_urgency u v \<longleftrightarrow> urgency_rank u < urgency_rank v"

instance
  by standard
    (auto simp: less_eq_alert_urgency_def less_alert_urgency_def intro: urgency_rank_inject)

end

section \<open>Context (core/context/base.py)\<close>

record context_snippet =
  cs_source :: string
  cs_text :: string

type_synonym context_result = "context_snippet list"

section \<open>Tier 2 requests and verdicts (core/llm/base.py)\<close>

record verdict_request =
  vq_subject :: string
  vq_from_address :: string
  vq_to_addresses :: "string list"
  vq_cleaned_body :: string
  vq_thread_prior_subject :: "string option"
  vq_thread_user_has_replied :: bool
  vq_available_mailboxes :: "string list"
  vq_available_categories :: "string list"
  vq_context_snippets :: "string list"

datatype verdict_urgency = VLow | VMedium | VHigh

record verdict =
  v_category :: string
  v_urgency :: verdict_urgency
  v_confidence :: pyfloat
  v_suggested_action :: action
  v_summary :: string
  v_draft_reply :: "string option"
  v_reasoning :: string
  v_metadata :: "(string, string) dict"

text \<open>
  What constructing a \<open>Verdict\<close> validates beyond the shape of its fields: the confidence
  range (\<open>Field(ge=0.0, le=1.0)\<close>, which NaN fails) and
  \<open>_suggested_action_must_be_terminal\<close>.
\<close>

definition suggested_action_must_be_terminal :: "action \<Rightarrow> bool" where
  "suggested_action_must_be_terminal a \<longleftrightarrow>
     a_type a \<noteq> Escalate \<and> a_type a \<noteq> Archive_Receipt"

definition verdict_valid :: "verdict \<Rightarrow> bool" where
  "verdict_valid v \<longleftrightarrow>
     pf_le (Num 0) (v_confidence v) \<and> pf_le (v_confidence v) (Num 1) \<and>
     suggested_action_must_be_terminal (v_suggested_action v)"

record llm_call_usage =
  lu_tokens_in :: int
  lu_tokens_out :: int

record llm_result =
  lr_verdict :: verdict
  lr_usage :: llm_call_usage

section \<open>Provider reads (core/providers/base.py, core/sources/base.py)\<close>

record thread_context =
  tc_prior_subject :: "string option"
  tc_user_has_replied :: bool

record message_batch =
  mb_messages :: "message list"
  mb_checkpoint :: "string option"

record backfill_page =
  bp_messages :: "message list"
  bp_position :: int
  bp_next_position :: int
  bp_total :: "int option"
  bp_has_more :: bool

section \<open>The [tiering] table (core/config/schema.py)\<close>

record tiering_config =
  t_default_unmatched_action :: action_type
  t_alert_threshold :: pyfloat
  t_autoact_threshold :: pyfloat
  t_daily_call_budget :: int
  t_max_body_chars :: int
  t_local_classifier :: "string option"
  t_allowed_categories :: "string list"

definition tiering_defaults :: tiering_config where
  "tiering_defaults =
     \<lparr>t_default_unmatched_action = Escalate,
      t_alert_threshold = Num (55 / 100), t_autoact_threshold = Num (85 / 100),
      t_daily_call_budget = 200, t_max_body_chars = 4000,
      t_local_classifier = None, t_allowed_categories = []\<rparr>"

section \<open>Receipts (core/receipts/extract.py, core/receipts/llm.py)\<close>

text \<open>A tracked domain (context/clients/entities/models.py), as a lookup returns it.\<close>

record domain_record =
  dr_name :: string
  dr_company :: "string option"

record receipt_extraction =
  re_company :: string
  re_date :: string

record receipt_extraction_request =
  rq_subject :: string
  rq_from_address :: string
  rq_from_domain :: string
  rq_body_text :: string

section \<open>Exceptions\<close>

text \<open>
  One constructor per exception class the modelled code raises or catches by name. The
  payload identifies the failing value; the rendered message (which quotes Python and
  pydantic \<open>repr\<close> text) is a parameter where the code uses it. \<open>Other_Error\<close> is any
  other exception a collaborator raises: class name and message.
\<close>

datatype exec_fault = Escalate_Not_Terminal | Receipt_Not_Terminal | Mailbox_Required

datatype verdict_fault = Category_Not_Allowed string | Mailbox_Not_Allowed string

datatype exn =
    ActionExecutionError exec_fault action
  | VerdictValidationError verdict_fault
  | LiteLLMClientError string
  | MissingMetaError string
  | UnknownBranchError string
  | RuntimeError string
  | ValueError string
  | KeyError string
  | NotImplementedError string
  | CombineError string
  | UnknownClassifierError string
  | RulesLoadError string
  | MessagesLoadError string
  | AttachmentsLoadError string
  | EntityDataLoadError string
  | RecordedResponsesLoadError string
  | UnrecordedResponseError string
  | UnrecordedReceiptExtractionError string
  | RecordedReceiptExtractionsLoadError string
  | MessageNotFoundError string
  | ReceiptArchiveError string
  | ReceiptPdfError string
  | JmapError string
  | JmapPushDisconnectedError string
  | UnknownMailboxRoleError string
  | AmbiguousMailboxRoleError string string string
  | ConfigLoadError string
  | BackfillNotSupportedError string
  | Other_Error string string

end
