(* ===== verification/Toml_Text.thy ===== *)
theory Toml_Text
  imports Spork_Data
begin

text \<open>
  TOML documents: the values \<open>tomllib\<close> gives, and its reader on the part of the language the
  rules writer (\<open>core/rules/writer.py\<close>) produces: key/value lines, \<open>[[name]]\<close> headers,
  basic strings, booleans, arrays and inline tables. The reader follows \<open>tomllib\<close>'s own
  routines (\<open>parse_basic_str\<close>, \<open>parse_array\<close>, \<open>parse_inline_table\<close>, the statement loop),
  which recurse on positions of the text; here the rest of the text is passed on, with fuel for
  the nesting. Anything else of TOML (numbers, dates, dotted keys, plain tables, comments) is
  refused, so a text it accepts has the value \<open>tomllib\<close> gives it.
\<close>

section \<open>Values\<close>

datatype toml =
    T_Str string | T_Bool bool | T_Int int | T_Float pyfloat | T_Date string
  | T_Arr "toml list" | T_Table "(string \<times> toml) list"

section \<open>Reading\<close>

definition tab :: char where
  "tab = char_of (9::nat)"

text \<open>\<open>ILLEGAL_BASIC_STR_CHARS\<close>: the ASCII control characters but the tab.\<close>

definition illegal_char :: "char \<Rightarrow> bool" where
  "illegal_char c \<longleftrightarrow> (let n = (of_char c :: nat) in (n < 32 \<or> n = 127) \<and> n \<noteq> 9)"

definition skip_ws :: "string \<Rightarrow> string" where
  "skip_ws = dropWhile (\<lambda>c. c = CHR '' '' \<or> c = tab)"

definition bare_key_char :: "char \<Rightarrow> bool" where
  "bare_key_char c \<longleftrightarrow>
     (let n = (of_char c :: nat)
      in (48 \<le> n \<and> n \<le> 57) \<or> (65 \<le> n \<and> n \<le> 90) \<or> (97 \<le> n \<and> n \<le> 122) \<or> n = 45 \<or> n = 95)"

definition string_escape :: "char \<Rightarrow> char option" where
  "string_escape c =
     map_of [(CHR ''b'', char_of (8::nat)), (CHR ''t'', tab), (CHR ''n'', newline),
             (CHR ''f'', char_of (12::nat)), (CHR ''r'', char_of (13::nat)),
             (dquote, dquote), (backslash, backslash)] c"

text \<open>The rest of a basic string, after its opening quote.\<close>

fun read_string :: "string \<Rightarrow> (string \<times> string) option" where
  "read_string [] = None"
| "read_string (c # cs) =
     (if c = dquote then Some ([], cs)
      else if c = backslash
      then (case cs of
              [] \<Rightarrow> None
            | e # es \<Rightarrow>
                (case string_escape e of
                   None \<Rightarrow> None
                 | Some ch \<Rightarrow> map_option (\<lambda>(s, r). (ch # s, r)) (read_string es)))
      else if illegal_char c then None
      else map_option (\<lambda>(s, r). (c # s, r)) (read_string cs))"

definition read_key :: "string \<Rightarrow> (string \<times> string) option" where
  "read_key s =
     (let k = takeWhile bare_key_char s
      in if k = [] then None else Some (k, dropWhile bare_key_char s))"

text \<open>The text after \<open>key =\<close>, with the blanks around the sign skipped.\<close>

definition read_equals :: "string \<Rightarrow> (string \<times> string) option" where
  "read_equals s =
     (case read_key s of
        None \<Rightarrow> None
      | Some (k, r) \<Rightarrow>
          (case skip_ws r of
             c # cs \<Rightarrow> if c = CHR ''='' then Some (k, skip_ws cs) else None
           | [] \<Rightarrow> None))"

text \<open>A value; the items of an array after its bracket or a comma; the pairs of an inline
  table after its brace or a comma.\<close>

fun parse_value :: "nat \<Rightarrow> string \<Rightarrow> (toml \<times> string) option"
  and parse_items :: "nat \<Rightarrow> string \<Rightarrow> (toml list \<times> string) option"
  and parse_pairs :: "nat \<Rightarrow> string \<Rightarrow> ((string \<times> toml) list \<times> string) option" where
  "parse_value 0 s = None"
| "parse_value (Suc n) s =
     (case s of
        [] \<Rightarrow> None
      | c # cs \<Rightarrow>
          if c = dquote then map_option (\<lambda>(v, r). (T_Str v, r)) (read_string cs)
          else if take 4 s = ''true'' then Some (T_Bool True, drop 4 s)
          else if take 5 s = ''false'' then Some (T_Bool False, drop 5 s)
          else if c = CHR ''['' then map_option (\<lambda>(vs, r). (T_Arr vs, r)) (parse_items n (skip_ws cs))
          else if c = CHR ''{''
          then (case skip_ws cs of
                  [] \<Rightarrow> None
                | d # ds \<Rightarrow>
                    if d = CHR ''}'' then Some (T_Table [], ds)
                    else map_option (\<lambda>(ps, r). (T_Table ps, r)) (parse_pairs n (d # ds)))
          else None)"
| "parse_items 0 s = None"
| "parse_items (Suc n) s =
     (case s of
        [] \<Rightarrow> None
      | c # cs \<Rightarrow>
          if c = CHR '']'' then Some ([], cs)
          else (case parse_value n s of
                  None \<Rightarrow> None
                | Some (v, r) \<Rightarrow>
                    (case skip_ws r of
                       [] \<Rightarrow> None
                     | d # ds \<Rightarrow>
                         if d = CHR '']'' then Some ([v], ds)
                         else if d = CHR '',''
                         then map_option (\<lambda>(vs, r'). (v # vs, r')) (parse_items n (skip_ws ds))
                         else None)))"
| "parse_pairs 0 s = None"
| "parse_pairs (Suc n) s =
     (case read_equals s of
        None \<Rightarrow> None
      | Some (k, t) \<Rightarrow>
          (case parse_value n t of
             None \<Rightarrow> None
           | Some (v, r) \<Rightarrow>
               (case skip_ws r of
                  [] \<Rightarrow> None
                | d # ds \<Rightarrow>
                    if d = CHR ''}'' then Some ([(k, v)], ds)
                    else if d = CHR '',''
                    then (case parse_pairs n (skip_ws ds) of
                            None \<Rightarrow> None
                          | Some (ps, r') \<Rightarrow>
                              if k \<in> fst ` set ps then None else Some ((k, v) # ps, r'))
                    else None)))"

section \<open>Documents\<close>

text \<open>The top-level table, the arrays that \<open>[[name]]\<close> headers made, and the one whose last entry
  the next pairs go to.\<close>

record toml_doc =
  td_root :: "(string, toml) dict"
  td_arrays :: "string list"
  td_open :: "string option"

definition add_key :: "string \<Rightarrow> toml \<Rightarrow> (string, toml) dict \<Rightarrow> (string, toml) dict option" where
  "add_key k v d = (if k \<in> fst ` set d then None else Some (d @ [(k, v)]))"

fun table_of :: "toml \<Rightarrow> (string, toml) dict option" where
  "table_of (T_Table t) = Some t"
| "table_of v = None"

definition last_table :: "toml option \<Rightarrow> (toml list \<times> (string, toml) dict) option" where
  "last_table v =
     (case v of
        Some (T_Arr ts) \<Rightarrow>
          if ts = [] then None else map_option (\<lambda>t. (butlast ts, t)) (table_of (last ts))
      | _ \<Rightarrow> None)"

definition set_pair :: "string \<Rightarrow> toml \<Rightarrow> toml_doc \<Rightarrow> toml_doc option" where
  "set_pair k v d =
     (case td_open d of
        None \<Rightarrow> map_option (\<lambda>r. d\<lparr>td_root := r\<rparr>) (add_key k v (td_root d))
      | Some a \<Rightarrow>
          (case last_table (dict_get (td_root d) a) of
             None \<Rightarrow> None
           | Some (ts, t) \<Rightarrow>
               map_option (\<lambda>t'. d\<lparr>td_root := dict_set (td_root d) a (T_Arr (ts @ [T_Table t']))\<rparr>)
                 (add_key k v t)))"

definition open_entry :: "string \<Rightarrow> toml_doc \<Rightarrow> toml_doc option" where
  "open_entry a d =
     (case dict_get (td_root d) a of
        None \<Rightarrow> Some \<lparr>td_root = td_root d @ [(a, T_Arr [T_Table []])], td_arrays = a # td_arrays d,
                    td_open = Some a\<rparr>
      | Some v \<Rightarrow>
          (case last_table (Some v) of
             None \<Rightarrow> None
           | Some (ts, t) \<Rightarrow>
               if a \<in> set (td_arrays d)
               then Some (d\<lparr>td_root := dict_set (td_root d) a (T_Arr (ts @ [T_Table t, T_Table []])),
                            td_open := Some a\<rparr>)
               else None))"

text \<open>One statement, at its first character.\<close>

definition parse_statement :: "toml_doc \<Rightarrow> string \<Rightarrow> (toml_doc \<times> string) option" where
  "parse_statement d s =
     (if take 2 s = ''[[''
      then (case read_key (skip_ws (drop 2 s)) of
              None \<Rightarrow> None
            | Some (k, r) \<Rightarrow>
                if take 2 (skip_ws r) = '']]''
                then map_option (\<lambda>d'. (d', drop 2 (skip_ws r))) (open_entry k d) else None)
      else (case read_equals s of
              None \<Rightarrow> None
            | Some (k, t) \<Rightarrow>
                (case parse_value (Suc (length t)) t of
                   None \<Rightarrow> None
                 | Some (v, r) \<Rightarrow> map_option (\<lambda>d'. (d', r)) (set_pair k v d))))"

fun parse_lines :: "nat \<Rightarrow> toml_doc \<Rightarrow> string \<Rightarrow> toml_doc option" where
  "parse_lines 0 d s = None"
| "parse_lines (Suc n) d s =
     (case skip_ws s of
        [] \<Rightarrow> Some d
      | c # cs \<Rightarrow>
          if c = newline then parse_lines n d cs
          else (case parse_statement d (c # cs) of
                  None \<Rightarrow> None
                | Some (d', r) \<Rightarrow>
                    (case skip_ws r of
                       [] \<Rightarrow> Some d'
                     | e # es \<Rightarrow> if e = newline then parse_lines n d' es else None)))"

definition empty_doc :: toml_doc where
  "empty_doc = \<lparr>td_root = [], td_arrays = [], td_open = None\<rparr>"

text \<open>\<open>tomllib.loads\<close>; \<open>None\<close> is a \<open>TOMLDecodeError\<close>. Every line uses at least its newline,
  so the length of the text is fuel enough.\<close>

definition toml_loads :: "string \<Rightarrow> (string, toml) dict option" where
  "toml_loads text = map_option td_root (parse_lines (Suc (length text)) empty_doc text)"

end
