(* ===== verification/State_Store.thy ===== *)
theory State_Store
  imports Spork_Data
begin

text \<open>
  \<open>core/state/db.py\<close>: the SQLite state store. A database is its five tables; a keyed table
  is a partial map from its primary key to the row, the audit log is the list of its rows in
  insertion order with the AUTOINCREMENT counter. SQLite itself is taken to succeed (no disk
  or lock errors), and its INTEGER columns are unbounded.

  Two interfaces: \<open>keyed_table\<close> (lookup after upsert, with the last write winning over any
  sequence of writes) and \<open>append_log\<close> (a log that only grows, by the entry written).
\<close>

record audit_entry =
  ae_id :: nat
  ae_ts :: string
  ae_jmap_id :: string
  ae_event :: string
  ae_detail_json :: "string option"

record llm_usage =
  us_date :: string
  us_calls :: int
  us_tokens_in :: int
  us_tokens_out :: int

record known_sender =
  ks_from_domain :: string
  ks_company :: string
  ks_learned_from :: string
  ks_learned_at :: string

record processed_row =
  pr_thread_id :: string
  pr_received_at :: "string option"
  pr_tier_reached :: "string option"
  pr_verdict_json :: "string option"
  pr_action_taken :: "string option"
  pr_processed_at :: string

record state_db =
  db_push_cursor :: "string \<rightharpoonup> string"
  db_processed :: "string \<rightharpoonup> processed_row"
  db_audit_log :: "audit_entry list"
  db_audit_seq :: nat
  db_llm_usage :: "string \<rightharpoonup> int \<times> int \<times> int"
  db_known_senders :: "string \<rightharpoonup> known_sender"

definition empty_db :: state_db where
  "empty_db =
     \<lparr>db_push_cursor = (\<lambda>_. None), db_processed = (\<lambda>_. None), db_audit_log = [],
      db_audit_seq = 0, db_llm_usage = (\<lambda>_. None), db_known_senders = (\<lambda>_. None)\<rparr>"

section \<open>Push cursor\<close>

definition get_cursor :: "state_db \<Rightarrow> string \<Rightarrow> string option" where
  "get_cursor db account_id = db_push_cursor db account_id"

definition set_cursor :: "string \<Rightarrow> string \<Rightarrow> state_db \<Rightarrow> state_db" where
  "set_cursor account_id st db =
     db\<lparr>db_push_cursor := (db_push_cursor db)(account_id \<mapsto> st)\<rparr>"

section \<open>Processed messages\<close>

definition has_processed :: "state_db \<Rightarrow> string \<Rightarrow> bool" where
  "has_processed db jmap_id \<longleftrightarrow> db_processed db jmap_id \<noteq> None"

definition mark_processed :: "string \<Rightarrow> processed_row \<Rightarrow> state_db \<Rightarrow> state_db" where
  "mark_processed jmap_id row db =
     db\<lparr>db_processed := (db_processed db)(jmap_id \<mapsto> row)\<rparr>"

section \<open>Audit log\<close>

definition write_audit_entry ::
  "string \<Rightarrow> string \<Rightarrow> string \<Rightarrow> string option \<Rightarrow> state_db \<Rightarrow> state_db" where
  "write_audit_entry ts jmap_id event detail_json db =
     (let i = Suc (db_audit_seq db)
      in db\<lparr>db_audit_log := db_audit_log db @
             [\<lparr>ae_id = i, ae_ts = ts, ae_jmap_id = jmap_id, ae_event = event,
               ae_detail_json = detail_json\<rparr>],
           db_audit_seq := i\<rparr>)"

definition write_control_plane_audit_entry ::
  "string \<Rightarrow> string \<Rightarrow> string option \<Rightarrow> state_db \<Rightarrow> state_db" where
  "write_control_plane_audit_entry ts event detail_json db =
     write_audit_entry ts '''' event detail_json db"

text \<open>\<open>SELECT \<dots> ORDER BY id\<close>, optionally for one message.\<close>

definition get_audit_entries :: "state_db \<Rightarrow> string option \<Rightarrow> audit_entry list" where
  "get_audit_entries db jmap_id =
     (case jmap_id of
        None \<Rightarrow> sort_key ae_id (db_audit_log db)
      | Some j \<Rightarrow> sort_key ae_id (filter (\<lambda>e. ae_jmap_id e = j) (db_audit_log db)))"

section \<open>LLM usage\<close>

definition record_llm_call ::
  "string \<Rightarrow> int \<Rightarrow> int \<Rightarrow> state_db \<Rightarrow> exn + state_db" where
  "record_llm_call date tokens_in tokens_out db =
     (if tokens_in < 0 then Inl (ValueError ''tokens_in must not be negative'')
      else if tokens_out < 0 then Inl (ValueError ''tokens_out must not be negative'')
      else Inr (db\<lparr>db_llm_usage := (db_llm_usage db)(date \<mapsto>
             (case db_llm_usage db date of
                None \<Rightarrow> (1, tokens_in, tokens_out)
              | Some (calls, ti, to) \<Rightarrow> (calls + 1, ti + tokens_in, to + tokens_out)))\<rparr>))"

definition get_llm_usage :: "state_db \<Rightarrow> string \<Rightarrow> llm_usage" where
  "get_llm_usage db date =
     (case db_llm_usage db date of
        None \<Rightarrow> \<lparr>us_date = date, us_calls = 0, us_tokens_in = 0, us_tokens_out = 0\<rparr>
      | Some (calls, ti, to) \<Rightarrow>
          \<lparr>us_date = date, us_calls = calls, us_tokens_in = ti, us_tokens_out = to\<rparr>)"

section \<open>Known receipt senders\<close>

definition get_known_sender :: "state_db \<Rightarrow> string \<Rightarrow> known_sender option" where
  "get_known_sender db domain = db_known_senders db domain"

definition learn_known_sender ::
  "string \<Rightarrow> string \<Rightarrow> string \<Rightarrow> string \<Rightarrow> state_db \<Rightarrow> state_db" where
  "learn_known_sender domain company learned_from learned_at db =
     db\<lparr>db_known_senders := (db_known_senders db)(domain \<mapsto>
        \<lparr>ks_from_domain = domain, ks_company = company, ks_learned_from = learned_from,
         ks_learned_at = learned_at\<rparr>)\<rparr>"

section \<open>Interfaces\<close>

locale keyed_table =
  fixes lookup :: "'s \<Rightarrow> 'k \<Rightarrow> 'r option"
    and upsert :: "'k \<Rightarrow> 'r \<Rightarrow> 's \<Rightarrow> 's"
  assumes lookup_upsert: "lookup (upsert k r s) k' = (if k' = k then Some r else lookup s k')"
begin

lemma lookup_writes:
  "lookup (fold (\<lambda>(k, r). upsert k r) ws s) k =
     (case map_of (rev ws) k of Some r \<Rightarrow> Some r | None \<Rightarrow> lookup s k)"
proof (induction ws arbitrary: s)
  case Nil
  show ?case by simp
next
  case (Cons w ws)
  obtain k' r' where w: "w = (k', r')" by (cases w)
  show ?case
    using Cons [of "upsert k' r' s"]
    by (auto simp: w lookup_upsert map_add_def split: option.splits)
qed

lemma upsert_twice: "lookup (upsert k r (upsert k r' s)) = lookup (upsert k r s)"
  by (rule ext) (simp add: lookup_upsert)

end

locale append_log =
  fixes entries :: "'s \<Rightarrow> 'e list"
    and append_row :: "'a \<Rightarrow> 's \<Rightarrow> 's"
    and stamp :: "'a \<Rightarrow> 's \<Rightarrow> 'e"
  assumes entries_write: "entries (append_row a s) = entries s @ [stamp a s]"
begin

lemma prefix_writes: "prefix (entries s) (entries (fold append_row as s))"
proof (induction as arbitrary: s)
  case Nil
  show ?case by simp
next
  case (Cons a as)
  have "prefix (entries s) (entries (append_row a s))" by (simp add: entries_write)
  also have "prefix (entries (append_row a s)) (entries (fold append_row as (append_row a s)))"
    by (rule Cons)
  finally show ?case by simp
qed

lemma length_writes: "length (entries (fold append_row as s)) = length (entries s) + length as"
  by (induction as arbitrary: s) (simp_all add: entries_write)

end

interpretation cursors: keyed_table get_cursor set_cursor
  by unfold_locales (simp add: get_cursor_def set_cursor_def)

interpretation processed: keyed_table "db_processed" mark_processed
  by unfold_locales (simp add: mark_processed_def)

interpretation senders: keyed_table get_known_sender
  "\<lambda>d (r :: known_sender) db. db\<lparr>db_known_senders := (db_known_senders db)(d \<mapsto> r)\<rparr>"
  by unfold_locales (simp add: get_known_sender_def)

text \<open>The arguments of one audit write, as a tuple, and the row it appends.\<close>

type_synonym audit_args = "string \<times> string \<times> string \<times> string option"

definition audit_write :: "audit_args \<Rightarrow> state_db \<Rightarrow> state_db" where
  "audit_write a db = (case a of (ts, j, ev, d) \<Rightarrow> write_audit_entry ts j ev d db)"

definition audit_stamp :: "audit_args \<Rightarrow> state_db \<Rightarrow> audit_entry" where
  "audit_stamp a db = (case a of (ts, j, ev, d) \<Rightarrow>
     \<lparr>ae_id = Suc (db_audit_seq db), ae_ts = ts, ae_jmap_id = j, ae_event = ev,
      ae_detail_json = d\<rparr>)"

interpretation audit: append_log db_audit_log audit_write audit_stamp
  by unfold_locales
    (auto simp: audit_write_def audit_stamp_def write_audit_entry_def Let_def split: prod.splits)

section \<open>The store's invariant\<close>

text \<open>
  Audit ids are strictly increasing and bounded by the counter; usage rows count at least
  one call and no negative tokens; a sender row is stored under its own domain.
\<close>

definition audit_ids_ok :: "state_db \<Rightarrow> bool" where
  "audit_ids_ok db \<longleftrightarrow>
     sorted_wrt (<) (map ae_id (db_audit_log db)) \<and>
     (\<forall>e \<in> set (db_audit_log db). ae_id e \<le> db_audit_seq db)"

definition usage_ok :: "state_db \<Rightarrow> bool" where
  "usage_ok db \<longleftrightarrow>
     (\<forall>d c i t. db_llm_usage db d = Some (c, i, t) \<longrightarrow> 1 \<le> c \<and> 0 \<le> i \<and> 0 \<le> t)"

definition senders_ok :: "state_db \<Rightarrow> bool" where
  "senders_ok db \<longleftrightarrow> (\<forall>d r. db_known_senders db d = Some r \<longrightarrow> ks_from_domain r = d)"

definition db_ok :: "state_db \<Rightarrow> bool" where
  "db_ok db \<longleftrightarrow> audit_ids_ok db \<and> usage_ok db \<and> senders_ok db"

lemmas db_ok_defs = db_ok_def audit_ids_ok_def usage_ok_def senders_ok_def

lemma db_ok_empty: "db_ok empty_db"
  by (simp add: db_ok_defs empty_db_def)

lemma db_ok_set_cursor: "db_ok db \<Longrightarrow> db_ok (set_cursor a s db)"
  by (simp add: db_ok_defs set_cursor_def)

lemma db_ok_mark_processed: "db_ok db \<Longrightarrow> db_ok (mark_processed j r db)"
  by (simp add: db_ok_defs mark_processed_def)

lemma db_ok_write_audit: "db_ok db \<Longrightarrow> db_ok (write_audit_entry ts j ev d db)"
  by (auto simp: db_ok_defs write_audit_entry_def Let_def sorted_wrt_append less_Suc_eq_le
      dest: le_SucI)

lemma db_ok_learn: "db_ok db \<Longrightarrow> db_ok (learn_known_sender d c f a db)"
  by (auto simp: db_ok_defs learn_known_sender_def)

lemma db_ok_record_llm_call:
  assumes "db_ok db" and "record_llm_call d i t db = Inr db'"
  shows "db_ok db'"
  using assms
  by (fastforce simp: db_ok_defs record_llm_call_def split: if_splits option.splits prod.splits)

lemmas db_ok_ops = db_ok_set_cursor db_ok_mark_processed db_ok_write_audit db_ok_learn

text \<open>Reading the log in id order is reading it in insertion order.\<close>

lemma sorted_wrt_filter_map:
  "sorted_wrt (<) (map f xs) \<Longrightarrow> sorted_wrt (<) (map f (filter P xs))"
  by (induction xs) auto

lemma sort_key_ids: "sorted_wrt (<) (map ae_id xs) \<Longrightarrow> sort_key ae_id xs = xs"
  by (metis sort_key_id_if_sorted strict_sorted_imp_sorted)

lemma get_audit_entries_order:
  assumes "audit_ids_ok db"
  shows "get_audit_entries db None = db_audit_log db"
    and "get_audit_entries db (Some j) = filter (\<lambda>e. ae_jmap_id e = j) (db_audit_log db)"
  using assms
  by (simp_all add: get_audit_entries_def audit_ids_ok_def sort_key_ids sorted_wrt_filter_map)

section \<open>Daily usage over a run of calls\<close>

text \<open>A run of accepted calls on one or several dates, stopping at the first rejected one.\<close>

fun record_calls :: "(string \<times> int \<times> int) list \<Rightarrow> state_db \<Rightarrow> exn + state_db" where
  "record_calls [] db = Inr db"
| "record_calls ((d, i, t) # cs) db =
     (case record_llm_call d i t db of Inl e \<Rightarrow> Inl e | Inr db' \<Rightarrow> record_calls cs db')"

definition calls_on :: "string \<Rightarrow> (string \<times> int \<times> int) list \<Rightarrow> (string \<times> int \<times> int) list" where
  "calls_on d cs = filter (\<lambda>c. fst c = d) cs"

lemma get_llm_usage_record:
  assumes "record_llm_call d i t db = Inr db'"
  shows "get_llm_usage db' d' =
     (if d' = d
      then (get_llm_usage db d)\<lparr>us_calls := us_calls (get_llm_usage db d) + 1,
             us_tokens_in := us_tokens_in (get_llm_usage db d) + i,
             us_tokens_out := us_tokens_out (get_llm_usage db d) + t\<rparr>
      else get_llm_usage db d')"
  using assms
  by (auto simp: record_llm_call_def get_llm_usage_def split: if_splits option.splits)

lemma record_calls_usage:
  assumes "record_calls cs db = Inr db'"
  shows "us_calls (get_llm_usage db' d) = us_calls (get_llm_usage db d) + int (length (calls_on d cs))
    \<and> us_tokens_in (get_llm_usage db' d) =
        us_tokens_in (get_llm_usage db d) + sum_list (map (fst \<circ> snd) (calls_on d cs))
    \<and> us_tokens_out (get_llm_usage db' d) =
        us_tokens_out (get_llm_usage db d) + sum_list (map (snd \<circ> snd) (calls_on d cs))"
  using assms
proof (induction cs arbitrary: db)
  case Nil
  then show ?case by (simp add: calls_on_def)
next
  case (Cons c cs)
  obtain d' i t where c: "c = (d', i, t)" by (cases c)
  obtain db1 where r: "record_llm_call d' i t db = Inr db1" and rs: "record_calls cs db1 = Inr db'"
    using Cons.prems by (auto simp: c split: sum.splits)
  show ?case
    using Cons.IH [OF rs]
    by (auto simp: c calls_on_def get_llm_usage_record [OF r])
qed

section \<open>Properties\<close>

text \<open>The store's invariant holds of a fresh database and every write keeps it: audit
  ids stay strictly increasing, usage rows stay positive, sender rows stay under their key.\<close>

theorem store_invariant:
  "db_ok empty_db \<and>
   (db_ok db \<longrightarrow>
      db_ok (set_cursor a s db) \<and> db_ok (mark_processed j r db) \<and>
      db_ok (write_audit_entry ts j ev d db) \<and>
      db_ok (write_control_plane_audit_entry ts ev d db) \<and>
      db_ok (learn_known_sender sd c f la db) \<and>
      (\<forall>db'. record_llm_call dt ti t0 db = Inr db' \<longrightarrow> db_ok db'))"
  using db_ok_record_llm_call
  by (auto simp: db_ok_empty write_control_plane_audit_entry_def intro: db_ok_ops)

theorem store_invariant_witness:
  "db_ok (write_audit_entry ''t'' ''m'' ''e'' None empty_db)"
  using store_invariant [of empty_db] by blast

end
