(* ===== verification/Spork_Effects.thy ===== *)
theory Spork_Effects
  imports State_Store
begin

text \<open>
  State and exceptions. A program runs in a \<open>world\<close>: the state database and the history of
  the calls it has made across the Protocol boundaries (provider, LLM client, alerter, clock,
  logger, file system). What a collaborator answers is a function of that history and the
  call's arguments, collected in the record \<open>env\<close>: any deterministic collaborator, stateful
  or not, is an instance. Effects made before an exception stay, as in Python: the result is
  \<open>(exn + 'a) \<times> world\<close>.

  Interface: \<open>effect_frame\<close>, a reflexive and transitive relation between worlds that a
  program keeps; every component proves its frame facts from the rules in that locale.
\<close>

section \<open>Calls and collaborators\<close>

datatype call =
    C_Now
  | C_New_Id
  | C_Apply message action
  | C_Draft message string
  | C_Notify string string "string option" alert_urgency
  | C_Trace string string "(string \<times> string) list"
  | C_Classify message
  | C_Context message
  | C_Llm verdict_request
  | C_Thread message
  | C_Mailboxes
  | C_Attachments message
  | C_Keywords message "string list"
  | C_Extract receipt_extraction_request
  | C_Build_Pdf message "attachment list" string string
  | C_Write_File string string
  | C_Query bool int int
  | C_Poll
  | C_Load_Rules

text \<open>
  \<open>e_str\<close> is \<open>str(exc)\<close>, \<open>e_verdict_json\<close> pydantic's \<open>model_dump_json\<close>,
  \<open>e_strip_html\<close> the text content \<open>html.parser\<close> reports.
\<close>

record env =
  e_now :: "call list \<Rightarrow> string"
  e_new_id :: "call list \<Rightarrow> string"
  e_duration :: "call list \<Rightarrow> string"
  e_apply :: "call list \<Rightarrow> message \<Rightarrow> action \<Rightarrow> exn + unit"
  e_draft :: "call list \<Rightarrow> message \<Rightarrow> string \<Rightarrow> exn + unit"
  e_notify :: "call list \<Rightarrow> string \<Rightarrow> string \<Rightarrow> string option \<Rightarrow> alert_urgency \<Rightarrow> exn + unit"
  e_context :: "call list \<Rightarrow> message \<Rightarrow> exn + context_result"
  e_llm :: "call list \<Rightarrow> verdict_request \<Rightarrow> exn + llm_result"
  e_thread :: "call list \<Rightarrow> message \<Rightarrow> exn + thread_context"
  e_mailboxes :: "call list \<Rightarrow> exn + string list"
  e_attachments :: "call list \<Rightarrow> message \<Rightarrow> exn + attachment list"
  e_keywords :: "call list \<Rightarrow> message \<Rightarrow> string list \<Rightarrow> exn + unit"
  e_extract :: "call list \<Rightarrow> receipt_extraction_request \<Rightarrow> exn + receipt_extraction"
  e_build_pdf :: "call list \<Rightarrow> message \<Rightarrow> attachment list \<Rightarrow> string \<Rightarrow> string \<Rightarrow> exn + string"
  e_write_file :: "call list \<Rightarrow> string \<Rightarrow> string \<Rightarrow> exn + unit"
  e_query :: "call list \<Rightarrow> bool \<Rightarrow> int \<Rightarrow> int \<Rightarrow> exn + backfill_page"
  e_poll :: "call list \<Rightarrow> exn + message_batch"
  e_load_rules :: "call list \<Rightarrow> exn + rule list"
  e_str :: "exn \<Rightarrow> string"
  e_verdict_json :: "verdict \<Rightarrow> string"
  e_strip_html :: "string \<Rightarrow> string"

text \<open>A local classifier answers from the message alone, or raises.\<close>

type_synonym classifier = "message \<Rightarrow> exn + classification_result"

record world =
  wdb :: state_db
  hist :: "call list"

type_synonym 'a prog = "world \<Rightarrow> (exn + 'a) \<times> world"

section \<open>Programs\<close>

definition ret :: "'a \<Rightarrow> 'a prog" where
  "ret x w = (Inr x, w)"

definition throw :: "exn \<Rightarrow> 'a prog" where
  "throw e w = (Inl e, w)"

definition bind :: "'a prog \<Rightarrow> ('a \<Rightarrow> 'b prog) \<Rightarrow> 'b prog" where
  "bind m f w = (case m w of (Inl e, w') \<Rightarrow> (Inl e, w') | (Inr x, w') \<Rightarrow> f x w')"

definition try_except :: "'a prog \<Rightarrow> (exn \<Rightarrow> bool) \<Rightarrow> (exn \<Rightarrow> 'a prog) \<Rightarrow> 'a prog" where
  "try_except m caught h w =
     (case m w of
        (Inl e, w') \<Rightarrow> (if caught e then h e w' else (Inl e, w'))
      | (Inr x, w') \<Rightarrow> (Inr x, w'))"

definition of_sum :: "exn + 'a \<Rightarrow> 'a prog" where
  "of_sum r w = (r, w)"

definition read_db :: "(state_db \<Rightarrow> 'a) \<Rightarrow> 'a prog" where
  "read_db f w = (Inr (f (wdb w)), w)"

definition write_db :: "(state_db \<Rightarrow> state_db) \<Rightarrow> unit prog" where
  "write_db f w = (Inr (), w\<lparr>wdb := f (wdb w)\<rparr>)"

definition update_db :: "(state_db \<Rightarrow> exn + state_db) \<Rightarrow> unit prog" where
  "update_db f w =
     (case f (wdb w) of Inl e \<Rightarrow> (Inl e, w) | Inr db' \<Rightarrow> (Inr (), w\<lparr>wdb := db'\<rparr>))"

text \<open>A call is recorded whatever the collaborator answers.\<close>

definition call :: "call \<Rightarrow> (call list \<Rightarrow> exn + 'a) \<Rightarrow> 'a prog" where
  "call c f w = (f (hist w), w\<lparr>hist := hist w @ [c]\<rparr>)"

fun for_each :: "('a \<Rightarrow> unit prog) \<Rightarrow> 'a list \<Rightarrow> unit prog" where
  "for_each f [] = ret ()"
| "for_each f (x # xs) = bind (f x) (\<lambda>_. for_each f xs)"

definition now :: "env \<Rightarrow> string prog" where
  "now E = call C_Now (\<lambda>h. Inr (e_now E h))"

definition new_correlation_id :: "env \<Rightarrow> string prog" where
  "new_correlation_id E = call C_New_Id (\<lambda>h. Inr (e_new_id E h))"

section \<open>Equations and inversion\<close>

lemma ret_iff [prog_simps]: "ret x w = (r, w') \<longleftrightarrow> r = Inr x \<and> w' = w"
  by (auto simp: ret_def)

lemma throw_iff [prog_simps]: "throw e w = (r, w') \<longleftrightarrow> r = Inl e \<and> w' = w"
  by (auto simp: throw_def)

lemma bind_Inr_iff [prog_simps]:
  "bind m f w = (Inr y, w') \<longleftrightarrow> (\<exists>x w1. m w = (Inr x, w1) \<and> f x w1 = (Inr y, w'))"
  by (auto simp: bind_def split: prod.splits sum.splits)

lemma bind_Inl_iff [prog_simps]:
  "bind m f w = (Inl e, w') \<longleftrightarrow>
     m w = (Inl e, w') \<or> (\<exists>x w1. m w = (Inr x, w1) \<and> f x w1 = (Inl e, w'))"
  by (auto simp: bind_def split: prod.splits sum.splits)

lemma try_except_Inr_iff [prog_simps]:
  "try_except m c h w = (Inr y, w') \<longleftrightarrow>
     m w = (Inr y, w') \<or> (\<exists>e w1. m w = (Inl e, w1) \<and> c e \<and> h e w1 = (Inr y, w'))"
  by (auto simp: try_except_def split: prod.splits sum.splits)

lemma try_except_Inl_iff [prog_simps]:
  "try_except m c h w = (Inl e', w') \<longleftrightarrow>
     (\<exists>e w1. m w = (Inl e, w1) \<and>
        (if c e then h e w1 = (Inl e', w') else e' = e \<and> w' = w1))"
  by (auto simp: try_except_def split: prod.splits sum.splits)

lemma of_sum_iff [prog_simps]: "of_sum s w = (r, w') \<longleftrightarrow> r = s \<and> w' = w"
  by (auto simp: of_sum_def)

lemma read_db_iff [prog_simps]: "read_db f w = (r, w') \<longleftrightarrow> r = Inr (f (wdb w)) \<and> w' = w"
  by (auto simp: read_db_def)

lemma write_db_iff [prog_simps]:
  "write_db f w = (r, w') \<longleftrightarrow> r = Inr () \<and> w' = w\<lparr>wdb := f (wdb w)\<rparr>"
  by (auto simp: write_db_def)

lemma call_iff [prog_simps]:
  "call c f w = (r, w') \<longleftrightarrow> r = f (hist w) \<and> w' = w\<lparr>hist := hist w @ [c]\<rparr>"
  by (auto simp: call_def)

lemma update_db_Inr_iff [prog_simps]:
  "update_db f w = (Inr u, w') \<longleftrightarrow> (\<exists>db'. f (wdb w) = Inr db' \<and> w' = w\<lparr>wdb := db'\<rparr>)"
  by (auto simp: update_db_def split: sum.splits)

lemma update_db_Inl_iff [prog_simps]:
  "update_db f w = (Inl e, w') \<longleftrightarrow> f (wdb w) = Inl e \<and> w' = w"
  by (auto simp: update_db_def split: sum.splits)

lemma bind_ret [simp]: "bind (ret x) f = f x"
  by (rule ext) (simp add: bind_def ret_def)

lemma bind_throw [simp]: "bind (throw e) f = throw e"
  by (rule ext) (simp add: bind_def throw_def)

lemma bind_assoc: "bind (bind m f) g = bind m (\<lambda>x. bind (f x) g)"
  by (rule ext) (auto simp: bind_def split: prod.splits sum.splits)

lemma bind_ret_right [simp]: "bind m ret = m"
  by (rule ext) (auto simp: bind_def ret_def split: prod.splits sum.splits)

lemma bind_of_sum_Inr [simp]: "bind (of_sum (Inr x)) f = f x"
  by (rule ext) (simp add: bind_def of_sum_def)

lemma bind_of_sum_Inl [simp]: "bind (of_sum (Inl e)) f = throw e"
  by (rule ext) (simp add: bind_def of_sum_def throw_def)

text \<open>Running a program on a concrete world, for evaluation.\<close>

lemmas prog_run = ret_def throw_def bind_def try_except_def of_sum_def read_db_def write_db_def
  update_db_def call_def now_def new_correlation_id_def

section \<open>Frames\<close>

definition keeps :: "(world \<Rightarrow> world \<Rightarrow> bool) \<Rightarrow> 'a prog \<Rightarrow> bool" where
  "keeps R m \<longleftrightarrow> (\<forall>w. R w (snd (m w)))"

lemma keepsD: "keeps R m \<Longrightarrow> m w = (r, w') \<Longrightarrow> R w w'"
  by (metis keeps_def snd_conv)

lemma keepsI: "(\<And>w r w'. m w = (r, w') \<Longrightarrow> R w w') \<Longrightarrow> keeps R m"
  unfolding keeps_def by (metis prod.collapse)

locale effect_frame =
  fixes R :: "world \<Rightarrow> world \<Rightarrow> bool"
  assumes frame_refl: "R w w"
    and frame_trans: "R w1 w2 \<Longrightarrow> R w2 w3 \<Longrightarrow> R w1 w3"
begin

lemma keeps_ret: "keeps R (ret x)"
  by (simp add: keeps_def ret_def frame_refl)

lemma keeps_throw: "keeps R (throw e)"
  by (simp add: keeps_def throw_def frame_refl)

lemma keeps_of_sum: "keeps R (of_sum s)"
  by (simp add: keeps_def of_sum_def frame_refl)

lemma keeps_read_db: "keeps R (read_db f)"
  by (simp add: keeps_def read_db_def frame_refl)

lemma keeps_bind:
  assumes "keeps R m" and "\<And>x. keeps R (f x)"
  shows "keeps R (bind m f)"
  using assms
  by (auto simp: keeps_def bind_def split: prod.splits sum.splits intro: frame_trans)
    (metis frame_trans snd_conv)+

lemma keeps_try_except:
  assumes "keeps R m" and "\<And>e. c e \<Longrightarrow> keeps R (h e)"
  shows "keeps R (try_except m c h)"
proof (rule keepsI)
  fix w r w'
  assume t: "try_except m c h w = (r, w')"
  obtain r1 w1 where m: "m w = (r1, w1)" by (cases "m w")
  have R1: "R w w1" using assms(1) m by (rule keepsD)
  show "R w w'"
  proof (cases r1)
    case (Inr x)
    with t m R1 show ?thesis by (simp add: try_except_def)
  next
    case (Inl e)
    show ?thesis
    proof (cases "c e")
      case True
      with t m Inl have "h e w1 = (r, w')" by (simp add: try_except_def)
      then have "R w1 w'" by (rule keepsD [OF assms(2) [OF True]])
      with R1 show ?thesis by (rule frame_trans)
    next
      case False
      with t m Inl R1 show ?thesis by (simp add: try_except_def)
    qed
  qed
qed

lemma keeps_for_each: "(\<And>x. keeps R (f x)) \<Longrightarrow> keeps R (for_each f xs)"
  by (induction xs) (auto intro: keeps_ret keeps_bind)

lemmas keeps_basic = keeps_ret keeps_throw keeps_of_sum keeps_read_db keeps_bind

end

text \<open>The frames the components use.\<close>

definition same_db :: "world \<Rightarrow> world \<Rightarrow> bool" where
  "same_db w w' \<longleftrightarrow> wdb w' = wdb w"

definition same_processed :: "world \<Rightarrow> world \<Rightarrow> bool" where
  "same_processed w w' \<longleftrightarrow> db_processed (wdb w') = db_processed (wdb w)"

definition same_usage :: "world \<Rightarrow> world \<Rightarrow> bool" where
  "same_usage w w' \<longleftrightarrow> db_llm_usage (wdb w') = db_llm_usage (wdb w)"

definition same_cursor :: "world \<Rightarrow> world \<Rightarrow> bool" where
  "same_cursor w w' \<longleftrightarrow> db_push_cursor (wdb w') = db_push_cursor (wdb w)"

definition processed_kept :: "world \<Rightarrow> world \<Rightarrow> bool" where
  "processed_kept w w' \<longleftrightarrow> (\<forall>j. has_processed (wdb w) j \<longrightarrow> has_processed (wdb w') j)"

definition audit_grows :: "world \<Rightarrow> world \<Rightarrow> bool" where
  "audit_grows w w' \<longleftrightarrow> prefix (db_audit_log (wdb w)) (db_audit_log (wdb w'))"

definition db_ok_kept :: "world \<Rightarrow> world \<Rightarrow> bool" where
  "db_ok_kept w w' \<longleftrightarrow> (db_ok (wdb w) \<longrightarrow> db_ok (wdb w'))"

text \<open>The history grows, and only by calls that satisfy \<open>P\<close>.\<close>

definition only_calls :: "(call \<Rightarrow> bool) \<Rightarrow> world \<Rightarrow> world \<Rightarrow> bool" where
  "only_calls P w w' \<longleftrightarrow> (\<exists>cs. hist w' = hist w @ cs \<and> (\<forall>c \<in> set cs. P c))"

lemmas frame_defs = same_db_def same_processed_def same_usage_def same_cursor_def
  processed_kept_def audit_grows_def db_ok_kept_def

lemma only_calls_refl: "only_calls P w w"
  by (simp add: only_calls_def)

lemma only_calls_trans: "only_calls P w1 w2 \<Longrightarrow> only_calls P w2 w3 \<Longrightarrow> only_calls P w1 w3"
  by (fastforce simp: only_calls_def)

interpretation same_db: effect_frame same_db
  by unfold_locales (simp_all add: frame_defs)

interpretation same_processed: effect_frame same_processed
  by unfold_locales (simp_all add: frame_defs)

interpretation same_usage: effect_frame same_usage
  by unfold_locales (simp_all add: frame_defs)

interpretation same_cursor: effect_frame same_cursor
  by unfold_locales (simp_all add: frame_defs)

interpretation processed_kept: effect_frame processed_kept
  by unfold_locales (simp_all add: frame_defs)

interpretation audit_grows: effect_frame audit_grows
  by unfold_locales (auto simp: frame_defs)

interpretation db_ok_kept: effect_frame db_ok_kept
  by unfold_locales (simp_all add: frame_defs)

interpretation only_calls: effect_frame "only_calls P" for P
  by unfold_locales (auto intro: only_calls_refl only_calls_trans)

text \<open>Calls touch no database table; database writes touch no call.\<close>

lemma keeps_call_db [intro]: "keeps same_db (call c f)"
  by (simp add: keeps_def call_def same_db_def)

lemma keeps_call_only [intro]: "P c \<Longrightarrow> keeps (only_calls P) (call c f)"
  by (auto simp: keeps_def call_def only_calls_def)

lemma keeps_write_db_only [intro]: "keeps (only_calls P) (write_db f)"
  by (simp add: keeps_def write_db_def only_calls_def)

lemma keeps_update_db_only [intro]: "keeps (only_calls P) (update_db f)"
  by (auto simp: keeps_def update_db_def only_calls_def split: sum.splits)

text \<open>A program that leaves the database alone keeps every database frame.\<close>

lemma same_db_weaken:
  assumes "keeps same_db m"
  shows "keeps same_processed m" and "keeps same_usage m" and "keeps same_cursor m"
    and "keeps processed_kept m" and "keeps audit_grows m" and "keeps db_ok_kept m"
  using assms by (simp_all add: keeps_def frame_defs)

end
