(* ===== verification/Rule_Engine.thy ===== *)
theory Rule_Engine
  imports Spork_Effects
begin

text \<open>
  \<open>core/rules/engine.py\<close>: the Tier 1 rule evaluator. \<open>classify\<close> is the closure of
  \<open>evaluate()\<close> with its one-element cache made explicit; \<open>evaluate_from\<close> is the loop over
  the rules with the cache as its state. The reference is \<open>spec_evaluate\<close>: the first enabled
  rule whose condition holds of the message and its category, written with \<open>find\<close>.
\<close>

section \<open>Evaluation\<close>

type_synonym class_cache = "classification_result option"

definition classify :: "classifier option \<Rightarrow> message \<Rightarrow> class_cache \<Rightarrow> classification_result prog" where
  "classify classifier msg cache =
     (case cache of
        Some r \<Rightarrow> ret r
      | None \<Rightarrow>
          (case classifier of
             None \<Rightarrow> throw (RuntimeError ''a rule condition requires a local classifier'')
           | Some c \<Rightarrow> call (C_Classify msg) (\<lambda>_. c msg)))"

definition condition_matches ::
  "condition \<Rightarrow> message \<Rightarrow> classifier option \<Rightarrow> class_cache \<Rightarrow> (bool \<times> class_cache) prog" where
  "condition_matches c msg classifier cache =
     (if c_always c then ret (True, cache)
      else if (case c_from_domain_in c of None \<Rightarrow> False | Some ds \<Rightarrow> from_domain msg \<notin> set ds)
      then ret (False, cache)
      else if (case c_from_in c of None \<Rightarrow> False | Some as \<Rightarrow> from_address msg \<notin> set as)
      then ret (False, cache)
      else (case c_local_classifier_category_in c of
              Some cats \<Rightarrow>
                bind (classify classifier msg cache)
                  (\<lambda>r. ret (cr_category r \<in> set cats, Some r))
            | None \<Rightarrow> ret (c_from_domain_in c \<noteq> None \<or> c_from_in c \<noteq> None, cache)))"

fun evaluate_from ::
  "message \<Rightarrow> action \<Rightarrow> classifier option \<Rightarrow> class_cache \<Rightarrow> rule list \<Rightarrow> rule_verdict prog" where
  "evaluate_from msg dflt classifier cache [] =
     ret \<lparr>rv_action = dflt, rv_matched_rule_id = None\<rparr>"
| "evaluate_from msg dflt classifier cache (r # rs) =
     (if \<not> r_enabled r then evaluate_from msg dflt classifier cache rs
      else bind (condition_matches (r_when r) msg classifier cache)
             (\<lambda>(hit, cache').
                if hit then ret \<lparr>rv_action = r_action r, rv_matched_rule_id = Some (r_id r)\<rparr>
                else evaluate_from msg dflt classifier cache' rs))"

definition evaluate ::
  "message \<Rightarrow> rule list \<Rightarrow> action \<Rightarrow> classifier option \<Rightarrow> rule_verdict prog" where
  "evaluate msg rules default_unmatched_action classifier =
     evaluate_from msg default_unmatched_action classifier None rules"

section \<open>Reference: first enabled match\<close>

definition category_of :: "classifier option \<Rightarrow> message \<Rightarrow> string option" where
  "category_of classifier msg =
     (case classifier of
        None \<Rightarrow> None
      | Some c \<Rightarrow> (case c msg of Inl _ \<Rightarrow> None | Inr r \<Rightarrow> Some (cr_category r)))"

definition field_ok :: "'a list option \<Rightarrow> 'a option \<Rightarrow> bool" where
  "field_ok allowed x =
     (case allowed of None \<Rightarrow> True | Some xs \<Rightarrow> (case x of None \<Rightarrow> False | Some y \<Rightarrow> y \<in> set xs))"

definition spec_matches :: "condition \<Rightarrow> message \<Rightarrow> string option \<Rightarrow> bool" where
  "spec_matches c msg cat \<longleftrightarrow>
     c_always c \<or>
     (field_ok (c_from_domain_in c) (Some (from_domain msg)) \<and>
      field_ok (c_from_in c) (Some (from_address msg)) \<and>
      field_ok (c_local_classifier_category_in c) cat \<and>
      (c_from_domain_in c \<noteq> None \<or> c_from_in c \<noteq> None \<or>
       c_local_classifier_category_in c \<noteq> None))"

definition rule_hits :: "message \<Rightarrow> string option \<Rightarrow> rule \<Rightarrow> bool" where
  "rule_hits msg cat r \<longleftrightarrow> r_enabled r \<and> spec_matches (r_when r) msg cat"

definition spec_evaluate :: "message \<Rightarrow> rule list \<Rightarrow> action \<Rightarrow> string option \<Rightarrow> rule_verdict" where
  "spec_evaluate msg rules dflt cat =
     (case find (rule_hits msg cat) rules of
        Some r \<Rightarrow> \<lparr>rv_action = r_action r, rv_matched_rule_id = Some (r_id r)\<rparr>
      | None \<Rightarrow> \<lparr>rv_action = dflt, rv_matched_rule_id = None\<rparr>)"

text \<open>A cache is sound when it holds what the classifier answers for this message.\<close>

definition cache_ok :: "classifier option \<Rightarrow> message \<Rightarrow> class_cache \<Rightarrow> bool" where
  "cache_ok classifier msg cache \<longleftrightarrow>
     (\<forall>r. cache = Some r \<longrightarrow> (\<exists>c. classifier = Some c \<and> c msg = Inr r))"

section \<open>Lemmas\<close>

lemma classify_Inr:
  assumes "classify classifier msg cache w = (Inr r, w')" and "cache_ok classifier msg cache"
  shows "category_of classifier msg = Some (cr_category r)"
    and "cache_ok classifier msg (Some r)"
    and "hist w' = hist w @ (if cache = None then [C_Classify msg] else [])"
    and "wdb w' = wdb w"
  using assms
  by (auto simp: classify_def cache_ok_def category_of_def prog_simps
      split: option.splits sum.splits)

lemma condition_matches_Inr:
  assumes "condition_matches c msg classifier cache w = (Inr (hit, cache'), w')"
    and "cache_ok classifier msg cache"
  shows "hit = spec_matches c msg (category_of classifier msg)"
    and "cache_ok classifier msg cache'"
    and "hist w' = hist w @ (if cache = None \<and> cache' \<noteq> None then [C_Classify msg] else [])"
    and "cache \<noteq> None \<Longrightarrow> cache' \<noteq> None"
    and "wdb w' = wdb w"
proof -
  note [simp] = condition_matches_def spec_matches_def field_ok_def prog_simps
  show "hit = spec_matches c msg (category_of classifier msg)"
    using assms classify_Inr(1) [OF _ assms(2)]
    by (fastforce split: if_splits option.splits)
  show "cache_ok classifier msg cache'"
    using assms classify_Inr(2) [OF _ assms(2)] by (auto split: if_splits option.splits)
  show "hist w' = hist w @ (if cache = None \<and> cache' \<noteq> None then [C_Classify msg] else [])"
    using assms classify_Inr(3) [OF _ assms(2)] by (auto split: if_splits option.splits)
  show "cache \<noteq> None \<Longrightarrow> cache' \<noteq> None"
    using assms by (auto split: if_splits option.splits)
  show "wdb w' = wdb w"
    using assms classify_Inr(4) [OF _ assms(2)] by (auto split: if_splits option.splits)
qed

lemma evaluate_from_Inr:
  assumes "evaluate_from msg dflt classifier cache rules w = (Inr v, w')"
    and "cache_ok classifier msg cache"
  shows "v = spec_evaluate msg rules dflt (category_of classifier msg) \<and> wdb w' = wdb w \<and>
    (hist w' = hist w \<or> (cache = None \<and> hist w' = hist w @ [C_Classify msg]))"
  using assms
proof (induction rules arbitrary: cache w)
  case Nil
  then show ?case by (simp add: prog_simps spec_evaluate_def)
next
  case (Cons r rs)
  show ?case
  proof (cases "r_enabled r")
    case False
    with Cons.prems Cons.IH [of cache w] show ?thesis
      by (simp add: spec_evaluate_def rule_hits_def)
  next
    case True
    then obtain hit cache' w1
      where cm: "condition_matches (r_when r) msg classifier cache w = (Inr (hit, cache'), w1)"
        and rest: "(if hit then ret \<lparr>rv_action = r_action r, rv_matched_rule_id = Some (r_id r)\<rparr>
                    else evaluate_from msg dflt classifier cache' rs) w1 = (Inr v, w')"
      using Cons.prems(1) by (auto simp: prog_simps)
    note c = condition_matches_Inr [OF cm Cons.prems(2)]
    show ?thesis
    proof (cases hit)
      case True
      with rest c(1,3,5) \<open>r_enabled r\<close> show ?thesis
        by (auto simp: prog_simps spec_evaluate_def rule_hits_def)
    next
      case False
      with rest have "evaluate_from msg dflt classifier cache' rs w1 = (Inr v, w')" by simp
      note ih = Cons.IH [OF this c(2)]
      from False c(1) have miss: "\<not> rule_hits msg (category_of classifier msg) r"
        by (simp add: rule_hits_def)
      with ih c(3,4,5) show ?thesis
        by (cases cache) (auto simp: spec_evaluate_def split: if_splits)
    qed
  qed
qed

lemma evaluate_Inr:
  assumes "evaluate msg rules dflt classifier w = (Inr v, w')"
  shows "v = spec_evaluate msg rules dflt (category_of classifier msg)" and "wdb w' = wdb w"
    and "hist w' = hist w \<or> hist w' = hist w @ [C_Classify msg]"
  using evaluate_from_Inr [of msg dflt classifier None rules w v w'] assms
  by (auto simp: evaluate_def cache_ok_def)

lemma evaluate_from_same_db: "keeps same_db (evaluate_from msg dflt classifier cache rules)"
proof (induction rules arbitrary: cache)
  case Nil
  show ?case by (simp add: same_db.keeps_ret)
next
  case (Cons r rs)
  have "keeps same_db (condition_matches (r_when r) msg classifier cache)"
    by (auto simp: condition_matches_def classify_def split: option.splits
        intro!: same_db.keeps_ret same_db.keeps_bind same_db.keeps_throw)
  with Cons show ?case
    by (auto intro!: same_db.keeps_bind same_db.keeps_ret split: prod.splits)
qed

lemma evaluate_same_db: "keeps same_db (evaluate msg rules dflt classifier)"
  by (simp add: evaluate_def evaluate_from_same_db)

lemma evaluate_from_only_classify:
  "P (C_Classify msg) \<Longrightarrow> keeps (only_calls P) (evaluate_from msg dflt classifier cache rules)"
proof (induction rules arbitrary: cache)
  case Nil
  show ?case by (simp add: only_calls.keeps_ret)
next
  case (Cons r rs)
  have "keeps (only_calls P) (condition_matches (r_when r) msg classifier cache)"
    using Cons.prems
    by (auto simp: condition_matches_def classify_def split: option.splits
        intro!: only_calls.keeps_ret only_calls.keeps_bind only_calls.keeps_throw)
  with Cons show ?case
    by (auto intro!: only_calls.keeps_bind only_calls.keeps_ret split: prod.splits)
qed

lemma evaluate_only_classify:
  "P (C_Classify msg) \<Longrightarrow> keeps (only_calls P) (evaluate msg rules dflt classifier)"
  by (simp add: evaluate_def evaluate_from_only_classify)

text \<open>Which exceptions: only the missing classifier, or the classifier's own.\<close>

lemma evaluate_from_Inl:
  assumes "evaluate_from msg dflt classifier cache rules w = (Inl e, w')"
  shows "(\<exists>r \<in> set rules. r_enabled r \<and> c_local_classifier_category_in (r_when r) \<noteq> None) \<and>
    (case classifier of
       None \<Rightarrow> e = RuntimeError ''a rule condition requires a local classifier''
     | Some c \<Rightarrow> c msg = Inl e)"
  using assms
proof (induction rules arbitrary: cache w)
  case Nil
  then show ?case by (simp add: prog_simps)
next
  case (Cons r rs)
  show ?case
  proof (cases "r_enabled r")
    case False
    with Cons show ?thesis by simp
  next
    case True
    consider (here) "condition_matches (r_when r) msg classifier cache w = (Inl e, w')"
      | (later) cache' w1 where "evaluate_from msg dflt classifier cache' rs w1 = (Inl e, w')"
      using Cons.prems True by (auto simp: prog_simps split: if_splits prod.splits)
    then show ?thesis
    proof cases
      case here
      with True show ?thesis
        by (auto simp: condition_matches_def classify_def prog_simps
            split: if_splits option.splits)
    next
      case later
      from Cons.IH [OF later] show ?thesis by auto
    qed
  qed
qed

section \<open>Properties\<close>

text \<open>C16: when the evaluator returns, its verdict is the reference one (the first enabled rule
  in file order whose condition holds, else the default action with no rule id), the database
  is untouched, and the local classifier was called at most once.\<close>

theorem evaluate_first_match:
  assumes "evaluate msg rules dflt classifier w = (Inr v, w')"
  shows "v = spec_evaluate msg rules dflt (category_of classifier msg) \<and> wdb w' = wdb w \<and>
    (hist w' = hist w \<or> hist w' = hist w @ [C_Classify msg])"
  using evaluate_Inr [OF assms] by blast

text \<open>Rules that never mention the local classifier never call it and never fail,
  whichever classifier is configured; and the evaluator fails only because a rule needs a
  classifier that is absent or that itself raises.\<close>

theorem evaluate_classifier_lazy:
  "(\<forall>r \<in> set rules. r_enabled r \<longrightarrow> c_local_classifier_category_in (r_when r) = None) \<longrightarrow>
     evaluate msg rules dflt classifier w =
       (Inr (spec_evaluate msg rules dflt (category_of classifier msg)), w)"
proof
  assume noclass: "\<forall>r \<in> set rules. r_enabled r \<longrightarrow> c_local_classifier_category_in (r_when r) = None"
  obtain res w' where ev: "evaluate msg rules dflt classifier w = (res, w')"
    by (cases "evaluate msg rules dflt classifier w")
  have "\<forall>r \<in> set rules. r_enabled r \<longrightarrow> c_local_classifier_category_in (r_when r) = None \<Longrightarrow>
      snd (evaluate_from msg dflt classifier cache rules w) = w" for cache
  proof (induction rules arbitrary: cache)
    case Nil
    show ?case by (simp add: ret_def)
  next
    case (Cons r rs)
    then show ?case
      by (auto simp: condition_matches_def bind_def ret_def split: option.splits)
  qed
  with noclass ev have "w' = w" by (metis evaluate_def snd_conv)
  moreover have "\<exists>v. res = Inr v"
  proof (cases res)
    case (Inl e)
    with ev noclass evaluate_from_Inl [of msg dflt classifier None rules w e w'] show ?thesis
      by (auto simp: evaluate_def)
  qed simp
  ultimately show "evaluate msg rules dflt classifier w =
       (Inr (spec_evaluate msg rules dflt (category_of classifier msg)), w)"
    using ev evaluate_Inr(1) [of msg rules dflt classifier w] by auto
qed

section \<open>Witnesses\<close>

definition ex_message :: message where
  "ex_message =
     \<lparr>message_id = ''m1'', thread_id = ''t1'', from_address = ''a@shop.example'',
      from_domain = ''shop.example'', subject = ''hello'', body_text = ''body'',
      headers = [], mailbox_ids = [''inbox'']\<rparr>"

definition no_condition :: condition where
  "no_condition = \<lparr>c_always = False, c_from_domain_in = None, c_from_in = None,
     c_local_classifier_category_in = None\<rparr>"

definition ex_rules :: "rule list" where
  "ex_rules =
     [\<lparr>r_id = ''off'', r_description = '''', r_when = no_condition\<lparr>c_always := True\<rparr>,
       r_action = action_of_type Ignore, r_enabled = False\<rparr>,
      \<lparr>r_id = ''cat'', r_description = '''',
       r_when = no_condition\<lparr>c_local_classifier_category_in := Some [''urgent'']\<rparr>,
       r_action = action_of_type Ignore, r_enabled = True\<rparr>,
      \<lparr>r_id = ''shop'', r_description = '''',
       r_when = no_condition\<lparr>c_from_domain_in := Some [''shop.example'']\<rparr>,
       r_action = (action_of_type Move)\<lparr>a_mailbox := Some ''Shop''\<rparr>, r_enabled = True\<rparr>]"

definition ex_classifier :: classifier where
  "ex_classifier m = Inr \<lparr>cr_category = ''other'', cr_scores = []\<rparr>"

definition ex_world :: world where
  "ex_world = \<lparr>wdb = empty_db, hist = []\<rparr>"

lemmas ex_rule_defs = ex_message_def no_condition_def ex_rules_def ex_classifier_def
  ex_world_def action_of_type_def

lemma ex_evaluate:
  "evaluate ex_message ex_rules (action_of_type Escalate) (Some ex_classifier) ex_world =
     (Inr \<lparr>rv_action = (action_of_type Move)\<lparr>a_mailbox := Some ''Shop''\<rparr>,
           rv_matched_rule_id = Some ''shop''\<rparr>,
      ex_world\<lparr>hist := [C_Classify ex_message]\<rparr>)"
  by (simp add: evaluate_def condition_matches_def classify_def ex_rule_defs prog_run)

theorem evaluate_first_match_witness:
  "spec_evaluate ex_message ex_rules (action_of_type Escalate)
     (category_of (Some ex_classifier) ex_message) =
   \<lparr>rv_action = (action_of_type Move)\<lparr>a_mailbox := Some ''Shop''\<rparr>,
    rv_matched_rule_id = Some ''shop''\<rparr>"
  using evaluate_first_match [OF ex_evaluate] by simp

theorem evaluate_classifier_lazy_witness:
  "evaluate ex_message (drop 2 ex_rules) (action_of_type Escalate) None ex_world =
     (Inr (spec_evaluate ex_message (drop 2 ex_rules) (action_of_type Escalate)
        (category_of None ex_message)), ex_world)"
  using evaluate_classifier_lazy
    [of "drop 2 ex_rules" ex_message "action_of_type Escalate" None ex_world]
  by (simp add: ex_rules_def no_condition_def)

end
