(* ===== verification/Pipeline_Core.thy ===== *)
theory Pipeline_Core
  imports Spork_Effects
begin

text \<open>
  \<open>core/pipeline/core.py\<close>, \<open>observer.py\<close> and \<open>tracing.py\<close>: the generic pipeline. A stage
  is its class name, its kind (Filter or Augment) and its function; a pipeline is its stages,
  an optional selector and its routes, themselves pipelines. \<open>run\<close> is the recursion of
  \<open>Pipeline.run()\<close>. Also \<open>core/actions/executor.py\<close>, the terminal step's executor.

  Lemmas: the frame of a pipeline run from the frames of its stages (in the locale
  \<open>effect_frame\<close>), and the simulation between a traced pipeline and the bare one, stated for
  any erasure of trace records that the stages cannot observe.
\<close>

section \<open>Payloads, stages, pipelines\<close>

record 'm payload =
  p_text :: string
  p_meta :: 'm

datatype stage_kind = Filter | Augment

datatype (dead 'm) stage =
  Stage (stage_name: string) (stage_kind: stage_kind) (stage_fun: "'m payload \<Rightarrow> 'm payload prog")

datatype (dead 'm) selector =
  Selector (selector_name: string) (selector_fun: "'m payload \<Rightarrow> (string \<times> 'm payload) prog")

datatype (dead 'm) pipeline =
  Pipeline "'m stage list" "'m selector option" "(string \<times> 'm pipeline) list"

fun run_stages :: "'m stage list \<Rightarrow> 'm payload \<Rightarrow> 'm payload prog" where
  "run_stages [] p = ret p"
| "run_stages (s # ss) p = bind (stage_fun s p) (run_stages ss)"

primrec run :: "'m pipeline \<Rightarrow> 'm payload \<Rightarrow> 'm payload prog" where
  "run (Pipeline stages sel routes) =
     (\<lambda>p. bind (run_stages stages p)
        (\<lambda>p'. case sel of
           None \<Rightarrow> ret p'
         | Some s \<Rightarrow> bind (selector_fun s p')
             (\<lambda>(branch, p''). case map_of (map (map_prod id run) routes) branch of
                None \<Rightarrow> throw (UnknownBranchError branch)
              | Some next \<Rightarrow> next p'')))"

definition empty_pipeline :: "'m pipeline" where
  "empty_pipeline = Pipeline [] None []"

lemma map_of_map_prod_id: "map_of (map (map_prod id f) xs) k = map_option f (map_of xs k)"
  by (induction xs) auto

lemma run_eq:
  "run (Pipeline stages sel routes) p =
     bind (run_stages stages p)
        (\<lambda>p'. case sel of
           None \<Rightarrow> ret p'
         | Some s \<Rightarrow> bind (selector_fun s p')
             (\<lambda>(branch, p''). case map_of routes branch of
                None \<Rightarrow> throw (UnknownBranchError branch)
              | Some next \<Rightarrow> run next p''))"
  by (simp add: map_of_map_prod_id option.case_distrib [where h = "\<lambda>f. f _"]
      option.map_comp case_map_option comp_def cong: option.case_cong)

declare run.simps [simp del]

lemma run_empty [simp]: "run empty_pipeline p = ret p"
  by (simp add: empty_pipeline_def run_eq)

lemma run_stages_append:
  "run_stages (xs @ ys) p = bind (run_stages xs p) (run_stages ys)"
proof (induction xs arbitrary: p)
  case Nil
  show ?case by simp
next
  case (Cons x xs)
  then have "run_stages (xs @ ys) = (\<lambda>p. bind (run_stages xs p) (run_stages ys))" by blast
  then show ?case by (simp add: bind_assoc)
qed

section \<open>Observer (observer.py)\<close>

fun urgency_name :: "alert_urgency \<Rightarrow> string" where
  "urgency_name Low = ''low''"
| "urgency_name Normal = ''normal''"
| "urgency_name Critical = ''critical''"

definition trace :: "string \<Rightarrow> string \<Rightarrow> (string \<times> string) list \<Rightarrow> unit prog" where
  "trace cid event fs = call (C_Trace cid event fs) (\<lambda>_. Inr ())"

definition notify ::
  "env \<Rightarrow> string \<Rightarrow> string \<Rightarrow> string option \<Rightarrow> alert_urgency \<Rightarrow> unit prog" where
  "notify E title body url urgency =
     call (C_Notify title body url urgency) (\<lambda>h. e_notify E h title body url urgency)"

definition alert :: "env \<Rightarrow> string \<Rightarrow> string \<Rightarrow> string \<Rightarrow> alert_urgency \<Rightarrow> unit prog" where
  "alert E cid title body urgency =
     bind (trace cid title [(''body'', body), (''urgency'', urgency_name urgency)])
       (\<lambda>_. notify E title body None urgency)"

section \<open>Tracing wrappers (tracing.py)\<close>

text \<open>
  \<open>cid_of\<close> reads the metadata's correlation id; the placeholder \<open>"-"\<close> stands for an unset or
  empty one. The monotonic clock's difference is \<open>e_duration\<close>.
\<close>

definition correlation_id_or_dash :: "string option \<Rightarrow> string" where
  "correlation_id_or_dash c =
     (case c of None \<Rightarrow> ''-'' | Some s \<Rightarrow> if s = '''' then ''-'' else s)"

fun kind_name :: "stage_kind \<Rightarrow> string" where
  "kind_name Filter = ''filter''"
| "kind_name Augment = ''augment''"

definition trace_timed ::
  "env \<Rightarrow> string \<Rightarrow> string \<Rightarrow> string \<times> string \<Rightarrow> unit prog" where
  "trace_timed E cid event field =
     (\<lambda>w. trace cid event [field, (''duration_ms'', e_duration E (hist w))] w)"

definition tracing_stage :: "env \<Rightarrow> ('m \<Rightarrow> string option) \<Rightarrow> 'm stage \<Rightarrow> 'm stage" where
  "tracing_stage E cid_of s =
     Stage ''TracingStage'' Filter
       (\<lambda>p. bind (stage_fun s p)
          (\<lambda>result. bind (trace_timed E (correlation_id_or_dash (cid_of (p_meta p)))
                            (stage_name s @ '' ran'') (''kind'', kind_name (stage_kind s)))
             (\<lambda>_. ret result)))"

definition tracing_selector :: "env \<Rightarrow> ('m \<Rightarrow> string option) \<Rightarrow> 'm selector \<Rightarrow> 'm selector" where
  "tracing_selector E cid_of s =
     Selector ''TracingSelector''
       (\<lambda>p. bind (selector_fun s p)
          (\<lambda>(branch, result).
             bind (trace_timed E (correlation_id_or_dash (cid_of (p_meta p)))
                     (selector_name s @ '' selected'') (''branch'', branch))
               (\<lambda>_. ret (branch, result))))"

definition wrap_stages :: "env \<Rightarrow> ('m \<Rightarrow> string option) \<Rightarrow> 'm stage list \<Rightarrow> 'm stage list" where
  "wrap_stages E cid_of stages = map (tracing_stage E cid_of) stages"

definition wrap_selector :: "env \<Rightarrow> ('m \<Rightarrow> string option) \<Rightarrow> 'm selector \<Rightarrow> 'm selector" where
  "wrap_selector E cid_of s = tracing_selector E cid_of s"

section \<open>ActionExecutor (actions/executor.py)\<close>

text \<open>
  The mailbox backend's write side is the provider's (\<open>Live\<close>) or, under \<open>sporkd --observe\<close>,
  the no-op appliers of \<open>daemon/loop.py\<close> (\<open>Observe\<close>).
\<close>

datatype backend = Live | Observe

definition apply_action :: "env \<Rightarrow> backend \<Rightarrow> message \<Rightarrow> action \<Rightarrow> unit prog" where
  "apply_action E backend msg act =
     (case backend of
        Live \<Rightarrow> call (C_Apply msg act) (\<lambda>h. e_apply E h msg act)
      | Observe \<Rightarrow> ret ())"

definition execute :: "env \<Rightarrow> backend \<Rightarrow> message \<Rightarrow> action \<Rightarrow> unit prog" where
  "execute E backend msg act =
     (if a_type act = Escalate then throw (ActionExecutionError Escalate_Not_Terminal act)
      else if a_type act = Archive_Receipt
      then throw (ActionExecutionError Receipt_Not_Terminal act)
      else if (a_type act = Move \<or> a_type act = Tag) \<and> a_mailbox act = None
      then throw (ActionExecutionError Mailbox_Required act)
      else if a_type act = Ignore then ret ()
      else apply_action E backend msg act)"

definition executable_action :: "action \<Rightarrow> bool" where
  "executable_action act \<longleftrightarrow>
     a_type act = Ignore \<or> ((a_type act = Move \<or> a_type act = Tag) \<and> a_mailbox act \<noteq> None)"

lemma execute_same_db [intro]: "keeps same_db (execute E backend msg act)"
  by (auto simp: execute_def apply_action_def intro: same_db.keeps_basic split: backend.split)

lemma execute_Inr_iff:
  "execute E backend msg act w = (Inr u, w') \<longleftrightarrow>
     executable_action act \<and>
     (if a_type act = Ignore \<or> backend = Observe then w' = w
      else e_apply E (hist w) msg act = Inr () \<and> w' = w\<lparr>hist := hist w @ [C_Apply msg act]\<rparr>)"
  by (cases "a_type act"; cases backend)
    (auto simp: execute_def apply_action_def executable_action_def prog_simps)

lemma execute_only:
  "P (C_Apply msg act) \<or> backend = Observe \<Longrightarrow> keeps (only_calls P) (execute E backend msg act)"
  by (auto simp: execute_def apply_action_def
      intro!: only_calls.keeps_ret only_calls.keeps_throw keeps_call_only split: backend.split)

lemma trace_same_db [intro]: "keeps same_db (trace cid ev fs)"
  by (simp add: trace_def keeps_call_db)

lemma trace_timed_same_db [intro]: "keeps same_db (trace_timed E cid ev f)"
  by (simp add: trace_timed_def trace_def keeps_def call_def same_db_def)

lemma notify_same_db [intro]: "keeps same_db (notify E t b u ur)"
  by (simp add: notify_def keeps_call_db)

lemma alert_same_db [intro]: "keeps same_db (alert E cid t b u)"
  by (auto simp: alert_def intro: same_db.keeps_bind)

lemma now_same_db [intro]: "keeps same_db (now E)"
  by (simp add: now_def keeps_call_db)

lemma new_id_same_db [intro]: "keeps same_db (new_correlation_id E)"
  by (simp add: new_correlation_id_def keeps_call_db)

lemma trace_only: "(\<And>c e f. P (C_Trace c e f)) \<Longrightarrow> keeps (only_calls P) (trace cid ev fs)"
  by (simp add: trace_def keeps_call_only)

lemma trace_timed_only:
  "(\<And>c e f. P (C_Trace c e f)) \<Longrightarrow> keeps (only_calls P) (trace_timed E cid ev fs)"
  by (auto simp: trace_timed_def trace_def keeps_def call_def only_calls_def)

lemma alert_only:
  "(\<And>c e f. P (C_Trace c e f)) \<Longrightarrow> (\<And>t b u ur. P (C_Notify t b u ur)) \<Longrightarrow>
   keeps (only_calls P) (alert E cid t b u)"
  by (auto simp: alert_def notify_def intro!: only_calls.keeps_bind trace_only keeps_call_only)

lemma trace_Inr_iff [prog_simps]:
  "trace cid ev fs w = (r, w') \<longleftrightarrow> r = Inr () \<and> w' = w\<lparr>hist := hist w @ [C_Trace cid ev fs]\<rparr>"
  by (simp add: trace_def prog_simps)

lemma trace_timed_iff [prog_simps]:
  "trace_timed E cid ev f w = (r, w') \<longleftrightarrow>
     r = Inr () \<and>
     w' = w\<lparr>hist := hist w @ [C_Trace cid ev [f, (''duration_ms'', e_duration E (hist w))]]\<rparr>"
  by (simp add: trace_timed_def prog_simps)

section \<open>Frames of a run\<close>

context effect_frame
begin

lemma keeps_run_stages:
  assumes "\<And>s p. s \<in> set ss \<Longrightarrow> keeps R (stage_fun s p)"
  shows "keeps R (run_stages ss p)"
  using assms by (induction ss arbitrary: p) (auto intro: keeps_ret keeps_bind)

lemma keeps_tracing_stage:
  assumes "\<And>p. keeps R (stage_fun s p)" and "\<And>c e f. keeps R (trace_timed E c e f)"
  shows "keeps R (stage_fun (tracing_stage E cid s) p)"
  using assms by (auto simp: tracing_stage_def intro!: keeps_bind keeps_ret)

lemma keeps_tracing_selector:
  assumes "\<And>p. keeps R (selector_fun s p)" and "\<And>c e f. keeps R (trace_timed E c e f)"
  shows "keeps R (selector_fun (tracing_selector E cid s) p)"
  using assms by (auto simp: tracing_selector_def intro!: keeps_bind keeps_ret split: prod.splits)

lemma keeps_wrapped_stages:
  assumes "\<And>s p. s \<in> set ss \<Longrightarrow> keeps R (stage_fun s p)"
    and "\<And>c e f. keeps R (trace_timed E c e f)"
  shows "keeps R (run_stages (wrap_stages E cid ss) p)"
  using assms by (auto simp: wrap_stages_def intro!: keeps_run_stages keeps_tracing_stage)

lemma keeps_run:
  assumes "\<And>p. keeps R (run_stages ss p)"
    and "\<And>s p. sel = Some s \<Longrightarrow> keeps R (selector_fun s p)"
    and "\<And>b q p. (b, q) \<in> set routes \<Longrightarrow> keeps R (run q p)"
  shows "keeps R (run (Pipeline ss sel routes) p)"
  unfolding run_eq
proof (rule keeps_bind [OF assms(1)])
  fix p'
  have "keeps R (case map_of routes b of None \<Rightarrow> throw (UnknownBranchError b)
      | Some next \<Rightarrow> run next q)" for b q
    using assms(3) [OF map_of_SomeD] by (auto intro: keeps_throw split: option.splits)
  then show "keeps R (case sel of None \<Rightarrow> ret p'
      | Some s \<Rightarrow> bind (selector_fun s p') (\<lambda>(branch, p'').
          case map_of routes branch of None \<Rightarrow> throw (UnknownBranchError branch)
          | Some next \<Rightarrow> run next p''))"
    using assms(2) by (auto intro!: keeps_ret keeps_bind split: option.split prod.split)
qed

end

section \<open>A traced pipeline simulates the bare one\<close>

text \<open>The same pipeline with every stage and selector wrapped.\<close>

primrec traced :: "env \<Rightarrow> ('m \<Rightarrow> string option) \<Rightarrow> 'm pipeline \<Rightarrow> 'm pipeline" where
  "traced E cid_of (Pipeline stages sel routes) =
     Pipeline (wrap_stages E cid_of stages) (map_option (wrap_selector E cid_of) sel)
       (map (map_prod id (traced E cid_of)) routes)"

fun is_trace :: "call \<Rightarrow> bool" where
  "is_trace (C_Trace _ _ _) = True"
| "is_trace _ = False"

definition untraced :: "world \<Rightarrow> world" where
  "untraced w = w\<lparr>hist := filter (\<lambda>c. \<not> is_trace c) (hist w)\<rparr>"

text \<open>
  A program is trace-blind when trace records in the history change neither its result nor
  the rest of its effects, up to the trace records themselves.
\<close>

definition trace_blind :: "'a prog \<Rightarrow> bool" where
  "trace_blind m \<longleftrightarrow>
     (\<forall>w1 w2. untraced w1 = untraced w2 \<longrightarrow>
        fst (m w1) = fst (m w2) \<and> untraced (snd (m w1)) = untraced (snd (m w2)))"

definition blind_equal :: "'a prog \<Rightarrow> 'a prog \<Rightarrow> bool" where
  "blind_equal m n \<longleftrightarrow>
     (\<forall>w1 w2. untraced w1 = untraced w2 \<longrightarrow>
        fst (m w1) = fst (n w2) \<and> untraced (snd (m w1)) = untraced (snd (n w2)))"

lemma blind_equal_bind:
  assumes "blind_equal m n" and "\<And>x. blind_equal (f x) (g x)"
  shows "blind_equal (bind m f) (bind n g)"
  unfolding blind_equal_def
proof (intro allI impI)
  fix w1 w2
  assume u: "untraced w1 = untraced w2"
  obtain r1 v1 where m: "m w1 = (r1, v1)" by (cases "m w1")
  obtain r2 v2 where n: "n w2 = (r2, v2)" by (cases "n w2")
  from assms(1) u m n have r: "r1 = r2" and v: "untraced v1 = untraced v2"
    by (force simp: blind_equal_def)+
  show "fst (bind m f w1) = fst (bind n g w2) \<and>
      untraced (snd (bind m f w1)) = untraced (snd (bind n g w2))"
  proof (cases r1)
    case (Inl e)
    with m n v show ?thesis by (simp add: bind_def r [symmetric])
  next
    case (Inr x)
    with assms(2) [of x] m n v show ?thesis
      by (simp add: bind_def blind_equal_def r [symmetric])
  qed
qed

lemma blind_equal_ret: "blind_equal (ret x) (ret x)"
  by (simp add: blind_equal_def ret_def)

lemma blind_equal_throw: "blind_equal (throw e) (throw e)"
  by (simp add: blind_equal_def throw_def)

lemma blind_equal_trace_after:
  assumes "blind_equal m n"
  shows "blind_equal (bind m (\<lambda>x. bind (trace_timed E (c x) (e x) (f x)) (\<lambda>_. ret x))) n"
proof -
  have "blind_equal (bind (trace_timed E (c x) (e x) (f x)) (\<lambda>_. ret x)) (ret x)" for x
    by (simp add: blind_equal_def bind_def trace_timed_def trace_def call_def ret_def
        untraced_def)
  then have "blind_equal (bind m (\<lambda>x. bind (trace_timed E (c x) (e x) (f x)) (\<lambda>_. ret x)))
      (bind n ret)"
    by (intro blind_equal_bind assms)
  then show ?thesis by simp
qed

lemma trace_blind_iff: "trace_blind m \<longleftrightarrow> blind_equal m m"
  by (simp add: trace_blind_def blind_equal_def)

text \<open>Every stage and selector of a pipeline is trace-blind.\<close>

fun stages_blind :: "'m stage list \<Rightarrow> bool" where
  "stages_blind ss = (\<forall>s \<in> set ss. \<forall>p. trace_blind (stage_fun s p))"

primrec pipeline_blind :: "'m pipeline \<Rightarrow> bool" where
  "pipeline_blind (Pipeline stages sel routes) \<longleftrightarrow>
     stages_blind stages \<and>
     (case sel of None \<Rightarrow> True | Some s \<Rightarrow> \<forall>p. trace_blind (selector_fun s p)) \<and>
     list_all snd (map (map_prod id pipeline_blind) routes)"

lemma blind_equal_wrapped:
  "stages_blind ss \<Longrightarrow> blind_equal (run_stages (wrap_stages E cid ss) p) (run_stages ss p)"
proof (induction ss arbitrary: p)
  case Nil
  show ?case by (simp add: wrap_stages_def blind_equal_ret)
next
  case (Cons s ss)
  then have s: "blind_equal (stage_fun s p) (stage_fun s p)"
    and ss: "\<And>q. blind_equal (run_stages (wrap_stages E cid ss) q) (run_stages ss q)"
    by (simp_all add: trace_blind_iff)
  have "blind_equal (stage_fun (tracing_stage E cid s) p) (stage_fun s p)"
    using blind_equal_trace_after [OF s] by (simp add: tracing_stage_def)
  then have "blind_equal
      (bind (stage_fun (tracing_stage E cid s) p) (run_stages (wrap_stages E cid ss)))
      (bind (stage_fun s p) (run_stages ss))"
    by (rule blind_equal_bind) (rule ss)
  then show ?case by (simp add: wrap_stages_def)
qed

lemma blind_equal_traced:
  "pipeline_blind q \<Longrightarrow> blind_equal (run (traced E cid q) p) (run q p)"
proof (induction q arbitrary: p)
  case (Pipeline stages sel routes)
  have ss: "blind_equal (run_stages (wrap_stages E cid stages) p) (run_stages stages p)" for p
    using Pipeline.prems by (intro blind_equal_wrapped) simp
  have next_step: "blind_equal
      (case map_of (map (map_prod id (traced E cid)) routes) b of
         None \<Rightarrow> throw (UnknownBranchError b) | Some n \<Rightarrow> run n p)
      (case map_of routes b of None \<Rightarrow> throw (UnknownBranchError b) | Some n \<Rightarrow> run n p)" for b p
  proof (cases "map_of routes b")
    case None
    then show ?thesis by (simp add: map_of_map_prod_id blind_equal_throw)
  next
    case (Some n)
    then have "(b, n) \<in> set routes" by (rule map_of_SomeD)
    moreover from this Pipeline.prems have "pipeline_blind n" by (auto simp: list_all_iff)
    ultimately have "blind_equal (run (traced E cid n) p) (run n p)"
      by (intro Pipeline.IH) (auto simp: snds.simps)
    with Some show ?thesis by (simp add: map_of_map_prod_id)
  qed
  have sel_step: "blind_equal (selector_fun (wrap_selector E cid s) p) (selector_fun s p)"
    if "sel = Some s" for s p
  proof -
    have "blind_equal (selector_fun s p) (selector_fun s p)"
      using Pipeline.prems that by (simp add: trace_blind_iff)
    from blind_equal_trace_after [OF this, of E _ _ "\<lambda>r. (''branch'', fst r)"]
    show ?thesis by (simp add: wrap_selector_def tracing_selector_def case_prod_unfold)
  qed
  show ?case
    using ss sel_step next_step
    by (auto simp: run_eq blind_equal_ret split: option.splits prod.splits
        intro!: blind_equal_bind)
qed

section \<open>Stepping through a traced stage list\<close>

text \<open>The record a wrapped stage leaves after it ran.\<close>

definition stage_trace ::
  "env \<Rightarrow> ('m \<Rightarrow> string option) \<Rightarrow> 'm stage \<Rightarrow> 'm payload \<Rightarrow> world \<Rightarrow> call" where
  "stage_trace E cid_of s p w =
     C_Trace (correlation_id_or_dash (cid_of (p_meta p))) (stage_name s @ '' ran'')
       [(''kind'', kind_name (stage_kind s)), (''duration_ms'', e_duration E (hist w))]"

lemma stage_trace_is_trace [simp]: "is_trace (stage_trace E cid_of s p w)"
  by (simp add: stage_trace_def)

definition log_call :: "call \<Rightarrow> world \<Rightarrow> world" where
  "log_call c w = w\<lparr>hist := hist w @ [c]\<rparr>"

lemma log_call_sel [simp]: "wdb (log_call c w) = wdb w" "hist (log_call c w) = hist w @ [c]"
  by (simp_all add: log_call_def)

lemma wrapped_Nil [simp]: "run_stages (wrap_stages E cid_of []) p = ret p"
  by (simp add: wrap_stages_def)

lemma wrapped_Cons:
  "run_stages (wrap_stages E cid_of (s # ss)) p w =
     (case stage_fun s p w of
        (Inl e, w1) \<Rightarrow> (Inl e, w1)
      | (Inr q, w1) \<Rightarrow>
          run_stages (wrap_stages E cid_of ss) q (log_call (stage_trace E cid_of s p w1) w1))"
  by (auto simp: wrap_stages_def tracing_stage_def bind_def trace_timed_def trace_def call_def
      ret_def stage_trace_def log_call_def split: prod.splits sum.splits)

lemma wrapped_append:
  "run_stages (wrap_stages E cid_of (ss @ ts)) p =
     bind (run_stages (wrap_stages E cid_of ss) p) (run_stages (wrap_stages E cid_of ts))"
  by (simp add: wrap_stages_def run_stages_append)

section \<open>Properties\<close>

text \<open>C17: wrapping a pipeline for tracing never changes what it does: for stages and selectors
  that cannot observe trace records, the traced pipeline returns or raises exactly what the
  bare one does, with the same database and the same calls once trace records are erased.\<close>

theorem tracing_transparent:
  assumes "pipeline_blind q"
  shows "fst (run (traced E cid_of q) p w) = fst (run q p w) \<and>
    untraced (snd (run (traced E cid_of q) p w)) = untraced (snd (run q p w))"
  using blind_equal_traced [OF assms] by (simp add: blind_equal_def)

text \<open>The executor's outcome on every branch. It calls the mailbox backend exactly once
  for a move or tag with a mailbox, never otherwise (and never under observe mode); escalate,
  archive_receipt and a move or tag without a mailbox are rejected before any call; ignore
  does nothing; and it never touches the database.\<close>

theorem executor_spec:
  "execute E backend msg act w =
     (if a_type act = Ignore \<or> (executable_action act \<and> backend = Observe) then (Inr (), w)
      else if executable_action act
      then (e_apply E (hist w) msg act, w\<lparr>hist := hist w @ [C_Apply msg act]\<rparr>)
      else (Inl (ActionExecutionError
              (if a_type act = Escalate then Escalate_Not_Terminal
               else if a_type act = Archive_Receipt then Receipt_Not_Terminal
               else Mailbox_Required) act), w))"
  by (cases "a_type act"; cases backend)
    (auto simp: execute_def executable_action_def apply_action_def prog_run)

section \<open>Witnesses\<close>

definition ex_env :: env where
  "ex_env =
     \<lparr>e_now = (\<lambda>_. ''2026-08-14T10:00:00+00:00''), e_new_id = (\<lambda>_. ''c1''),
      e_duration = (\<lambda>_. ''0.1''), e_apply = (\<lambda>_ _ _. Inr ()), e_draft = (\<lambda>_ _ _. Inr ()),
      e_notify = (\<lambda>_ _ _ _ _. Inr ()), e_context = (\<lambda>_ _. Inr []),
      e_llm = (\<lambda>_ _. Inl (LiteLLMClientError ''offline'')),
      e_thread = (\<lambda>_ _. Inr \<lparr>tc_prior_subject = None, tc_user_has_replied = False\<rparr>),
      e_mailboxes = (\<lambda>_. Inr [''Inbox'', ''Shop'']), e_attachments = (\<lambda>_ _. Inr []),
      e_keywords = (\<lambda>_ _ _. Inr ()),
      e_extract = (\<lambda>_ _. Inr \<lparr>re_company = ''Acme'', re_date = ''2026-08-14''\<rparr>),
      e_build_pdf = (\<lambda>_ _ _ _ _. Inr ''PDF''), e_write_file = (\<lambda>_ _ _. Inr ()),
      e_query = (\<lambda>_ _ _ _. Inl (Other_Error ''X'' ''no query'')),
      e_poll = (\<lambda>_. Inr \<lparr>mb_messages = [], mb_checkpoint = None\<rparr>), e_load_rules = (\<lambda>_. Inr []),
      e_str = (\<lambda>_. ''cannot be used''),
      e_verdict_json = (\<lambda>_. ''{}''), e_strip_html = (\<lambda>s. s)\<rparr>"

definition ex_stage :: "unit stage" where
  "ex_stage = Stage ''Upper'' Filter (\<lambda>p. ret (p\<lparr>p_text := ''done''\<rparr>))"

definition ex_pipeline :: "unit pipeline" where
  "ex_pipeline = Pipeline [ex_stage] None []"

theorem tracing_transparent_witness:
  "fst (run (traced ex_env (\<lambda>_. None) ex_pipeline) \<lparr>p_text = ''x'', p_meta = ()\<rparr>
      \<lparr>wdb = empty_db, hist = []\<rparr>) = Inr \<lparr>p_text = ''done'', p_meta = ()\<rparr>"
proof -
  have "pipeline_blind ex_pipeline"
    by (simp add: ex_pipeline_def ex_stage_def trace_blind_def ret_def)
  from tracing_transparent [OF this, of ex_env "\<lambda>_. None" "\<lparr>p_text = ''x'', p_meta = ()\<rparr>"
      "\<lparr>wdb = empty_db, hist = []\<rparr>"]
  show ?thesis by (simp add: ex_pipeline_def ex_stage_def run_eq prog_run)
qed

end
