(* ===== verification/Tier1_Modules.thy ===== *)
theory Tier1_Modules
  imports Rule_Engine Pipeline_Core
begin

text \<open>
  \<open>core/pipeline/meta.py\<close> and \<open>core/pipeline/modules.py\<close>: the metadata of the Tier 1 pipeline
  and its concrete filters and selectors, one definition per class, each the body of its
  \<open>apply()\<close> or \<open>select()\<close> as a stage of \<open>Pipeline_Core\<close>. The lemmas give each stage's frame:
  which tables it can change and which calls it can make.
\<close>

record message_meta =
  mm_message :: message
  mm_rules :: "rule list"
  mm_default_unmatched_action :: action
  mm_classifier :: "classifier option"
  mm_verdict :: "rule_verdict option"
  mm_ts :: "string option"
  mm_correlation_id :: "string option"
  mm_audit_event :: "string option"
  mm_audit_detail_json :: "string option"

definition quoted :: "string \<Rightarrow> string" where
  "quoted s = dquote # s @ [dquote]"

text \<open>\<open>a or b\<close> on optional strings: None and the empty string are falsy.\<close>

definition py_or :: "string option \<Rightarrow> string option \<Rightarrow> string option" where
  "py_or a b = (case a of Some s \<Rightarrow> if s = '''' then b else a | None \<Rightarrow> b)"

section \<open>Modules\<close>

definition idempotency_gate_selector :: "message_meta selector" where
  "idempotency_gate_selector = Selector ''IdempotencyGateSelector''
     (\<lambda>p. bind (read_db (\<lambda>db. has_processed db (message_id (mm_message (p_meta p)))))
        (\<lambda>done. ret (if done then ''skip'' else ''continue'', p)))"

definition timestamp_filter :: "env \<Rightarrow> message_meta stage" where
  "timestamp_filter E = Stage ''TimestampFilter'' Filter
     (\<lambda>p. bind (now E) (\<lambda>ts. ret (p\<lparr>p_meta := (p_meta p)\<lparr>mm_ts := Some ts\<rparr>\<rparr>)))"

definition correlation_id_filter :: "env \<Rightarrow> message_meta stage" where
  "correlation_id_filter E = Stage ''CorrelationIdFilter'' Filter
     (\<lambda>p. bind (new_correlation_id E)
        (\<lambda>i. ret (p\<lparr>p_meta := (p_meta p)\<lparr>mm_correlation_id := Some i\<rparr>\<rparr>)))"

definition tier1_branch :: "action_type \<Rightarrow> string" where
  "tier1_branch t =
     (if t = Escalate then ''escalate''
      else if t = Archive_Receipt then ''archive_receipt'' else ''terminal'')"

definition rule_evaluation_selector :: "message_meta selector" where
  "rule_evaluation_selector = Selector ''RuleEvaluationSelector''
     (\<lambda>p. let meta = p_meta p in
        bind (evaluate (mm_message meta) (mm_rules meta) (mm_default_unmatched_action meta)
                (mm_classifier meta))
          (\<lambda>v. ret (tier1_branch (a_type (rv_action v)),
                    p\<lparr>p_meta := meta\<lparr>mm_verdict := Some v\<rparr>\<rparr>)))"

definition apply_action_filter :: "env \<Rightarrow> backend \<Rightarrow> message_meta stage" where
  "apply_action_filter E backend = Stage ''ApplyActionFilter'' Filter
     (\<lambda>p. let meta = p_meta p in
        case mm_verdict meta of
          None \<Rightarrow> throw (MissingMetaError ''ApplyActionFilter requires meta.verdict'')
        | Some v \<Rightarrow>
            bind (execute E backend (mm_message meta) (rv_action v))
              (\<lambda>_. ret (p\<lparr>p_meta := meta\<lparr>mm_audit_event := Some ''action_applied'',
                 mm_audit_detail_json := Some (''{'' @ quoted ''action_type'' @ '': '' @
                    quoted (action_type_name (a_type (rv_action v))) @ ''}'')\<rparr>\<rparr>)))"

definition escalation_reason :: "rule_verdict \<Rightarrow> string" where
  "escalation_reason v =
     (case py_or (py_or (a_reason (rv_action v)) (rv_matched_rule_id v)) (Some ''escalated'') of
        Some s \<Rightarrow> s | None \<Rightarrow> ''escalated'')"

definition sender_line :: "message \<Rightarrow> string" where
  "sender_line msg = from_address msg @ '': '' @ subject msg"

definition record_escalation_filter :: "env \<Rightarrow> message_meta stage" where
  "record_escalation_filter E = Stage ''RecordEscalationFilter'' Filter
     (\<lambda>p. let meta = p_meta p; out = ret (p\<lparr>p_meta := meta
              \<lparr>mm_audit_event := Some ''escalated_pending_tier2''\<rparr>\<rparr>) in
        case mm_verdict meta of
          None \<Rightarrow> throw (MissingMetaError ''RecordEscalationFilter requires meta.verdict'')
        | Some v \<Rightarrow>
            if a_alert_immediately (rv_action v)
            then (case mm_correlation_id meta of
                    None \<Rightarrow> throw (MissingMetaError
                      ''RecordEscalationFilter requires meta.correlation_id to alert'')
                  | Some cid \<Rightarrow>
                      bind (alert E cid (''Escalated: '' @ escalation_reason v)
                              (sender_line (mm_message meta)) Normal)
                        (\<lambda>_. out))
            else out)"

definition write_audit_entry_filter :: "message_meta stage" where
  "write_audit_entry_filter = Stage ''WriteAuditEntryFilter'' Filter
     (\<lambda>p. let meta = p_meta p in
        case (mm_ts meta, mm_audit_event meta) of
          (Some ts, Some ev) \<Rightarrow>
            bind (write_db (write_audit_entry ts (message_id (mm_message meta)) ev
                              (mm_audit_detail_json meta)))
              (\<lambda>_. ret p)
        | _ \<Rightarrow> throw (MissingMetaError
            ''WriteAuditEntryFilter requires meta.ts and meta.audit_event''))"

definition mark_processed_filter :: "message_meta stage" where
  "mark_processed_filter = Stage ''MarkProcessedFilter'' Filter
     (\<lambda>p. let meta = p_meta p in
        case (mm_verdict meta, mm_ts meta) of
          (Some v, Some ts) \<Rightarrow>
            bind (write_db (mark_processed (message_id (mm_message meta))
                   \<lparr>pr_thread_id = thread_id (mm_message meta), pr_received_at = None,
                    pr_tier_reached = Some ''tier1'', pr_verdict_json = None,
                    pr_action_taken = Some (action_type_name (a_type (rv_action v))),
                    pr_processed_at = ts\<rparr>))
              (\<lambda>_. ret p)
        | _ \<Rightarrow> throw (MissingMetaError
            ''MarkProcessedFilter requires meta.verdict and meta.ts''))"

lemmas tier1_module_defs [stage_defs] = timestamp_filter_def correlation_id_filter_def
  apply_action_filter_def record_escalation_filter_def write_audit_entry_filter_def
  mark_processed_filter_def

lemmas tier1_selector_defs [stage_defs] =
  idempotency_gate_selector_def rule_evaluation_selector_def

section \<open>Frames of the modules\<close>

text \<open>Everything before the two database writers leaves the database alone.\<close>

lemma same_db_modules:
  "keeps same_db (stage_fun (timestamp_filter E) p)"
  "keeps same_db (stage_fun (correlation_id_filter E) p)"
  "keeps same_db (stage_fun (apply_action_filter E backend) p)"
  "keeps same_db (stage_fun (record_escalation_filter E) p)"
  "keeps same_db (selector_fun idempotency_gate_selector p)"
  "keeps same_db (selector_fun rule_evaluation_selector p)"
  by (auto simp: stage_defs Let_def evaluate_same_db split: option.splits
      intro!: same_db.keeps_bind same_db.keeps_ret same_db.keeps_throw same_db.keeps_read_db)

lemma db_ok_modules:
  "keeps db_ok_kept (stage_fun write_audit_entry_filter p)"
  "keeps db_ok_kept (stage_fun mark_processed_filter p)"
  by (auto simp: stage_defs Let_def keeps_def prog_run db_ok_kept_def intro!: db_ok_ops
      split: option.splits)

lemma write_audit_frames:
  "keeps same_processed (stage_fun write_audit_entry_filter p)"
  "keeps same_usage (stage_fun write_audit_entry_filter p)"
  "keeps same_cursor (stage_fun write_audit_entry_filter p)"
  by (auto simp: stage_defs Let_def keeps_def prog_run frame_defs write_audit_entry_def
      split: option.splits)

end
