(* ===== verification/Receipt_Archive.thy ===== *)
theory Receipt_Archive
  imports Tier1_Modules
begin

text \<open>
  \<open>core/receipts\<close>: the archive_receipt branch. \<open>registry.py\<close> (domain normalisation),
  \<open>extract.py\<close> (deterministic company and date), \<open>archive.py\<close> (file name and write),
  \<open>llm.py\<close> (the recorded extraction client) and \<open>pipeline.py\<close> (the stage that composes
  them). The PDF bytes come from reportlab and pypdf (\<open>e_build_pdf\<close>); the checks
  \<open>build_receipt_pdf\<close> makes before it renders are modelled.
\<close>

section \<open>registry.py\<close>

definition normalize_sender_domain :: "string \<Rightarrow> string" where
  "normalize_sender_domain from_dom = py_lower (py_strip from_dom)"

section \<open>extract.py\<close>

text \<open>
  The body pattern \<open>(?:Invoice|Payment|Receipt) date:\s*(\S.*)\<close> with IGNORECASE at one
  position: the marker, any white space, then the rest of that line; and \<open>search()\<close>, the
  first position that matches.
\<close>

definition date_markers :: "string list" where
  "date_markers = [''invoice date:'', ''payment date:'', ''receipt date:'']"

definition match_date_at :: "string \<Rightarrow> string option" where
  "match_date_at s =
     (case find (\<lambda>m. prefix m (py_lower s)) date_markers of
        None \<Rightarrow> None
      | Some m \<Rightarrow>
          (case dropWhile py_space (drop (length m) s) of
             [] \<Rightarrow> None
           | r \<Rightarrow> Some (takeWhile (\<lambda>c. c \<noteq> newline) r)))"

fun search_date :: "string \<Rightarrow> string option" where
  "search_date [] = match_date_at []"
| "search_date (c # cs) =
     (case match_date_at (c # cs) of Some d \<Rightarrow> Some d | None \<Rightarrow> search_date cs)"

definition extract_date :: "message \<Rightarrow> string option" where
  "extract_date msg =
     (case dict_get (headers msg) ''Date'' of
        Some d \<Rightarrow> if d \<noteq> '''' then Some (py_strip d)
                  else map_option py_strip (search_date (body_text msg))
      | None \<Rightarrow> map_option py_strip (search_date (body_text msg)))"

type_synonym domain_lookup = "string \<Rightarrow> domain_record option"

definition curated_company :: "domain_lookup option \<Rightarrow> string \<Rightarrow> string option" where
  "curated_company lookup from_dom =
     (case lookup of
        None \<Rightarrow> None
      | Some f \<Rightarrow>
          (case f from_dom of
             None \<Rightarrow> None
           | Some r \<Rightarrow> (case dr_company r of
                          None \<Rightarrow> None | Some c \<Rightarrow> if c = '''' then None else Some c)))"

definition resolve_company ::
  "string \<Rightarrow> known_sender option \<Rightarrow> domain_lookup option \<Rightarrow> string option" where
  "resolve_company from_dom known_sender lookup =
     (case curated_company lookup from_dom of
        Some c \<Rightarrow> Some c
      | None \<Rightarrow> map_option ks_company known_sender)"

definition extract_receipt ::
  "message \<Rightarrow> known_sender option \<Rightarrow> domain_lookup option \<Rightarrow> receipt_extraction option" where
  "extract_receipt msg known_sender lookup =
     (case resolve_company (from_domain msg) known_sender lookup of
        None \<Rightarrow> None
      | Some company \<Rightarrow>
          (case extract_date msg of
             None \<Rightarrow> None
           | Some d \<Rightarrow> Some \<lparr>re_company = company, re_date = d\<rparr>))"

section \<open>archive.py\<close>

definition slug_char :: "char \<Rightarrow> bool" where
  "slug_char c \<longleftrightarrow>
     (let n = (of_char c :: nat) in (97 \<le> n \<and> n \<le> 122) \<or> (48 \<le> n \<and> n \<le> 57))"

text \<open>\<open>re.sub(r"[^a-z0-9]+", "-", s)\<close>: every maximal run of other characters is one hyphen.\<close>

fun hyphenate :: "bool \<Rightarrow> string \<Rightarrow> string" where
  "hyphenate in_run [] = []"
| "hyphenate in_run (c # cs) =
     (if slug_char c then c # hyphenate False cs
      else if in_run then hyphenate True cs
      else CHR ''-'' # hyphenate True cs)"

definition strip_hyphens :: "string \<Rightarrow> string" where
  "strip_hyphens s = rev (dropWhile (\<lambda>c. c = CHR ''-'') (rev (dropWhile (\<lambda>c. c = CHR ''-'') s)))"

definition slugify :: "string \<Rightarrow> string" where
  "slugify s =
     (let slug = strip_hyphens (hyphenate False (py_lower s))
      in if slug = '''' then ''unknown'' else slug)"

definition receipt_filename :: "string \<Rightarrow> string \<Rightarrow> string \<Rightarrow> string" where
  "receipt_filename msg_id company d =
     d @ ''-'' @ slugify company @ ''-'' @ slugify msg_id @ ''.pdf''"

text \<open>\<open>Path(d) / name\<close>: an absolute name replaces the directory.\<close>

definition path_join :: "string \<Rightarrow> string \<Rightarrow> string" where
  "path_join d name = (if prefix ''/'' name then name else d @ ''/'' @ name)"

definition is_os_error :: "exn \<Rightarrow> bool" where
  "is_os_error e = (case e of Other_Error c _ \<Rightarrow> c = ''OSError'' | _ \<Rightarrow> False)"

definition save_pdf ::
  "env \<Rightarrow> string \<Rightarrow> string \<Rightarrow> string \<Rightarrow> string \<Rightarrow> string \<Rightarrow> string prog" where
  "save_pdf E pdf output_dir msg_id company d =
     (let path = path_join output_dir (receipt_filename msg_id company d)
      in try_except
           (bind (call (C_Write_File path pdf) (\<lambda>h. e_write_file E h path pdf)) (\<lambda>_. ret path))
           is_os_error
           (\<lambda>e. throw (ReceiptArchiveError (e_str E e))))"

section \<open>pdf.py: the checks before rendering\<close>

definition build_receipt_pdf ::
  "env \<Rightarrow> message \<Rightarrow> attachment list \<Rightarrow> string \<Rightarrow> string \<Rightarrow> string prog" where
  "build_receipt_pdf E msg attachments company d =
     (if company = '''' then throw (ValueError ''build_receipt_pdf requires a non-empty company'')
      else if d = '''' then throw (ValueError ''build_receipt_pdf requires a non-empty date'')
      else call (C_Build_Pdf msg attachments company d)
             (\<lambda>h. e_build_pdf E h msg attachments company d))"

section \<open>llm.py: the recorded extraction client\<close>

definition recorded_extract ::
  "(string, receipt_extraction) dict \<Rightarrow> receipt_extraction_request \<Rightarrow> exn + receipt_extraction" where
  "recorded_extract extractions req =
     (case dict_get extractions (rq_from_domain req) of
        None \<Rightarrow> Inl (UnrecordedReceiptExtractionError (rq_from_domain req))
      | Some x \<Rightarrow> Inr x)"

section \<open>pipeline.py: ArchiveReceiptAugment\<close>

record receipt_archive_components =
  rac_output_dir :: string
  rac_domain_lookup :: "domain_lookup option"
  rac_keyword_backend :: backend
  rac_dry_run :: bool

definition apply_keywords :: "env \<Rightarrow> backend \<Rightarrow> message \<Rightarrow> string list \<Rightarrow> unit prog" where
  "apply_keywords E backend msg keywords =
     (case backend of
        Live \<Rightarrow> call (C_Keywords msg keywords) (\<lambda>h. e_keywords E h msg keywords)
      | Observe \<Rightarrow> ret ())"

definition extraction_request :: "message \<Rightarrow> receipt_extraction_request" where
  "extraction_request msg =
     \<lparr>rq_subject = subject msg, rq_from_address = from_address msg,
      rq_from_domain = from_domain msg, rq_body_text = body_text msg\<rparr>"

text \<open>Deterministic first; otherwise the one Tier 2 call, after which the sender is learned.\<close>

definition resolve_extraction ::
  "env \<Rightarrow> receipt_archive_components \<Rightarrow> message_meta \<Rightarrow> receipt_extraction prog" where
  "resolve_extraction E comps meta =
     (let msg = mm_message meta; dom_key = normalize_sender_domain (from_domain msg) in
      bind (read_db (\<lambda>db. get_known_sender db dom_key))
        (\<lambda>known.
           case extract_receipt msg known (rac_domain_lookup comps) of
             Some x \<Rightarrow> ret x
           | None \<Rightarrow>
               bind (call (C_Extract (extraction_request msg))
                       (\<lambda>h. e_extract E h (extraction_request msg)))
                 (\<lambda>x. bind (write_db (learn_known_sender dom_key (re_company x) ''tier2''
                                (case mm_ts meta of Some ts \<Rightarrow> ts | None \<Rightarrow> '''')))
                        (\<lambda>_. ret x))))"

definition receipt_keywords :: "receipt_extraction \<Rightarrow> string list" where
  "receipt_keywords x =
     [''receipt'', ''company:'' @ re_company x, ''date:'' @ re_date x]"

definition archive_pdf ::
  "env \<Rightarrow> receipt_archive_components \<Rightarrow> message \<Rightarrow> receipt_extraction \<Rightarrow> string option prog" where
  "archive_pdf E comps msg x =
     (if rac_dry_run comps then ret None
      else bind (call (C_Attachments msg) (\<lambda>h. e_attachments E h msg))
             (\<lambda>atts. bind (build_receipt_pdf E msg atts (re_company x) (re_date x))
                (\<lambda>pdf. bind (save_pdf E pdf (rac_output_dir comps) (message_id msg)
                               (re_company x) (re_date x))
                   (\<lambda>path. ret (Some path)))))"

definition receipt_detail_json ::
  "receipt_archive_components \<Rightarrow> receipt_extraction \<Rightarrow> string option \<Rightarrow> string" where
  "receipt_detail_json comps x path =
     ''{'' @ json_string ''company'' @ '': '' @ json_string (re_company x) @ '', '' @
     json_string ''date'' @ '': '' @ json_string (re_date x) @ '', '' @
     json_string ''path'' @ '': '' @ (case path of None \<Rightarrow> ''null'' | Some s \<Rightarrow> json_string s) @
     '', '' @ json_string ''dry_run'' @ '': '' @
     (if rac_dry_run comps then ''true'' else ''false'') @ ''}''"

definition archive_receipt_augment ::
  "env \<Rightarrow> receipt_archive_components \<Rightarrow> message_meta stage" where
  "archive_receipt_augment E comps = Stage ''ArchiveReceiptAugment'' Augment
     (\<lambda>p. let meta = p_meta p; msg = mm_message meta in
        bind (resolve_extraction E comps meta)
          (\<lambda>x. bind (apply_keywords E (rac_keyword_backend comps) msg (receipt_keywords x))
             (\<lambda>_. bind (archive_pdf E comps msg x)
                (\<lambda>path. ret (p\<lparr>p_meta := meta
                   \<lparr>mm_audit_event := Some ''receipt_archived'',
                    mm_audit_detail_json := Some (receipt_detail_json comps x path)\<rparr>\<rparr>)))))"

section \<open>Frames\<close>

lemma archive_pdf_same_db: "keeps same_db (archive_pdf E comps msg x)"
  by (auto simp: archive_pdf_def build_receipt_pdf_def save_pdf_def Let_def
      intro!: same_db.keeps_bind same_db.keeps_ret same_db.keeps_throw same_db.keeps_try_except)

lemma apply_keywords_same_db: "keeps same_db (apply_keywords E b msg ks)"
  by (auto simp: apply_keywords_def intro: same_db.keeps_ret split: backend.split)

text \<open>The stage writes only the sender table.\<close>

definition only_senders_written :: "world \<Rightarrow> world \<Rightarrow> bool" where
  "only_senders_written w w' \<longleftrightarrow>
     db_processed (wdb w') = db_processed (wdb w) \<and> db_audit_log (wdb w') = db_audit_log (wdb w) \<and>
     db_audit_seq (wdb w') = db_audit_seq (wdb w) \<and> db_llm_usage (wdb w') = db_llm_usage (wdb w) \<and>
     db_push_cursor (wdb w') = db_push_cursor (wdb w)"

interpretation senders_only: effect_frame only_senders_written
  by unfold_locales (simp_all add: only_senders_written_def)

lemma same_db_senders: "keeps same_db m \<Longrightarrow> keeps only_senders_written m"
  by (simp add: keeps_def same_db_def only_senders_written_def)

lemma resolve_extraction_senders: "keeps only_senders_written (resolve_extraction E comps meta)"
proof -
  have "keeps only_senders_written (write_db (learn_known_sender d c f a))" for d c f a
    by (simp add: keeps_def write_db_def only_senders_written_def learn_known_sender_def)
  then show ?thesis
    by (auto simp: resolve_extraction_def Let_def split: option.split
        intro!: senders_only.keeps_bind senders_only.keeps_ret senders_only.keeps_read_db
          keeps_call_db [THEN same_db_senders])
qed

lemma archive_augment_senders:
  "keeps only_senders_written (stage_fun (archive_receipt_augment E comps) p)"
  by (auto simp: archive_receipt_augment_def Let_def
      intro!: senders_only.keeps_bind senders_only.keeps_ret resolve_extraction_senders
        archive_pdf_same_db [THEN same_db_senders] apply_keywords_same_db [THEN same_db_senders])

lemma archive_augment_db_ok:
  "keeps db_ok_kept (stage_fun (archive_receipt_augment E comps) p)"
proof -
  have "keeps db_ok_kept (write_db (learn_known_sender d c f a))" for d c f a
    by (simp add: keeps_def write_db_def db_ok_kept_def db_ok_learn)
  then have "keeps db_ok_kept (resolve_extraction E comps meta)" for meta
    by (auto simp: resolve_extraction_def Let_def split: option.split
        intro!: db_ok_kept.keeps_bind db_ok_kept.keeps_ret db_ok_kept.keeps_read_db
          keeps_call_db [THEN same_db_weaken(6)])
  then show ?thesis
    by (auto simp: archive_receipt_augment_def Let_def
        intro!: db_ok_kept.keeps_bind db_ok_kept.keeps_ret
          archive_pdf_same_db [THEN same_db_weaken(6)]
          apply_keywords_same_db [THEN same_db_weaken(6)])
qed

section \<open>Slugs\<close>

lemma hyphenate_chars: "c \<in> set (hyphenate b s) \<Longrightarrow> slug_char c \<or> c = CHR ''-''"
  by (induction b s rule: hyphenate.induct) (auto split: if_splits)

text \<open>No two hyphens in a row.\<close>

fun no_double_hyphen :: "string \<Rightarrow> bool" where
  "no_double_hyphen (a # b # cs) = (\<not> (a = CHR ''-'' \<and> b = CHR ''-'') \<and> no_double_hyphen (b # cs))"
| "no_double_hyphen cs = True"

lemma hyphen_not_slug [simp]: "\<not> slug_char (CHR ''-'')"
  by (simp add: slug_char_def Let_def)

lemma hyphenate_True_hd:
  "hyphenate True s = [] \<or> hd (hyphenate True s) \<noteq> CHR ''-''"
  by (induction s) auto

lemma no_double_Cons:
  "no_double_hyphen cs \<Longrightarrow> (cs = [] \<or> c \<noteq> CHR ''-'' \<or> hd cs \<noteq> CHR ''-'') \<Longrightarrow>
   no_double_hyphen (c # cs)"
  by (cases cs) auto

lemma hyphenate_no_double: "no_double_hyphen (hyphenate b s)"
proof (induction b s rule: hyphenate.induct)
  case (1 b)
  show ?case by simp
next
  case (2 b c cs)
  then show ?case using hyphenate_True_hd [of cs] by (auto intro!: no_double_Cons)
qed

lemma no_double_hyphen_iff:
  "no_double_hyphen s \<longleftrightarrow> \<not> (\<exists>a b. s = a @ ''--'' @ b)"
proof (induction s rule: no_double_hyphen.induct)
  case (1 a b cs)
  have "(\<exists>x y. a # b # cs = x @ ''--'' @ y) \<longleftrightarrow>
      (a = CHR ''-'' \<and> b = CHR ''-'') \<or> (\<exists>x y. b # cs = x @ ''--'' @ y)" (is "?l = ?r")
  proof
    assume ?l
    then obtain x y where "a # b # cs = x @ ''--'' @ y" by blast
    then show ?r by (cases x) auto
  next
    assume ?r
    then show ?l by (metis append_Cons append_Nil)
  qed
  with 1 show ?case by simp
qed (auto simp: Cons_eq_append_conv)

lemma no_double_sub: "no_double_hyphen (a @ s @ b) \<Longrightarrow> no_double_hyphen s"
proof -
  assume d: "no_double_hyphen (a @ s @ b)"
  show "no_double_hyphen s"
  proof (rule ccontr)
    assume "\<not> no_double_hyphen s"
    then obtain x y where "s = x @ ''--'' @ y" by (auto simp: no_double_hyphen_iff)
    then have "a @ s @ b = (a @ x) @ ''--'' @ (y @ b)" by simp
    with d show False unfolding no_double_hyphen_iff by blast
  qed
qed

lemma strip_hyphens_sub: "\<exists>a b. s = a @ strip_hyphens s @ b"
proof -
  let ?P = "\<lambda>c. c = CHR ''-''"
  let ?t = "dropWhile ?P s"
  have "s = takeWhile ?P s @ ?t" by simp
  moreover have "?t = rev (dropWhile ?P (rev ?t)) @ rev (takeWhile ?P (rev ?t))"
    by (metis rev_append rev_rev_ident takeWhile_dropWhile_id)
  ultimately show ?thesis unfolding strip_hyphens_def by metis
qed

lemma strip_hyphens_ends:
  assumes "strip_hyphens s \<noteq> []"
  shows "hd (strip_hyphens s) \<noteq> CHR ''-''" and "last (strip_hyphens s) \<noteq> CHR ''-''"
proof -
  define P where "P = (\<lambda>c. c = CHR ''-'')"
  define t where "t = dropWhile P s"
  define u where "u = dropWhile P (rev t)"
  have s: "strip_hyphens s = rev u" by (simp add: strip_hyphens_def P_def t_def u_def)
  with assms have u: "u \<noteq> []" by simp
  then have t: "t \<noteq> []" by (auto simp: u_def)
  have "\<not> P (hd u)" using hd_dropWhile u unfolding u_def by blast
  then show "last (strip_hyphens s) \<noteq> CHR ''-''" using u by (simp add: s last_rev P_def)
  have hdt: "\<not> P (hd t)" using hd_dropWhile t unfolding t_def by blast
  then have "last u = hd t"
    using dropWhile_last [of "rev t" P] t by (simp add: last_rev u_def)
  with hdt show "hd (strip_hyphens s) \<noteq> CHR ''-''" using u by (simp add: s hd_rev P_def)
qed

section \<open>Properties\<close>

text \<open>A slug is never empty, holds only lower-case letters, digits and hyphens, and never
  begins with, ends with or repeats a hyphen: it can name a file on its own.\<close>

theorem slugify_safe:
  "slugify s \<noteq> [] \<and> (\<forall>c \<in> set (slugify s). slug_char c \<or> c = CHR ''-'') \<and>
   hd (slugify s) \<noteq> CHR ''-'' \<and> last (slugify s) \<noteq> CHR ''-'' \<and> no_double_hyphen (slugify s)"
proof -
  let ?h = "hyphenate False (py_lower s)"
  let ?s = "strip_hyphens ?h"
  obtain a b where sub: "?h = a @ ?s @ b" using strip_hyphens_sub by blast
  have chars: "\<forall>c \<in> set ?s. slug_char c \<or> c = CHR ''-''"
  proof
    fix c assume "c \<in> set ?s"
    then have "c \<in> set (a @ ?s @ b)" by simp
    with sub have "c \<in> set ?h" by metis
    then show "slug_char c \<or> c = CHR ''-''" by (rule hyphenate_chars)
  qed
  have nd: "no_double_hyphen ?s" using hyphenate_no_double no_double_sub sub by metis
  show ?thesis
  proof (cases "?s = []")
    case True
    then show ?thesis by (simp add: slugify_def slug_char_def Let_def)
  next
    case False
    with chars nd strip_hyphens_ends [OF False] show ?thesis by (simp add: slugify_def Let_def)
  qed
qed

theorem slugify_safe_witness:
  "slugify ''ACME, Inc.'' = ''acme-inc'' \<and> no_double_hyphen (slugify ''ACME, Inc.'')"
proof
  show "slugify ''ACME, Inc.'' = ''acme-inc''" by code_simp
  show "no_double_hyphen (slugify ''ACME, Inc.'')" using slugify_safe by blast
qed

text \<open>C29: two different message ids can share one archive file: ids that differ only in case
  or punctuation (both legal in JMAP ids) give the same slug, so the second receipt of the
  same company and date overwrites the first. And the file name does not stay inside the
  output directory: the date part comes from the message's Date header unchanged, so an
  absolute path in that header becomes the path written.\<close>

theorem receipt_path_collision_and_escape:
  "receipt_filename ''Ma_1'' company d = receipt_filename ''mA-1'' company d \<and>
   (\<forall>h t. dict_get (headers msg) ''Date'' = Some (''/'' @ h) \<and> \<not> py_space (last (''/'' @ h)) \<longrightarrow>
      extract_date msg = Some (''/'' @ h) \<and>
      path_join output_dir (receipt_filename t company (''/'' @ h)) =
        ''/'' @ h @ ''-'' @ slugify company @ ''-'' @ slugify t @ ''.pdf'')"
proof -
  have "slugify ''Ma_1'' = slugify ''mA-1''" by code_simp
  moreover have "py_strip (''/'' @ h) = ''/'' @ h" if "\<not> py_space (last (''/'' @ h))" for h
  proof -
    have "\<not> py_space (CHR ''/'')" by (simp add: py_space_def Let_def)
    moreover have "dropWhile py_space (rev (''/'' @ h)) = rev (''/'' @ h)"
      using that by (simp add: dropWhile_eq_self_iff hd_rev del: rev.simps rev_append)
    ultimately show ?thesis by (simp add: py_strip_def)
  qed
  ultimately show ?thesis
    by (auto simp: receipt_filename_def path_join_def extract_date_def)
qed

theorem receipt_path_collision_and_escape_witness:
  "path_join ''/home/u/receipts'' (receipt_filename ''m1'' ''Acme'' ''/etc/cron.d/x'') =
     ''/etc/cron.d/x-'' @ slugify ''Acme'' @ ''-'' @ slugify ''m1'' @ ''.pdf''"
  using receipt_path_collision_and_escape
    [of "''Acme''" "''d''" "ex_message\<lparr>headers := [(''Date'', ''/etc/cron.d/x'')]\<rparr>"
      "''/home/u/receipts''"]
  by (simp add: py_space_def Let_def)

end
