(* ===== verification/Mail_Sources.thy ===== *)
theory Mail_Sources
  imports Spork_Effects "HOL-Library.List_Lexorder" "HOL-Library.Char_ord"
begin

text \<open>
  \<open>core/sources\<close> (triggers, fetchers, the fallback and replay sources) and
  \<open>core/providers/file\<close> (the JSON message file, its attachments, the file provider's readers,
  logs and paging). A source is a state transformer that answers a batch or raises.
  \<open>json.loads\<close> and \<open>base64.b64decode\<close> are parameters; what they decode is a \<open>json\<close> value.

  Interfaces: \<open>replaying\<close>, a source that hands out a finite stock in order, and
  \<open>windowed_listing\<close>, a listing read by position and limit. Both are interpreted on the file
  provider's model.
\<close>

section \<open>Sources (core/sources)\<close>

type_synonym ('s, 'a) step = "'s \<Rightarrow> (exn + 'a) \<times> 's"

definition triggered_poll :: "('s, unit) step \<Rightarrow> ('s, 'm list) step \<Rightarrow> ('s, 'm list) step" where
  "triggered_poll wait fetch s =
     (case wait s of (Inl e, s') \<Rightarrow> (Inl e, s') | (Inr _, s') \<Rightarrow> fetch s')"

definition immediate_trigger :: "('s, unit) step" where
  "immediate_trigger s = (Inr (), s)"

text \<open>\<open>IntervalTimer\<close>: the constructor's check, and a wait that sleeps the interval.\<close>

definition interval_timer :: "rat \<Rightarrow> exn + rat" where
  "interval_timer seconds =
     (if seconds \<le> 0 then Inl (ValueError ''interval_seconds'') else Inr seconds)"

definition interval_wait :: "(rat \<Rightarrow> ('s, unit) step) \<Rightarrow> rat \<Rightarrow> ('s, unit) step" where
  "interval_wait sleep interval = sleep interval"

record 'm sequence_fetcher =
  sf_remaining :: "'m list"
  sf_batch_size :: int

definition sequence_fetcher_init :: "'m list \<Rightarrow> int \<Rightarrow> exn + 'm sequence_fetcher" where
  "sequence_fetcher_init messages batch_size =
     (if batch_size < 1 then Inl (ValueError (''batch_size must be >= 1, got '' @ py_str_int batch_size))
      else Inr \<lparr>sf_remaining = messages, sf_batch_size = batch_size\<rparr>)"

definition sequence_fetch :: "('m sequence_fetcher, 'm list) step" where
  "sequence_fetch f =
     (let n = nat (sf_batch_size f)
      in (Inr (take n (sf_remaining f)), f\<lparr>sf_remaining := drop n (sf_remaining f)\<rparr>))"

text \<open>The fallback: \<open>catch\<close> says which exceptions it handles. The primary is asked first on
  every poll; both sources may share the state.\<close>

definition fallback_poll :: "('s, 'a) step \<Rightarrow> ('s, 'a) step \<Rightarrow> (exn \<Rightarrow> bool) \<Rightarrow> ('s, 'a) step" where
  "fallback_poll primary secondary catch s =
     (case primary s of
        (Inl e, s') \<Rightarrow> (if catch e then secondary s' else (Inl e, s'))
      | (Inr x, s') \<Rightarrow> (Inr x, s'))"

text \<open>The plain view of a checkpointed source: the batch's messages, its checkpoint dropped.\<close>

definition poll_of_batch :: "('s, message_batch) step \<Rightarrow> ('s, message list) step" where
  "poll_of_batch poll_batch s =
     (case poll_batch s of (Inl e, s') \<Rightarrow> (Inl e, s') | (Inr b, s') \<Rightarrow> (Inr (mb_messages b), s'))"

definition checkpointed_fallback ::
  "('s, message_batch) step \<Rightarrow> ('s, message_batch) step \<Rightarrow> (exn \<Rightarrow> bool) \<Rightarrow> ('s, message list) step" where
  "checkpointed_fallback primary secondary catch = poll_of_batch (fallback_poll primary secondary catch)"

section \<open>The replay interface\<close>

text \<open>What \<open>n\<close> polls hand out, in order; an exception ends it.\<close>

fun polls :: "('s, 'm list) step \<Rightarrow> nat \<Rightarrow> ('s, 'm list list) step" where
  "polls poll 0 s = (Inr [], s)"
| "polls poll (Suc n) s =
     (case poll s of
        (Inl e, s') \<Rightarrow> (Inl e, s')
      | (Inr b, s') \<Rightarrow>
          (case polls poll n s' of (Inl e, s2) \<Rightarrow> (Inl e, s2) | (Inr bs, s2) \<Rightarrow> (Inr (b # bs), s2)))"

locale replaying =
  fixes poll :: "('s, 'm list) step" and stock :: "'s \<Rightarrow> 'm list" and fit :: "'s \<Rightarrow> bool"
  assumes answers: "fit s \<Longrightarrow> \<exists>b s'. poll s = (Inr b, s') \<and> fit s'"
    and in_order: "fit s \<Longrightarrow> poll s = (Inr b, s') \<Longrightarrow> stock s = b @ stock s'"
    and progress: "fit s \<Longrightarrow> poll s = (Inr b, s') \<Longrightarrow> stock s \<noteq> [] \<Longrightarrow> b \<noteq> []"
begin

lemma polls_in_order:
  "fit s \<Longrightarrow> \<exists>bs s'. polls poll n s = (Inr bs, s') \<and> fit s' \<and> stock s = concat bs @ stock s' \<and>
     length bs = n"
proof (induction n arbitrary: s)
  case 0
  then show ?case by simp
next
  case (Suc n)
  from answers [OF Suc.prems] obtain b s1 where p: "poll s = (Inr b, s1)" "fit s1" by blast
  from Suc.IH [OF p(2)] obtain bs s2 where "polls poll n s1 = (Inr bs, s2)" "fit s2"
    "stock s1 = concat bs @ stock s2" "length bs = n" by blast
  with p in_order [OF Suc.prems p(1)] show ?case by simp
qed

lemma polls_exhaust:
  "fit s \<Longrightarrow> length (stock s) \<le> n \<Longrightarrow>
   \<exists>bs s'. polls poll n s = (Inr bs, s') \<and> fit s' \<and> concat bs = stock s \<and> stock s' = []"
proof (induction n arbitrary: s)
  case 0
  then show ?case by simp
next
  case (Suc n)
  from answers [OF Suc.prems(1)] obtain b s1 where p: "poll s = (Inr b, s1)" "fit s1" by blast
  have st: "stock s = b @ stock s1" by (rule in_order [OF Suc.prems(1) p(1)])
  have "length (stock s1) \<le> n"
    using st Suc.prems(2) progress [OF Suc.prems(1) p(1)] by (cases "stock s = []"; cases b) auto
  from Suc.IH [OF p(2) this] obtain bs s2 where "polls poll n s1 = (Inr bs, s2)" "fit s2"
    "concat bs = stock s1" "stock s2 = []" by blast
  with p st show ?case by simp
qed

lemma caught_up: "fit s \<Longrightarrow> stock s = [] \<Longrightarrow> \<exists>s'. poll s = (Inr [], s') \<and> fit s' \<and> stock s' = []"
  using answers [of s] in_order [of s] by fastforce

end

abbreviation replay_poll :: "('m sequence_fetcher, 'm list) step" where
  "replay_poll \<equiv> triggered_poll immediate_trigger sequence_fetch"

lemma replay_poll_eq:
  "replay_poll f = (Inr (take (nat (sf_batch_size f)) (sf_remaining f)),
     f\<lparr>sf_remaining := drop (nat (sf_batch_size f)) (sf_remaining f)\<rparr>)"
  by (simp add: triggered_poll_def immediate_trigger_def sequence_fetch_def Let_def)

interpretation sequence: replaying replay_poll sf_remaining "\<lambda>f. 1 \<le> sf_batch_size f"
  by unfold_locales (auto simp: replay_poll_eq)

section \<open>JSON message files (messages.py, attachments.py)\<close>

text \<open>A decoded object is a dictionary: each key once.\<close>

datatype json =
    J_Null | J_Bool bool | J_Int int | J_Float pyfloat | J_Str string
  | J_Arr "json list" | J_Obj "(string \<times> json) list"

fun json_type_name :: "json \<Rightarrow> string" where
  "json_type_name J_Null = ''NoneType''"
| "json_type_name (J_Bool b) = ''bool''"
| "json_type_name (J_Int n) = ''int''"
| "json_type_name (J_Float x) = ''float''"
| "json_type_name (J_Str s) = ''str''"
| "json_type_name (J_Arr xs) = ''list''"
| "json_type_name (J_Obj d) = ''dict''"

text \<open>Iterating a decoded value: an array's elements, a string's characters, an object's keys.\<close>

fun json_iter :: "json \<Rightarrow> exn + json list" where
  "json_iter (J_Arr xs) = Inr xs"
| "json_iter (J_Str s) = Inr (map (\<lambda>c. J_Str [c]) s)"
| "json_iter (J_Obj d) = Inr (map (\<lambda>kv. J_Str (fst kv)) d)"
| "json_iter v = Inl (Other_Error ''TypeError'' (json_type_name v @ '' object is not iterable''))"

text \<open>What reading and decoding the file gives.\<close>

datatype json_file = Missing_File | Undecodable string | Decoded json

text \<open>A message as the loader builds it: Python checks no field's type.\<close>

record json_message =
  jm_message_id :: json
  jm_thread_id :: json
  jm_from_address :: json
  jm_from_domain :: json
  jm_subject :: json
  jm_body_text :: json
  jm_headers :: json
  jm_mailbox_ids :: "json list"

text \<open>The first of the fields, in the order they are read, that the object does not have.\<close>

definition first_missing :: "string list \<Rightarrow> (string \<times> json) list \<Rightarrow> string option" where
  "first_missing fs d = find (\<lambda>f. map_of d f = None) fs"

definition message_fields :: "string list" where
  "message_fields =
     [''message_id'', ''thread_id'', ''from_address'', ''from_domain'', ''subject'', ''body_text'']"

definition field_or :: "json \<Rightarrow> (string \<times> json) list \<Rightarrow> string \<Rightarrow> json" where
  "field_or dflt d f = (case map_of d f of Some v \<Rightarrow> v | None \<Rightarrow> dflt)"

definition decode_message :: "string \<Rightarrow> nat \<Rightarrow> json \<Rightarrow> exn + json_message" where
  "decode_message path index entry =
     (let here = path @ '': message '' @ py_str_int (int index) in
      case entry of
        J_Obj d \<Rightarrow>
          (case first_missing message_fields d of
             Some f \<Rightarrow> Inl (MessagesLoadError (here @ '' missing required field '' @ py_repr f))
           | None \<Rightarrow>
               (case json_iter (field_or (J_Arr []) d ''mailbox_ids'') of
                  Inl e \<Rightarrow> Inl e
                | Inr ids \<Rightarrow>
                    Inr \<lparr>jm_message_id = field_or J_Null d ''message_id'',
                         jm_thread_id = field_or J_Null d ''thread_id'',
                         jm_from_address = field_or J_Null d ''from_address'',
                         jm_from_domain = field_or J_Null d ''from_domain'',
                         jm_subject = field_or J_Null d ''subject'',
                         jm_body_text = field_or J_Null d ''body_text'',
                         jm_headers = field_or (J_Obj []) d ''headers'', jm_mailbox_ids = ids\<rparr>))
      | _ \<Rightarrow> Inl (MessagesLoadError (here @ '' must be a JSON object, got '' @ json_type_name entry)))"

fun decode_entries :: "(nat \<Rightarrow> json \<Rightarrow> exn + 'a) \<Rightarrow> nat \<Rightarrow> json list \<Rightarrow> exn + 'a list" where
  "decode_entries decode i [] = Inr []"
| "decode_entries decode i (e # es) =
     (case decode i e of
        Inl x \<Rightarrow> Inl x
      | Inr m \<Rightarrow> (case decode_entries decode (Suc i) es of Inl x \<Rightarrow> Inl x | Inr ms \<Rightarrow> Inr (m # ms)))"

text \<open>The part the two loaders share: the file must decode to an array.\<close>

definition load_array :: "(string \<Rightarrow> exn) \<Rightarrow> string \<Rightarrow> json_file \<Rightarrow> exn + json list" where
  "load_array err path file =
     (case file of
        Missing_File \<Rightarrow> Inl (err (''messages file not found: '' @ path))
      | Undecodable why \<Rightarrow> Inl (err (''invalid JSON in '' @ path @ '': '' @ why))
      | Decoded (J_Arr raw) \<Rightarrow> Inr raw
      | Decoded v \<Rightarrow> Inl (err (path @ '' must contain a JSON array of messages, got '' @ json_type_name v)))"

definition load_messages :: "string \<Rightarrow> json_file \<Rightarrow> exn + json_message list" where
  "load_messages path file =
     (case load_array MessagesLoadError path file of
        Inl e \<Rightarrow> Inl e
      | Inr raw \<Rightarrow> decode_entries (decode_message path) 0 raw)"

text \<open>The messages of a file whose fields have the types \<open>NormalizedMessage\<close> declares.\<close>

fun json_text :: "json \<Rightarrow> string option" where
  "json_text (J_Str s) = Some s"
| "json_text v = None"

fun all_some :: "'a option list \<Rightarrow> 'a list option" where
  "all_some [] = Some []"
| "all_some (None # xs) = None"
| "all_some (Some x # xs) = map_option (\<lambda>ys. x # ys) (all_some xs)"

definition typed_headers :: "json \<Rightarrow> (string, string) dict option" where
  "typed_headers v =
     (case v of
        J_Obj d \<Rightarrow> all_some (map (\<lambda>kv. map_option (\<lambda>s. (fst kv, s)) (json_text (snd kv))) d)
      | _ \<Rightarrow> None)"

definition typed_message :: "json_message \<Rightarrow> message option" where
  "typed_message m =
     (case (map json_text [jm_message_id m, jm_thread_id m, jm_from_address m, jm_from_domain m,
              jm_subject m, jm_body_text m], typed_headers (jm_headers m),
            all_some (map json_text (jm_mailbox_ids m))) of
        ([Some i, Some t, Some fa, Some fd, Some s, Some b], Some hs, Some ids) \<Rightarrow>
          Some \<lparr>message_id = i, thread_id = t, from_address = fa, from_domain = fd, subject = s,
                body_text = b, headers = hs, mailbox_ids = ids\<rparr>
      | _ \<Rightarrow> None)"

text \<open>The JSON object a fixture holds for a message.\<close>

definition json_of_message :: "message \<Rightarrow> json" where
  "json_of_message m =
     J_Obj [(''message_id'', J_Str (message_id m)), (''thread_id'', J_Str (thread_id m)),
       (''from_address'', J_Str (from_address m)), (''from_domain'', J_Str (from_domain m)),
       (''subject'', J_Str (subject m)), (''body_text'', J_Str (body_text m)),
       (''headers'', J_Obj (map (\<lambda>h. (fst h, J_Str (snd h))) (headers m))),
       (''mailbox_ids'', J_Arr (map J_Str (mailbox_ids m)))]"

record 'v json_attachment =
  ja_filename :: 'v
  ja_content_type :: 'v
  ja_data :: string

definition attachment_fields :: "string list" where
  "attachment_fields = [''filename'', ''content_type'', ''data_base64'']"

text \<open>The exceptions the base64 step catches: \<open>binascii.Error\<close> is a \<open>ValueError\<close>.\<close>

fun is_value_error :: "exn \<Rightarrow> bool" where
  "is_value_error (ValueError s) = True"
| "is_value_error e = False"

definition decode_attachment ::
  "(json \<Rightarrow> exn + string) \<Rightarrow> string \<Rightarrow> (json \<Rightarrow> string) \<Rightarrow> json \<Rightarrow> nat \<Rightarrow> json \<Rightarrow> exn + json json_attachment" where
  "decode_attachment b64decode path repr mid index att =
     (let here = path @ '': '' @ repr mid @ '' attachment '' @ py_str_int (int index) in
      case att of
        J_Obj d \<Rightarrow>
          (case first_missing attachment_fields d of
             Some f \<Rightarrow> Inl (AttachmentsLoadError (here @ '' missing required field '' @ py_repr f))
           | None \<Rightarrow>
               (case b64decode (field_or J_Null d ''data_base64'') of
                  Inl e \<Rightarrow> if is_value_error e
                           then Inl (AttachmentsLoadError (here @ '' has invalid base64 data'')) else Inl e
                | Inr data \<Rightarrow>
                    Inr \<lparr>ja_filename = field_or J_Null d ''filename'',
                         ja_content_type = field_or J_Null d ''content_type'', ja_data = data\<rparr>))
      | _ \<Rightarrow> Inl (AttachmentsLoadError (here @ '' must be a JSON object'')))"

text \<open>A list or an object cannot be a dict key.\<close>

fun hashable :: "json \<Rightarrow> bool" where
  "hashable (J_Arr xs) = False"
| "hashable (J_Obj d) = False"
| "hashable v = True"

fun collect_attachments ::
  "(json \<Rightarrow> exn + string) \<Rightarrow> string \<Rightarrow> (json \<Rightarrow> string) \<Rightarrow> nat \<Rightarrow> json list \<Rightarrow>
   (json, json json_attachment list) dict \<Rightarrow> exn + (json, json json_attachment list) dict" where
  "collect_attachments b64decode path repr i [] acc = Inr acc"
| "collect_attachments b64decode path repr i (entry # es) acc =
     (let here = path @ '': message '' @ py_str_int (int i) in
      case entry of
        J_Obj d \<Rightarrow>
          (case map_of d ''message_id'' of
             None \<Rightarrow> Inl (AttachmentsLoadError (here @ '' missing '' @ py_repr ''message_id''))
           | Some mid \<Rightarrow>
               (case json_iter (field_or (J_Arr []) d ''attachments'') of
                  Inl e \<Rightarrow> Inl e
                | Inr atts \<Rightarrow>
                    (case decode_entries (decode_attachment b64decode path repr mid) 0 atts of
                       Inl e \<Rightarrow> Inl e
                     | Inr parsed \<Rightarrow>
                         if hashable mid
                         then collect_attachments b64decode path repr (Suc i) es (dict_set acc mid parsed)
                         else Inl (Other_Error ''TypeError'' ''unhashable type''))))
      | _ \<Rightarrow> Inl (AttachmentsLoadError (here @ '' must be a JSON object, got '' @ json_type_name entry)))"

definition load_attachments ::
  "(json \<Rightarrow> exn + string) \<Rightarrow> (json \<Rightarrow> string) \<Rightarrow> string \<Rightarrow> json_file \<Rightarrow>
   exn + (json, json json_attachment list) dict" where
  "load_attachments b64decode repr path file =
     (case load_array AttachmentsLoadError path file of
        Inl e \<Rightarrow> Inl e
      | Inr raw \<Rightarrow> collect_attachments b64decode path repr 0 raw [])"

section \<open>The file provider (provider.py)\<close>

text \<open>\<open>messages[a:b]\<close>, negative indices counting from the end.\<close>

definition slice_index :: "nat \<Rightarrow> int \<Rightarrow> nat" where
  "slice_index len i = (if i < 0 then nat (i + int len) else min (nat i) len)"

definition py_slice :: "'a list \<Rightarrow> int \<Rightarrow> int \<Rightarrow> 'a list" where
  "py_slice xs a b =
     (let i = slice_index (length xs) a; j = slice_index (length xs) b in take (j - i) (drop i xs))"

text \<open>\<open>path.with_name(name)\<close> on a normalised path.\<close>

definition with_name :: "string \<Rightarrow> string \<Rightarrow> exn + string" where
  "with_name path name =
     (let base = takeWhile (\<lambda>c. c \<noteq> CHR ''/'') (rev path)
      in if base = [] \<or> path = ''.'' then Inl (ValueError (py_repr path @ '' has an empty name''))
         else Inr (take (length path - length base) path @ name))"

record file_provider =
  fp_messages_path :: string
  fp_actions_log_path :: string
  fp_drafts_log_path :: string
  fp_keywords_log_path :: string
  fp_available_mailboxes :: "string list option"

definition or_sibling :: "string option \<Rightarrow> string \<Rightarrow> string \<Rightarrow> exn + string" where
  "or_sibling given path name = (case given of Some p \<Rightarrow> Inr p | None \<Rightarrow> with_name path name)"

definition file_provider_init ::
  "string \<Rightarrow> string \<Rightarrow> string option \<Rightarrow> string option \<Rightarrow> string list option \<Rightarrow> exn + file_provider" where
  "file_provider_init messages_path actions_log drafts keywords available =
     (case or_sibling drafts actions_log ''drafts.jsonl'' of
        Inl e \<Rightarrow> Inl e
      | Inr d \<Rightarrow>
          (case or_sibling keywords actions_log ''keywords.jsonl'' of
             Inl e \<Rightarrow> Inl e
           | Inr k \<Rightarrow>
               Inr \<lparr>fp_messages_path = messages_path, fp_actions_log_path = actions_log,
                    fp_drafts_log_path = d, fp_keywords_log_path = k,
                    fp_available_mailboxes = available\<rparr>))"

text \<open>Below, \<open>loaded\<close> is what \<open>load_messages\<close> gives for the provider's file, with typed fields.\<close>

definition file_source :: "exn + message list \<Rightarrow> exn + message sequence_fetcher" where
  "file_source loaded =
     (case loaded of
        Inl e \<Rightarrow> Inl e
      | Inr msgs \<Rightarrow> sequence_fetcher_init msgs (max (int (length msgs)) 1))"

definition get_thread_context :: "message list \<Rightarrow> message \<Rightarrow> thread_context" where
  "get_thread_context msgs msg =
     (let others = filter (\<lambda>m. thread_id m = thread_id msg \<and> message_id m \<noteq> message_id msg) msgs
      in \<lparr>tc_prior_subject = (case others of [] \<Rightarrow> None | m # _ \<Rightarrow> Some (subject m)),
          tc_user_has_replied = list_ex (\<lambda>m. ''Sent'' \<in> set (mailbox_ids m)) others\<rparr>)"

definition file_list_mailboxes :: "file_provider \<Rightarrow> exn + message list \<Rightarrow> exn + string list" where
  "file_list_mailboxes fp loaded =
     (case fp_available_mailboxes fp of
        Some mailboxes \<Rightarrow> Inr mailboxes
      | None \<Rightarrow>
          (case loaded of
             Inl e \<Rightarrow> Inl e
           | Inr msgs \<Rightarrow> Inr (sort (remdups (concat (map mailbox_ids msgs))))))"

definition py_repr_list :: "string list \<Rightarrow> string" where
  "py_repr_list xs = ''['' @ py_join '', '' (map py_repr xs) @ '']''"

definition file_get_message :: "message list \<Rightarrow> string \<Rightarrow> exn + message" where
  "file_get_message msgs mid =
     (case find (\<lambda>m. message_id m = mid) msgs of
        Some m \<Rightarrow> Inr m
      | None \<Rightarrow> Inl (MessageNotFoundError (''no message with id '' @ py_repr mid @ ''; known ids: '' @
                  py_repr_list (sort (map message_id msgs)))))"

definition file_fetch_attachments :: "(string, 'a list) dict \<Rightarrow> message \<Rightarrow> 'a list" where
  "file_fetch_attachments by_id msg =
     (case dict_get by_id (message_id msg) of None \<Rightarrow> [] | Some atts \<Rightarrow> atts)"

definition file_query_messages :: "exn + message list \<Rightarrow> bool \<Rightarrow> int \<Rightarrow> int \<Rightarrow> exn + backfill_page" where
  "file_query_messages loaded unread_only position limit_n =
     (case loaded of
        Inl e \<Rightarrow> Inl e
      | Inr msgs \<Rightarrow>
          (let total = int (length msgs); pg = py_slice msgs position (position + limit_n);
               next = position + int (length pg)
           in Inr \<lparr>bp_messages = pg, bp_position = position, bp_next_position = next,
                   bp_total = Some total, bp_has_more = (next < total)\<rparr>))"

subsection \<open>The JSON-lines logs\<close>

text \<open>\<open>json.dumps\<close> of an object or array whose values are rendered already.\<close>

definition json_object :: "(string \<times> string) list \<Rightarrow> string" where
  "json_object kvs = ''{'' @ py_join '', '' (map (\<lambda>kv. json_string (fst kv) @ '': '' @ snd kv) kvs) @ ''}''"

definition json_array :: "string list \<Rightarrow> string" where
  "json_array vs = ''['' @ py_join '', '' vs @ '']''"

definition json_optional :: "string option \<Rightarrow> string" where
  "json_optional v = (case v of None \<Rightarrow> ''null'' | Some s \<Rightarrow> json_string s)"

type_synonym files = "string \<Rightarrow> string option"

definition append_line :: "string \<Rightarrow> string \<Rightarrow> files \<Rightarrow> files" where
  "append_line path line fs =
     fs(path := Some ((case fs path of None \<Rightarrow> [] | Some old \<Rightarrow> old) @ line @ [newline]))"

definition action_line :: "message \<Rightarrow> action \<Rightarrow> string" where
  "action_line msg a =
     json_object [(''message_id'', json_string (message_id msg)),
       (''action_type'', json_string (action_type_name (a_type a))),
       (''mailbox'', json_optional (a_mailbox a))]"

definition keywords_line :: "message \<Rightarrow> string list \<Rightarrow> string" where
  "keywords_line msg kws =
     json_object [(''message_id'', json_string (message_id msg)),
       (''keywords'', json_array (map json_string kws))]"

definition draft_line :: "message \<Rightarrow> string \<Rightarrow> string" where
  "draft_line msg body =
     json_object [(''in_reply_to_message_id'', json_string (message_id msg)),
       (''body'', json_string body)]"

definition file_apply :: "file_provider \<Rightarrow> message \<Rightarrow> action \<Rightarrow> files \<Rightarrow> files" where
  "file_apply fp msg a = append_line (fp_actions_log_path fp) (action_line msg a)"

definition file_apply_keywords :: "file_provider \<Rightarrow> message \<Rightarrow> string list \<Rightarrow> files \<Rightarrow> files" where
  "file_apply_keywords fp msg kws = append_line (fp_keywords_log_path fp) (keywords_line msg kws)"

definition file_create_draft :: "file_provider \<Rightarrow> message \<Rightarrow> string \<Rightarrow> files \<Rightarrow> files" where
  "file_create_draft fp msg body = append_line (fp_drafts_log_path fp) (draft_line msg body)"

section \<open>Paging\<close>

locale windowed_listing =
  fixes query :: "int \<Rightarrow> int \<Rightarrow> exn + backfill_page" and listing :: "message list"
  assumes window: "0 \<le> position \<Longrightarrow> 0 < limit_n \<Longrightarrow> query position limit_n = Inr pg \<Longrightarrow>
      bp_messages pg = take (nat limit_n) (drop (nat position) listing) \<and>
      bp_next_position pg = position + int (length (bp_messages pg)) \<and>
      (bp_has_more pg \<longleftrightarrow> bp_next_position pg < int (length listing))"
begin

lemma next_in_bounds:
  "0 \<le> position \<Longrightarrow> 0 < limit_n \<Longrightarrow> query position limit_n = Inr pg \<Longrightarrow>
   position \<le> bp_next_position pg \<and> bp_next_position pg \<le> position + limit_n"
  using window [of position limit_n pg] by auto

lemma prefix_grows:
  assumes "0 \<le> position" and "0 < limit_n" and "query position limit_n = Inr pg"
  shows "take (nat (bp_next_position pg)) listing = take (nat position) listing @ bp_messages pg"
proof -
  from window [OF assms] have m: "bp_messages pg = take (nat limit_n) (drop (nat position) listing)"
    and n: "bp_next_position pg = position + int (length (bp_messages pg))" by auto
  have "take (nat position) listing @ bp_messages pg = take (nat position + nat limit_n) listing"
    by (simp add: m take_add)
  also have "\<dots> = take (nat position + length (bp_messages pg)) listing"
    by (auto simp: m min_def)
  finally show ?thesis using assms(1) by (simp add: n nat_add_distrib)
qed

lemma last_page:
  assumes "0 \<le> position" and "0 < limit_n" and "query position limit_n = Inr pg"
    and "\<not> bp_has_more pg \<or> bp_messages pg = []"
  shows "take (nat (bp_next_position pg)) listing = listing"
proof -
  from window [OF assms(1-3)] have m: "bp_messages pg = take (nat limit_n) (drop (nat position) listing)"
    and n: "bp_next_position pg = position + int (length (bp_messages pg))"
    and more: "bp_has_more pg \<longleftrightarrow> bp_next_position pg < int (length listing)" by auto
  have "length listing \<le> nat position" if "bp_messages pg = []"
    using that m assms(2) by simp
  with n more assms(1,4) have "length listing \<le> nat (bp_next_position pg)" by auto
  then show ?thesis by simp
qed

end

lemma file_window:
  assumes "file_query_messages (Inr msgs) u position limit_n = Inr pg" and "0 \<le> position" and "0 < limit_n"
  shows "bp_messages pg = take (nat limit_n) (drop (nat position) msgs)"
    and "bp_next_position pg = position + int (length (bp_messages pg))"
    and "bp_has_more pg \<longleftrightarrow> bp_next_position pg < int (length msgs)"
proof -
  let ?p = "nat position" and ?l = "nat limit_n" and ?n = "length msgs"
  have "\<not> position < 0" and "\<not> position + limit_n < 0" and "nat (position + limit_n) = ?p + ?l"
    using assms(2,3) by auto
  then have "py_slice msgs position (position + limit_n) =
      take (min (?p + ?l) ?n - min ?p ?n) (drop (min ?p ?n) msgs)"
    by (simp only: py_slice_def slice_index_def Let_def if_False)
  also have "\<dots> = take ?l (drop ?p msgs)"
  proof (cases "?p \<le> ?n")
    case True
    then have "min (?p + ?l) ?n - min ?p ?n = min ?l (length (drop ?p msgs))"
      by (simp add: min_def)
    with True show ?thesis by (simp add: min_def)
  qed simp
  finally have "bp_messages pg = take ?l (drop ?p msgs)"
    using assms(1) by (auto simp: file_query_messages_def Let_def)
  then show "bp_messages pg = take (nat limit_n) (drop (nat position) msgs)"
    and "bp_next_position pg = position + int (length (bp_messages pg))"
    and "bp_has_more pg \<longleftrightarrow> bp_next_position pg < int (length msgs)"
    using assms(1) by (auto simp: file_query_messages_def Let_def)
qed

interpretation file_listing: windowed_listing "file_query_messages (Inr msgs) u" msgs for u msgs
  by unfold_locales (auto simp: file_window)

section \<open>Loading\<close>

lemma decode_entries_map:
  "(\<And>i e. e \<in> set es \<Longrightarrow> decode i e = Inr (f e)) \<Longrightarrow> decode_entries decode i es = Inr (map f es)"
  by (induction es arbitrary: i) auto

lemma decode_entries_Inr:
  "decode_entries decode i es = Inr ms \<Longrightarrow>
   length ms = length es \<and> (\<forall>k < length es. decode (i + k) (es ! k) = Inr (ms ! k))"
proof (induction es arbitrary: i ms)
  case Nil
  then show ?case by simp
next
  case (Cons e es)
  then obtain m ms' where m: "decode i e = Inr m" "decode_entries decode (Suc i) es = Inr ms'" "ms = m # ms'"
    by (auto split: sum.splits)
  from Cons.IH [OF m(2)] m show ?case by (auto simp: nth_Cons split: nat.splits)
qed

lemma decode_entries_ok:
  "(\<exists>ms. decode_entries decode i es = Inr ms) \<longleftrightarrow>
     (\<forall>k < length es. \<exists>m. decode (i + k) (es ! k) = Inr m)"
proof (induction es arbitrary: i)
  case Nil
  show ?case by simp
next
  case (Cons e es)
  have "(\<forall>k < length (e # es). \<exists>m. decode (i + k) ((e # es) ! k) = Inr m) \<longleftrightarrow>
      (\<exists>m. decode i e = Inr m) \<and> (\<forall>k < length es. \<exists>m. decode (Suc i + k) (es ! k) = Inr m)"
    by (auto simp: nth_Cons less_Suc_eq_0_disj split: nat.splits)
  with Cons [of "Suc i"] show ?case by (auto split: sum.splits)
qed

lemma decode_entries_Inl:
  "decode_entries decode i es = Inl x \<Longrightarrow> \<exists>k < length es. decode (i + k) (es ! k) = Inl x"
proof (induction es arbitrary: i)
  case Nil
  then show ?case by simp
next
  case (Cons e es)
  show ?case
  proof (cases "decode i e")
    case (Inl y)
    with Cons.prems show ?thesis by (auto intro!: exI [of _ 0])
  next
    case (Inr m)
    with Cons.prems Cons.IH [of "Suc i"] obtain k where "k < length es" "decode (Suc i + k) (es ! k) = Inl x"
      by (auto split: sum.splits)
    then show ?thesis by (auto intro!: exI [of _ "Suc k"])
  qed
qed

lemma all_some_map: "all_some (map Some xs) = Some xs"
  by (induction xs) auto

lemma typed_headers_obj: "typed_headers (J_Obj (map (\<lambda>h. (fst h, J_Str (snd h))) hs)) = Some hs"
  using all_some_map [of hs] by (simp add: typed_headers_def comp_def)

definition loaded_message :: "message \<Rightarrow> json_message" where
  "loaded_message m =
     \<lparr>jm_message_id = J_Str (message_id m), jm_thread_id = J_Str (thread_id m),
      jm_from_address = J_Str (from_address m), jm_from_domain = J_Str (from_domain m),
      jm_subject = J_Str (subject m), jm_body_text = J_Str (body_text m),
      jm_headers = J_Obj (map (\<lambda>h. (fst h, J_Str (snd h))) (headers m)),
      jm_mailbox_ids = map J_Str (mailbox_ids m)\<rparr>"

lemma decode_json_of_message: "decode_message path i (json_of_message m) = Inr (loaded_message m)"
  by (simp add: decode_message_def json_of_message_def first_missing_def message_fields_def
      field_or_def loaded_message_def Let_def)

lemma typed_loaded: "typed_message (loaded_message m) = Some m"
  using all_some_map [of "mailbox_ids m"]
  by (simp add: typed_message_def loaded_message_def typed_headers_obj comp_def)

definition iterable :: "json \<Rightarrow> bool" where
  "iterable v \<longleftrightarrow> (case v of J_Arr _ \<Rightarrow> True | J_Str _ \<Rightarrow> True | J_Obj _ \<Rightarrow> True | _ \<Rightarrow> False)"

definition loadable_entry :: "json \<Rightarrow> bool" where
  "loadable_entry e \<longleftrightarrow>
     (case e of
        J_Obj d \<Rightarrow> (\<forall>f \<in> set message_fields. map_of d f \<noteq> None) \<and>
                   iterable (field_or (J_Arr []) d ''mailbox_ids'')
      | _ \<Rightarrow> False)"

lemma json_iter_ok: "(\<exists>xs. json_iter v = Inr xs) \<longleftrightarrow> iterable v"
  by (cases v) (auto simp: iterable_def)

lemma first_missing_None: "first_missing fs d = None \<longleftrightarrow> (\<forall>f \<in> set fs. map_of d f \<noteq> None)"
  by (auto simp: first_missing_def find_None_iff)

lemma decode_message_ok: "(\<exists>m. decode_message path i e = Inr m) \<longleftrightarrow> loadable_entry e"
proof (cases e)
  case (J_Obj d)
  show ?thesis
    using first_missing_None [of message_fields d] json_iter_ok [of "field_or (J_Arr []) d ''mailbox_ids''"]
    by (auto simp: J_Obj decode_message_def loadable_entry_def Let_def split: option.splits sum.splits)
qed (simp_all add: decode_message_def loadable_entry_def Let_def)

lemma decode_message_Inl:
  assumes "decode_message path i e = Inl x"
  shows "(\<exists>why. x = MessagesLoadError why) \<or>
    (\<exists>d v. e = J_Obj d \<and> map_of d ''mailbox_ids'' = Some v \<and> \<not> iterable v)"
proof (cases e)
  case (J_Obj d)
  with assms json_iter_ok [of "field_or (J_Arr []) d ''mailbox_ids''"] show ?thesis
    by (cases "map_of d ''mailbox_ids''")
      (auto simp: decode_message_def Let_def field_or_def split: option.splits sum.splits)
qed (use assms in \<open>auto simp: decode_message_def Let_def\<close>)

section \<open>The logs\<close>

lemma newline_char: "newline = CHR 0x0A"
  by code_simp

lemma quote_chars: "dquote = CHR 0x22" "backslash = CHR 0x5C"
  by code_simp+

lemma newline_code: "of_char newline = (10::nat)"
  by (simp add: newline_def)

lemma hex_digit_code: "n < 16 \<Longrightarrow> hex_digit n \<noteq> newline"
proof
  assume "n < 16" and "hex_digit n = newline"
  then have "of_char (hex_digit n) = (10::nat)" by (simp add: newline_code)
  with \<open>n < 16\<close> show False by (auto simp: hex_digit_def split: if_splits)
qed

lemma json_char_printable: "newline \<notin> set (json_char c)"
proof -
  let ?n = "of_char c :: nat"
  have "?n < 256" by (rule nat_of_char_less_256)
  then have "?n div 16 < 16" by (simp add: less_mult_imp_div_less)
  with hex_digit_code [of "?n div 16"] hex_digit_code [of "?n mod 16"]
  show ?thesis
    by (auto simp: json_char_def Let_def newline_char quote_chars)
qed

lemma json_string_no_newline [simp]: "newline \<notin> set (json_string s)"
  using json_char_printable by (auto simp: json_string_def newline_char quote_chars)

lemma join_no_newline:
  "newline \<notin> set sep \<Longrightarrow> (\<And>x. x \<in> set xs \<Longrightarrow> newline \<notin> set x) \<Longrightarrow> newline \<notin> set (py_join sep xs)"
  by (induction sep xs rule: py_join.induct) auto

lemma no_newline_join:
  assumes "newline \<notin> set opening" and "newline \<notin> set closing" and "\<And>x. x \<in> set xs \<Longrightarrow> newline \<notin> set x"
  shows "newline \<notin> set (opening @ py_join '', '' xs @ closing)"
  using assms(1,2) join_no_newline [of "'', ''", OF _ assms(3)] by (simp add: newline_char)

lemma json_object_no_newline:
  assumes "\<And>k v. (k, v) \<in> set kvs \<Longrightarrow> newline \<notin> set v"
  shows "newline \<notin> set (json_object kvs)"
  unfolding json_object_def
proof (rule no_newline_join)
  fix x assume "x \<in> set (map (\<lambda>kv. json_string (fst kv) @ '': '' @ snd kv) kvs)"
  then obtain k v where x: "x = json_string k @ '': '' @ v" and "(k, v) \<in> set kvs" by auto
  from this(2) have "newline \<notin> set v" by (rule assms)
  moreover have "newline \<notin> set '': ''" by (simp add: newline_char)
  ultimately show "newline \<notin> set x" unfolding x by simp
qed (simp_all add: newline_char)

lemma json_array_no_newline:
  "(\<And>v. v \<in> set vs \<Longrightarrow> newline \<notin> set v) \<Longrightarrow> newline \<notin> set (json_array vs)"
  unfolding json_array_def by (rule no_newline_join) (simp_all add: newline_char)

lemma json_optional_no_newline: "newline \<notin> set (json_optional v)"
  by (cases v) (simp_all add: json_optional_def, simp add: newline_char)

lemma action_line_no_newline: "newline \<notin> set (action_line msg a)"
  unfolding action_line_def
  by (rule json_object_no_newline) (auto simp: json_optional_no_newline)

lemma keywords_line_no_newline: "newline \<notin> set (keywords_line msg kws)"
proof -
  have "newline \<notin> set (json_array (map json_string kws))"
    by (rule json_array_no_newline) auto
  then show ?thesis unfolding keywords_line_def by (intro json_object_no_newline) auto
qed

lemma draft_line_no_newline: "newline \<notin> set (draft_line msg body)"
  unfolding draft_line_def by (rule json_object_no_newline) auto

lemmas log_lines_no_newline = action_line_no_newline keywords_line_no_newline draft_line_no_newline

datatype file_write = W_Action message action | W_Keywords message "string list" | W_Draft message string

fun log_write :: "file_provider \<Rightarrow> file_write \<Rightarrow> files \<Rightarrow> files" where
  "log_write fp (W_Action m a) = file_apply fp m a"
| "log_write fp (W_Keywords m kws) = file_apply_keywords fp m kws"
| "log_write fp (W_Draft m body) = file_create_draft fp m body"

fun write_line :: "file_write \<Rightarrow> string" where
  "write_line (W_Action m a) = action_line m a"
| "write_line (W_Keywords m kws) = keywords_line m kws"
| "write_line (W_Draft m body) = draft_line m body"

fun write_path :: "file_provider \<Rightarrow> file_write \<Rightarrow> string" where
  "write_path fp (W_Action m a) = fp_actions_log_path fp"
| "write_path fp (W_Keywords m kws) = fp_keywords_log_path fp"
| "write_path fp (W_Draft m body) = fp_drafts_log_path fp"

definition file_text :: "files \<Rightarrow> string \<Rightarrow> string" where
  "file_text fs path = (case fs path of None \<Rightarrow> [] | Some s \<Rightarrow> s)"

lemma log_write_eq: "log_write fp wr fs = append_line (write_path fp wr) (write_line wr) fs"
  by (cases wr) (simp_all add: file_apply_def file_apply_keywords_def file_create_draft_def)

lemma file_text_append [simp]:
  "file_text (append_line p line fs) q = (if q = p then file_text fs q @ line @ [newline] else file_text fs q)"
  by (simp add: file_text_def append_line_def)

lemma py_split_line: "newline \<notin> set line \<Longrightarrow> py_split newline (line @ newline # rest) = line # py_split newline rest"
  by (induction line) auto

lemma py_split_lines:
  "(\<And>l. l \<in> set ls \<Longrightarrow> newline \<notin> set l) \<Longrightarrow>
   py_split newline (concat (map (\<lambda>l. l @ [newline]) ls)) = ls @ [[]]"
  by (induction ls) (auto simp: py_split_line)

lemma write_line_no_newline: "newline \<notin> set (write_line wr)"
  by (cases wr) (simp_all add: log_lines_no_newline)

lemma file_writes_text:
  "file_text (fold (log_write fp) ws fs) path =
     file_text fs path @
     concat (map (\<lambda>wr. write_line wr @ [newline]) (filter (\<lambda>wr. write_path fp wr = path) ws))"
  by (induction ws arbitrary: fs) (auto simp: log_write_eq)

section \<open>Properties\<close>

text \<open>Loading what a fixture holds: a file with one object per message gives back exactly
  those messages, in file order, whatever their texts, headers and mailboxes.\<close>

theorem load_messages_roundtrip:
  "\<exists>js. load_messages path (Decoded (J_Arr (map json_of_message ms))) = Inr js \<and>
     map typed_message js = map Some ms"
proof -
  have "decode_entries (decode_message path) 0 (map json_of_message ms) =
      Inr (map (\<lambda>e. case decode_message path 0 e of Inr m \<Rightarrow> m) (map json_of_message ms))"
    by (rule decode_entries_map) (auto simp: decode_json_of_message)
  then show ?thesis
    by (simp add: load_messages_def load_array_def decode_json_of_message comp_def typed_loaded)
qed

text \<open>Which files load: exactly a decodable array of objects that all have the six required
  fields and an iterable mailbox list, and then entry by entry. Every refusal is a
  \<open>MessagesLoadError\<close> except a mailbox list that cannot be iterated, whose \<open>TypeError\<close> escapes.\<close>

theorem load_messages_accepts:
  "case load_messages path file of
     Inr ms \<Rightarrow> (\<exists>raw. file = Decoded (J_Arr raw) \<and> list_all loadable_entry raw \<and> length ms = length raw \<and>
        (\<forall>k < length raw. decode_message path k (raw ! k) = Inr (ms ! k)))
   | Inl e \<Rightarrow> (\<nexists>raw. file = Decoded (J_Arr raw) \<and> list_all loadable_entry raw) \<and>
       ((\<exists>why. e = MessagesLoadError why) \<or>
        (\<exists>raw d v. file = Decoded (J_Arr raw) \<and> J_Obj d \<in> set raw \<and>
           map_of d ''mailbox_ids'' = Some v \<and> \<not> iterable v))"
proof (cases "load_array MessagesLoadError path file")
  case (Inl e)
  then show ?thesis
    by (auto simp: load_messages_def load_array_def split: json_file.splits json.splits)
next
  case (Inr raw)
  then have f: "file = Decoded (J_Arr raw)"
    by (auto simp: load_array_def split: json_file.splits json.splits)
  have all: "list_all loadable_entry raw \<longleftrightarrow> (\<forall>k < length raw. \<exists>m. decode_message path k (raw ! k) = Inr m)"
    by (simp add: list_all_length decode_message_ok)
  show ?thesis
  proof (cases "decode_entries (decode_message path) 0 raw")
    case (Inr ms)
    from decode_entries_Inr [OF this] Inr f all show ?thesis
      by (auto simp: load_messages_def load_array_def)
  next
    case (Inl e)
    from decode_entries_Inl [OF this] obtain k where k: "k < length raw" "decode_message path k (raw ! k) = Inl e"
      by auto
    from decode_message_Inl [OF k(2)] k(1) Inl f all k(2) show ?thesis
      by (auto simp: load_messages_def load_array_def) (metis nth_mem)+
  qed
qed

text \<open>A replay source hands out every message exactly once, in order, at most
  \<open>batch_size\<close> at a time and never an empty batch while messages are left; after as many polls
  as there are messages it answers the empty batch on every further poll.\<close>

theorem sequence_replay:
  assumes "sequence_fetcher_init ms n = Inr f" and "length ms \<le> k"
  shows "\<exists>bs f'. polls replay_poll k f = (Inr bs, f') \<and> concat bs = ms \<and>
     (\<forall>j. polls replay_poll j f' = (Inr (replicate j []), f'))"
proof -
  from assms(1) have f: "sf_remaining f = ms" "1 \<le> sf_batch_size f"
    by (auto simp: sequence_fetcher_init_def split: if_splits)
  from sequence.polls_exhaust [OF f(2)] f(1) assms(2) obtain bs f'
    where p: "polls replay_poll k f = (Inr bs, f')" "concat bs = ms" "sf_remaining f' = []" by metis
  have "polls replay_poll j f' = (Inr (replicate j []), f')" for j
  proof (induction j)
    case (Suc j)
    have "replay_poll f' = (Inr [], f')" using p(3) by (simp add: replay_poll_eq)
    with Suc show ?case by simp
  qed simp
  with p show ?thesis by auto
qed

text \<open>The file provider's logs: whatever is written in whatever order, each log splits into
  exactly one line per write to it, in order, because no rendered entry holds a newline.\<close>

theorem file_logs_one_line_each:
  "py_split newline (file_text (fold (log_write fp) ws (\<lambda>_. None)) path) =
     map write_line (filter (\<lambda>wr. write_path fp wr = path) ws) @ [[]]"
proof -
  let ?ls = "map write_line (filter (\<lambda>wr. write_path fp wr = path) ws)"
  have "py_split newline (concat (map (\<lambda>l. l @ [newline]) ?ls)) = ?ls @ [[]]"
    by (rule py_split_lines) (auto simp: write_line_no_newline)
  then show ?thesis by (simp add: file_writes_text comp_def) (simp add: file_text_def)
qed

section \<open>Witnesses\<close>

theorem sequence_replay_witness:
  "\<exists>bs f'. polls replay_poll 3 \<lparr>sf_remaining = ''abc'', sf_batch_size = 2\<rparr> = (Inr bs, f') \<and>
     concat bs = ''abc''"
  using sequence_replay [of "''abc''" 2 "\<lparr>sf_remaining = ''abc'', sf_batch_size = 2\<rparr>" 3]
  by (auto simp: sequence_fetcher_init_def)

theorem load_messages_accepts_witness:
  "\<exists>ms. load_messages ''f'' (Decoded (J_Arr [json_of_message
       \<lparr>message_id = ''m1'', thread_id = ''t'', from_address = ''a@b'', from_domain = ''b'', subject = ''s'',
        body_text = ''x'', headers = [], mailbox_ids = [''inbox'']\<rparr>])) = Inr ms \<and> length ms = 1"
  using load_messages_accepts [of "Decoded (J_Arr [json_of_message
       \<lparr>message_id = ''m1'', thread_id = ''t'', from_address = ''a@b'', from_domain = ''b'', subject = ''s'',
        body_text = ''x'', headers = [], mailbox_ids = [''inbox'']\<rparr>])" "''f''"]
  by (auto simp: loadable_entry_def iterable_def field_or_def json_of_message_def message_fields_def
      first_missing_def split: sum.splits)

end
