(* ===== verification/Config_File.thy ===== *)
theory Config_File
  imports Toml_Text Receipt_Archive Mail_Sources
begin

text \<open>
  \<open>core/config/paths.py\<close>, \<open>core/config/loader.py\<close>, the tables of \<open>core/config/schema.py\<close>,
  \<open>core/runtime.py\<close>'s secret handling and \<open>spork config show\<close>. The process environment is a
  record; a path is its text, and \<open>/\<close> joins as \<open>path_join\<close> does. pydantic's validation of the
  merged dict is a parameter; the abstract specification of the merge is \<open>override\<close> on the
  nodes a dict has.
\<close>

section \<open>Paths (paths.py)\<close>

record process_env =
  pv_environ :: "string \<Rightarrow> string option"
  pv_home :: string
  pv_uid :: nat
  pv_config_override :: "string option"
  pv_secretspec_override :: "string option"

text \<open>\<open>configure_runtime_paths\<close> sets both overrides, \<open>None\<close> included.\<close>

definition configure_runtime_paths :: "string option \<Rightarrow> string option \<Rightarrow> process_env \<Rightarrow> process_env" where
  "configure_runtime_paths config_path secretspec_path env =
     env\<lparr>pv_config_override := config_path, pv_secretspec_override := secretspec_path\<rparr>"

definition enforced_config_path :: string where
  "enforced_config_path = ''/etc/spork/enforced.toml''"

definition is_absolute :: "string \<Rightarrow> bool" where
  "is_absolute path = prefix ''/'' path"

definition environ_get :: "process_env \<Rightarrow> string \<Rightarrow> string" where
  "environ_get env name = (case pv_environ env name of None \<Rightarrow> [] | Some v \<Rightarrow> v)"

definition env_absolute_path :: "process_env \<Rightarrow> string \<Rightarrow> string option" where
  "env_absolute_path env name =
     (let v = environ_get env name in if v = [] \<or> \<not> is_absolute v then None else Some v)"

definition config_home :: "process_env \<Rightarrow> string" where
  "config_home env =
     (case env_absolute_path env ''XDG_CONFIG_HOME'' of
        None \<Rightarrow> path_join (pv_home env) ''.config'' | Some base \<Rightarrow> base)"

definition resolve_user_config_path :: "process_env \<Rightarrow> string" where
  "resolve_user_config_path env =
     (case pv_config_override env of
        Some p \<Rightarrow> p | None \<Rightarrow> path_join (path_join (config_home env) ''spork'') ''config.toml'')"

definition resolve_system_default_config_paths :: "process_env \<Rightarrow> string list" where
  "resolve_system_default_config_paths env =
     (let raw = (if environ_get env ''XDG_CONFIG_DIRS'' = [] then ''/etc/xdg'' else environ_get env ''XDG_CONFIG_DIRS'');
          dirs = filter (\<lambda>e. e \<noteq> [] \<and> is_absolute e) (py_split (CHR '':'') raw);
          dirs' = (if dirs = [] then [''/etc/xdg''] else dirs)
      in map (\<lambda>d. path_join (path_join d ''spork'') ''config.toml'') dirs')"

text \<open>The socket path, and whether the fallback's warning is issued.\<close>

definition resolve_socket_path :: "process_env \<Rightarrow> string \<times> bool" where
  "resolve_socket_path env =
     (case env_absolute_path env ''XDG_RUNTIME_DIR'' of
        Some base \<Rightarrow> (path_join (path_join base ''spork'') ''sporkd.sock'', False)
      | None \<Rightarrow> (path_join (''/tmp/spork-'' @ py_str_int (int (pv_uid env))) ''sporkd.sock'', True))"

definition resolve_secretspec_path :: "process_env \<Rightarrow> string" where
  "resolve_secretspec_path env =
     (case pv_secretspec_override env of
        Some p \<Rightarrow> p | None \<Rightarrow> path_join (path_join (config_home env) ''spork'') ''secretspec.toml'')"

definition resolve_user_unit_path :: "process_env \<Rightarrow> string \<Rightarrow> string" where
  "resolve_user_unit_path env unit_name =
     path_join (path_join (config_home env) ''systemd/user'') (unit_name @ ''.service'')"

section \<open>The configuration (schema.py)\<close>

record backend_spec =
  be_spec :: string
  be_kwargs :: "(string, toml) dict"
  be_secret_kwargs :: "(string, string) dict"

text \<open>\<open>disallow_overlapping_kwargs\<close>: the message of the \<open>ValueError\<close>, or the model.\<close>

definition disallow_overlapping_kwargs :: "backend_spec \<Rightarrow> string + backend_spec" where
  "disallow_overlapping_kwargs spec =
     (let overlap = filter (\<lambda>k. k \<in> fst ` set (be_secret_kwargs spec)) (map fst (be_kwargs spec))
      in if overlap = [] then Inr spec
         else Inl (''kwargs and secret_kwargs overlap: '' @ py_join '', '' (sort overlap)))"

record receipt_archive_config =
  rc_output_dir :: string
  rc_extraction :: backend_spec

datatype log_level = Debug | Info | Warning | Error | Critical_Level

record spork_config =
  sc_provider :: backend_spec
  sc_llm :: backend_spec
  sc_alerts :: backend_spec
  sc_context :: "backend_spec option"
  sc_llm_recording :: "string option"
  sc_receipt_archive :: "receipt_archive_config option"
  sc_rules_path :: string
  sc_db_path :: string
  sc_socket_path :: "string option"
  sc_tiering :: tiering_config
  sc_log_level :: log_level

section \<open>Loading (loader.py)\<close>

text \<open>What reading a tier's file meets. A text that is not UTF-8 raises \<open>UnicodeDecodeError\<close>, which is
  neither an \<open>OSError\<close> nor a \<open>TOMLDecodeError\<close>.\<close>

datatype toml_file =
  No_File | Unreadable string | Not_Utf8 string | Malformed string | Parsed "(string, toml) dict"

abbreviation unicode_error :: "string \<Rightarrow> exn" where
  "unicode_error why \<equiv> Other_Error ''UnicodeDecodeError'' why"

definition read_toml :: "string \<Rightarrow> toml_file \<Rightarrow> exn + (string, toml) dict" where
  "read_toml path f =
     (case f of
        No_File \<Rightarrow> Inr []
      | Unreadable why \<Rightarrow> Inl (ConfigLoadError (''could not read '' @ path @ '': '' @ why))
      | Not_Utf8 why \<Rightarrow> Inl (unicode_error why)
      | Malformed why \<Rightarrow> Inl (ConfigLoadError (''invalid TOML in '' @ path @ '': '' @ why))
      | Parsed d \<Rightarrow> Inr d)"

fun merge_value :: "toml option \<Rightarrow> toml \<Rightarrow> toml"
  and deep_merge :: "(string \<times> toml) list \<Rightarrow> (string \<times> toml) list \<Rightarrow> (string \<times> toml) list" where
  "merge_value (Some (T_Table base)) (T_Table override) = T_Table (deep_merge base override)"
| "merge_value cur value = value"
| "deep_merge merged [] = merged"
| "deep_merge merged ((key, value) # rest) =
     deep_merge (dict_set merged key (merge_value (dict_get merged key) value)) rest"

text \<open>\<open>candidate.exists()\<close> is any outcome but \<open>No_File\<close>; the first one is read, the rest are not.\<close>

fun first_system_default :: "(string \<Rightarrow> toml_file) \<Rightarrow> string list \<Rightarrow> exn + (string, toml) dict" where
  "first_system_default fs [] = Inr []"
| "first_system_default fs (p # ps) =
     (if fs p = No_File then first_system_default fs ps else read_toml p (fs p))"

definition load_config ::
  "((string, toml) dict \<Rightarrow> string + spork_config) \<Rightarrow> process_env \<Rightarrow> (string \<Rightarrow> toml_file) \<Rightarrow> exn + spork_config" where
  "load_config validate env fs =
     (case first_system_default fs (resolve_system_default_config_paths env) of
        Inl e \<Rightarrow> Inl e
      | Inr system_default \<Rightarrow>
          (case read_toml (resolve_user_config_path env) (fs (resolve_user_config_path env)) of
             Inl e \<Rightarrow> Inl e
           | Inr user \<Rightarrow>
               (case read_toml enforced_config_path (fs enforced_config_path) of
                  Inl e \<Rightarrow> Inl e
                | Inr enforced \<Rightarrow>
                    (case validate (deep_merge (deep_merge system_default user) enforced) of
                       Inl why \<Rightarrow> Inl (ConfigLoadError (''invalid config: '' @ why))
                     | Inr config \<Rightarrow>
                         Inr (if sc_socket_path config = None
                              then config\<lparr>sc_socket_path := Some (fst (resolve_socket_path env))\<rparr>
                              else config)))))"

fun flatten_value :: "string \<Rightarrow> toml \<Rightarrow> string list" and flatten_keys :: "(string \<times> toml) list \<Rightarrow> string \<Rightarrow> string list" where
  "flatten_value path (T_Table t) = flatten_keys t path"
| "flatten_value path v = [path]"
| "flatten_keys [] pre = []"
| "flatten_keys ((key, value) # raw) pre =
     flatten_value (if pre = [] then key else pre @ ''.'' @ key) value @ flatten_keys raw pre"

definition enforced_override_paths :: "(string \<Rightarrow> toml_file) \<Rightarrow> exn + string list" where
  "enforced_override_paths fs =
     (case read_toml enforced_config_path (fs enforced_config_path) of
        Inl e \<Rightarrow> Inl e | Inr raw \<Rightarrow> Inr (flatten_keys raw []))"

section \<open>Showing the configuration (cli/commands/config.py)\<close>

definition secret_key_markers :: "string list" where
  "secret_key_markers = [''token'', ''key'', ''secret'', ''password'']"

definition looks_like_secret :: "string \<Rightarrow> bool" where
  "looks_like_secret key = list_ex (\<lambda>m. py_contains m (py_lower key)) secret_key_markers"

definition add_line :: "string list \<Rightarrow> string \<Rightarrow> string \<Rightarrow> string" where
  "add_line enforced path value =
     path @ '' = '' @ value @ (if path \<in> set enforced then '' (enforced)'' else [])"

definition optional_text :: "string option \<Rightarrow> string" where
  "optional_text v = (case v of None \<Rightarrow> ''None'' | Some s \<Rightarrow> s)"

text \<open>\<open>show\<close> is \<open>str\<close> of a value and \<open>float_text\<close> \<open>str\<close> of a float.\<close>

definition section_lines :: "(toml \<Rightarrow> string) \<Rightarrow> string list \<Rightarrow> string \<Rightarrow> backend_spec \<Rightarrow> string list" where
  "section_lines show enforced sec spec =
     [add_line enforced (sec @ ''.spec'') (be_spec spec)] @
     map (\<lambda>kv. add_line enforced (sec @ ''.kwargs.'' @ fst kv)
               (if looks_like_secret (fst kv) then ''<redacted>'' else show (snd kv))) (be_kwargs spec) @
     map (\<lambda>kv. add_line enforced (sec @ ''.secret_kwargs.'' @ fst kv) (snd kv)) (be_secret_kwargs spec)"

definition tiering_lines :: "(pyfloat \<Rightarrow> string) \<Rightarrow> string list \<Rightarrow> tiering_config \<Rightarrow> string list" where
  "tiering_lines float_text enforced t =
     [add_line enforced ''tiering.default_unmatched_action'' (action_type_name (t_default_unmatched_action t)),
      add_line enforced ''tiering.alert_threshold'' (float_text (t_alert_threshold t)),
      add_line enforced ''tiering.autoact_threshold'' (float_text (t_autoact_threshold t)),
      add_line enforced ''tiering.daily_call_budget'' (py_str_int (t_daily_call_budget t)),
      add_line enforced ''tiering.max_body_chars'' (py_str_int (t_max_body_chars t)),
      add_line enforced ''tiering.local_classifier'' (optional_text (t_local_classifier t)),
      add_line enforced ''tiering.allowed_categories'' (py_repr_list (t_allowed_categories t))]"

definition format_show_lines ::
  "(toml \<Rightarrow> string) \<Rightarrow> (pyfloat \<Rightarrow> string) \<Rightarrow> spork_config \<Rightarrow> string list \<Rightarrow> string list" where
  "format_show_lines show float_text config enforced =
     [add_line enforced ''rules_path'' (sc_rules_path config),
      add_line enforced ''db_path'' (sc_db_path config),
      add_line enforced ''socket_path'' (optional_text (sc_socket_path config))] @
     section_lines show enforced ''provider'' (sc_provider config) @
     section_lines show enforced ''llm'' (sc_llm config) @
     section_lines show enforced ''alerts'' (sc_alerts config) @
     (case sc_llm_recording config of
        None \<Rightarrow> [] | Some p \<Rightarrow> [add_line enforced ''llm_recording.corpus_path'' p]) @
     tiering_lines float_text enforced (sc_tiering config)"

section \<open>Dicts as trees: the abstract merge\<close>

text \<open>A Python dict has each key once, at every level.\<close>

fun wf_value :: "toml \<Rightarrow> bool" and wf_pairs :: "(string \<times> toml) list \<Rightarrow> bool" where
  "wf_value (T_Table t) = (distinct (map fst t) \<and> wf_pairs t)"
| "wf_value v = True"
| "wf_pairs [] = True"
| "wf_pairs ((k, v) # ps) = (wf_value v \<and> wf_pairs ps)"

definition wf_dict :: "(string, toml) dict \<Rightarrow> bool" where
  "wf_dict d \<longleftrightarrow> distinct (map fst d) \<and> wf_pairs d"

text \<open>What is at a path of keys: a value that is no table, or an inner table.\<close>

datatype node = Leaf toml | Inner

fun value_at :: "toml \<Rightarrow> string list \<Rightarrow> node option" where
  "value_at (T_Table t) [] = Some Inner"
| "value_at v [] = Some (Leaf v)"
| "value_at (T_Table t) (k # ks) = Option.bind (dict_get t k) (\<lambda>v. value_at v ks)"
| "value_at v (k # ks) = None"

definition node_at :: "(string, toml) dict \<Rightarrow> string list \<Rightarrow> node option" where
  "node_at d ks = value_at (T_Table d) ks"

definition is_leaf :: "node option \<Rightarrow> bool" where
  "is_leaf n \<longleftrightarrow> (case n of Some (Leaf v) \<Rightarrow> True | _ \<Rightarrow> False)"

text \<open>Some proper prefix of the path is a value.\<close>

fun hidden :: "(string list \<Rightarrow> node option) \<Rightarrow> string list \<Rightarrow> bool" where
  "hidden tree [] = False"
| "hidden tree (k # ks) = (is_leaf (tree []) \<or> hidden (\<lambda>p. tree (k # p)) ks)"

text \<open>The higher layer wins where it has a node; a value of it hides what the lower one has
  below.\<close>

definition override ::
  "(string list \<Rightarrow> node option) \<Rightarrow> (string list \<Rightarrow> node option) \<Rightarrow> string list \<Rightarrow> node option" where
  "override low high p =
     (case high p of
        Some n \<Rightarrow> Some n
      | None \<Rightarrow> if hidden high p then None else low p)"

lemma dict_get_deep_merge:
  "distinct (map fst over) \<Longrightarrow>
   dict_get (deep_merge base over) k =
     (case dict_get over k of
        None \<Rightarrow> dict_get base k | Some v \<Rightarrow> Some (merge_value (dict_get base k) v))"
proof (induction over arbitrary: base)
  case Nil
  show ?case by simp
next
  case (Cons p over)
  obtain k' v' where p: "p = (k', v')" by (cases p)
  have "k' \<notin> dom (map_of over)" using Cons.prems p by (simp add: dom_map_of_conv_image_fst)
  then have "dict_get over k' = None" by auto
  then show ?case using Cons p by (auto split: option.splits)
qed

lemma merge_table:
  "merge_value cur (T_Table t) =
     (case cur of Some (T_Table b) \<Rightarrow> T_Table (deep_merge b t) | _ \<Rightarrow> T_Table t)"
  by (auto split: option.splits toml.splits)

lemma merge_no_table: "(\<And>t. v \<noteq> T_Table t) \<Longrightarrow> merge_value cur v = v"
  by (cases "(cur, v)" rule: merge_value.cases) auto

lemma value_at_no_table: "(\<And>t. v \<noteq> T_Table t) \<Longrightarrow> value_at v ks = (if ks = [] then Some (Leaf v) else None)"
  by (cases "(v, ks)" rule: value_at.cases) auto

lemma node_at_simps:
  "node_at d [] = Some Inner"
  "node_at d (k # ks) = Option.bind (dict_get d k) (\<lambda>v. value_at v ks)"
  by (simp_all add: node_at_def)

lemma hidden_None: "hidden (\<lambda>p. None) ks = False"
  by (induction ks) (auto simp: is_leaf_def)

lemma hidden_leaf: "ks \<noteq> [] \<Longrightarrow> hidden (\<lambda>p. if p = [] then Some (Leaf v) else None) ks"
  by (cases ks) (auto simp: is_leaf_def)

lemma override_Cons:
  assumes "high [] = Some Inner"
  shows "override low high (k # ks) = override (\<lambda>p. low (k # p)) (\<lambda>p. high (k # p)) ks"
  unfolding override_def by (simp add: assms is_leaf_def)

lemma node_at_merge:
  "wf_dict over \<Longrightarrow> node_at (deep_merge base over) p = override (node_at base) (node_at over) p"
proof (induction p arbitrary: base over)
  case Nil
  show ?case by (simp add: override_def node_at_simps)
next
  case (Cons k ks)
  have dist: "distinct (map fst over)" using Cons.prems by (simp add: wf_dict_def)
  have step: "override (node_at base) (node_at over) (k # ks) =
      override (\<lambda>p. node_at base (k # p)) (\<lambda>p. node_at over (k # p)) ks"
    by (rule override_Cons) (simp add: node_at_simps)
  show ?case
  proof (cases "dict_get over k")
    case None
    then show ?thesis
      unfolding step by (simp add: node_at_simps dict_get_deep_merge [OF dist] override_def hidden_None)
  next
    case (Some v)
    show ?thesis
    proof (cases "\<exists>t. v = T_Table t")
      case True
      then obtain t where v: "v = T_Table t" by blast
      have wf_t: "wf_dict t"
      proof -
        have "wf_pairs over \<Longrightarrow> dict_get over k = Some v \<Longrightarrow> wf_value v"
          by (induction over) (auto split: if_splits)
        then show ?thesis using Cons.prems Some v by (simp add: wf_dict_def)
      qed
      have over: "(\<lambda>p. node_at over (k # p)) = node_at t"
        by (rule ext) (simp add: node_at_simps Some v node_at_def)
      show ?thesis
      proof (cases "\<exists>b. dict_get base k = Some (T_Table b)")
        case True
        then obtain b where b: "dict_get base k = Some (T_Table b)" by blast
        have base: "(\<lambda>p. node_at base (k # p)) = node_at b"
          by (rule ext) (simp add: node_at_simps b node_at_def)
        show ?thesis
          unfolding step over base
          using Cons.IH [OF wf_t, of b] by (simp add: node_at_simps dict_get_deep_merge [OF dist] Some v b flip: node_at_def)
      next
        case False
        then have m: "merge_value (dict_get base k) v = T_Table t"
          by (auto simp: v merge_table split: option.splits toml.splits)
        have "node_at base (k # ks) = None" if "ks \<noteq> []"
          using False that by (cases "dict_get base k") (auto simp: node_at_simps value_at_no_table)
        then show ?thesis
          unfolding step over
          by (cases ks) (auto simp: node_at_simps dict_get_deep_merge [OF dist] Some m override_def node_at_def split: option.splits)
      qed
    next
      case False
      then have m: "merge_value (dict_get base k) v = v" by (intro merge_no_table) auto
      have leaf: "node_at over (k # p) = (if p = [] then Some (Leaf v) else None)" for p
        using False by (simp add: node_at_simps Some value_at_no_table)
      have "node_at (deep_merge base over) (k # ks) = (if ks = [] then Some (Leaf v) else None)"
        using False by (simp add: node_at_simps dict_get_deep_merge [OF dist] Some m value_at_no_table)
      then show ?thesis
        unfolding step unfolding override_def leaf using hidden_leaf by auto
    qed
  qed
qed

lemma merged_nodes: "wf_dict over \<Longrightarrow> node_at (deep_merge base over) = override (node_at base) (node_at over)"
  by (rule ext) (rule node_at_merge)

text \<open>Merging keeps dicts well-formed.\<close>

lemma wf_pairs_get: "wf_pairs d \<Longrightarrow> dict_get d k = Some v \<Longrightarrow> wf_value v"
  by (induction d) (auto split: if_splits)

lemma wf_pairs_set: "wf_pairs d \<Longrightarrow> wf_value v \<Longrightarrow> wf_pairs (dict_set d k v)"
  by (induction d) auto

lemma wf_merge:
  "(\<forall>v. cur = Some v \<longrightarrow> wf_value v) \<Longrightarrow> wf_value new \<Longrightarrow> wf_value (merge_value cur new)"
  "wf_dict base \<Longrightarrow> wf_pairs over \<Longrightarrow> wf_dict (deep_merge base over)"
proof (induction cur new and base over rule: merge_value_deep_merge.induct)
  case (1 base over)
  then show ?case by (simp add: wf_dict_def)
next
  case (4 merged key v rest)
  have "wf_value (merge_value (dict_get merged key) v)"
    using 4 wf_pairs_get by (auto simp: wf_dict_def)
  then have "wf_dict (dict_set merged key (merge_value (dict_get merged key) v))"
    using 4 wf_pairs_set by (simp add: wf_dict_def)
  with 4 show ?case by simp
qed auto

text \<open>The dotted paths of a dict's values.\<close>

definition dots :: "string list \<Rightarrow> string" where
  "dots ks = concat (map (\<lambda>k. CHR ''.'' # k) ks)"

lemma dots_simps [simp]: "dots [] = []" "dots (k # ks) = CHR ''.'' # k @ dots ks"
  by (simp_all add: dots_def)

lemma join_dots: "py_join ''.'' (k # ks) = k @ dots ks"
  by (induction ks arbitrary: k) auto

fun named_value :: "toml \<Rightarrow> bool" and named_pairs :: "(string \<times> toml) list \<Rightarrow> bool" where
  "named_value (T_Table t) = named_pairs t"
| "named_value v = True"
| "named_pairs [] = True"
| "named_pairs ((k, v) # ps) = (k \<noteq> [] \<and> named_value v \<and> named_pairs ps)"

lemma node_at_first:
  assumes "distinct (map fst ((key, v) # raw))"
  shows "node_at ((key, v) # raw) (k # ks) = (if k = key then value_at v ks else node_at raw (k # ks))"
    and "node_at raw (key # ks) = None"
proof -
  show "node_at ((key, v) # raw) (k # ks) = (if k = key then value_at v ks else node_at raw (k # ks))"
    by (simp add: node_at_simps)
  have "key \<notin> dom (map_of raw)" using assms by (simp add: dom_map_of_conv_image_fst)
  then have "dict_get raw key = None" by auto
  then show "node_at raw (key # ks) = None" by (simp add: node_at_simps)
qed

lemma flatten_paths:
  "path \<noteq> [] \<Longrightarrow> wf_value v \<Longrightarrow> named_value v \<Longrightarrow>
   set (flatten_value path v) = {path @ dots ks | ks x. value_at v ks = Some (Leaf x)}"
  "wf_dict raw \<Longrightarrow> named_pairs raw \<Longrightarrow>
   set (flatten_keys raw pre) =
     {(if pre = [] then k else pre @ ''.'' @ k) @ dots ks | k ks x. node_at raw (k # ks) = Some (Leaf x)}"
proof (induction path v and raw pre rule: flatten_value_flatten_keys.induct)
  case (1 path t)
  have t: "set (flatten_keys t path) =
      {path @ ''.'' @ k @ dots ks | k ks x. node_at t (k # ks) = Some (Leaf x)}"
    using 1 by (simp add: wf_dict_def)
  have "{path @ dots ks | ks x. value_at (T_Table t) ks = Some (Leaf x)} =
      {path @ dots (k # ks) | k ks x. node_at t (k # ks) = Some (Leaf x)}"
  proof (rule set_eqI)
    fix p
    have "(\<exists>ks x. p = path @ dots ks \<and> node_at t ks = Some (Leaf x)) \<longleftrightarrow>
        (\<exists>k ks x. p = path @ dots (k # ks) \<and> node_at t (k # ks) = Some (Leaf x))"
    proof
      assume "\<exists>ks x. p = path @ dots ks \<and> node_at t ks = Some (Leaf x)"
      then obtain ks x where ks: "p = path @ dots ks" "node_at t ks = Some (Leaf x)" by blast
      then obtain k ks' where "ks = k # ks'" by (cases ks) (auto simp: node_at_simps)
      with ks show "\<exists>k ks x. p = path @ dots (k # ks) \<and> node_at t (k # ks) = Some (Leaf x)" by blast
    qed blast
    then show "p \<in> {path @ dots ks | ks x. value_at (T_Table t) ks = Some (Leaf x)} \<longleftrightarrow>
        p \<in> {path @ dots (k # ks) | k ks x. node_at t (k # ks) = Some (Leaf x)}"
      by (simp add: node_at_def)
  qed
  with t show ?case by simp
next
  case (3 pre)
  then show ?case by (simp add: node_at_simps)
next
  case (4 key v raw pre)
  let ?p = "\<lambda>k. if pre = [] then k else pre @ ''.'' @ k"
  have dist: "distinct (map fst ((key, v) # raw))" using 4 by (simp add: wf_dict_def)
  have "set (flatten_value (?p key) v) = {?p key @ dots ks | ks x. value_at v ks = Some (Leaf x)}"
    using 4 by (simp add: wf_dict_def)
  moreover have "set (flatten_keys raw pre) = {?p k @ dots ks | k ks x. node_at raw (k # ks) = Some (Leaf x)}"
    using 4 by (simp add: wf_dict_def)
  moreover have "{?p k @ dots ks | k ks x. node_at ((key, v) # raw) (k # ks) = Some (Leaf x)} =
      {?p key @ dots ks | ks x. value_at v ks = Some (Leaf x)} \<union>
      {?p k @ dots ks | k ks x. node_at raw (k # ks) = Some (Leaf x)}" (is "?l = ?r")
  proof (rule set_eqI)
    fix p
    have "(\<exists>k ks x. p = ?p k @ dots ks \<and> node_at ((key, v) # raw) (k # ks) = Some (Leaf x)) \<longleftrightarrow>
        (\<exists>ks x. p = ?p key @ dots ks \<and> value_at v ks = Some (Leaf x)) \<or>
        (\<exists>k ks x. p = ?p k @ dots ks \<and> node_at raw (k # ks) = Some (Leaf x))" (is "?a \<longleftrightarrow> ?b \<or> ?c")
    proof
      assume ?a
      then obtain k ks x where k: "p = ?p k @ dots ks" "node_at ((key, v) # raw) (k # ks) = Some (Leaf x)"
        by blast
      then show "?b \<or> ?c" unfolding node_at_first(1) [OF dist] by (cases "k = key") auto
    next
      assume "?b \<or> ?c"
      then show ?a
      proof
        assume ?b
        then obtain ks x where "p = ?p key @ dots ks" "value_at v ks = Some (Leaf x)" by blast
        then have "p = ?p key @ dots ks \<and> node_at ((key, v) # raw) (key # ks) = Some (Leaf x)"
          by (simp add: node_at_first(1) [OF dist])
        then show ?a by blast
      next
        assume ?c
        then obtain k ks x where k: "p = ?p k @ dots ks" "node_at raw (k # ks) = Some (Leaf x)" by blast
        then have "k \<noteq> key" using node_at_first(2) [OF dist] by auto
        with k have "p = ?p k @ dots ks \<and> node_at ((key, v) # raw) (k # ks) = Some (Leaf x)"
          by (simp add: node_at_first(1) [OF dist])
        then show ?a by blast
      qed
    qed
    then show "p \<in> ?l \<longleftrightarrow> p \<in> ?r" by simp
  qed
  ultimately show ?case by simp
qed (auto simp: value_at_no_table)

lemma read_toml_wf:
  "\<forall>p d. fs p = Parsed d \<longrightarrow> wf_dict d \<Longrightarrow> read_toml p (fs p) = Inr d \<Longrightarrow> wf_dict d"
  by (auto simp: read_toml_def wf_dict_def split: toml_file.splits)

lemma read_toml_Inl:
  "read_toml p f = Inl e \<Longrightarrow> (\<exists>why. e = ConfigLoadError why) \<or> (\<exists>why. f = Not_Utf8 why \<and> e = unicode_error why)"
  by (auto simp: read_toml_def split: toml_file.splits)

lemma first_system_default_wf:
  "\<forall>p d. fs p = Parsed d \<longrightarrow> wf_dict d \<Longrightarrow> first_system_default fs ps = Inr d \<Longrightarrow> wf_dict d"
proof (induction ps)
  case Nil
  then show ?case by (simp add: wf_dict_def)
next
  case (Cons p ps)
  then show ?case by (cases "fs p = No_File") (simp_all add: read_toml_wf)
qed

lemma first_system_default_Inl:
  "first_system_default fs ps = Inl e \<Longrightarrow>
   (\<exists>why. e = ConfigLoadError why) \<or> (\<exists>p why. fs p = Not_Utf8 why \<and> e = unicode_error why)"
  by (induction ps) (auto split: if_splits dest!: read_toml_Inl)

lemma override_high: "high p = Some n \<Longrightarrow> override low high p = Some n"
  by (simp add: override_def)

text \<open>What \<open>config show\<close> may depend on: every value under a credential-shaped key of the three
  shown backends is blanked, and what is not shown is dropped.\<close>

definition hide_secrets :: "backend_spec \<Rightarrow> backend_spec" where
  "hide_secrets spec =
     spec\<lparr>be_kwargs := map (\<lambda>kv. (fst kv, if looks_like_secret (fst kv) then T_Str [] else snd kv)) (be_kwargs spec)\<rparr>"

definition public_view :: "spork_config \<Rightarrow> spork_config" where
  "public_view config =
     config\<lparr>sc_provider := hide_secrets (sc_provider config), sc_llm := hide_secrets (sc_llm config),
            sc_alerts := hide_secrets (sc_alerts config), sc_context := None, sc_receipt_archive := None,
            sc_log_level := Info\<rparr>"

lemma section_lines_hidden:
  "section_lines show enforced sec (hide_secrets spec) = section_lines show enforced sec spec"
  by (simp add: section_lines_def hide_secrets_def)

section \<open>Properties\<close>

text \<open>Merging two layers refines the abstract override: at every path the higher layer's value
  or table is taken where it has one, what lies below one of its values is hidden, and
  everything else comes from the lower layer; and the merged dict is well-formed.\<close>

theorem deep_merge_refines:
  assumes "wf_dict base" and "wf_dict over"
  shows "node_at (deep_merge base over) = override (node_at base) (node_at over) \<and>
    wf_dict (deep_merge base over)"
  using assms wf_merge(2) [of base over] by (simp add: merged_nodes) (simp add: wf_dict_def)


text \<open>The flagged paths are exactly the dotted paths of the values the enforced file sets, for
  a file without empty keys.\<close>

theorem enforced_flags:
  assumes "fs enforced_config_path = Parsed raw" and "wf_dict raw" and "named_pairs raw"
  shows "\<exists>paths. enforced_override_paths fs = Inr paths \<and>
    set paths = {py_join ''.'' p | p v. node_at raw p = Some (Leaf v)}"
proof -
  have "{py_join ''.'' p | p v. node_at raw p = Some (Leaf v)} =
      {k @ dots ks | k ks v. node_at raw (k # ks) = Some (Leaf v)}"
  proof (rule set_eqI)
    fix x
    have "(\<exists>p v. x = py_join ''.'' p \<and> node_at raw p = Some (Leaf v)) \<longleftrightarrow>
        (\<exists>k ks v. x = k @ dots ks \<and> node_at raw (k # ks) = Some (Leaf v))"
    proof
      assume "\<exists>p v. x = py_join ''.'' p \<and> node_at raw p = Some (Leaf v)"
      then obtain p v where p: "x = py_join ''.'' p" "node_at raw p = Some (Leaf v)" by blast
      then obtain k ks where "p = k # ks" by (cases p) (auto simp: node_at_simps)
      with p show "\<exists>k ks v. x = k @ dots ks \<and> node_at raw (k # ks) = Some (Leaf v)"
        by (auto simp: join_dots)
    next
      assume "\<exists>k ks v. x = k @ dots ks \<and> node_at raw (k # ks) = Some (Leaf v)"
      then show "\<exists>p v. x = py_join ''.'' p \<and> node_at raw p = Some (Leaf v)" by (metis join_dots)
    qed
    then show "x \<in> {py_join ''.'' p | p v. node_at raw p = Some (Leaf v)} \<longleftrightarrow>
        x \<in> {k @ dots ks | k ks v. node_at raw (k # ks) = Some (Leaf v)}" by simp
  qed
  moreover have "set (flatten_keys raw []) = {k @ dots ks | k ks v. node_at raw (k # ks) = Some (Leaf v)}"
    using flatten_paths(2) [OF assms(2,3), of "[]"] by simp
  ultimately show ?thesis using assms(1) by (simp add: enforced_override_paths_def read_toml_def)
qed

text \<open>What \<open>config show\<close> prints depends on no value under a credential-shaped key, and not on
  the context, receipt archive and log level settings at all: two configurations with the same
  public view print the same lines.\<close>

theorem config_show_redacts:
  assumes "public_view c = public_view c'"
  shows "format_show_lines show float_text c enforced = format_show_lines show float_text c' enforced"
proof -
  have view: "format_show_lines show float_text (public_view d) enforced = format_show_lines show float_text d enforced"
    for d
    by (simp add: format_show_lines_def public_view_def section_lines_hidden)
  from view [of c] view [of c'] assms show ?thesis by simp
qed

section \<open>Witnesses\<close>

theorem deep_merge_refines_witness:
  "node_at (deep_merge [(''tiering'', T_Table [(''a'', T_Int 1), (''b'', T_Int 2)])]
      [(''tiering'', T_Table [(''b'', T_Int 3)])]) [''tiering'', ''b''] = Some (Leaf (T_Int 3)) \<and>
   node_at (deep_merge [(''tiering'', T_Table [(''a'', T_Int 1), (''b'', T_Int 2)])]
      [(''tiering'', T_Table [(''b'', T_Int 3)])]) [''tiering'', ''a''] = Some (Leaf (T_Int 1))"
  using deep_merge_refines [of "[(''tiering'', T_Table [(''a'', T_Int 1), (''b'', T_Int 2)])]"
      "[(''tiering'', T_Table [(''b'', T_Int 3)])]"]
  by (simp add: wf_dict_def override_def node_at_def is_leaf_def)

definition ex_process_env :: process_env where
  "ex_process_env = \<lparr>pv_environ = (\<lambda>_. None), pv_home = ''/home/u'', pv_uid = 7, pv_config_override = None,
             pv_secretspec_override = None\<rparr>"

definition ex_backend :: backend_spec where
  "ex_backend = \<lparr>be_spec = ''m:C'', be_kwargs = [(''api_token'', T_Str ''s3cret'')], be_secret_kwargs = []\<rparr>"

definition ex_config :: spork_config where
  "ex_config =
     \<lparr>sc_provider = ex_backend, sc_llm = ex_backend, sc_alerts = ex_backend, sc_context = None,
      sc_llm_recording = None, sc_receipt_archive = None, sc_rules_path = ''/r'', sc_db_path = ''/d'',
      sc_socket_path = None, sc_tiering = tiering_defaults, sc_log_level = Info\<rparr>"

definition ex_tiers :: "string \<Rightarrow> toml_file" where
  "ex_tiers p =
     (if p = enforced_config_path then Parsed [(''tiering'', T_Table [(''daily_call_budget'', T_Int 5)])]
      else No_File)"

lemma ex_tiers_wf: "\<forall>p d. ex_tiers p = Parsed d \<longrightarrow> wf_dict d"
  by (simp add: ex_tiers_def wf_dict_def)


theorem enforced_flags_witness:
  "\<exists>paths. enforced_override_paths ex_tiers = Inr paths \<and>
     set paths = {py_join ''.'' p | p v. node_at [(''tiering'', T_Table [(''daily_call_budget'', T_Int 5)])] p = Some (Leaf v)}"
  by (rule enforced_flags) (simp_all add: ex_tiers_def wf_dict_def)

theorem config_show_redacts_witness:
  "format_show_lines (\<lambda>_. ''v'') (\<lambda>_. ''0.5'') ex_config [] =
   format_show_lines (\<lambda>_. ''v'') (\<lambda>_. ''0.5'')
     (ex_config\<lparr>sc_llm := ex_backend\<lparr>be_kwargs := [(''api_token'', T_Str ''other'')]\<rparr>\<rparr>) []"
  by (rule config_show_redacts)
    (simp add: public_view_def hide_secrets_def ex_config_def ex_backend_def looks_like_secret_def
      secret_key_markers_def py_lower_def py_lower_char_def)

end
