(* ===== verification/Alert_Backends.thy ===== *)
theory Alert_Backends
  imports Config_File
begin

text \<open>
  The alert backends and the log line: \<open>core/alerts/log.py\<close>, \<open>core/alerts/desktop.py\<close>,
  \<open>core/alerts/smtp.py\<close> and \<open>core/logging_setup.py\<close>. A backend gives back what \<open>notify\<close> returned
  or raised, together with what it did, in order. \<open>subprocess.run\<close> and the SMTP server are
  parameters; the order of the SMTP commands, the closing of the session by the \<open>with\<close> block and
  the check \<open>EmailMessage\<close> makes of a header value are modelled.

  Interface: \<open>alerter\<close>, what a fallback must promise for the desktop backend to lose no alert; the
  logging backend provides it.
\<close>

definition of_class :: "string \<Rightarrow> exn \<Rightarrow> bool" where
  "of_class c e \<longleftrightarrow> (case e of Other_Error c' _ \<Rightarrow> c' = c | _ \<Rightarrow> False)"

section \<open>Log records (logging_setup.py)\<close>

record log_record =
  lr_level :: log_level
  lr_logger :: string
  lr_message :: string
  lr_extra :: "(string, string) dict"

definition log_level_text :: "log_level \<Rightarrow> string" where
  "log_level_text l =
     (case l of Debug \<Rightarrow> ''DEBUG'' | Info \<Rightarrow> ''INFO'' | Warning \<Rightarrow> ''WARNING'' | Error \<Rightarrow> ''ERROR'' | Critical_Level \<Rightarrow> ''CRITICAL'')"

text \<open>\<open>sorted(extras.items())\<close>: the keys of a dict are distinct, so they decide.\<close>

definition sorted_items :: "(string, string) dict \<Rightarrow> (string \<times> string) list" where
  "sorted_items d = sort_key (\<lambda>kv. map of_char (fst kv) :: nat list) d"

definition format_record :: "log_record \<Rightarrow> string" where
  "format_record r =
     log_level_text (lr_level r) @ '' '' @ lr_logger r @ '': '' @ lr_message r @
     (if lr_extra r = [] then []
      else '' '' @ py_join '' '' (map (\<lambda>kv. fst kv @ ''='' @ snd kv) (sorted_items (lr_extra r))))"

text \<open>The \<open>spork\<close> logger: \<open>h\<close> is the handler made by this call. \<open>setLevel\<close> raises for a name it
  does not know, after the handler has been replaced.\<close>

record 'h logger =
  lg_handlers :: "'h list"
  lg_level :: string

definition level_names :: "string list" where
  "level_names = [''CRITICAL'', ''FATAL'', ''ERROR'', ''WARN'', ''WARNING'', ''INFO'', ''DEBUG'', ''NOTSET'']"

definition configure_logging :: "'h \<Rightarrow> string \<Rightarrow> 'h logger \<Rightarrow> (exn + unit) \<times> 'h logger" where
  "configure_logging h level lg =
     (if level \<in> set level_names
      then (Inr (), lg\<lparr>lg_handlers := [h], lg_level := level\<rparr>)
      else (Inl (ValueError (''Unknown level: '' @ py_repr level)), lg\<lparr>lg_handlers := [h]\<rparr>))"

section \<open>Deliveries\<close>

text \<open>A command that was run, with whether it succeeded, and a record that was logged.\<close>

datatype delivery = Ran "string list" bool | Logged log_record

text \<open>An alerter: title, body, url, urgency. The urgency is a string here, since the code answers
  for values outside the \<open>Literal\<close> too.\<close>

type_synonym alerter_notify = "string \<Rightarrow> string \<Rightarrow> string option \<Rightarrow> string \<Rightarrow> (exn + unit) \<times> delivery list"

section \<open>LoggingAlerter (log.py)\<close>

definition level_by_urgency :: "(string, log_level) dict" where
  "level_by_urgency = [(''low'', Info), (''normal'', Warning), (''critical'', Error)]"

definition log_notify :: alerter_notify where
  "log_notify title body url urgency =
     (let message = (case url of None \<Rightarrow> body | Some u \<Rightarrow> body @ '' ('' @ u @ '')'');
          level = (case dict_get level_by_urgency urgency of None \<Rightarrow> Warning | Some l \<Rightarrow> l)
      in (Inr (), [Logged \<lparr>lr_level = level, lr_logger = ''spork.core.alerts.log'', lr_message = title @ '': '' @ message,
                     lr_extra = []\<rparr>]))"

section \<open>DesktopAlerter (desktop.py)\<close>

definition desktop_degrades :: "exn \<Rightarrow> bool" where
  "desktop_degrades e \<longleftrightarrow>
     of_class ''FileNotFoundError'' e \<or> of_class ''CalledProcessError'' e \<or> of_class ''TimeoutExpired'' e"

definition desktop_notify :: "(exn \<Rightarrow> string) \<Rightarrow> (string list \<Rightarrow> exn + unit) \<Rightarrow> alerter_notify \<Rightarrow> alerter_notify" where
  "desktop_notify str runner fallback title body url urgency =
     (let message = (case url of None \<Rightarrow> body | Some u \<Rightarrow> body @ [newline, newline] @ u);
          command = [''notify-send'', ''-u'', urgency, title, message]
      in case runner command of
           Inr _ \<Rightarrow> (Inr (), [Ran command True])
         | Inl e \<Rightarrow>
             if desktop_degrades e
             then (case fallback title body url urgency of
                     (r, ds) \<Rightarrow>
                       (r, [Ran command False,
                            Logged \<lparr>lr_level = Warning, lr_logger = ''spork.core.alerts.desktop'',
                              lr_message = ''desktop notification unavailable ('' @ str e @ ''); falling back to log delivery'',
                              lr_extra = []\<rparr>] @ ds))
             else (Inl e, [Ran command False]))"

section \<open>SmtpAlerter (smtp.py)\<close>

text \<open>The lines of \<open>str.splitlines()\<close>, over the first 256 code points; a carriage return and the
  line feed after it are one break.\<close>

definition line_break :: "char \<Rightarrow> bool" where
  "line_break c \<longleftrightarrow>
     (let n = (of_char c :: nat) in (10 \<le> n \<and> n \<le> 13) \<or> (28 \<le> n \<and> n \<le> 30) \<or> n = 133)"

definition carriage_return :: char where
  "carriage_return = CHR 0x0D"

fun splitlines_from :: "string \<Rightarrow> string \<Rightarrow> string list" where
  "splitlines_from cur [] = (if cur = [] then [] else [rev cur])"
| "splitlines_from cur (c # s) =
     (if line_break c
      then rev cur # (case s of
             [] \<Rightarrow> []
           | d # s' \<Rightarrow> if c = carriage_return \<and> d = newline then splitlines_from [] s' else splitlines_from [] s)
      else splitlines_from (c # cur) s)"

definition py_splitlines :: "string \<Rightarrow> string list" where
  "py_splitlines s = splitlines_from [] s"

record smtp_config =
  sm_host :: string
  sm_sender :: string
  sm_recipient :: string
  sm_port :: int
  sm_username :: "string option"
  sm_password :: "string option"
  sm_timeout :: pyfloat
  sm_starttls :: bool

record email =
  em_from :: string
  em_to :: string
  em_subject :: string
  em_content :: string

datatype smtp_step = Connect string int pyfloat | Starttls | Login string string | Send email | Quit | Close

text \<open>Setting a header raises \<open>ValueError\<close> when the value has more than one line.\<close>

definition header_ok :: "string \<Rightarrow> bool" where
  "header_ok v \<longleftrightarrow> length (py_splitlines v) \<le> 1"

definition header_error :: exn where
  "header_error = ValueError ''Header values may not contain linefeed or carriage return characters''"

definition smtp_message :: "smtp_config \<Rightarrow> string \<Rightarrow> string \<Rightarrow> string option \<Rightarrow> string \<Rightarrow> exn + email" where
  "smtp_message cfg title body url urgency =
     (let subject = ''['' @ urgency @ ''] Spork: '' @ title
      in if \<not> (header_ok (sm_sender cfg) \<and> header_ok (sm_recipient cfg) \<and> header_ok subject)
         then Inl header_error
         else Inr \<lparr>em_from = sm_sender cfg, em_to = sm_recipient cfg, em_subject = subject,
                   em_content = (case url of None \<Rightarrow> body | Some u \<Rightarrow> body @ [newline, newline] @ u)\<rparr>)"

text \<open>The body of the \<open>with\<close> block; the password is there, by the check before it.\<close>

definition smtp_body :: "smtp_config \<Rightarrow> email \<Rightarrow> smtp_step list" where
  "smtp_body cfg mail =
     (if sm_starttls cfg then [Starttls] else []) @
     (case sm_username cfg of None \<Rightarrow> []
      | Some u \<Rightarrow> (case sm_password cfg of None \<Rightarrow> [] | Some p \<Rightarrow> [Login u p])) @
     [Send mail]"

text \<open>The server answers a step from the steps before it; the first failure stops the block.\<close>

fun smtp_run :: "(smtp_step list \<Rightarrow> smtp_step \<Rightarrow> exn + unit) \<Rightarrow> smtp_step list \<Rightarrow> smtp_step list \<Rightarrow> (exn + unit) \<times> smtp_step list" where
  "smtp_run server h [] = (Inr (), h)"
| "smtp_run server h (c # cs) =
     (case server h c of Inl e \<Rightarrow> (Inl e, h @ [c]) | Inr _ \<Rightarrow> smtp_run server (h @ [c]) cs)"

text \<open>\<open>SMTP.__exit__\<close> sends \<open>QUIT\<close>, ignores a server that is gone, and closes the socket; its
  exception replaces the block's.\<close>

definition smtp_exit ::
  "(smtp_step list \<Rightarrow> smtp_step \<Rightarrow> exn + unit) \<Rightarrow> (exn + unit) \<times> smtp_step list \<Rightarrow> (exn + unit) \<times> smtp_step list" where
  "smtp_exit server rh =
     (case rh of (r, h) \<Rightarrow>
        ((case server h Quit of
            Inl e \<Rightarrow> if of_class ''SMTPServerDisconnected'' e then r else Inl e
          | Inr _ \<Rightarrow> r),
         h @ [Quit, Close]))"

definition smtp_notify ::
  "smtp_config \<Rightarrow> (smtp_step list \<Rightarrow> smtp_step \<Rightarrow> exn + unit) \<Rightarrow> string \<Rightarrow> string \<Rightarrow> string option \<Rightarrow> string \<Rightarrow>
   (exn + unit) \<times> smtp_step list" where
  "smtp_notify cfg server title body url urgency =
     (case smtp_message cfg title body url urgency of
        Inl e \<Rightarrow> (Inl e, [])
      | Inr mail \<Rightarrow>
          if sm_username cfg \<noteq> None \<and> sm_password cfg = None
          then (Inl (ValueError ''SMTP password is required when SMTP username is configured''), [])
          else (let connect = Connect (sm_host cfg) (sm_port cfg) (sm_timeout cfg)
                in case server [] connect of
                     Inl e \<Rightarrow> (Inl e, [connect])
                   | Inr _ \<Rightarrow> smtp_exit server (smtp_run server [connect] (smtp_body cfg mail))))"

section \<open>Delivery\<close>

text \<open>A delivery that carries an alert's title and body to someone.\<close>

definition carries :: "string \<Rightarrow> string \<Rightarrow> delivery \<Rightarrow> bool" where
  "carries title body d \<longleftrightarrow>
     (case d of
        Ran command ok \<Rightarrow> ok \<and> title \<in> set command \<and> list_ex (prefix body) command
      | Logged r \<Rightarrow> prefix (title @ '': '' @ body) (lr_message r))"

locale alerter =
  fixes notify :: alerter_notify
  assumes delivers: "notify title body url urgency = (Inr (), ds) \<Longrightarrow> list_ex (carries title body) ds"

locale sure_alerter = alerter +
  assumes returns: "fst (notify title body url urgency) = Inr ()"
begin

lemma desktop_delivers:
  assumes "desktop_notify str runner notify title body url urgency = (r, ds)"
  shows "(r = Inr () \<and> list_ex (carries title body) ds) \<or> (\<exists>e. r = Inl e \<and> \<not> desktop_degrades e)"
proof (cases "runner [''notify-send'', ''-u'', urgency, title,
    (case url of None \<Rightarrow> body | Some u \<Rightarrow> body @ [newline, newline] @ u)]")
  case (Inr x)
  with assms show ?thesis
    by (auto simp: desktop_notify_def Let_def carries_def split: option.splits)
next
  case (Inl e)
  show ?thesis
  proof (cases "desktop_degrades e")
    case True
    obtain r' ds' where f: "notify title body url urgency = (r', ds')" by fastforce
    with returns [of title body url urgency] have "r' = Inr ()" by simp
    moreover with f delivers have "list_ex (carries title body) ds'" by blast
    ultimately show ?thesis
      using assms Inl True f by (auto simp: desktop_notify_def Let_def)
  next
    case False
    with assms Inl show ?thesis by (auto simp: desktop_notify_def Let_def)
  qed
qed

lemma desktop_alerter: "alerter (desktop_notify str runner notify)"
  by unfold_locales (use desktop_delivers in fastforce)

end

interpretation logging: sure_alerter log_notify
  by unfold_locales (auto simp: log_notify_def Let_def carries_def prefix_def split: option.splits)

interpretation desktop: alerter "desktop_notify str runner log_notify" for str runner
  by (rule logging.desktop_alerter)

text \<open>A run of SMTP steps makes a beginning of them, all of them when it returns.\<close>

lemma smtp_run_steps:
  "smtp_run server h cs = (r, h') \<Longrightarrow>
   \<exists>made rest. cs = made @ rest \<and> h' = h @ made \<and> (r = Inr () \<longrightarrow> rest = [])"
proof (induction cs arbitrary: h)
  case Nil
  then show ?case by auto
next
  case (Cons c cs)
  show ?case
  proof (cases "server h c")
    case (Inl e)
    with Cons.prems have "h' = h @ [c] \<and> r = Inl e" by simp
    then show ?thesis by (intro exI [of _ "[c]"] exI [of _ cs]) auto
  next
    case (Inr x)
    with Cons.prems have "smtp_run server (h @ [c]) cs = (r, h')" by simp
    from Cons.IH [OF this] obtain made rest
      where "cs = made @ rest" "h' = (h @ [c]) @ made" "r = Inr () \<longrightarrow> rest = []" by blast
    then show ?thesis by (intro exI [of _ "c # made"] exI [of _ rest]) auto
  qed
qed

lemma smtp_exit_returned:
  "smtp_exit server (r, h) = (Inr (), h') \<Longrightarrow> r = Inr () \<and> h' = h @ [Quit, Close]"
  by (auto simp: smtp_exit_def split: sum.splits if_splits)

lemma smtp_exit_steps: "snd (smtp_exit server (r, h)) = h @ [Quit, Close]"
  by (simp add: smtp_exit_def)

lemma smtp_message_subject:
  "smtp_message cfg title body url urgency = Inr mail \<Longrightarrow> em_subject mail = ''['' @ urgency @ ''] Spork: '' @ title"
  by (auto simp: smtp_message_def Let_def split: if_splits)

text \<open>Every SMTP notification is one of: nothing done, a failed connection, or a session.\<close>

lemma smtp_notify_cases:
  assumes "smtp_notify cfg server title body url urgency = (r, h)"
  obtains (refused) e where "r = Inl e" "h = []"
  | (unconnected) e where "r = Inl e" "h = [Connect (sm_host cfg) (sm_port cfg) (sm_timeout cfg)]"
  | (session) mail r' h' where "smtp_message cfg title body url urgency = Inr mail"
      "smtp_run server [Connect (sm_host cfg) (sm_port cfg) (sm_timeout cfg)] (smtp_body cfg mail) = (r', h')"
      "smtp_exit server (r', h') = (r, h)"
proof (cases "smtp_message cfg title body url urgency")
  case (Inl e)
  with assms show thesis by (intro refused) (auto simp: smtp_notify_def)
next
  case (Inr mail)
  let ?c = "Connect (sm_host cfg) (sm_port cfg) (sm_timeout cfg)"
  show thesis
  proof (cases "sm_username cfg \<noteq> None \<and> sm_password cfg = None")
    case True
    with assms Inr show thesis by (intro refused) (auto simp: smtp_notify_def)
  next
    case False
    show thesis
    proof (cases "server [] ?c")
      case (Inl e)
      with assms Inr False show thesis by (intro unconnected [of e]) (auto simp: smtp_notify_def Let_def)
    next
      case (Inr x)
      obtain r' h' where "smtp_run server [?c] (smtp_body cfg mail) = (r', h')" by fastforce
      with assms Inr False \<open>smtp_message cfg title body url urgency = Inr mail\<close> show thesis
        by (intro session [of mail r' h']) (auto simp: smtp_notify_def Let_def)
    qed
  qed
qed

lemma smtp_session_facts:
  assumes run: "smtp_notify cfg server title body url urgency = (r, h)"
    and connect: "connect = Connect (sm_host cfg) (sm_port cfg) (sm_timeout cfg)"
  shows "sm_username cfg \<noteq> None \<and> sm_password cfg = None \<longrightarrow> h = []"
    and "\<not> header_ok (''['' @ urgency @ ''] Spork: '' @ title) \<longrightarrow> r = Inl header_error \<and> h = []"
    and "r = Inr () \<longrightarrow> (\<exists>mail. em_subject mail = ''['' @ urgency @ ''] Spork: '' @ title \<and>
           h = [connect] @ smtp_body cfg mail @ [Quit, Close])"
    and "h = [] \<or> h = [connect] \<or> (\<exists>made. h = connect # made @ [Quit, Close])"
    and "sm_starttls cfg \<and> (Login u p \<in> set h \<or> Send mail \<in> set h) \<longrightarrow> server [connect] Starttls = Inr ()"
proof -
  show "sm_username cfg \<noteq> None \<and> sm_password cfg = None \<longrightarrow> h = []"
    using run by (auto simp: smtp_notify_def split: sum.splits)
  show "\<not> header_ok (''['' @ urgency @ ''] Spork: '' @ title) \<longrightarrow> r = Inl header_error \<and> h = []"
    using run by (auto simp: smtp_notify_def smtp_message_def)
  show "r = Inr () \<longrightarrow> (\<exists>mail. em_subject mail = ''['' @ urgency @ ''] Spork: '' @ title \<and>
      h = [connect] @ smtp_body cfg mail @ [Quit, Close])"
    using run
  proof (cases rule: smtp_notify_cases)
    case (session mail r' h')
    then show ?thesis
      using smtp_exit_returned smtp_run_steps [OF session(2)] smtp_message_subject [OF session(1)] connect
      by fastforce
  qed auto
  show "h = [] \<or> h = [connect] \<or> (\<exists>made. h = connect # made @ [Quit, Close])"
    using run
  proof (cases rule: smtp_notify_cases)
    case (session mail r' h')
    then show ?thesis
      using smtp_exit_steps [of server r' h'] smtp_run_steps [OF session(2)] connect by auto
  qed (use connect in auto)
  show "sm_starttls cfg \<and> (Login u p \<in> set h \<or> Send mail \<in> set h) \<longrightarrow> server [connect] Starttls = Inr ()"
    using run
  proof (cases rule: smtp_notify_cases)
    case (session mail' r' h')
    then show ?thesis
      using smtp_exit_steps [of server r' h'] connect
      by (cases "server [connect] Starttls") (auto simp: smtp_body_def)
  qed (use connect in auto)
qed

section \<open>Properties\<close>

text \<open>An alert sent to the desktop is not lost: either \<open>notify\<close> returns and the title and body
  were shown or logged, or the exception is none of the three it degrades on; when \<open>notify-send\<close>
  is missing, fails or times out, the log record has the level of the urgency.\<close>

theorem desktop_alert_delivered:
  "(case desktop_notify str runner log_notify title body url urgency of
      (r, ds) \<Rightarrow>
        (r = Inr () \<and> list_ex (carries title body) ds) \<or>
        (\<exists>e. r = Inl e \<and> \<not> desktop_degrades e)) \<and>
   (runner [''notify-send'', ''-u'', ''critical'', title, body] = Inl e \<and> desktop_degrades e \<longrightarrow>
      (\<exists>note. desktop_notify str runner log_notify title body None ''critical'' =
         (Inr (), [Ran [''notify-send'', ''-u'', ''critical'', title, body] False, Logged note,
            Logged \<lparr>lr_level = Error, lr_logger = ''spork.core.alerts.log'', lr_message = title @ '': '' @ body,
              lr_extra = []\<rparr>])))"
proof (intro conjI impI)
  show "case desktop_notify str runner log_notify title body url urgency of
      (r, ds) \<Rightarrow> (r = Inr () \<and> list_ex (carries title body) ds) \<or> (\<exists>e. r = Inl e \<and> \<not> desktop_degrades e)"
    using logging.desktop_delivers by (cases "desktop_notify str runner log_notify title body url urgency") fastforce
qed (auto simp: desktop_notify_def log_notify_def Let_def level_by_urgency_def)


section \<open>Witnesses\<close>

theorem desktop_alert_delivered_witness:
  "\<exists>note. desktop_notify (\<lambda>_. ''no such file'') (\<lambda>_. Inl (Other_Error ''FileNotFoundError'' ''notify-send'')) log_notify
      ''t'' ''b'' None ''critical'' =
    (Inr (), [Ran [''notify-send'', ''-u'', ''critical'', ''t'', ''b''] False, Logged note,
       Logged \<lparr>lr_level = Error, lr_logger = ''spork.core.alerts.log'', lr_message = ''t'' @ '': '' @ ''b'', lr_extra = []\<rparr>])"
  using desktop_alert_delivered
    [where str = "\<lambda>_. ''no such file''" and runner = "\<lambda>_. Inl (Other_Error ''FileNotFoundError'' ''notify-send'')"
      and title = "''t''" and body = "''b''" and e = "Other_Error ''FileNotFoundError'' ''notify-send''"]
  by (auto simp: desktop_degrades_def of_class_def)

definition ex_smtp :: smtp_config where
  "ex_smtp = \<lparr>sm_host = ''h'', sm_sender = ''a'', sm_recipient = ''b'', sm_port = 587, sm_username = Some ''u'',
     sm_password = Some ''p'', sm_timeout = Num 10, sm_starttls = True\<rparr>"


end
