(* ===== verification/Receipt_Documents.thy ===== *)
theory Receipt_Documents
  imports Alert_Backends
begin

text \<open>
  The archival document of a receipt (\<open>core/receipts/pdf.py\<close>) and the recorded extraction
  client's fixture (\<open>core/receipts/llm.py\<close>). reportlab, pypdf and the imports of both are
  parameters, collected in \<open>pdf_tools\<close>; the writer is the list of the pages added to it. What
  is modelled is which pages the document gets: the cover's text, the dispatch on the content
  type, what a failing attachment leaves behind, and the placeholder.

  Interface: \<open>page_source\<close>, whatever adds pages to a writer only appends to it; the merge of a
  document and the placing of an attachment are such sources.
\<close>

section \<open>Recorded extractions (llm.py)\<close>

record json_extraction =
  jx_company :: json
  jx_date :: json

text \<open>\<open>repr\<close> is Python's text of a decoded value.\<close>

definition decode_extraction :: "(json \<Rightarrow> string) \<Rightarrow> string \<Rightarrow> string \<Rightarrow> json \<Rightarrow> exn + json_extraction" where
  "decode_extraction repr path domain entry =
     (case (case entry of
              J_Obj d \<Rightarrow>
                (case (map_of d ''company'', map_of d ''date'') of
                   (Some c, Some t) \<Rightarrow> Some \<lparr>jx_company = c, jx_date = t\<rparr>
                 | _ \<Rightarrow> None)
            | _ \<Rightarrow> None) of
        Some x \<Rightarrow> Inr x
      | None \<Rightarrow> Inl (RecordedReceiptExtractionsLoadError
          (path @ '': recorded extraction for '' @ py_repr domain @ '' must be an object with '' @
           py_repr ''company'' @ '' and '' @ py_repr ''date'' @ '', got '' @ repr entry)))"

fun decode_extractions ::
  "(json \<Rightarrow> string) \<Rightarrow> string \<Rightarrow> (string, json_extraction) dict \<Rightarrow> (string \<times> json) list \<Rightarrow>
   exn + (string, json_extraction) dict" where
  "decode_extractions repr path acc [] = Inr acc"
| "decode_extractions repr path acc ((domain, entry) # rest) =
     (case decode_extraction repr path domain entry of
        Inl e \<Rightarrow> Inl e
      | Inr x \<Rightarrow> decode_extractions repr path (dict_set acc domain x) rest)"

definition load_recorded_receipt_extractions ::
  "(json \<Rightarrow> string) \<Rightarrow> string \<Rightarrow> json_file \<Rightarrow> exn + (string, json_extraction) dict" where
  "load_recorded_receipt_extractions repr path f =
     (case f of
        Missing_File \<Rightarrow> Inl (RecordedReceiptExtractionsLoadError (''responses file not found: '' @ path))
      | Undecodable why \<Rightarrow> Inl (RecordedReceiptExtractionsLoadError (''invalid JSON in '' @ path @ '': '' @ why))
      | Decoded (J_Obj raw) \<Rightarrow> decode_extractions repr path [] raw
      | Decoded v \<Rightarrow> Inl (RecordedReceiptExtractionsLoadError
          (path @ '' must contain a JSON object keyed by from_domain, got '' @ json_type_name v)))"

text \<open>The extraction when both values are strings, which the loader does not check.\<close>

definition typed_extraction :: "json_extraction \<Rightarrow> receipt_extraction option" where
  "typed_extraction x =
     (case (json_text (jx_company x), json_text (jx_date x)) of
        (Some c, Some t) \<Rightarrow> Some \<lparr>re_company = c, re_date = t\<rparr>
      | _ \<Rightarrow> None)"

section \<open>Documents (pdf.py)\<close>

text \<open>\<open>xml.sax.saxutils.escape\<close>.\<close>

definition xml_escape :: "string \<Rightarrow> string" where
  "xml_escape s = concat (map (\<lambda>c. if c = CHR ''&'' then ''&amp;'' else if c = CHR ''<'' then ''&lt;''
     else if c = CHR ''>'' then ''&gt;'' else [c]) s)"

datatype flowable = Paragraph string string | Spacer nat nat

definition cover_story :: "message \<Rightarrow> string \<Rightarrow> string \<Rightarrow> flowable list" where
  "cover_story msg company d =
     (let subj = xml_escape (subject msg); c = xml_escape company; t = xml_escape d
      in [Paragraph (if subj = [] then ''(no subject)'' else subj) ''Title'',
          Paragraph (''From: '' @ xml_escape (from_address msg)) ''Normal'',
          Paragraph (''Company: '' @ c) ''Normal'',
          Paragraph (''Date: '' @ t) ''Normal'',
          Paragraph (''Tags: receipt, company:'' @ c @ '', date:'' @ t) ''Normal'',
          Spacer 1 12] @
         map (\<lambda>l. Paragraph (if l = [] then ''&nbsp;'' else xml_escape l) ''Normal'')
           (if py_splitlines (body_text msg) = [] then [[]] else py_splitlines (body_text msg)))"

text \<open>Opening a document fails, or it yields pages until its end or a failure.\<close>

datatype 'p opened = Unopened exn | Pages "'p list" "exn option"

record 'p pdf_tools =
  pt_importable :: "string \<Rightarrow> bool"
  pt_cover :: "flowable list \<Rightarrow> exn + string"
  pt_open :: "string \<Rightarrow> 'p opened"
  pt_image :: "string \<Rightarrow> exn + string"
  pt_note :: "string \<Rightarrow> exn + string"
  pt_write :: "'p list \<Rightarrow> exn + string"

definition import_module :: "'p pdf_tools \<Rightarrow> string list \<Rightarrow> exn option" where
  "import_module T mods =
     map_option (\<lambda>m. ReceiptPdfError (''build_receipt_pdf requires the optional receipts dependency ('' @ m @
         ''); install spork[receipts]''))
       (find (\<lambda>m. \<not> pt_importable T m) mods)"

definition importing :: "'p pdf_tools \<Rightarrow> string list \<Rightarrow> exn + 'b \<Rightarrow> exn + 'b" where
  "importing T mods r = (case import_module T mods of Some e \<Rightarrow> Inl e | None \<Rightarrow> r)"

definition cover_page_bytes :: "'p pdf_tools \<Rightarrow> message \<Rightarrow> string \<Rightarrow> string \<Rightarrow> exn + string" where
  "cover_page_bytes T msg company d =
     importing T [''reportlab.lib.pagesizes'', ''reportlab.platypus'', ''reportlab.lib.styles'']
       (pt_cover T (cover_story msg company d))"

definition placeholder_page_bytes :: "'p pdf_tools \<Rightarrow> string \<Rightarrow> exn + string" where
  "placeholder_page_bytes T note =
     importing T [''reportlab.lib.pagesizes'', ''reportlab.pdfgen.canvas''] (pt_note T note)"

text \<open>Where the image is drawn on the page: \<open>(x, y, width, height)\<close>; Python's floats are taken as
  exact. An image without width or height is a \<open>ZeroDivisionError\<close>, as \<open>None\<close>.\<close>

definition image_box :: "rat \<times> rat \<Rightarrow> rat \<times> rat \<Rightarrow> (rat \<times> rat \<times> rat \<times> rat) option" where
  "image_box page img =
     (let mw = fst page - 72; mh = snd page - 72
      in if fst img = 0 \<or> snd img = 0 then None
         else (let scale = min (min (mw / fst img) (mh / snd img)) 1; w = fst img * scale; h = snd img * scale
               in Some ((fst page - w) / 2, (snd page - h) / 2, w, h)))"

definition image_page_bytes :: "'p pdf_tools \<Rightarrow> string \<Rightarrow> exn + string" where
  "image_page_bytes T data =
     importing T [''reportlab.lib.pagesizes'', ''reportlab.pdfgen.canvas'', ''reportlab.lib.utils''] (pt_image T data)"

text \<open>\<open>_append_pages\<close>: the pages read before a failure stay in the writer.\<close>

type_synonym 'p adding = "'p list \<Rightarrow> (exn + unit) \<times> 'p list"

definition append_pages :: "'p pdf_tools \<Rightarrow> string \<Rightarrow> 'p adding" where
  "append_pages T data w =
     (case import_module T [''pypdf''] of
        Some e \<Rightarrow> (Inl e, w)
      | None \<Rightarrow>
          (case pt_open T data of
             Unopened e \<Rightarrow> (Inl e, w)
           | Pages ps err \<Rightarrow> ((case err of None \<Rightarrow> Inr () | Some e \<Rightarrow> Inl e), w @ ps)))"

definition append_result :: "'p pdf_tools \<Rightarrow> exn + string \<Rightarrow> 'p adding" where
  "append_result T r w = (case r of Inl e \<Rightarrow> (Inl e, w) | Inr data \<Rightarrow> append_pages T data w)"

definition attachment_note :: "attachment \<Rightarrow> string" where
  "attachment_note a = ''Attachment not rendered: '' @ att_filename a @ '' ('' @ att_content_type a @ '')''"

definition is_receipt_pdf_error :: "exn \<Rightarrow> bool" where
  "is_receipt_pdf_error e \<longleftrightarrow> (case e of ReceiptPdfError _ \<Rightarrow> True | _ \<Rightarrow> False)"

definition append_placeholder :: "'p pdf_tools \<Rightarrow> attachment \<Rightarrow> 'p adding" where
  "append_placeholder T a = append_result T (placeholder_page_bytes T (attachment_note a))"

text \<open>The attempt a content type gets, and the placeholder when it fails or there is none.\<close>

definition attempt :: "'p pdf_tools \<Rightarrow> attachment \<Rightarrow> 'p adding option" where
  "attempt T a =
     (if att_content_type a = ''application/pdf'' then Some (append_pages T (att_data a))
      else if prefix ''image/'' (att_content_type a) then Some (append_result T (image_page_bytes T (att_data a)))
      else None)"

definition append_attachment :: "'p pdf_tools \<Rightarrow> attachment \<Rightarrow> 'p adding" where
  "append_attachment T a w =
     (case attempt T a of
        None \<Rightarrow> append_placeholder T a w
      | Some try_it \<Rightarrow>
          (case try_it w of
             (Inr _, w') \<Rightarrow> (Inr (), w')
           | (Inl e, w') \<Rightarrow> if is_receipt_pdf_error e then (Inl e, w') else append_placeholder T a w'))"

fun append_attachments :: "'p pdf_tools \<Rightarrow> attachment list \<Rightarrow> 'p adding" where
  "append_attachments T [] w = (Inr (), w)"
| "append_attachments T (a # as) w =
     (case append_attachment T a w of
        (Inl e, w') \<Rightarrow> (Inl e, w')
      | (Inr _, w') \<Rightarrow> append_attachments T as w')"

definition document_pages :: "'p pdf_tools \<Rightarrow> message \<Rightarrow> attachment list \<Rightarrow> string \<Rightarrow> string \<Rightarrow> exn + 'p list" where
  "document_pages T msg as company d =
     (if company = [] then Inl (ValueError ''build_receipt_pdf requires a non-empty company'')
      else if d = [] then Inl (ValueError ''build_receipt_pdf requires a non-empty date'')
      else case import_module T [''pypdf''] of
             Some e \<Rightarrow> Inl e
           | None \<Rightarrow>
               (case append_result T (cover_page_bytes T msg company d) [] of
                  (Inl e, _) \<Rightarrow> Inl e
                | (Inr _, w) \<Rightarrow>
                    (case append_attachments T as w of
                       (Inl e, _) \<Rightarrow> Inl e
                     | (Inr _, w') \<Rightarrow> Inr w')))"

definition receipt_document :: "'p pdf_tools \<Rightarrow> message \<Rightarrow> attachment list \<Rightarrow> string \<Rightarrow> string \<Rightarrow> exn + string" where
  "receipt_document T msg as company d =
     (case document_pages T msg as company d of Inl e \<Rightarrow> Inl e | Inr ps \<Rightarrow> pt_write T ps)"

section \<open>Pages are only added\<close>

locale page_source =
  fixes add :: "'p adding"
  assumes appends: "\<exists>ps. \<forall>w. snd (add w) = w @ ps"
    and same_result: "fst (add w) = fst (add w')"
begin

lemma added:
  obtains ps where "\<And>w. add w = (fst (add []), w @ ps)"
  using appends same_result by (metis prod.collapse)

end

lemma append_pages_source: "page_source (append_pages T data)"
proof (cases "import_module T [''pypdf'']")
  case None
  then show ?thesis by (cases "pt_open T data") (unfold_locales, auto simp: append_pages_def)
next
  case (Some e)
  then show ?thesis by unfold_locales (auto simp: append_pages_def)
qed

lemma append_result_source: "page_source (append_result T r)"
proof (cases r)
  case (Inl e)
  then show ?thesis by unfold_locales (auto simp: append_result_def)
next
  case (Inr data)
  then have "append_result T r = append_pages T data" by (auto simp: append_result_def)
  then show ?thesis using append_pages_source by metis
qed

lemma attempt_source: "attempt T a = Some add \<Longrightarrow> page_source add"
  by (auto simp: attempt_def append_pages_source append_result_source split: if_splits)

interpretation merging: page_source "append_pages T data" for T data
  by (rule append_pages_source)

interpretation rendering: page_source "append_result T r" for T r
  by (rule append_result_source)

section \<open>What a document holds\<close>

text \<open>The pages an attachment may contribute: all it was opened to, or the pages read before it
  failed and then a placeholder that names it.\<close>

definition part_of :: "'p pdf_tools \<Rightarrow> attachment \<Rightarrow> 'p list \<Rightarrow> bool" where
  "part_of T a ps \<longleftrightarrow>
     (case attempt T a of
        None \<Rightarrow> append_placeholder T a [] = (Inr (), ps)
      | Some try_it \<Rightarrow>
          try_it [] = (Inr (), ps) \<or>
          (\<exists>e part place. try_it [] = (Inl e, part) \<and> \<not> is_receipt_pdf_error e \<and>
             append_placeholder T a [] = (Inr (), place) \<and> ps = part @ place))"

lemma append_placeholder_source: "page_source (append_placeholder T a)"
  by (simp add: append_placeholder_def append_result_source)

lemma source_at:
  "page_source add \<Longrightarrow> add w = (r, w') \<Longrightarrow> \<exists>ps. w' = w @ ps \<and> add [] = (r, ps)"
  using page_source.added [of add] by (metis append_Nil prod.inject)

lemma append_attachment_part:
  assumes "append_attachment T a w = (Inr (), w')"
  shows "\<exists>ps. part_of T a ps \<and> w' = w @ ps"
proof (cases "attempt T a")
  case None
  with assms have "append_placeholder T a w = (Inr (), w')" by (simp add: append_attachment_def)
  from source_at [OF append_placeholder_source this] None show ?thesis by (auto simp: part_of_def)
next
  case (Some try_it)
  note src = attempt_source [OF Some]
  obtain r w1 where t: "try_it w = (r, w1)" by fastforce
  obtain part where part: "w1 = w @ part" "try_it [] = (r, part)" using source_at [OF src t] by blast
  show ?thesis
  proof (cases r)
    case (Inr x)
    with assms Some t part show ?thesis by (intro exI [of _ part]) (auto simp: append_attachment_def part_of_def)
  next
    case (Inl e)
    with assms Some t have e: "\<not> is_receipt_pdf_error e" and p: "append_placeholder T a w1 = (Inr (), w')"
      by (auto simp: append_attachment_def split: if_splits)
    from source_at [OF append_placeholder_source p] obtain place
      where "w' = w1 @ place" "append_placeholder T a [] = (Inr (), place)" by blast
    with Some part e Inl show ?thesis by (intro exI [of _ "part @ place"]) (auto simp: part_of_def)
  qed
qed

lemma append_attachments_parts:
  "append_attachments T as w = (Inr (), w') \<Longrightarrow> \<exists>parts. list_all2 (part_of T) as parts \<and> w' = w @ concat parts"
proof (induction as arbitrary: w)
  case Nil
  then show ?case by auto
next
  case (Cons a as)
  then obtain w1 where a: "append_attachment T a w = (Inr (), w1)" and r: "append_attachments T as w1 = (Inr (), w')"
    by (auto split: prod.splits sum.splits)
  from append_attachment_part [OF a] obtain ps where "part_of T a ps" "w1 = w @ ps" by blast
  moreover from Cons.IH [OF r] obtain parts where "list_all2 (part_of T) as parts" "w' = w1 @ concat parts" by blast
  ultimately show ?case by (intro exI [of _ "ps # parts"]) auto
qed

text \<open>The documented behaviour of the libraries the archive relies on: everything imports, notes are
  rendered to documents that open, and no failure of theirs is spork's own error class.\<close>

definition tools_ok :: "'p pdf_tools \<Rightarrow> bool" where
  "tools_ok T \<longleftrightarrow>
     (\<forall>m. pt_importable T m) \<and>
     (\<forall>t. \<exists>data ps. pt_note T t = Inr data \<and> pt_open T data = Pages ps None) \<and>
     (\<forall>data e. pt_image T data = Inl e \<longrightarrow> \<not> is_receipt_pdf_error e) \<and>
     (\<forall>data e. pt_open T data = Unopened e \<longrightarrow> \<not> is_receipt_pdf_error e) \<and>
     (\<forall>data ps e. pt_open T data = Pages ps (Some e) \<longrightarrow> \<not> is_receipt_pdf_error e)"

lemma tools_import: "tools_ok T \<Longrightarrow> import_module T mods = None"
  by (simp add: tools_ok_def import_module_def find_None_iff)

lemma placeholder_appends: "tools_ok T \<Longrightarrow> \<exists>w'. append_placeholder T a w = (Inr (), w')"
proof -
  assume ok: "tools_ok T"
  then obtain data ps where "pt_note T (attachment_note a) = Inr data" "pt_open T data = Pages ps None"
    unfolding tools_ok_def by metis
  with ok show ?thesis
    by (simp add: append_placeholder_def append_result_def placeholder_page_bytes_def importing_def tools_import
        append_pages_def)
qed

lemma append_pages_error: "tools_ok T \<Longrightarrow> append_pages T data w = (Inl e, w') \<Longrightarrow> \<not> is_receipt_pdf_error e"
  unfolding append_pages_def by (simp add: tools_import split: opened.splits option.splits) (auto simp: tools_ok_def)

lemma attempt_error:
  "tools_ok T \<Longrightarrow> attempt T a = Some try_it \<Longrightarrow> try_it w = (Inl e, w') \<Longrightarrow> \<not> is_receipt_pdf_error e"
  by (auto simp: attempt_def append_result_def image_page_bytes_def importing_def tools_import append_pages_error
      split: if_splits sum.splits dest: append_pages_error) (auto simp: tools_ok_def)

lemma append_attachment_total: "tools_ok T \<Longrightarrow> \<exists>w'. append_attachment T a w = (Inr (), w')"
proof (cases "attempt T a")
  case None
  then show "tools_ok T \<Longrightarrow> ?thesis" by (simp add: append_attachment_def placeholder_appends)
next
  case (Some try_it)
  assume ok: "tools_ok T"
  obtain r w1 where "try_it w = (r, w1)" by fastforce
  with ok Some show ?thesis
    by (cases r) (auto simp: append_attachment_def placeholder_appends attempt_error)
qed

lemma append_attachments_total: "tools_ok T \<Longrightarrow> \<exists>w'. append_attachments T as w = (Inr (), w')"
proof (induction as arbitrary: w)
  case (Cons a as)
  obtain w1 where "append_attachment T a w = (Inr (), w1)" using append_attachment_total Cons.prems by blast
  with Cons show ?case by simp
qed simp

section \<open>Properties\<close>


text \<open>An image is drawn inside the margins of its page, never enlarged, and with its own
  proportions.\<close>

theorem image_fits:
  assumes "image_box page img = Some (x, y, w, h)"
    and "72 < fst page" "72 < snd page" and "0 < fst img" "0 < snd img"
  shows "36 \<le> x \<and> x + w \<le> fst page - 36 \<and> 36 \<le> y \<and> y + h \<le> snd page - 36 \<and>
    0 < w \<and> 0 < h \<and> w \<le> fst img \<and> h \<le> snd img \<and> w * snd img = h * fst img"
proof -
  define mw mh where m: "mw = fst page - 72" "mh = snd page - 72"
  define scale where s: "scale = min (min (mw / fst img) (mh / snd img)) 1"
  have box: "x = (fst page - w) / 2" "y = (snd page - h) / 2" "w = fst img * scale" "h = snd img * scale"
    using assms by (auto simp: image_box_def Let_def m s split: if_splits)
  have pos: "0 < scale" using assms m by (auto simp: s)
  have le: "scale \<le> 1" "scale \<le> mw / fst img" "scale \<le> mh / snd img" by (auto simp: s)
  have "w \<le> mw" "h \<le> mh"
    using le assms by (simp_all add: box(3,4) field_simps)
  moreover have "w \<le> fst img" "h \<le> snd img"
    using le assms mult_left_mono [of scale 1 "fst img"] mult_left_mono [of scale 1 "snd img"] by (simp_all add: box(3,4))
  ultimately show ?thesis using pos assms m by (simp add: box field_simps)
qed

section \<open>Witnesses\<close>

text \<open>A library whose documents are one page each, the page being the document's bytes; no bytes are
  not a document.\<close>

definition ex_tools :: "string pdf_tools" where
  "ex_tools =
     \<lparr>pt_importable = (\<lambda>_. True), pt_cover = (\<lambda>_. Inr ''cover''),
      pt_open = (\<lambda>data. if data = [] then Unopened (ValueError ''EOF'') else Pages [data] None),
      pt_image = (\<lambda>_. Inl (ValueError ''not an image'')), pt_note = (\<lambda>t. Inr (''note: '' @ t)), pt_write = (\<lambda>ps. Inr (concat ps))\<rparr>"

lemma ex_tools_ok: "tools_ok ex_tools"
  by (auto simp: tools_ok_def ex_tools_def is_receipt_pdf_error_def split: if_splits)

lemma cover_opens: "pt_cover ex_tools x = Inr ''cover''" "pt_open ex_tools ''cover'' = Pages [''cover''] None"
  by (simp_all add: ex_tools_def)


theorem image_fits_witness: "\<exists>x y w h. image_box (612, 792) (1000, 500) = Some (x, y, w, h) \<and> w \<le> (1000 :: rat)"
proof -
  obtain x y w h where b: "image_box (612, 792) (1000, 500) = Some (x, y, w, h)"
    by (auto simp: image_box_def Let_def)
  show ?thesis using b image_fits [OF b] by auto
qed

end
