(* ===== verification/Llm_Gate.thy ===== *)
theory Llm_Gate
  imports Spork_Effects
begin

text \<open>
  The pure parts of \<open>core/llm\<close>: \<open>budget.py\<close>, \<open>confidence.py\<close>, \<open>validate.py\<close>, \<open>clean.py\<close>,
  the recorded client of \<open>clients/recorded.py\<close> and the response parser of
  \<open>clients/litellm.py\<close>.

  \<open>_strip_html\<close> is \<open>e_strip_html\<close> here and in \<open>Html_Text\<close>; the regular expressions of \<open>clean.py\<close> are
  written out as functions on the text from a line start on. The reference for the quote
  chain is the first line start at which any marker matches.
\<close>

section \<open>budget.py\<close>

definition has_budget_remaining :: "llm_usage \<Rightarrow> int \<Rightarrow> bool" where
  "has_budget_remaining usage daily_call_budget \<longleftrightarrow> us_calls usage < daily_call_budget"

section \<open>confidence.py\<close>

datatype confidence_band = Autoact | Autoact_Alert | Alert_Only

fun band_name :: "confidence_band \<Rightarrow> string" where
  "band_name Autoact = ''autoact''"
| "band_name Autoact_Alert = ''autoact_alert''"
| "band_name Alert_Only = ''alert_only''"

definition confidence_band :: "pyfloat \<Rightarrow> pyfloat \<Rightarrow> pyfloat \<Rightarrow> exn + confidence_band" where
  "confidence_band confidence alert_threshold autoact_threshold =
     (if confidence = NaN \<or> alert_threshold = NaN \<or> autoact_threshold = NaN
      then Inl (ValueError ''confidence_band() got a NaN argument'')
      else if pf_lt autoact_threshold alert_threshold
      then Inl (ValueError ''alert_threshold must not exceed autoact_threshold'')
      else if pf_le autoact_threshold confidence then Inr Autoact
      else if pf_le alert_threshold confidence then Inr Autoact_Alert
      else Inr Alert_Only)"

text \<open>The bands are ordered by how much the daemon does on its own.\<close>

fun band_rank :: "confidence_band \<Rightarrow> nat" where
  "band_rank Alert_Only = 0"
| "band_rank Autoact_Alert = 1"
| "band_rank Autoact = 2"

lemma band_rank_inject: "band_rank a = band_rank b \<Longrightarrow> a = b"
  by (cases a; cases b) auto

instantiation confidence_band :: linorder
begin

definition less_eq_confidence_band :: "confidence_band \<Rightarrow> confidence_band \<Rightarrow> bool" where
  "less_eq_confidence_band a b \<longleftrightarrow> band_rank a \<le> band_rank b"

definition less_confidence_band :: "confidence_band \<Rightarrow> confidence_band \<Rightarrow> bool" where
  "less_confidence_band a b \<longleftrightarrow> band_rank a < band_rank b"

instance
  by standard
    (auto simp: less_eq_confidence_band_def less_confidence_band_def intro: band_rank_inject)

end

section \<open>validate.py\<close>

definition validate_verdict :: "verdict \<Rightarrow> string list \<Rightarrow> string list \<Rightarrow> exn + verdict" where
  "validate_verdict v allowed_categories allowed_mailboxes =
     (if v_category v \<notin> set allowed_categories
      then Inl (VerdictValidationError (Category_Not_Allowed (v_category v)))
      else (case a_mailbox (v_suggested_action v) of
              None \<Rightarrow> Inr v
            | Some m \<Rightarrow> if m \<notin> set allowed_mailboxes
                        then Inl (VerdictValidationError (Mailbox_Not_Allowed m)) else Inr v))"

lemma validate_verdict_Inr_iff:
  "validate_verdict v cats boxes = Inr v' \<longleftrightarrow>
     v' = v \<and> v_category v \<in> set cats \<and>
     (\<forall>m. a_mailbox (v_suggested_action v) = Some m \<longrightarrow> m \<in> set boxes)"
  by (auto simp: validate_verdict_def split: option.splits)

section \<open>clean.py\<close>

text \<open>\<open>\s*$\<close> under MULTILINE: some run of white space ends at a line end.\<close>

definition blank_to_line_end :: "string \<Rightarrow> bool" where
  "blank_to_line_end s \<longleftrightarrow>
     newline \<in> set (takeWhile py_space s) \<or> dropWhile py_space s = []"

text \<open>\<open>>\<close>; \<open>On .{0,120}wrote:\s*$\<close>; \<open>-{3,}\s*Original Message\s*-{3,}\<close>; \<open>_{10,}\s*$\<close>.\<close>

definition marker_gt :: "string \<Rightarrow> bool" where
  "marker_gt s \<longleftrightarrow> prefix ''>'' s"

fun wrote_within :: "nat \<Rightarrow> string \<Rightarrow> bool" where
  "wrote_within n s =
     ((prefix ''wrote:'' (py_lower s) \<and> blank_to_line_end (drop 6 s)) \<or>
      (case (n, s) of (Suc m, c # cs) \<Rightarrow> c \<noteq> newline \<and> wrote_within m cs | _ \<Rightarrow> False))"

declare wrote_within.simps [simp del]

definition marker_on_wrote :: "string \<Rightarrow> bool" where
  "marker_on_wrote s \<longleftrightarrow> prefix ''on '' (py_lower s) \<and> wrote_within 120 (drop 3 s)"

definition marker_original :: "string \<Rightarrow> bool" where
  "marker_original s \<longleftrightarrow>
     (let r = dropWhile py_space (dropWhile (\<lambda>c. c = CHR ''-'') s)
      in prefix ''---'' s \<and> prefix ''original message'' (py_lower r) \<and>
         prefix ''---'' (dropWhile py_space (drop 16 r)))"

definition marker_underscores :: "string \<Rightarrow> bool" where
  "marker_underscores s \<longleftrightarrow>
     prefix ''__________'' s \<and> blank_to_line_end (dropWhile (\<lambda>c. c = CHR ''_'') s)"

definition quote_markers :: "(string \<Rightarrow> bool) list" where
  "quote_markers = [marker_gt, marker_on_wrote, marker_original, marker_underscores]"

text \<open>\<open>pattern.search(text)\<close> of a pattern anchored at a line start: the first such position.\<close>

fun line_search :: "(string \<Rightarrow> bool) \<Rightarrow> bool \<Rightarrow> nat \<Rightarrow> string \<Rightarrow> nat option" where
  "line_search P start i [] = (if start \<and> P [] then Some i else None)"
| "line_search P start i (c # cs) =
     (if start \<and> P (c # cs) then Some i else line_search P (c = newline) (Suc i) cs)"

fun earliest_match :: "(string \<Rightarrow> bool) list \<Rightarrow> string \<Rightarrow> nat option \<Rightarrow> nat option" where
  "earliest_match [] text earliest = earliest"
| "earliest_match (P # Ps) text earliest =
     earliest_match Ps text
       (case line_search P True 0 text of
          None \<Rightarrow> earliest
        | Some i \<Rightarrow> (case earliest of None \<Rightarrow> Some i
                     | Some j \<Rightarrow> if i < j then Some i else earliest))"

definition collapse_quote_chain :: "string \<Rightarrow> string" where
  "collapse_quote_chain text =
     (case earliest_match quote_markers text None of None \<Rightarrow> text | Some i \<Rightarrow> take i text)"

text \<open>\<open>text[:n]\<close>, where a negative \<open>n\<close> counts from the end.\<close>

definition py_slice_to :: "int \<Rightarrow> 'a list \<Rightarrow> 'a list" where
  "py_slice_to n xs = (if 0 \<le> n then take (nat n) xs else take (nat (int (length xs) + n)) xs)"

text \<open>\<open>s.rsplit(" ", 1)[0]\<close>: what precedes the last space, or everything.\<close>

definition before_last_space :: "string \<Rightarrow> string" where
  "before_last_space s =
     (if CHR '' '' \<in> set s then rev (tl (dropWhile (\<lambda>c. c \<noteq> CHR '' '') (rev s))) else s)"

definition truncate_text :: "string \<Rightarrow> int \<Rightarrow> string" where
  "truncate_text text max_chars =
     (if int (length text) \<le> max_chars then text
      else before_last_space (py_slice_to max_chars text) @ '' ... [truncated]'')"

text \<open>\<open>re.sub(r"\n{3,}", "\n\n", text)\<close>; the counter is the length of the current run.\<close>

fun squeeze_blank_lines :: "nat \<Rightarrow> string \<Rightarrow> string" where
  "squeeze_blank_lines n [] = []"
| "squeeze_blank_lines n (c # cs) =
     (if c = newline
      then (if n < 2 then newline # squeeze_blank_lines (Suc n) cs else squeeze_blank_lines n cs)
      else c # squeeze_blank_lines 0 cs)"

definition clean_body :: "(string \<Rightarrow> string) \<Rightarrow> string \<Rightarrow> int \<Rightarrow> string" where
  "clean_body strip_html raw_body max_chars =
     (let text = strip_html raw_body;
          text = collapse_quote_chain text;
          text = truncate_text text max_chars;
          text = squeeze_blank_lines 0 text
      in py_strip text)"

section \<open>Lemmas on cleaning\<close>

text \<open>Reference: the line starts of a text, with the text from each on.\<close>

definition line_start :: "string \<Rightarrow> nat \<Rightarrow> bool" where
  "line_start s i \<longleftrightarrow> i \<le> length s \<and> (i = 0 \<or> s ! (i - 1) = newline)"

lemma line_start_Cons_Suc:
  "line_start (c # cs) (Suc i) \<longleftrightarrow> (if i = 0 then c = newline else line_start cs i)"
  by (cases i) (auto simp: line_start_def)

text \<open>The same with the first position's status given.\<close>

definition start_at :: "bool \<Rightarrow> string \<Rightarrow> nat \<Rightarrow> bool" where
  "start_at st s i \<longleftrightarrow> (if i = 0 then st else line_start s i)"

lemma start_at_0 [simp]: "start_at st s 0 = st"
  by (simp add: start_at_def)

lemma start_at_Suc [simp]: "start_at st (c # cs) (Suc i) = start_at (c = newline) cs i"
  by (simp add: start_at_def line_start_Cons_Suc)

lemma start_at_Nil_Suc [simp]: "\<not> start_at st [] (Suc i)"
  by (simp add: start_at_def line_start_def)

lemma start_at_True: "start_at True s i = line_start s i"
  by (simp add: start_at_def line_start_def)

lemma line_search_Some:
  "line_search P st k s = Some j \<Longrightarrow>
     \<exists>i. j = k + i \<and> start_at st s i \<and> P (drop i s) \<and> (\<forall>i' < i. start_at st s i' \<longrightarrow> \<not> P (drop i' s))"
proof (induction P st k s rule: line_search.induct)
  case (1 P st k)
  then show ?case by (auto split: if_splits)
next
  case (2 P st k c cs)
  show ?case
  proof (cases "st \<and> P (c # cs)")
    case True
    with "2.prems" show ?thesis by (auto intro!: exI [of _ 0])
  next
    case False
    with "2.prems" have "line_search P (c = newline) (Suc k) cs = Some j" by simp
    from "2.IH" [OF False this] obtain i where
      i: "j = Suc k + i" "start_at (c = newline) cs i" "P (drop i cs)"
        "\<forall>i' < i. start_at (c = newline) cs i' \<longrightarrow> \<not> P (drop i' cs)" by blast
    have "\<forall>i' < Suc i. start_at st (c # cs) i' \<longrightarrow> \<not> P (drop i' (c # cs))"
    proof (intro allI impI)
      fix i' assume "i' < Suc i" "start_at st (c # cs) i'"
      with i(4) False show "\<not> P (drop i' (c # cs))" by (cases i') auto
    qed
    with i show ?thesis by (intro exI [of _ "Suc i"]) simp
  qed
qed

lemma line_search_None:
  "line_search P st k s = None \<Longrightarrow> start_at st s i \<Longrightarrow> \<not> P (drop i s)"
proof (induction P st k s arbitrary: i rule: line_search.induct)
  case (1 P st k)
  then show ?case by (cases i) (auto split: if_splits)
next
  case (2 P st k c cs)
  then show ?case by (cases i) (auto split: if_splits)
qed

lemma line_search_ge: "line_search P st k s = Some j \<Longrightarrow> k \<le> j"
  using line_search_Some by fastforce

definition or_min :: "nat option \<Rightarrow> nat option \<Rightarrow> nat option" where
  "or_min a b = (case a of None \<Rightarrow> b | Some i \<Rightarrow>
     (case b of None \<Rightarrow> Some i | Some j \<Rightarrow> Some (if i < j then i else j)))"

lemma line_search_or:
  "or_min (line_search P st k s) (line_search Q st k s) = line_search (\<lambda>x. P x \<or> Q x) st k s"
proof (induction P st k s rule: line_search.induct)
  case (1 P st k)
  show ?case by (simp add: or_min_def)
next
  case (2 P st k c cs)
  have ge: "Suc k \<le> j" if "line_search R (c = newline) (Suc k) cs = Some j" for R j
    using line_search_ge [OF that] .
  show ?case using 2 ge
    by (auto simp: or_min_def split: option.splits dest: ge)
qed

lemma or_min_assoc: "or_min (or_min a b) c = or_min a (or_min b c)"
  by (auto simp: or_min_def split: option.splits)

lemma line_search_False: "line_search (\<lambda>_. False) st k s = None"
  by (induction s arbitrary: st k) auto

lemma earliest_match_fold:
  "earliest_match Ps text e = or_min e (line_search (\<lambda>x. \<exists>P \<in> set Ps. P x) True 0 text)"
proof (induction Ps arbitrary: e)
  case Nil
  show ?case by (simp add: line_search_False or_min_def split: option.split)
next
  case (Cons P Ps)
  have "earliest_match (P # Ps) text e = earliest_match Ps text (or_min e (line_search P True 0 text))"
    by (auto simp: or_min_def split: option.splits)
  also have "\<dots> = or_min e (or_min (line_search P True 0 text)
      (line_search (\<lambda>x. \<exists>P \<in> set Ps. P x) True 0 text))"
    by (simp add: Cons or_min_assoc)
  finally show ?case by (simp add: line_search_or)
qed

text \<open>A quote marker at the start of a text, and the cut it makes.\<close>

definition quote_starts :: "string \<Rightarrow> bool" where
  "quote_starts s \<longleftrightarrow> (\<exists>P \<in> set quote_markers. P s)"

lemma collapse_quote_chain_eq:
  "collapse_quote_chain text =
     (case line_search quote_starts True 0 text of None \<Rightarrow> text | Some i \<Rightarrow> take i text)"
  by (simp add: collapse_quote_chain_def earliest_match_fold or_min_def quote_starts_def [abs_def])

definition triple_newline :: string where
  "triple_newline = [newline, newline, newline]"

lemma no_triple_skip:
  "n \<le> 2 \<Longrightarrow> c \<noteq> newline \<Longrightarrow> py_contains triple_newline (replicate n newline @ c # r) \<Longrightarrow>
   py_contains triple_newline r"
proof -
  assume n: "n \<le> 2" and c: "c \<noteq> newline"
    and t: "py_contains triple_newline (replicate n newline @ c # r)"
  from n consider "n = 0" | "n = Suc 0" | "n = Suc (Suc 0)" by linarith
  then show ?thesis using t c by cases (auto simp: triple_newline_def)
qed

lemma squeeze_no_triple:
  "n \<le> 2 \<Longrightarrow> \<not> py_contains triple_newline (replicate n newline @ squeeze_blank_lines n s)"
proof (induction n s rule: squeeze_blank_lines.induct)
  case (1 n)
  then show ?case by (auto simp: py_contains_iff triple_newline_def dest: arg_cong [of _ _ length])
next
  case (2 n c cs)
  show ?case
  proof (cases "c = newline")
    case True
    show ?thesis
    proof (cases "n < 2")
      case n: True
      then have "\<not> py_contains triple_newline (replicate (Suc n) newline @ squeeze_blank_lines (Suc n) cs)"
        using 2 True by simp
      with True n show ?thesis by (simp add: replicate_app_Cons_same)
    next
      case False
      with 2 True show ?thesis by simp
    qed
  next
    case False
    with 2 have "\<not> py_contains triple_newline (squeeze_blank_lines 0 cs)" by simp
    with False 2 no_triple_skip show ?thesis by auto
  qed
qed

lemma length_squeeze: "length (squeeze_blank_lines n s) \<le> length s"
  by (induction n s rule: squeeze_blank_lines.induct) auto

lemma length_strip: "length (py_strip s) \<le> length s"
  unfolding py_strip_def by (metis length_rev length_dropWhile_le order_trans)

lemma length_before_last_space: "length (before_last_space s) \<le> length s"
proof -
  let ?t = "dropWhile (\<lambda>c. c \<noteq> CHR '' '') (rev s)"
  have "length ?t \<le> length s" using length_dropWhile_le [of _ "rev s"] by simp
  then have "length (tl ?t) \<le> length s" by simp
  then show ?thesis by (simp add: before_last_space_def)
qed

lemma length_slice: "0 \<le> n \<Longrightarrow> length (py_slice_to n xs) \<le> nat n"
  by (simp add: py_slice_to_def)

lemma py_strip_factor: "\<exists>a b. s = a @ py_strip s @ b"
proof -
  let ?t = "dropWhile py_space s"
  have "s = takeWhile py_space s @ ?t" by simp
  moreover have "?t = py_strip s @ rev (takeWhile py_space (rev ?t))"
    unfolding py_strip_def by (metis rev_append rev_rev_ident takeWhile_dropWhile_id)
  ultimately show ?thesis by metis
qed

lemma py_contains_factor: "py_contains t m \<Longrightarrow> py_contains t (a @ m @ b)"
  unfolding py_contains_iff by (metis append.assoc)

lemma py_strip_clean:
  assumes "py_strip s \<noteq> []"
  shows "\<not> py_space (hd (py_strip s))" and "\<not> py_space (last (py_strip s))"
proof -
  define t where "t = dropWhile py_space s"
  define u where "u = dropWhile py_space (rev t)"
  have s: "py_strip s = rev u" by (simp add: py_strip_def t_def u_def)
  with assms have u: "u \<noteq> []" by simp
  then have t: "t \<noteq> []" by (auto simp: u_def)
  have hdt: "\<not> py_space (hd t)" using hd_dropWhile t unfolding t_def by blast
  then have "last u = hd t"
    using dropWhile_last [of "rev t" py_space] t by (simp add: last_rev u_def)
  with hdt show "\<not> py_space (hd (py_strip s))" using u by (simp add: s hd_rev)
  show "\<not> py_space (last (py_strip s))" using assms by (rule py_strip_hd)
qed

lemma length_truncate:
  "0 \<le> n \<Longrightarrow> length (truncate_text s n) \<le> nat n + 16"
  using length_before_last_space [of "py_slice_to n s"] length_slice [of n s]
  by (auto simp: truncate_text_def)

section \<open>clients/litellm.py: parsing the response\<close>

text \<open>
  The response object as LiteLLM's OpenAI-compatible interface documents it: per choice the
  message's tool calls (None when there are none), each a function name and its argument
  text; and the usage, possibly missing. Decoding the argument text and building a
  \<open>Verdict\<close>'s fields (\<open>json.loads\<close>, pydantic) is the parameter \<open>decode\<close>; the class's own
  validators are \<open>verdict_valid\<close>.
\<close>

record tool_call =
  fn_name :: string
  fn_arguments :: string

record completion_response =
  resp_choices :: "tool_call list option list"
  resp_usage :: "(int \<times> int) option"

definition parse_response ::
  "(string \<Rightarrow> verdict option) \<Rightarrow> completion_response \<Rightarrow> exn + llm_result" where
  "parse_response decode response =
     (let invalid = Inl (LiteLLMClientError ''invalid LiteLLM verdict response'') in
      case resp_choices response of
        [] \<Rightarrow> invalid
      | ch # _ \<Rightarrow>
          (case ch of
             None \<Rightarrow> invalid
           | Some calls \<Rightarrow>
               if length calls \<noteq> 1 then invalid
               else if fn_name (hd calls) \<noteq> ''deliver_verdict'' then invalid
               else (case decode (fn_arguments (hd calls)) of
                       None \<Rightarrow> invalid
                     | Some v \<Rightarrow>
                         if \<not> verdict_valid v then invalid
                         else (case resp_usage response of
                                 None \<Rightarrow> invalid
                               | Some (ti, to) \<Rightarrow>
                                   Inr \<lparr>lr_verdict = v,
                                        lr_usage = \<lparr>lu_tokens_in = ti, lu_tokens_out = to\<rparr>\<rparr>))))"

definition litellm_get_verdict ::
  "(string \<Rightarrow> verdict option) \<Rightarrow> (verdict_request \<Rightarrow> exn + completion_response) \<Rightarrow>
   verdict_request \<Rightarrow> exn + llm_result" where
  "litellm_get_verdict decode completion req =
     (case completion req of
        Inl e \<Rightarrow> Inl (LiteLLMClientError ''LiteLLM completion failed'')
      | Inr response \<Rightarrow> parse_response decode response)"

section \<open>clients/recorded.py\<close>

text \<open>
  The responses file: its decoded JSON value's entries in file order, each already passed to
  the field decoder (None: rejected). \<open>responses[subject] = Verdict.model_validate(entry)\<close>.
\<close>

fun load_responses ::
  "(string \<times> verdict option) list \<Rightarrow> (string, verdict) dict \<Rightarrow> exn + (string, verdict) dict" where
  "load_responses [] acc = Inr acc"
| "load_responses ((subj, entry) # es) acc =
     (case entry of
        Some v \<Rightarrow> if verdict_valid v then load_responses es (dict_set acc subj v)
                  else Inl (RecordedResponsesLoadError subj)
      | None \<Rightarrow> Inl (RecordedResponsesLoadError subj))"

definition recorded_get_verdict ::
  "(string, verdict) dict \<Rightarrow> verdict_request \<Rightarrow> exn + llm_result" where
  "recorded_get_verdict responses req =
     (case dict_get responses (vq_subject req) of
        None \<Rightarrow> Inl (UnrecordedResponseError (vq_subject req))
      | Some v \<Rightarrow>
          Inr \<lparr>lr_verdict = v, lr_usage = \<lparr>lu_tokens_in = 0, lu_tokens_out = 0\<rparr>\<rparr>)"

section \<open>The LLMClient interface\<close>

text \<open>
  What every client promises: a returned verdict is a valid \<open>Verdict\<close>, so its action is
  one a Tier 2 verdict may suggest.
\<close>

locale llm_client =
  fixes get_verdict :: "verdict_request \<Rightarrow> exn + llm_result"
  assumes returns_valid: "get_verdict req = Inr res \<Longrightarrow> verdict_valid (lr_verdict res)"
begin

lemma never_escalates:
  "get_verdict req = Inr res \<Longrightarrow> a_type (v_suggested_action (lr_verdict res)) \<in> {Move, Tag, Ignore}"
  using returns_valid [of req res]
  by (cases "a_type (v_suggested_action (lr_verdict res))")
    (auto simp: verdict_valid_def suggested_action_must_be_terminal_def)

lemma confidence_not_nan: "get_verdict req = Inr res \<Longrightarrow> v_confidence (lr_verdict res) \<noteq> NaN"
  using returns_valid [of req res] by (auto simp: verdict_valid_def)

end

lemma parse_response_valid: "parse_response decode resp = Inr res \<Longrightarrow> verdict_valid (lr_verdict res)"
  by (auto simp: parse_response_def Let_def split: list.splits option.splits if_splits)

interpretation litellm: llm_client "litellm_get_verdict decode completion" for decode completion
  by unfold_locales
    (auto simp: litellm_get_verdict_def dest: parse_response_valid split: sum.splits)

lemma load_responses_valid:
  assumes "load_responses es acc = Inr d" and "\<forall>v. dict_get acc s = Some v \<longrightarrow> verdict_valid v"
    and "dict_get d s = Some v"
  shows "verdict_valid v"
  using assms
proof (induction es acc rule: load_responses.induct)
  case (1 acc)
  then show ?case by simp
next
  case (2 subj entry es acc)
  then show ?case by (auto split: option.splits if_splits)
qed

lemma recorded_client_valid:
  assumes "load_responses es [] = Inr d" and "recorded_get_verdict d req = Inr res"
  shows "verdict_valid (lr_verdict res)"
  using load_responses_valid [OF assms(1)] assms(2)
  by (auto simp: recorded_get_verdict_def split: option.splits)

text \<open>The recorded client of a responses file that loaded.\<close>

definition recorded_client ::
  "(string \<times> verdict option) list \<Rightarrow> verdict_request \<Rightarrow> exn + llm_result" where
  "recorded_client entries req =
     (case load_responses entries [] of Inl e \<Rightarrow> Inl e | Inr d \<Rightarrow> recorded_get_verdict d req)"

interpretation recorded: llm_client "recorded_client entries" for entries
  by unfold_locales (auto simp: recorded_client_def dest: recorded_client_valid split: sum.splits)

section \<open>Properties\<close>

text \<open>Confidence bands. An error exactly when an argument is NaN or the thresholds are
  crossed; otherwise a more confident verdict never gets a less autonomous band, and each
  band is its half-open interval, both thresholds inclusive.\<close>

theorem confidence_band_monotone:
  "((\<exists>e. confidence_band c a t = Inl e) \<longleftrightarrow> c = NaN \<or> a = NaN \<or> t = NaN \<or> pf_lt t a) \<and>
   (confidence_band c a t = Inr b \<and> confidence_band c' a t = Inr b' \<and> pf_le c c' \<longrightarrow> b \<le> b') \<and>
   (confidence_band c a t = Inr b \<longrightarrow>
      (b = Autoact \<longleftrightarrow> pf_le t c) \<and> (b = Alert_Only \<longleftrightarrow> pf_lt c a))"
proof (intro conjI impI)
  show "(\<exists>e. confidence_band c a t = Inl e) \<longleftrightarrow> c = NaN \<or> a = NaN \<or> t = NaN \<or> pf_lt t a"
    by (auto simp: confidence_band_def split: if_splits)
  show "b \<le> b'" if h: "confidence_band c a t = Inr b \<and> confidence_band c' a t = Inr b' \<and> pf_le c c'"
    using h pf_le_trans [of t c c'] pf_le_trans [of a c c']
    by (auto simp: confidence_band_def less_eq_confidence_band_def split: if_splits)
  assume b: "confidence_band c a t = Inr b"
  then have nan: "c \<noteq> NaN" "a \<noteq> NaN" "t \<noteq> NaN" and at: "pf_le a t"
    by (auto simp: confidence_band_def pf_lt_le split: if_splits)
  show "b = Autoact \<longleftrightarrow> pf_le t c" using b by (auto simp: confidence_band_def split: if_splits)
  show "b = Alert_Only \<longleftrightarrow> pf_lt c a"
    using b nan at pf_le_trans [of a t c] by (auto simp: confidence_band_def pf_lt_le split: if_splits)
qed

text \<open>The cleaned body a prompt carries: the text is cut exactly at the first line start
  where a quote marker matches (kept whole when none does); the result is at most 16
  characters (the truncation marker) longer than the bound, never has two blank lines in a
  row, and neither begins nor ends with white space.\<close>

theorem clean_body_spec:
  "(case collapse_quote_chain s of kept \<Rightarrow>
      (kept = s \<and> (\<forall>i. line_start s i \<longrightarrow> \<not> quote_starts (drop i s))) \<or>
      (\<exists>i. kept = take i s \<and> line_start s i \<and> quote_starts (drop i s) \<and>
         (\<forall>j < i. line_start s j \<longrightarrow> \<not> quote_starts (drop j s)))) \<and>
   (0 \<le> n \<longrightarrow> length (clean_body strip_html raw n) \<le> nat n + 16) \<and>
   \<not> py_contains triple_newline (clean_body strip_html raw n) \<and>
   (clean_body strip_html raw n \<noteq> [] \<longrightarrow>
      \<not> py_space (hd (clean_body strip_html raw n)) \<and>
      \<not> py_space (last (clean_body strip_html raw n)))"
proof (intro conjI impI)
  show "case collapse_quote_chain s of kept \<Rightarrow>
      (kept = s \<and> (\<forall>i. line_start s i \<longrightarrow> \<not> quote_starts (drop i s))) \<or>
      (\<exists>i. kept = take i s \<and> line_start s i \<and> quote_starts (drop i s) \<and>
         (\<forall>j < i. line_start s j \<longrightarrow> \<not> quote_starts (drop j s)))"
  proof (cases "line_search quote_starts True 0 s")
    case None
    then show ?thesis
      using line_search_None [OF None] by (simp add: collapse_quote_chain_eq start_at_True)
  next
    case (Some i)
    then have "collapse_quote_chain s = take i s" by (simp add: collapse_quote_chain_eq)
    moreover have "line_start s i \<and> quote_starts (drop i s) \<and>
        (\<forall>j < i. line_start s j \<longrightarrow> \<not> quote_starts (drop j s))"
      using line_search_Some [OF Some] by (simp add: start_at_True)
    ultimately show ?thesis by auto
  qed
  define q where "q = truncate_text (collapse_quote_chain (strip_html raw)) n"
  have c: "clean_body strip_html raw n = py_strip (squeeze_blank_lines 0 q)"
    by (simp add: clean_body_def q_def Let_def)
  show "length (clean_body strip_html raw n) \<le> nat n + 16" if "0 \<le> n"
    using length_truncate [OF that] length_strip length_squeeze unfolding c q_def
    by (meson order_trans)
  obtain a b where "squeeze_blank_lines 0 q = a @ py_strip (squeeze_blank_lines 0 q) @ b"
    using py_strip_factor by blast
  with squeeze_no_triple [of 0 q] py_contains_factor
  show "\<not> py_contains triple_newline (clean_body strip_html raw n)"
    unfolding c by (metis append_Nil le0 replicate_0)
  assume "clean_body strip_html raw n \<noteq> []"
  then show "\<not> py_space (hd (clean_body strip_html raw n))"
    and "\<not> py_space (last (clean_body strip_html raw n))"
    unfolding c by (rule py_strip_clean)+
qed

text \<open>C28: the response parser accepts exactly the responses with one call to
  \<open>deliver_verdict\<close>, decodable arguments, a verdict that satisfies the class's validators
  and a usage; everything else, and every failure of the completion call, is one
  \<open>LiteLLMClientError\<close>.\<close>

theorem litellm_accepts:
  "(litellm_get_verdict decode completion req = Inr res \<longleftrightarrow>
     (\<exists>args rest ti to v. completion req = Inr \<lparr>resp_choices =
          Some [\<lparr>fn_name = ''deliver_verdict'', fn_arguments = args\<rparr>] # rest,
          resp_usage = Some (ti, to)\<rparr> \<and>
        decode args = Some v \<and> verdict_valid v \<and>
        res = \<lparr>lr_verdict = v, lr_usage = \<lparr>lu_tokens_in = ti, lu_tokens_out = to\<rparr>\<rparr>)) \<and>
   (\<forall>e. litellm_get_verdict decode completion req = Inl e \<longrightarrow> (\<exists>s. e = LiteLLMClientError s))"
    (is "(?l \<longleftrightarrow> ?r) \<and> _")
proof (intro conjI allI impI)
  show "?l \<longleftrightarrow> ?r"
  proof
    assume ?l
    then show ?r
      by (auto simp: litellm_get_verdict_def parse_response_def Let_def length_Suc_conv
          split: sum.splits list.splits option.splits if_splits)
        (metis (full_types) completion_response.surjective old.unit.exhaust tool_call.surjective)
  next
    assume ?r
    then show ?l by (auto simp: litellm_get_verdict_def parse_response_def Let_def)
  qed
  show "\<exists>s. e = LiteLLMClientError s" if "litellm_get_verdict decode completion req = Inl e" for e
    using that
    by (auto simp: litellm_get_verdict_def parse_response_def Let_def
        split: sum.splits list.splits option.splits if_splits)
qed

section \<open>Witnesses\<close>

definition ex_verdict :: verdict where
  "ex_verdict =
     \<lparr>v_category = ''work'', v_urgency = VHigh, v_confidence = Num (9 / 10),
      v_suggested_action = (action_of_type Move)\<lparr>a_mailbox := Some ''Shop''\<rparr>,
      v_summary = ''s'', v_draft_reply = None, v_reasoning = ''r'', v_metadata = []\<rparr>"

theorem confidence_band_monotone_witness:
  "Alert_Only \<le> Autoact \<and> confidence_band (Num (9 / 10)) (Num (55 / 100)) (Num (85 / 100)) = Inr Autoact"
proof -
  have b: "confidence_band (Num (1 / 2)) (Num (55 / 100)) (Num (85 / 100)) = Inr Alert_Only"
    and b': "confidence_band (Num (9 / 10)) (Num (55 / 100)) (Num (85 / 100)) = Inr Autoact"
    by (simp_all add: confidence_band_def)
  have "pf_le (Num (1 / 2)) (Num (9 / 10))" by simp
  with confidence_band_monotone [of "Num (1 / 2)" "Num (55 / 100)" "Num (85 / 100)" Alert_Only
      "Num (9 / 10)" Autoact] b b' show ?thesis by simp
qed

theorem clean_body_spec_witness:
  "clean_body (\<lambda>s. s) (''hello world'' @ [newline] @ ''> old'') 5 = ''hello ... [truncated]'' \<and>
   length (clean_body (\<lambda>s. s) (''hello world'' @ [newline] @ ''> old'') 5) \<le> 21"
proof
  show "clean_body (\<lambda>s. s) (''hello world'' @ [newline] @ ''> old'') 5 = ''hello ... [truncated]''"
    by code_simp
  show "length (clean_body (\<lambda>s. s) (''hello world'' @ [newline] @ ''> old'') 5) \<le> 21"
    using clean_body_spec [of "[]" 5 "\<lambda>s. s" "''hello world'' @ [newline] @ ''> old''"] by simp
qed

theorem litellm_accepts_witness:
  "\<forall>req. litellm_get_verdict (\<lambda>_. Some ex_verdict) (\<lambda>_. Inr \<lparr>resp_choices =
       [Some [\<lparr>fn_name = ''deliver_verdict'', fn_arguments = ''{}''\<rparr>]], resp_usage = Some (7, 3)\<rparr>) req =
     Inr \<lparr>lr_verdict = ex_verdict, lr_usage = \<lparr>lu_tokens_in = 7, lu_tokens_out = 3\<rparr>\<rparr>"
proof -
  have "verdict_valid ex_verdict"
    by (simp add: verdict_valid_def ex_verdict_def suggested_action_must_be_terminal_def
        action_of_type_def)
  then show ?thesis by (subst litellm_accepts [THEN conjunct1]) simp
qed

end
