(* ===== verification/Tier2_Modules.thy ===== *)
theory Tier2_Modules
  imports Llm_Gate Tier1_Modules
begin

text \<open>
  \<open>core/pipeline/tier2/meta.py\<close> and \<open>modules.py\<close>: the metadata of the Tier 2 pipeline and its
  filters, selectors and augments, one definition per class, each the body of its
  \<open>apply()\<close>, \<open>augment()\<close> or \<open>select()\<close>. The lemmas give each stage's frame.
\<close>

record tier2_meta =
  m2_message :: message
  m2_to_addresses :: "string list"
  m2_thread_prior_subject :: "string option"
  m2_thread_user_has_replied :: bool
  m2_available_mailboxes :: "string list"
  m2_ts :: "string option"
  m2_correlation_id :: "string option"
  m2_context :: "context_result option"
  m2_request :: "verdict_request option"
  m2_verdict :: "verdict option"
  m2_llm_usage :: "llm_call_usage option"
  m2_band :: "confidence_band option"
  m2_audit_event :: "string option"
  m2_audit_detail_json :: "string option"

fun alert_urgency_by_verdict_urgency :: "verdict_urgency \<Rightarrow> alert_urgency" where
  "alert_urgency_by_verdict_urgency VLow = Low"
| "alert_urgency_by_verdict_urgency VMedium = Normal"
| "alert_urgency_by_verdict_urgency VHigh = Critical"

section \<open>Modules\<close>

definition timestamp_filter2 :: "env \<Rightarrow> tier2_meta stage" where
  "timestamp_filter2 E = Stage ''TimestampFilter'' Filter
     (\<lambda>p. bind (now E) (\<lambda>ts. ret (p\<lparr>p_meta := (p_meta p)\<lparr>m2_ts := Some ts\<rparr>\<rparr>)))"

definition correlation_id_filter2 :: "env \<Rightarrow> tier2_meta stage" where
  "correlation_id_filter2 E = Stage ''CorrelationIdFilter'' Filter
     (\<lambda>p. bind (new_correlation_id E)
        (\<lambda>i. ret (p\<lparr>p_meta := (p_meta p)\<lparr>m2_correlation_id := Some i\<rparr>\<rparr>)))"

definition budget_gate_selector :: "int \<Rightarrow> tier2_meta selector" where
  "budget_gate_selector daily_call_budget = Selector ''BudgetGateSelector''
     (\<lambda>p. case m2_ts (p_meta p) of
        None \<Rightarrow> throw (MissingMetaError ''BudgetGateSelector requires meta.ts'')
      | Some ts \<Rightarrow>
          bind (read_db (\<lambda>db. get_llm_usage db (take 10 ts)))
            (\<lambda>usage. ret (if has_budget_remaining usage daily_call_budget then ''budget_ok''
                          else ''budget_exhausted'', p)))"

definition fetch_context_augment :: "env \<Rightarrow> tier2_meta stage" where
  "fetch_context_augment E = Stage ''FetchContextAugment'' Augment
     (\<lambda>p. let msg = m2_message (p_meta p) in
        bind (call (C_Context msg) (\<lambda>h. e_context E h msg))
          (\<lambda>ctx. ret (p\<lparr>p_meta := (p_meta p)\<lparr>m2_context := Some ctx\<rparr>\<rparr>)))"

definition build_verdict_request_filter :: "env \<Rightarrow> string list \<Rightarrow> int \<Rightarrow> tier2_meta stage" where
  "build_verdict_request_filter E available_categories max_body_chars =
     Stage ''BuildVerdictRequestFilter'' Filter
     (\<lambda>p. let meta = p_meta p in
        case m2_context meta of
          None \<Rightarrow> throw (MissingMetaError ''BuildVerdictRequestFilter requires meta.context'')
        | Some ctx \<Rightarrow>
            let cleaned = clean_body (e_strip_html E) (p_text p) max_body_chars;
                req = \<lparr>vq_subject = subject (m2_message meta),
                       vq_from_address = from_address (m2_message meta),
                       vq_to_addresses = m2_to_addresses meta,
                       vq_cleaned_body = cleaned,
                       vq_thread_prior_subject = m2_thread_prior_subject meta,
                       vq_thread_user_has_replied = m2_thread_user_has_replied meta,
                       vq_available_mailboxes = m2_available_mailboxes meta,
                       vq_available_categories = available_categories,
                       vq_context_snippets = map (\<lambda>s. cs_source s @ '': '' @ cs_text s) ctx\<rparr>
            in ret (p\<lparr>p_text := cleaned, p_meta := meta\<lparr>m2_request := Some req\<rparr>\<rparr>))"

definition call_llm_augment :: "env \<Rightarrow> tier2_meta stage" where
  "call_llm_augment E = Stage ''CallLLMAugment'' Augment
     (\<lambda>p. case m2_request (p_meta p) of
        None \<Rightarrow> throw (MissingMetaError ''CallLLMAugment requires meta.request'')
      | Some req \<Rightarrow>
          bind (call (C_Llm req) (\<lambda>h. e_llm E h req))
            (\<lambda>res. ret (p\<lparr>p_meta := (p_meta p)\<lparr>m2_verdict := Some (lr_verdict res),
                                               m2_llm_usage := Some (lr_usage res)\<rparr>\<rparr>)))"

definition record_llm_usage_filter :: "tier2_meta stage" where
  "record_llm_usage_filter = Stage ''RecordLLMUsageFilter'' Filter
     (\<lambda>p. case m2_ts (p_meta p) of
        None \<Rightarrow> throw (MissingMetaError ''RecordLLMUsageFilter requires meta.ts'')
      | Some ts \<Rightarrow>
          (case m2_llm_usage (p_meta p) of
             None \<Rightarrow> throw (MissingMetaError ''RecordLLMUsageFilter requires meta.llm_usage'')
           | Some u \<Rightarrow>
               bind (update_db (record_llm_call (take 10 ts) (lu_tokens_in u) (lu_tokens_out u)))
                 (\<lambda>_. ret p)))"

definition validate_verdict_filter :: "string list \<Rightarrow> tier2_meta stage" where
  "validate_verdict_filter allowed_categories = Stage ''ValidateVerdictFilter'' Filter
     (\<lambda>p. case m2_verdict (p_meta p) of
        None \<Rightarrow> throw (MissingMetaError ''ValidateVerdictFilter requires meta.verdict'')
      | Some v \<Rightarrow>
          bind (of_sum (validate_verdict v allowed_categories
                          (m2_available_mailboxes (p_meta p))))
            (\<lambda>v'. ret (p\<lparr>p_meta := (p_meta p)\<lparr>m2_verdict := Some v'\<rparr>\<rparr>)))"

definition confidence_band_selector :: "pyfloat \<Rightarrow> pyfloat \<Rightarrow> tier2_meta selector" where
  "confidence_band_selector alert_threshold autoact_threshold = Selector ''ConfidenceBandSelector''
     (\<lambda>p. case m2_verdict (p_meta p) of
        None \<Rightarrow> throw (MissingMetaError ''ConfidenceBandSelector requires meta.verdict'')
      | Some v \<Rightarrow>
          bind (of_sum (confidence_band (v_confidence v) alert_threshold autoact_threshold))
            (\<lambda>b. ret (band_name b, p\<lparr>p_meta := (p_meta p)\<lparr>m2_band := Some b\<rparr>\<rparr>)))"

text \<open>\<open>f"{meta.band}"\<close>.\<close>

definition band_text :: "confidence_band option \<Rightarrow> string" where
  "band_text b = (case b of None \<Rightarrow> ''None'' | Some x \<Rightarrow> band_name x)"

definition action_detail_json :: "verdict \<Rightarrow> confidence_band option \<Rightarrow> string" where
  "action_detail_json v b =
     ''{'' @ quoted ''action_type'' @ '': '' @
       quoted (action_type_name (a_type (v_suggested_action v))) @ '', '' @
     quoted ''category'' @ '': '' @ quoted (v_category v) @ '', '' @
     quoted ''band'' @ '': '' @ quoted (band_text b) @ ''}''"

definition alert_detail_json :: "verdict \<Rightarrow> confidence_band option \<Rightarrow> string" where
  "alert_detail_json v b =
     ''{'' @ quoted ''category'' @ '': '' @ quoted (v_category v) @ '', '' @
     quoted ''band'' @ '': '' @ quoted (band_text b) @ ''}''"

definition apply_verdict_action_filter :: "env \<Rightarrow> backend \<Rightarrow> tier2_meta stage" where
  "apply_verdict_action_filter E backend = Stage ''ApplyVerdictActionFilter'' Filter
     (\<lambda>p. let meta = p_meta p in
        case m2_verdict meta of
          None \<Rightarrow> throw (MissingMetaError ''ApplyVerdictActionFilter requires meta.verdict'')
        | Some v \<Rightarrow>
            let out = ret (p\<lparr>p_meta := meta\<lparr>m2_audit_event := Some ''tier2_action_applied'',
                     m2_audit_detail_json := Some (action_detail_json v (m2_band meta))\<rparr>\<rparr>)
            in bind (execute E backend (m2_message meta) (v_suggested_action v))
                 (\<lambda>_. if m2_band meta = Some Autoact_Alert \<or> v_urgency v = VHigh
                      then (case m2_correlation_id meta of
                              None \<Rightarrow> throw (MissingMetaError
                                ''ApplyVerdictActionFilter requires meta.correlation_id to alert'')
                            | Some cid \<Rightarrow>
                                bind (alert E cid (''Action taken: '' @ v_category v)
                                        (sender_line (m2_message meta))
                                        (alert_urgency_by_verdict_urgency (v_urgency v)))
                                  (\<lambda>_. out))
                      else out))"

definition record_alert_only_filter :: "env \<Rightarrow> tier2_meta stage" where
  "record_alert_only_filter E = Stage ''RecordAlertOnlyFilter'' Filter
     (\<lambda>p. let meta = p_meta p in
        case m2_verdict meta of
          None \<Rightarrow> throw (MissingMetaError ''RecordAlertOnlyFilter requires meta.verdict'')
        | Some v \<Rightarrow>
            (case m2_correlation_id meta of
               None \<Rightarrow> throw (MissingMetaError
                 ''RecordAlertOnlyFilter requires meta.correlation_id to alert'')
             | Some cid \<Rightarrow>
                 bind (alert E cid (''Needs review: '' @ v_category v)
                         (sender_line (m2_message meta))
                         (alert_urgency_by_verdict_urgency (v_urgency v)))
                   (\<lambda>_. ret (p\<lparr>p_meta := meta
                      \<lparr>m2_audit_event := Some ''tier2_alert_only_no_action'',
                       m2_audit_detail_json := Some (alert_detail_json v (m2_band meta))\<rparr>\<rparr>))))"

definition record_budget_exhausted_filter :: "env \<Rightarrow> tier2_meta stage" where
  "record_budget_exhausted_filter E = Stage ''RecordBudgetExhaustedFilter'' Filter
     (\<lambda>p. let meta = p_meta p in
        case m2_correlation_id meta of
          None \<Rightarrow> throw (MissingMetaError
            ''RecordBudgetExhaustedFilter requires meta.correlation_id to alert'')
        | Some cid \<Rightarrow>
            bind (alert E cid ''Tier 2 skipped: daily budget exhausted''
                    (sender_line (m2_message meta)) Critical)
              (\<lambda>_. ret (p\<lparr>p_meta := meta\<lparr>m2_audit_event := Some ''tier2_budget_exhausted''\<rparr>\<rparr>)))"

definition create_draft_if_wanted_filter :: "env \<Rightarrow> backend \<Rightarrow> tier2_meta stage" where
  "create_draft_if_wanted_filter E backend = Stage ''CreateDraftIfWantedFilter'' Filter
     (\<lambda>p. let meta = p_meta p in
        case m2_verdict meta of
          None \<Rightarrow> throw (MissingMetaError ''CreateDraftIfWantedFilter requires meta.verdict'')
        | Some v \<Rightarrow>
            (case v_draft_reply v of
               None \<Rightarrow> ret p
             | Some d \<Rightarrow>
                 bind (case backend of
                         Live \<Rightarrow> call (C_Draft (m2_message meta) d)
                                   (\<lambda>h. e_draft E h (m2_message meta) d)
                       | Observe \<Rightarrow> ret ())
                   (\<lambda>_. ret p)))"

definition write_audit_entry_filter2 :: "tier2_meta stage" where
  "write_audit_entry_filter2 = Stage ''WriteAuditEntryFilter'' Filter
     (\<lambda>p. let meta = p_meta p in
        case (m2_ts meta, m2_audit_event meta) of
          (Some ts, Some ev) \<Rightarrow>
            bind (write_db (write_audit_entry ts (message_id (m2_message meta)) ev
                              (m2_audit_detail_json meta)))
              (\<lambda>_. ret p)
        | _ \<Rightarrow> throw (MissingMetaError
            ''WriteAuditEntryFilter requires meta.ts and meta.audit_event''))"

definition tier2_row :: "env \<Rightarrow> message \<Rightarrow> verdict option \<Rightarrow> string \<Rightarrow> processed_row" where
  "tier2_row E msg v ts =
     \<lparr>pr_thread_id = thread_id msg, pr_received_at = None, pr_tier_reached = Some ''tier2'',
      pr_verdict_json = map_option (e_verdict_json E) v,
      pr_action_taken = map_option (\<lambda>x. action_type_name (a_type (v_suggested_action x))) v,
      pr_processed_at = ts\<rparr>"

definition mark_processed_filter2 :: "env \<Rightarrow> tier2_meta stage" where
  "mark_processed_filter2 E = Stage ''MarkProcessedFilter'' Filter
     (\<lambda>p. let meta = p_meta p in
        case m2_ts meta of
          None \<Rightarrow> throw (MissingMetaError ''MarkProcessedFilter requires meta.ts'')
        | Some ts \<Rightarrow>
            bind (write_db (mark_processed (message_id (m2_message meta))
                              (tier2_row E (m2_message meta) (m2_verdict meta) ts)))
              (\<lambda>_. ret p))"

lemmas tier2_stage_defs = timestamp_filter2_def correlation_id_filter2_def
  fetch_context_augment_def build_verdict_request_filter_def call_llm_augment_def
  record_llm_usage_filter_def validate_verdict_filter_def apply_verdict_action_filter_def
  record_alert_only_filter_def record_budget_exhausted_filter_def
  create_draft_if_wanted_filter_def write_audit_entry_filter2_def mark_processed_filter2_def

lemmas tier2_selector_defs = budget_gate_selector_def confidence_band_selector_def

end
