(* ===== verification/Tier1_Pipeline.thy ===== *)
theory Tier1_Pipeline
  imports Receipt_Archive
begin

text \<open>
  \<open>core/pipeline/default.py\<close>: the Tier 1 pipeline composed from its modules, and
  \<open>process_message\<close>. The lemmas give the exact effect of each route on the database; the
  properties are the idempotency guarantee, failure atomicity (an exception never marks the
  message), the pending state of an escalation, and which backend calls a run can make.
\<close>

section \<open>Composition\<close>

abbreviation wrap1 :: "env \<Rightarrow> message_meta stage list \<Rightarrow> message_meta stage list" where
  "wrap1 E \<equiv> wrap_stages E mm_correlation_id"

definition terminal_route :: "env \<Rightarrow> backend \<Rightarrow> message_meta pipeline" where
  "terminal_route E backend = Pipeline
     (wrap1 E [apply_action_filter E backend, write_audit_entry_filter, mark_processed_filter])
     None []"

definition escalate_route :: "env \<Rightarrow> message_meta pipeline" where
  "escalate_route E = Pipeline
     (wrap1 E [record_escalation_filter E, write_audit_entry_filter]) None []"

definition archive_route :: "env \<Rightarrow> receipt_archive_components \<Rightarrow> message_meta pipeline" where
  "archive_route E comps = Pipeline
     (wrap1 E [archive_receipt_augment E comps, write_audit_entry_filter, mark_processed_filter])
     None []"

definition default_routes ::
  "env \<Rightarrow> backend \<Rightarrow> receipt_archive_components option \<Rightarrow> (string \<times> message_meta pipeline) list" where
  "default_routes E backend receipt_archive =
     [(''terminal'', terminal_route E backend), (''escalate'', escalate_route E)] @
     (case receipt_archive of
        None \<Rightarrow> []
      | Some comps \<Rightarrow> [(''archive_receipt'', archive_route E comps)])"

definition build_default_pipeline ::
  "env \<Rightarrow> backend \<Rightarrow> bool \<Rightarrow> receipt_archive_components option \<Rightarrow> message_meta pipeline" where
  "build_default_pipeline E backend force receipt_archive =
     (let process = Pipeline (wrap1 E [timestamp_filter E, correlation_id_filter E])
            (Some (wrap_selector E mm_correlation_id rule_evaluation_selector))
            (default_routes E backend receipt_archive)
      in if force then process
         else Pipeline [] (Some (wrap_selector E mm_correlation_id idempotency_gate_selector))
                [(''skip'', empty_pipeline), (''continue'', process)])"

definition initial_meta ::
  "message \<Rightarrow> rule list \<Rightarrow> action \<Rightarrow> classifier option \<Rightarrow> message_meta" where
  "initial_meta msg rules default_unmatched_action classifier =
     \<lparr>mm_message = msg, mm_rules = rules,
      mm_default_unmatched_action = default_unmatched_action, mm_classifier = classifier,
      mm_verdict = None, mm_ts = None, mm_correlation_id = None, mm_audit_event = None,
      mm_audit_detail_json = None\<rparr>"

definition process_message ::
  "env \<Rightarrow> backend \<Rightarrow> message \<Rightarrow> rule list \<Rightarrow> action \<Rightarrow> classifier option \<Rightarrow> bool \<Rightarrow>
   receipt_archive_components option \<Rightarrow> rule_verdict option prog" where
  "process_message E backend msg rules default_unmatched_action classifier force receipt_archive =
     bind (run (build_default_pipeline E backend force receipt_archive)
             \<lparr>p_text = '''', p_meta = initial_meta msg rules default_unmatched_action classifier\<rparr>)
       (\<lambda>result. ret (mm_verdict (p_meta result)))"

section \<open>Running the routes\<close>

lemmas run_wrapped = run_eq wrap_stages_def wrap_selector_def tracing_stage_def
  tracing_selector_def

definition tier1_row :: "message \<Rightarrow> rule_verdict \<Rightarrow> string \<Rightarrow> processed_row" where
  "tier1_row msg v ts =
     \<lparr>pr_thread_id = thread_id msg, pr_received_at = None, pr_tier_reached = Some ''tier1'',
      pr_verdict_json = None,
      pr_action_taken = Some (action_type_name (a_type (rv_action v))), pr_processed_at = ts\<rparr>"

text \<open>What a route's run leaves behind, given the verdict and the timestamp.\<close>

definition handled :: "message \<Rightarrow> rule_verdict \<Rightarrow> string \<Rightarrow> string \<Rightarrow> state_db \<Rightarrow> state_db \<Rightarrow> bool" where
  "handled msg v ts ev db db' \<longleftrightarrow>
     (\<exists>d. db' = mark_processed (message_id msg) (tier1_row msg v ts)
                  (write_audit_entry ts (message_id msg) ev d db))"

lemma finish_run:
  assumes "mm_verdict (p_meta p) = Some v" and "mm_ts (p_meta p) = Some ts"
    and "mm_audit_event (p_meta p) = Some ev"
    and "run_stages (wrap1 E [write_audit_entry_filter, mark_processed_filter]) p w = (r, w')"
  shows "r = Inr p" and "handled (mm_message (p_meta p)) v ts ev (wdb w) (wdb w')"
    and "\<exists>t1 t2. hist w' = hist w @ [t1, t2] \<and> is_trace t1 \<and> is_trace t2"
  using assms
  by (auto simp: run_wrapped stage_defs Let_def prog_run trace_timed_def trace_def handled_def
      tier1_row_def)

lemma terminal_run:
  assumes "mm_verdict (p_meta p) = Some v" and "mm_ts (p_meta p) = Some ts"
    and "run (terminal_route E b) p w = (r, w')"
  shows "case r of
      Inl e \<Rightarrow> wdb w' = wdb w \<and> execute E b (mm_message (p_meta p)) (rv_action v) w = (Inl e, w')
    | Inr p' \<Rightarrow> mm_verdict (p_meta p') = Some v \<and>
        handled (mm_message (p_meta p)) v ts ''action_applied'' (wdb w) (wdb w') \<and>
        (\<exists>w1 ts. execute E b (mm_message (p_meta p)) (rv_action v) w = (Inr (), w1) \<and>
           hist w' = hist w1 @ ts \<and> list_all is_trace ts)"
proof -
  let ?msg = "mm_message (p_meta p)"
  obtain r1 w1 where ex: "execute E b ?msg (rv_action v) w = (r1, w1)"
    by (cases "execute E b ?msg (rv_action v) w")
  have db1: "wdb w1 = wdb w"
    using keepsD [OF execute_same_db ex] by (simp add: same_db_def)
  show ?thesis
  proof (cases r1)
    case (Inl e)
    with assms ex db1 show ?thesis
      by (auto simp add: terminal_route_def run_eq wrapped_Cons apply_action_filter_def bind_def Let_def)
  next
    case (Inr u)
    obtain p1 where st: "stage_fun (apply_action_filter E b) p w = (Inr p1, w1)"
      and p1: "mm_verdict (p_meta p1) = Some v" "mm_ts (p_meta p1) = Some ts"
        "mm_audit_event (p_meta p1) = Some ''action_applied''" "mm_message (p_meta p1) = ?msg"
      using ex Inr assms(1,2) by (simp add: apply_action_filter_def bind_def Let_def ret_def)
    let ?t = "stage_trace E mm_correlation_id (apply_action_filter E b) p w1"
    have rest: "run_stages (wrap1 E [write_audit_entry_filter, mark_processed_filter]) p1
        (log_call ?t w1) = (r, w')"
      using assms(3) st by (simp add: terminal_route_def run_eq wrapped_Cons)
    from finish_run(1,2) [OF p1(1,2,3) rest] p1(1,4) db1
    have "r = Inr p1" and "handled ?msg v ts ''action_applied'' (wdb w) (wdb w')" by simp_all
    moreover from finish_run(3) [OF p1(1,2,3) rest]
    obtain t1 t2 where "hist w' = hist w1 @ [?t, t1, t2]" "is_trace t1" "is_trace t2" by auto
    ultimately show ?thesis
      using p1(1) ex Inr by (auto intro!: exI [of _ w1] exI [of _ "[?t, t1, t2]"])
  qed
qed

lemma escalate_run:
  assumes "mm_verdict (p_meta p) = Some v" and "mm_ts (p_meta p) = Some ts"
    and "mm_correlation_id (p_meta p) = Some cid" and "mm_audit_detail_json (p_meta p) = None"
    and "run (escalate_route E) p w = (r, w')"
  shows "case r of
      Inl e \<Rightarrow> wdb w' = wdb w
    | Inr p' \<Rightarrow> mm_verdict (p_meta p') = Some v \<and>
        wdb w' = write_audit_entry ts (message_id (mm_message (p_meta p)))
                   ''escalated_pending_tier2'' None (wdb w)"
proof (cases "a_alert_immediately (rv_action v)")
  case False
  with assms show ?thesis
    by (auto simp: escalate_route_def run_wrapped stage_defs Let_def prog_run trace_timed_def
        trace_def)
next
  case True
  obtain r1 w1 where al: "alert E cid (''Escalated: '' @ escalation_reason v)
      (sender_line (mm_message (p_meta p))) Normal w = (r1, w1)"
    by (cases "alert E cid (''Escalated: '' @ escalation_reason v)
      (sender_line (mm_message (p_meta p))) Normal w")
  have "wdb w1 = wdb w" using keepsD [OF alert_same_db al] by (simp add: same_db_def)
  with True assms al show ?thesis
    by (cases r1) (auto simp: escalate_route_def run_wrapped stage_defs Let_def bind_def
        trace_timed_def trace_def call_def write_db_def ret_def)
qed

lemma archive_run:
  assumes "mm_verdict (p_meta p) = Some v" and "mm_ts (p_meta p) = Some ts"
    and "run (archive_route E comps) p w = (r, w')"
  shows "case r of
      Inl e \<Rightarrow> only_senders_written w w'
    | Inr p' \<Rightarrow> mm_verdict (p_meta p') = Some v \<and>
        (\<exists>w1. only_senders_written w w1 \<and>
           handled (mm_message (p_meta p)) v ts ''receipt_archived'' (wdb w1) (wdb w'))"
proof -
  obtain r1 w1 where st: "stage_fun (archive_receipt_augment E comps) p w = (r1, w1)"
    by (cases "stage_fun (archive_receipt_augment E comps) p w")
  have s1: "only_senders_written w w1" using keepsD [OF archive_augment_senders st] .
  show ?thesis
  proof (cases r1)
    case (Inl e)
    with assms st s1 show ?thesis
      by (auto simp: archive_route_def run_wrapped bind_def)
  next
    case (Inr p1)
    then have p1: "mm_verdict (p_meta p1) = Some v" "mm_ts (p_meta p1) = Some ts"
        "mm_audit_event (p_meta p1) = Some ''receipt_archived''"
        "mm_message (p_meta p1) = mm_message (p_meta p)"
      using st assms by (auto simp: archive_receipt_augment_def Let_def prog_simps)
    have "run_stages (wrap1 E [write_audit_entry_filter, mark_processed_filter]) p1
        (log_call (stage_trace E mm_correlation_id (archive_receipt_augment E comps) p w1) w1) =
        (r, w')"
      using assms(3) st Inr by (simp add: archive_route_def run_eq wrapped_Cons)
    note rest = this
    from finish_run(1,2) [OF p1(1,2,3) rest] p1(1,4) s1 show ?thesis by auto
  qed
qed

section \<open>Running the whole pipeline\<close>

definition process_part ::
  "env \<Rightarrow> backend \<Rightarrow> receipt_archive_components option \<Rightarrow> message_meta pipeline" where
  "process_part E backend ra =
     Pipeline (wrap1 E [timestamp_filter E, correlation_id_filter E])
       (Some (wrap_selector E mm_correlation_id rule_evaluation_selector))
       (default_routes E backend ra)"

fun is_apply :: "call \<Rightarrow> bool" where
  "is_apply (C_Apply _ _) = True"
| "is_apply _ = False"

definition mailbox_writes :: "world \<Rightarrow> call list" where
  "mailbox_writes w = filter is_apply (hist w)"

lemma is_trace_record [simp]: "is_trace (C_Trace cid ev fs)"
  by simp

lemma trace_not_apply: "is_trace t \<Longrightarrow> \<not> is_apply t"
  by (cases t) simp_all

lemma build_default_pipeline_eq:
  "build_default_pipeline E backend force ra =
     (if force then process_part E backend ra
      else Pipeline [] (Some (wrap_selector E mm_correlation_id idempotency_gate_selector))
             [(''skip'', empty_pipeline), (''continue'', process_part E backend ra)])"
  by (simp add: build_default_pipeline_def process_part_def Let_def)

lemma process_part_start:
  "\<exists>p2 w4 t1 t2.
     run_stages (wrap1 E [timestamp_filter E, correlation_id_filter E])
       \<lparr>p_text = [], p_meta = initial_meta msg rules d c\<rparr> w = (Inr p2, w4) \<and>
     wdb w4 = wdb w \<and> hist w4 = hist w @ [C_Now, t1, C_New_Id, t2] \<and> is_trace t1 \<and> is_trace t2 \<and>
     mm_message (p_meta p2) = msg \<and> mm_rules (p_meta p2) = rules \<and>
     mm_default_unmatched_action (p_meta p2) = d \<and> mm_classifier (p_meta p2) = c \<and>
     mm_ts (p_meta p2) = Some (e_now E (hist w)) \<and>
     (\<exists>i. mm_correlation_id (p_meta p2) = Some i) \<and> mm_audit_detail_json (p_meta p2) = None"
  by (simp add: wrapped_Cons timestamp_filter_def correlation_id_filter_def now_def
      new_correlation_id_def bind_def call_def ret_def initial_meta_def)

text \<open>The process part up to the verdict: one clock read, one id, one evaluation.\<close>

lemma process_part_run:
  assumes "run (process_part E backend ra)
      \<lparr>p_text = '''', p_meta = initial_meta msg rules d c\<rparr> w = (r, w')"
  obtains (failed) e w1 where "evaluate msg rules d c w1 = (Inl e, w')" and "r = Inl e"
      and "wdb w1 = wdb w" and "mailbox_writes w1 = mailbox_writes w"
  | (routed) v w1 w2 w3 p t1 t2 t3
    where "evaluate msg rules d c w1 = (Inr v, w2)" and "wdb w1 = wdb w"
      and "hist w1 = hist w @ [C_Now, t1, C_New_Id, t2]" and "is_trace t1" and "is_trace t2"
      and "w3 = log_call t3 w2" and "is_trace t3"
      and "mm_message (p_meta p) = msg" and "mm_verdict (p_meta p) = Some v"
      and "mm_ts (p_meta p) = Some (e_now E (hist w))"
      and "\<exists>i. mm_correlation_id (p_meta p) = Some i"
      and "mm_audit_detail_json (p_meta p) = None"
      and "(case map_of (default_routes E backend ra) (tier1_branch (a_type (rv_action v))) of
              None \<Rightarrow> throw (UnknownBranchError (tier1_branch (a_type (rv_action v))))
            | Some q \<Rightarrow> run q p) w3 = (r, w')"
proof -
  let ?p0 = "\<lparr>p_text = [], p_meta = initial_meta msg rules d c\<rparr>"
  obtain p2 w4 t1 t2
    where start: "run_stages (wrap1 E [timestamp_filter E, correlation_id_filter E]) ?p0 w = (Inr p2, w4)"
      and db4: "wdb w4 = wdb w" and h4: "hist w4 = hist w @ [C_Now, t1, C_New_Id, t2]"
      and tr: "is_trace t1" "is_trace t2"
      and m2: "mm_message (p_meta p2) = msg" "mm_rules (p_meta p2) = rules"
        "mm_default_unmatched_action (p_meta p2) = d" "mm_classifier (p_meta p2) = c"
        "mm_ts (p_meta p2) = Some (e_now E (hist w))" "\<exists>i. mm_correlation_id (p_meta p2) = Some i"
        "mm_audit_detail_json (p_meta p2) = None"
    using process_part_start by blast
  obtain r1 w5 where ev: "evaluate msg rules d c w4 = (r1, w5)"
    by (cases "evaluate msg rules d c w4")
  show thesis
  proof (cases r1)
    case (Inl e)
    from assms start ev Inl m2 have "(r, w') = (Inl e, w5)"
      by (simp add: process_part_def run_eq wrap_selector_def tracing_selector_def
          rule_evaluation_selector_def bind_def Let_def)
    with ev Inl db4 h4 tr show thesis
      by (intro failed [of w4]) (simp_all add: mailbox_writes_def trace_not_apply)
  next
    case (Inr v)
    let ?p3 = "p2\<lparr>p_meta := (p_meta p2)\<lparr>mm_verdict := Some v\<rparr>\<rparr>"
    let ?b = "tier1_branch (a_type (rv_action v))"
    let ?t3 = "C_Trace (correlation_id_or_dash (mm_correlation_id (p_meta p2)))
       (''RuleEvaluationSelector'' @ '' selected'')
       [(''branch'', ?b), (''duration_ms'', e_duration E (hist w5))]"
    have sel: "selector_fun (wrap_selector E mm_correlation_id rule_evaluation_selector) p2 w4 =
        (Inr (?b, ?p3), log_call ?t3 w5)"
      using ev Inr m2 by (simp add: wrap_selector_def tracing_selector_def
          rule_evaluation_selector_def bind_def Let_def ret_def trace_timed_def trace_def
          call_def log_call_def)
    from assms start sel
    have rest: "(case map_of (default_routes E backend ra) ?b of
        None \<Rightarrow> throw (UnknownBranchError ?b) | Some q \<Rightarrow> run q ?p3) (log_call ?t3 w5) = (r, w')"
      by (simp add: process_part_def run_eq bind_def)
    have t3: "is_trace ?t3" by simp
    show thesis
      by (rule routed [OF _ db4 h4 tr refl t3 _ _ _ _ _ rest]) (use ev Inr m2 in simp_all)
  qed
qed

text \<open>The outcome of one message, on every branch of the verdict.\<close>

definition tier1_outcome ::
  "string \<Rightarrow> message \<Rightarrow> rule_verdict \<Rightarrow> receipt_archive_components option \<Rightarrow> world \<Rightarrow> world \<Rightarrow> bool" where
  "tier1_outcome ts msg v ra w w' \<longleftrightarrow>
     (case a_type (rv_action v) of
        Escalate \<Rightarrow> wdb w' =
          write_audit_entry ts (message_id msg) ''escalated_pending_tier2'' None (wdb w)
      | Archive_Receipt \<Rightarrow> ra \<noteq> None \<and>
          (\<exists>w1. only_senders_written w w1 \<and> handled msg v ts ''receipt_archived'' (wdb w1) (wdb w'))
      | _ \<Rightarrow> handled msg v ts ''action_applied'' (wdb w) (wdb w'))"

lemma same_db_only_senders: "wdb w' = wdb w \<Longrightarrow> only_senders_written w w'"
  by (simp add: only_senders_written_def)

lemma handled_cong: "wdb w2 = wdb w1 \<Longrightarrow> only_senders_written w2 w3 = only_senders_written w1 w3"
  by (simp add: only_senders_written_def)

lemma process_part_outcome:
  assumes "run (process_part E backend ra)
      \<lparr>p_text = '''', p_meta = initial_meta msg rules d c\<rparr> w = (r, w')"
  shows "case r of
      Inl e \<Rightarrow> only_senders_written w w'
    | Inr p' \<Rightarrow> (let v = spec_evaluate msg rules d (category_of c msg)
                in mm_verdict (p_meta p') = Some v \<and> tier1_outcome (e_now E (hist w)) msg v ra w w')"
  using assms
proof (cases rule: process_part_run)
  case (failed e w1)
  with keepsD [OF evaluate_same_db failed(1)] show ?thesis
    by (simp add: same_db_def same_db_only_senders)
next
  case (routed v w1 w2 w3 p t1 t2 t3)
  have v: "v = spec_evaluate msg rules d (category_of c msg)" and w3: "wdb w3 = wdb w"
    using evaluate_Inr [OF routed(1)] routed(2,6) by simp_all
  note meta = routed(8-12)
  obtain cid where cid: "mm_correlation_id (p_meta p) = Some cid" using meta(4) by blast
  consider (esc) "a_type (rv_action v) = Escalate"
    | (arc) "a_type (rv_action v) = Archive_Receipt"
    | (fin) "a_type (rv_action v) \<noteq> Escalate" "a_type (rv_action v) \<noteq> Archive_Receipt" by blast
  then show ?thesis
  proof cases
    case esc
    with routed(13) have "run (escalate_route E) p w3 = (r, w')"
      by (simp add: tier1_branch_def default_routes_def)
    from escalate_run [OF meta(2,3) cid meta(5) this] esc w3 meta(1) show ?thesis
      unfolding v [symmetric] Let_def
      by (cases r) (simp_all add: tier1_outcome_def same_db_only_senders)
  next
    case arc
    show ?thesis
    proof (cases ra)
      case None
      with arc routed(13) have "r = Inl (UnknownBranchError ''archive_receipt'')" "w' = w3"
        by (auto simp: tier1_branch_def default_routes_def throw_def)
      with w3 show ?thesis by (simp add: same_db_only_senders)
    next
      case (Some comps)
      with arc routed(13) have "run (archive_route E comps) p w3 = (r, w')"
        by (simp add: tier1_branch_def default_routes_def)
      from archive_run [OF meta(2,3) this] arc w3 meta(1) Some show ?thesis
        unfolding v [symmetric] Let_def
        by (cases r) (auto simp add: tier1_outcome_def handled_cong [OF w3])
    qed
  next
    case fin
    with routed(13) have "run (terminal_route E backend) p w3 = (r, w')"
      by (simp add: tier1_branch_def default_routes_def)
    from terminal_run [OF meta(2,3) this] fin w3 meta(1) show ?thesis
      unfolding v [symmetric] Let_def
      by (cases r; cases "a_type (rv_action v)")
        (simp_all add: tier1_outcome_def same_db_only_senders)
  qed
qed

lemma process_gate:
  "process_message E backend msg rules d c False ra w =
     (if has_processed (wdb w) (message_id msg)
      then (Inr None, log_call (C_Trace ''-'' ''IdempotencyGateSelector selected''
               [(''branch'', ''skip''), (''duration_ms'', e_duration E (hist w))]) w)
      else process_message E backend msg rules d c True ra
             (log_call (C_Trace ''-'' ''IdempotencyGateSelector selected''
               [(''branch'', ''continue''), (''duration_ms'', e_duration E (hist w))]) w))"
  by (simp add: process_message_def build_default_pipeline_eq run_eq wrap_selector_def
      tracing_selector_def idempotency_gate_selector_def bind_def read_db_def ret_def
      trace_timed_def trace_def call_def log_call_def initial_meta_def correlation_id_or_dash_def)

lemma process_forced:
  assumes "process_message E backend msg rules d c True ra w = (r, w')"
  shows "case r of
      Inl e \<Rightarrow> only_senders_written w w'
    | Inr res \<Rightarrow> (let v = spec_evaluate msg rules d (category_of c msg)
                 in res = Some v \<and> tier1_outcome (e_now E (hist w)) msg v ra w w')"
proof -
  obtain r1 w1 where "run (process_part E backend ra)
      \<lparr>p_text = '''', p_meta = initial_meta msg rules d c\<rparr> w = (r1, w1)"
    by (cases "run (process_part E backend ra)
      \<lparr>p_text = '''', p_meta = initial_meta msg rules d c\<rparr> w")
  from process_part_outcome [OF this] assms this show ?thesis
    by (cases r1) (auto simp: process_message_def build_default_pipeline_eq bind_def ret_def Let_def)
qed

lemma only_senders_log [simp]: "only_senders_written (log_call c w) w' = only_senders_written w w'"
  by (simp add: only_senders_written_def)

lemma tier1_outcome_log [simp]: 
  "tier1_outcome ts msg v ra (log_call c w) w' = tier1_outcome ts msg v ra w w'"
  by (cases "a_type (rv_action v)") (simp_all add: tier1_outcome_def)

section \<open>Mailbox writes\<close>

definition writes_mailbox :: "backend \<Rightarrow> action \<Rightarrow> bool" where
  "writes_mailbox b a \<longleftrightarrow> b = Live \<and> executable_action a \<and> a_type a \<noteq> Ignore"

abbreviation no_apply :: "world \<Rightarrow> world \<Rightarrow> bool" where
  "no_apply \<equiv> only_calls (\<lambda>c. \<not> is_apply c)"

lemma no_apply_writes: "no_apply w w' \<Longrightarrow> mailbox_writes w' = mailbox_writes w"
  by (auto simp: only_calls_def mailbox_writes_def filter_empty_conv)

lemma writes_log [simp]: "is_trace t \<Longrightarrow> mailbox_writes (log_call t w) = mailbox_writes w"
  by (simp add: mailbox_writes_def trace_not_apply)

lemma execute_writes:
  assumes "execute E b msg a w = (r, w')"
  shows "mailbox_writes w' =
    mailbox_writes w @ (if writes_mailbox b a then [C_Apply msg a] else [])"
  using assms
  by (cases "a_type a"; cases b)
    (auto simp: execute_def apply_action_def writes_mailbox_def executable_action_def
      mailbox_writes_def prog_simps split: if_splits)

lemma no_apply_calls:
  "no_apply w w' \<Longrightarrow> mailbox_writes w' = mailbox_writes w"
  "keeps no_apply (trace cid ev fs)" "keeps no_apply (trace_timed E cid ev f)"
  "keeps no_apply (alert E cid t b u)" "keeps no_apply (evaluate msg rules d c)"
  by (auto intro!: no_apply_writes trace_only trace_timed_only alert_only
      evaluate_only_classify)

lemma no_apply_stages:
  "keeps no_apply (stage_fun (record_escalation_filter E) p)"
  "keeps no_apply (stage_fun write_audit_entry_filter p)"
  "keeps no_apply (stage_fun (archive_receipt_augment E comps) p)"
  "keeps no_apply (stage_fun mark_processed_filter p)"
  by (auto simp: stage_defs archive_receipt_augment_def resolve_extraction_def apply_keywords_def
      archive_pdf_def build_receipt_pdf_def save_pdf_def Let_def no_apply_calls
      split: option.splits backend.splits
      intro!: only_calls.keeps_bind only_calls.keeps_ret only_calls.keeps_throw
        only_calls.keeps_read_db only_calls.keeps_try_except keeps_call_only no_apply_calls)

lemma no_apply_routes:
  "keeps no_apply (run (escalate_route E) p)" "keeps no_apply (run (archive_route E comps) p)"
  unfolding escalate_route_def archive_route_def
  by (intro only_calls.keeps_run only_calls.keeps_wrapped_stages no_apply_calls;
      auto simp: no_apply_stages)+

lemma process_part_writes:
  assumes "run (process_part E backend ra)
      \<lparr>p_text = '''', p_meta = initial_meta msg rules d c\<rparr> w = (r, w')"
  shows "let a = rv_action (spec_evaluate msg rules d (category_of c msg)) in
     (writes_mailbox backend a \<and> mailbox_writes w' = mailbox_writes w @ [C_Apply msg a]) \<or>
     (mailbox_writes w' = mailbox_writes w \<and> (\<forall>x. r = Inr x \<longrightarrow> \<not> writes_mailbox backend a))"
  using assms
proof (cases rule: process_part_run)
  case (failed e w1)
  with keepsD [OF no_apply_calls(5) failed(1)] show ?thesis
    by (auto simp: Let_def dest!: no_apply_writes)
next
  case (routed v w1 w2 w3 p t1 t2 t3)
  have v: "spec_evaluate msg rules d (category_of c msg) = v"
    using evaluate_Inr [OF routed(1)] by simp
  let ?a = "rv_action v"
  have "mailbox_writes w2 = mailbox_writes w"
    using keepsD [OF no_apply_calls(5) routed(1)] routed(3-5)
    by (auto simp: trace_not_apply mailbox_writes_def dest!: no_apply_writes)
  then have w3: "mailbox_writes w3 = mailbox_writes w" using routed(6,7) by simp
  note meta = routed(8-12)
  show ?thesis
  proof (cases "executable_action ?a \<or> tier1_branch (a_type ?a) = ''terminal''")
    case False
    then have nw: "\<not> writes_mailbox backend ?a" by (simp add: writes_mailbox_def)
    have "keeps no_apply (case map_of (default_routes E backend ra) (tier1_branch (a_type ?a)) of
        None \<Rightarrow> throw (UnknownBranchError (tier1_branch (a_type ?a))) | Some q \<Rightarrow> run q p)"
      using False no_apply_routes
      by (auto simp: default_routes_def tier1_branch_def only_calls.keeps_throw split: option.splits if_splits)
    from no_apply_writes [OF keepsD [OF this routed(13)]] w3 nw show ?thesis
      by (simp add: v Let_def)
  next
    case True
    then have b: "tier1_branch (a_type ?a) = ''terminal''"
      by (auto simp: executable_action_def tier1_branch_def)
    then have "run (terminal_route E backend) p w3 = (r, w')"
      using routed(13) by (simp add: default_routes_def)
    note t = terminal_run [OF meta(2,3) this]
    show ?thesis
    proof (cases r)
      case (Inl e)
      with t meta(1) have "execute E backend msg ?a w3 = (Inl e, w')" by simp
      from execute_writes [OF this] w3 Inl show ?thesis by (simp add: v Let_def)
    next
      case (Inr p')
      with t obtain w4 tr where "execute E backend msg ?a w3 = (Inr (), w4)"
        and "hist w' = hist w4 @ tr" "list_all is_trace tr" using meta(1) by auto
      moreover from this(3) have "filter is_apply tr = []"
        by (auto simp: filter_empty_conv list_all_iff dest: trace_not_apply)
      ultimately have "mailbox_writes w' = mailbox_writes w4" by (simp add: mailbox_writes_def)
      with execute_writes [OF \<open>execute E backend msg ?a w3 = (Inr (), w4)\<close>] w3 show ?thesis
        by (auto simp: v Let_def)
    qed
  qed
qed

section \<open>Properties\<close>

text \<open>C1: one message through Tier 1, on every branch. A message already processed is skipped
  with the database untouched, unless forced. Otherwise, if a verdict is returned it is the
  first enabled match of the rules: a terminal verdict leaves exactly one audit entry
  (\<open>action_applied\<close>) and the message marked, an archived receipt one (\<open>receipt_archived\<close>)
  and the message marked, an escalation one (\<open>escalated_pending_tier2\<close>) and the message not
  marked, all with the one timestamp read. And if an exception is raised, no table but the
  learned senders has changed: the message stays retryable.\<close>

theorem process_message_spec:
  assumes "process_message E backend msg rules d c force ra w = (r, w')"
  shows "if has_processed (wdb w) (message_id msg) \<and> \<not> force
     then r = Inr None \<and> wdb w' = wdb w
     else (case r of
        Inl e \<Rightarrow> only_senders_written w w'
      | Inr res \<Rightarrow> (let v = spec_evaluate msg rules d (category_of c msg)
           in res = Some v \<and>
              (\<exists>tr. list_all is_trace tr \<and>
                 tier1_outcome (e_now E (hist w @ tr)) msg v ra w w')))"
proof (cases force)
  case True
  with process_forced [of E backend msg rules d c ra w r w'] assms show ?thesis
    by (auto simp: Let_def split: sum.splits intro!: exI [of _ "[]"])
next
  case False
  define t where "t = C_Trace ''-'' ''IdempotencyGateSelector selected''
      [(''branch'', ''continue''), (''duration_ms'', e_duration E (hist w))]"
  have t: "is_trace t" by (simp add: t_def)
  show ?thesis
  proof (cases "has_processed (wdb w) (message_id msg)")
    case True
    with False assms show ?thesis by (auto simp: process_gate)
  next
    case fresh: False
    with False assms have "process_message E backend msg rules d c True ra (log_call t w) = (r, w')"
      by (simp add: process_gate t_def)
    from process_forced [OF this] fresh t show ?thesis
      by (auto simp: Let_def split: sum.splits intro!: exI [of _ "[t]"])
  qed
qed

text \<open>C8: processing is idempotent. After any run that returned a verdict other than an
  escalation, every later unforced run on the same message, with whatever rules, classifier
  and collaborators, returns None, changes no table and makes no call but one trace record.\<close>

theorem process_message_idempotent:
  assumes "process_message E backend msg rules d c force ra w = (r, w')"
  shows "(\<exists>v. r = Inr (Some v) \<and> a_type (rv_action v) \<noteq> Escalate) \<longrightarrow>
      (\<exists>t. is_trace t \<and> process_message E' backend' msg rules' d' c' False ra' w' =
         (Inr None, log_call t w'))"
    (is "?P \<longrightarrow> ?S")
proof
  assume ?P
  then obtain v where r: "r = Inr (Some v)" and v: "a_type (rv_action v) \<noteq> Escalate" by blast
  have outcome: "has_processed (wdb w') (message_id msg)"
    if "tier1_outcome ts msg v ra w0 w'" for ts w0
    using that v
    by (cases "a_type (rv_action v)")
      (auto simp: tier1_outcome_def handled_def has_processed_def mark_processed_def)
  obtain w0 where "process_message E backend msg rules d c True ra w0 = (r, w')"
    using assms r by (cases force) (auto simp: process_gate split: if_splits)
  from process_forced [OF this] r outcome have "has_processed (wdb w') (message_id msg)"
    by (auto simp: Let_def)
  then have "process_message E' backend' msg rules' d' c' False ra' w' =
      (Inr None, log_call (C_Trace ''-'' ''IdempotencyGateSelector selected''
         [(''branch'', ''skip''), (''duration_ms'', e_duration E' (hist w'))]) w')"
    by (simp add: process_gate)
  then show ?S by (blast intro: is_trace_record)
qed

text \<open>The mailbox is written at most once per message, only with the verdict's own action,
  and never for an escalation, an archived receipt, an ignore, a move without a mailbox or
  under observe mode; a run that returns a writable verdict has written it exactly once.\<close>

theorem process_message_writes_once:
  assumes "process_message E backend msg rules d c True ra w = (r, w')"
  shows "let a = rv_action (spec_evaluate msg rules d (category_of c msg)) in
     (writes_mailbox backend a \<and> mailbox_writes w' = mailbox_writes w @ [C_Apply msg a]) \<or>
     (mailbox_writes w' = mailbox_writes w \<and> (\<forall>x. r = Inr x \<longrightarrow> \<not> writes_mailbox backend a))"
proof -
  obtain r1 w1 where run1: "run (process_part E backend ra)
      \<lparr>p_text = '''', p_meta = initial_meta msg rules d c\<rparr> w = (r1, w1)"
    by (cases "run (process_part E backend ra)
      \<lparr>p_text = '''', p_meta = initial_meta msg rules d c\<rparr> w")
  with assms have w1: "w1 = w'" and r1: "r = Inr x \<Longrightarrow> \<exists>y. r1 = Inr y" for x
    by (cases r1; force simp: process_message_def build_default_pipeline_eq bind_def ret_def)+
  from process_part_writes [OF run1] w1 r1 show ?thesis by (fastforce simp: Let_def)
qed

section \<open>Witnesses\<close>

definition ex_move :: action where
  "ex_move = (action_of_type Move)\<lparr>a_mailbox := Some ''Shop''\<rparr>"

definition ex_move_rules :: "rule list" where
  "ex_move_rules = [\<lparr>r_id = ''shop'', r_description = '''',
     r_when = no_condition\<lparr>c_from_domain_in := Some [''shop.example'']\<rparr>,
     r_action = ex_move, r_enabled = True\<rparr>]"

lemma ex_spec: "spec_evaluate ex_message ex_move_rules (action_of_type Escalate) (category_of None m) =
    \<lparr>rv_action = ex_move, rv_matched_rule_id = Some ''shop''\<rparr>"
  by (simp add: spec_evaluate_def ex_move_rules_def rule_hits_def spec_matches_def field_ok_def
      ex_rule_defs)

lemma ex_process_ok:
  "fst (process_message ex_env Live ex_message ex_move_rules (action_of_type Escalate) None force
       None ex_world) = Inr (Some \<lparr>rv_action = ex_move, rv_matched_rule_id = Some ''shop''\<rparr>)"
  by (cases force)
    (simp_all add: process_gate process_message_def build_default_pipeline_eq process_part_def run_eq
      wrapped_Cons stage_defs wrap_selector_def tracing_selector_def bind_def call_def ret_def
      now_def new_correlation_id_def trace_timed_def trace_def Let_def initial_meta_def
      evaluate_def condition_matches_def ex_move_rules_def ex_rule_defs default_routes_def
      tier1_branch_def ex_move_def terminal_route_def execute_def apply_action_def write_db_def
      ex_env_def log_call_def has_processed_def empty_db_def read_db_def)

theorem process_message_spec_witness:
  "\<exists>w'. (\<exists>tr. list_all is_trace tr \<and>
       tier1_outcome (e_now ex_env (hist ex_world @ tr)) ex_message
         \<lparr>rv_action = ex_move, rv_matched_rule_id = Some ''shop''\<rparr> None ex_world w')"
proof -
  obtain w' where "process_message ex_env Live ex_message ex_move_rules (action_of_type Escalate)
      None False None ex_world =
      (Inr (Some \<lparr>rv_action = ex_move, rv_matched_rule_id = Some ''shop''\<rparr>), w')"
    using ex_process_ok [of False] by (metis prod.collapse)
  from process_message_spec [OF this] show ?thesis
    by (auto simp: ex_spec Let_def has_processed_def ex_world_def empty_db_def)
qed

theorem process_message_idempotent_witness:
  "\<exists>w' t. process_message ex_env Observe ex_message [] (action_of_type Ignore) None False None w' =
     (Inr None, log_call t w') \<and> is_trace t"
proof -
  obtain w' where "process_message ex_env Live ex_message ex_move_rules (action_of_type Escalate)
      None False None ex_world =
      (Inr (Some \<lparr>rv_action = ex_move, rv_matched_rule_id = Some ''shop''\<rparr>), w')"
    using ex_process_ok [of False] by (metis prod.collapse)
  from process_message_idempotent [OF this, of ex_env Observe "[]" "action_of_type Ignore" None None]
  show ?thesis by (auto simp: ex_move_def action_of_type_def)
qed

theorem process_message_writes_once_witness:
  "\<exists>w'. mailbox_writes w' = [C_Apply ex_message ex_move]"
proof -
  obtain w' where "process_message ex_env Live ex_message ex_move_rules (action_of_type Escalate)
      None True None ex_world =
      (Inr (Some \<lparr>rv_action = ex_move, rv_matched_rule_id = Some ''shop''\<rparr>), w')"
    using ex_process_ok [of True] by (metis prod.collapse)
  note w = process_message_writes_once [OF this, unfolded ex_spec Let_def]
  have "writes_mailbox Live ex_move" and "mailbox_writes ex_world = []"
    by (simp_all add: writes_mailbox_def executable_action_def ex_move_def action_of_type_def
        mailbox_writes_def ex_world_def)
  with w show ?thesis by auto
qed

end
