(* ===== verification/Tier2_Pipeline.thy ===== *)
theory Tier2_Pipeline
  imports Tier2_Modules Tier1_Pipeline
begin

text \<open>
  \<open>core/pipeline/tier2/default.py\<close> and \<open>escalate.py\<close>: the Tier 2 pipeline composed from its
  modules, \<open>process_tier2_message\<close>, \<open>escalate_message\<close> and the quarantine of unusable model
  output. The lemmas give the exact script of calls each part makes (trace records aside)
  and its exact effect on the database; the properties combine them.
\<close>

section \<open>Composition (default.py)\<close>

abbreviation wrap2 :: "env \<Rightarrow> tier2_meta stage list \<Rightarrow> tier2_meta stage list" where
  "wrap2 E \<equiv> wrap_stages E m2_correlation_id"

definition act_route :: "env \<Rightarrow> backend \<Rightarrow> tier2_meta pipeline" where
  "act_route E backend = Pipeline
     (wrap2 E [apply_verdict_action_filter E backend, create_draft_if_wanted_filter E backend,
               write_audit_entry_filter2, mark_processed_filter2 E]) None []"

definition alert_only_route :: "env \<Rightarrow> backend \<Rightarrow> tier2_meta pipeline" where
  "alert_only_route E backend = Pipeline
     (wrap2 E [record_alert_only_filter E, create_draft_if_wanted_filter E backend,
               write_audit_entry_filter2, mark_processed_filter2 E]) None []"

definition budget_ok_route :: "env \<Rightarrow> backend \<Rightarrow> tiering_config \<Rightarrow> tier2_meta pipeline" where
  "budget_ok_route E backend t = Pipeline
     (wrap2 E [fetch_context_augment E,
               build_verdict_request_filter E (t_allowed_categories t) (t_max_body_chars t),
               call_llm_augment E, record_llm_usage_filter,
               validate_verdict_filter (t_allowed_categories t)])
     (Some (wrap_selector E m2_correlation_id
              (confidence_band_selector (t_alert_threshold t) (t_autoact_threshold t))))
     [(''autoact'', act_route E backend), (''autoact_alert'', act_route E backend),
      (''alert_only'', alert_only_route E backend)]"

definition budget_exhausted_route :: "env \<Rightarrow> tier2_meta pipeline" where
  "budget_exhausted_route E = Pipeline
     (wrap2 E [record_budget_exhausted_filter E, write_audit_entry_filter2,
               mark_processed_filter2 E]) None []"

definition build_tier2_pipeline :: "env \<Rightarrow> backend \<Rightarrow> tiering_config \<Rightarrow> tier2_meta pipeline" where
  "build_tier2_pipeline E backend t = Pipeline
     (wrap2 E [timestamp_filter2 E, correlation_id_filter2 E])
     (Some (wrap_selector E m2_correlation_id (budget_gate_selector (t_daily_call_budget t))))
     [(''budget_ok'', budget_ok_route E backend t),
      (''budget_exhausted'', budget_exhausted_route E)]"

definition initial_meta2 ::
  "message \<Rightarrow> string list \<Rightarrow> thread_context \<Rightarrow> string list \<Rightarrow> tier2_meta" where
  "initial_meta2 msg to_addresses ctx available_mailboxes =
     \<lparr>m2_message = msg, m2_to_addresses = to_addresses,
      m2_thread_prior_subject = tc_prior_subject ctx,
      m2_thread_user_has_replied = tc_user_has_replied ctx,
      m2_available_mailboxes = available_mailboxes, m2_ts = None, m2_correlation_id = None,
      m2_context = None, m2_request = None, m2_verdict = None, m2_llm_usage = None,
      m2_band = None, m2_audit_event = None, m2_audit_detail_json = None\<rparr>"

definition process_tier2_message ::
  "env \<Rightarrow> backend \<Rightarrow> tiering_config \<Rightarrow> message \<Rightarrow> string list \<Rightarrow> thread_context \<Rightarrow> string list \<Rightarrow>
   verdict option prog" where
  "process_tier2_message E backend t msg to_addresses ctx available_mailboxes =
     bind (run (build_tier2_pipeline E backend t)
             \<lparr>p_text = body_text msg,
              p_meta = initial_meta2 msg to_addresses ctx available_mailboxes\<rparr>)
       (\<lambda>result. ret (m2_verdict (p_meta result)))"

section \<open>escalate.py\<close>

definition parse_to_addresses :: "message \<Rightarrow> string list" where
  "parse_to_addresses msg =
     (let to_header = (case dict_get (headers msg) ''To'' of None \<Rightarrow> '''' | Some s \<Rightarrow> s)
      in map py_strip (filter (\<lambda>a. py_strip a \<noteq> '''') (py_split (CHR '','') to_header)))"

definition escalate_message ::
  "env \<Rightarrow> backend \<Rightarrow> tiering_config \<Rightarrow> message \<Rightarrow> verdict option prog" where
  "escalate_message E backend t msg =
     bind (call (C_Thread msg) (\<lambda>h. e_thread E h msg))
       (\<lambda>ctx. bind (call C_Mailboxes (e_mailboxes E))
          (\<lambda>boxes. process_tier2_message E backend t msg (parse_to_addresses msg) ctx boxes))"

fun quarantinable :: "exn \<Rightarrow> bool" where
  "quarantinable (LiteLLMClientError _) = True"
| "quarantinable (VerdictValidationError _) = True"
| "quarantinable (ActionExecutionError _ _) = True"
| "quarantinable _ = False"

fun error_type_name :: "exn \<Rightarrow> string" where
  "error_type_name (LiteLLMClientError _) = ''LiteLLMClientError''"
| "error_type_name (VerdictValidationError _) = ''VerdictValidationError''"
| "error_type_name (ActionExecutionError _ _) = ''ActionExecutionError''"
| "error_type_name _ = ''Exception''"

datatype escalation = Verdict_Result verdict | Quarantined string | Budget_Exhausted

definition quarantined_row :: "message \<Rightarrow> string \<Rightarrow> processed_row" where
  "quarantined_row msg ts =
     \<lparr>pr_thread_id = thread_id msg, pr_received_at = None, pr_tier_reached = Some ''tier2'',
      pr_verdict_json = None, pr_action_taken = Some ''quarantined'', pr_processed_at = ts\<rparr>"

definition quarantine_detail_json :: "exn \<Rightarrow> string \<Rightarrow> string" where
  "quarantine_detail_json e reason =
     ''{'' @ json_string ''error_type'' @ '': '' @ json_string (error_type_name e) @ '', '' @
     json_string ''reason'' @ '': '' @ json_string reason @ ''}''"

definition quarantine_message :: "env \<Rightarrow> message \<Rightarrow> exn \<Rightarrow> escalation prog" where
  "quarantine_message E msg e =
     bind (now E) (\<lambda>ts.
       let reason = e_str E e in
       bind (write_db (write_audit_entry ts (message_id msg) ''tier2_quarantined''
                         (Some (quarantine_detail_json e reason))))
         (\<lambda>_. bind (write_db (mark_processed (message_id msg) (quarantined_row msg ts)))
            (\<lambda>_. bind (new_correlation_id E)
               (\<lambda>cid. bind (alert E cid ''Tier 2 verdict quarantined''
                              (py_repr (subject msg) @ '' from '' @ from_address msg @ '': '' @ reason)
                              Critical)
                  (\<lambda>_. ret (Quarantined reason))))))"

definition escalate_message_or_quarantine ::
  "env \<Rightarrow> backend \<Rightarrow> tiering_config \<Rightarrow> message \<Rightarrow> escalation prog" where
  "escalate_message_or_quarantine E backend t msg =
     try_except
       (bind (escalate_message E backend t msg)
          (\<lambda>v. ret (case v of None \<Rightarrow> Budget_Exhausted | Some x \<Rightarrow> Verdict_Result x)))
       quarantinable
       (quarantine_message E msg)"

section \<open>Scripts of calls\<close>

text \<open>The calls of a history, trace records aside.\<close>

definition visible :: "world \<Rightarrow> call list" where
  "visible w = filter (\<lambda>c. \<not> is_trace c) (hist w)"

lemma visible_log [simp]:
  "visible (log_call c w) = (if is_trace c then visible w else visible w @ [c])"
  by (simp add: visible_def)

lemma visible_db [simp]: "visible (w\<lparr>wdb := d\<rparr>) = visible w"
  by (simp add: visible_def)

definition apply_calls :: "backend \<Rightarrow> message \<Rightarrow> action \<Rightarrow> call list" where
  "apply_calls b msg a = (if writes_mailbox b a then [C_Apply msg a] else [])"

definition draft_calls :: "backend \<Rightarrow> message \<Rightarrow> verdict \<Rightarrow> call list" where
  "draft_calls b msg v =
     (case v_draft_reply v of None \<Rightarrow> [] | Some d \<Rightarrow> if b = Live then [C_Draft msg d] else [])"

definition alert_call :: "string \<Rightarrow> message \<Rightarrow> alert_urgency \<Rightarrow> call" where
  "alert_call title msg u = C_Notify title (sender_line msg) None u"

definition verdict_alerts :: "confidence_band \<Rightarrow> message \<Rightarrow> verdict \<Rightarrow> call list" where
  "verdict_alerts band msg v =
     (let u = alert_urgency_by_verdict_urgency (v_urgency v) in
      case band of
        Alert_Only \<Rightarrow> [alert_call (''Needs review: '' @ v_category v) msg u]
      | Autoact_Alert \<Rightarrow> [alert_call (''Action taken: '' @ v_category v) msg u]
      | Autoact \<Rightarrow> if v_urgency v = VHigh
                   then [alert_call (''Action taken: '' @ v_category v) msg u] else [])"

definition band_calls :: "backend \<Rightarrow> confidence_band \<Rightarrow> message \<Rightarrow> verdict \<Rightarrow> call list" where
  "band_calls b band msg v =
     (if band = Alert_Only then [] else apply_calls b msg (v_suggested_action v)) @
     verdict_alerts band msg v @ draft_calls b msg v"

definition band_event :: "confidence_band \<Rightarrow> string" where
  "band_event band =
     (if band = Alert_Only then ''tier2_alert_only_no_action'' else ''tier2_action_applied'')"

definition band_detail :: "confidence_band \<Rightarrow> verdict \<Rightarrow> string" where
  "band_detail band v =
     (if band = Alert_Only then alert_detail_json v (Some band) else action_detail_json v (Some band))"

text \<open>The database after an outcome: one audit entry and the processed row.\<close>

definition tier2_done ::
  "env \<Rightarrow> message \<Rightarrow> verdict option \<Rightarrow> string \<Rightarrow> string \<Rightarrow> string option \<Rightarrow> state_db \<Rightarrow> state_db" where
  "tier2_done E msg v ts ev d db =
     mark_processed (message_id msg) (tier2_row E msg v ts)
       (write_audit_entry ts (message_id msg) ev d db)"

lemma finish2:
  assumes "m2_ts (p_meta p) = Some ts" and "m2_audit_event (p_meta p) = Some ev"
    and "run_stages (wrap2 E [write_audit_entry_filter2, mark_processed_filter2 E]) p w = (r, w')"
  shows "r = Inr p" and "visible w' = visible w"
    and "wdb w' = tier2_done E (m2_message (p_meta p)) (m2_verdict (p_meta p)) ts ev
                   (m2_audit_detail_json (p_meta p)) (wdb w)"
  using assms
  by (auto simp: wrapped_Cons write_audit_entry_filter2_def mark_processed_filter2_def Let_def
      bind_def write_db_def ret_def tier2_done_def visible_def log_call_def)

lemma alert_run:
  assumes "alert E cid title body u w = (r, w')"
  shows "wdb w' = wdb w" and "visible w' = visible w @ [C_Notify title body None u]"
  using assms by (auto simp: alert_def trace_def notify_def bind_def call_def visible_def)

lemma execute_run:
  assumes "execute E b msg a w = (r, w')"
  shows "wdb w' = wdb w" and "visible w' = visible w @ apply_calls b msg a"
    and "r = Inr u \<Longrightarrow> executable_action a"
    and "r = Inl e \<Longrightarrow> \<not> executable_action a \<Longrightarrow> \<exists>f. e = ActionExecutionError f a"
  using assms
  by (cases "a_type a"; cases b;
      auto simp: execute_def apply_action_def apply_calls_def writes_mailbox_def
        executable_action_def visible_def prog_simps split: if_splits)+

lemma draft_run:
  assumes "m2_verdict (p_meta p) = Some v"
    and "stage_fun (create_draft_if_wanted_filter E b) p w = (r, w')"
  shows "wdb w' = wdb w" and "visible w' = visible w @ draft_calls b (m2_message (p_meta p)) v"
    and "r = Inr q \<Longrightarrow> q = p"
  using assms
  by (auto simp: create_draft_if_wanted_filter_def Let_def draft_calls_def visible_def
      bind_def call_def ret_def split: option.splits backend.splits sum.splits if_splits prod.splits)

text \<open>The two stages before the writers, for a band: action and alert, then the draft.\<close>

lemma apply_verdict_run:
  assumes "m2_verdict (p_meta p) = Some v" and "m2_band (p_meta p) = Some band"
    and "band \<noteq> Alert_Only" and "m2_correlation_id (p_meta p) = Some cid"
    and "stage_fun (apply_verdict_action_filter E b) p w = (r, w')"
  shows "wdb w' = wdb w"
    and "\<exists>cs. visible w' = visible w @ cs \<and>
      prefix cs (apply_calls b (m2_message (p_meta p)) (v_suggested_action v) @
                 verdict_alerts band (m2_message (p_meta p)) v)"
    and "r = Inr q \<Longrightarrow> visible w' = visible w @
        apply_calls b (m2_message (p_meta p)) (v_suggested_action v) @
        verdict_alerts band (m2_message (p_meta p)) v \<and>
      q = p\<lparr>p_meta := (p_meta p)\<lparr>m2_audit_event := Some ''tier2_action_applied'',
                         m2_audit_detail_json := Some (action_detail_json v (Some band))\<rparr>\<rparr>"
proof -
  let ?msg = "m2_message (p_meta p)"
  let ?out = "p\<lparr>p_meta := (p_meta p)\<lparr>m2_audit_event := Some ''tier2_action_applied'',
                  m2_audit_detail_json := Some (action_detail_json v (Some band))\<rparr>\<rparr>"
  obtain r1 w1 where ex: "execute E b ?msg (v_suggested_action v) w = (r1, w1)"
    by (cases "execute E b ?msg (v_suggested_action v) w")
  note ex_facts = execute_run(1,2) [OF ex]
  have "wdb w' = wdb w \<and>
    (\<exists>cs. visible w' = visible w @ cs \<and>
      prefix cs (apply_calls b ?msg (v_suggested_action v) @ verdict_alerts band ?msg v)) \<and>
    (r = Inr q \<longrightarrow> visible w' = visible w @
        apply_calls b ?msg (v_suggested_action v) @ verdict_alerts band ?msg v \<and> q = ?out)"
  proof (cases r1)
    case (Inl e)
    with assms ex have "r = Inl e" "w' = w1"
      by (auto simp: apply_verdict_action_filter_def Let_def bind_def)
    with ex_facts show ?thesis by auto
  next
    case (Inr u)
    show ?thesis
    proof (cases "band = Autoact_Alert \<or> v_urgency v = VHigh")
      case False
      with assms ex Inr have "r = Inr ?out" "w' = w1"
        by (auto simp: apply_verdict_action_filter_def Let_def bind_def ret_def)
      moreover have "verdict_alerts band ?msg v = []"
        using False assms(3) by (cases band) (auto simp: verdict_alerts_def Let_def)
      ultimately show ?thesis using ex_facts by auto
    next
      case True
      let ?al = "alert E cid (''Action taken: '' @ v_category v) (sender_line ?msg)
                   (alert_urgency_by_verdict_urgency (v_urgency v))"
      obtain r2 w2 where al: "?al w1 = (r2, w2)" by (cases "?al w1")
      have "w' = w2" and "r = Inr q \<longrightarrow> q = ?out"
        using True assms ex Inr al
        by (auto simp: apply_verdict_action_filter_def Let_def bind_def ret_def split: sum.splits)
      moreover have "verdict_alerts band ?msg v = [alert_call (''Action taken: '' @ v_category v)
          ?msg (alert_urgency_by_verdict_urgency (v_urgency v))]"
        using True assms(3) by (cases band) (auto simp: verdict_alerts_def Let_def)
      ultimately show ?thesis using ex_facts alert_run [OF al] by (auto simp: alert_call_def)
    qed
  qed
  then show "wdb w' = wdb w"
    and "\<exists>cs. visible w' = visible w @ cs \<and>
      prefix cs (apply_calls b ?msg (v_suggested_action v) @ verdict_alerts band ?msg v)"
    and "r = Inr q \<Longrightarrow> visible w' = visible w @
        apply_calls b ?msg (v_suggested_action v) @ verdict_alerts band ?msg v \<and> q = ?out"
    by blast+
qed

lemma alert_only_stage_run:
  assumes "m2_verdict (p_meta p) = Some v" and "m2_band (p_meta p) = Some Alert_Only"
    and "m2_correlation_id (p_meta p) = Some cid"
    and "stage_fun (record_alert_only_filter E) p w = (r, w')"
  shows "wdb w' = wdb w" and "visible w' = visible w @ verdict_alerts Alert_Only (m2_message (p_meta p)) v"
    and "r = Inr q \<Longrightarrow>
      q = p\<lparr>p_meta := (p_meta p)\<lparr>m2_audit_event := Some ''tier2_alert_only_no_action'',
                         m2_audit_detail_json := Some (alert_detail_json v (Some Alert_Only))\<rparr>\<rparr>"
proof -
  let ?msg = "m2_message (p_meta p)"
  let ?al = "alert E cid (''Needs review: '' @ v_category v) (sender_line ?msg)
               (alert_urgency_by_verdict_urgency (v_urgency v))"
  obtain r2 w2 where al: "?al w = (r2, w2)" by (cases "?al w")
  from assms al have w': "w' = w2"
    by (auto simp: record_alert_only_filter_def Let_def bind_def ret_def split: sum.splits)
  show "wdb w' = wdb w" using alert_run(1) [OF al] w' by simp
  show "visible w' = visible w @ verdict_alerts Alert_Only ?msg v"
    using alert_run(2) [OF al] w' by (simp add: verdict_alerts_def alert_call_def Let_def)
  show "r = Inr q \<Longrightarrow>
      q = p\<lparr>p_meta := (p_meta p)\<lparr>m2_audit_event := Some ''tier2_alert_only_no_action'',
                         m2_audit_detail_json := Some (alert_detail_json v (Some Alert_Only))\<rparr>\<rparr>"
    using assms al
    by (auto simp: record_alert_only_filter_def Let_def bind_def ret_def split: sum.splits)
qed

text \<open>The band's own stage.\<close>

definition band_stage :: "env \<Rightarrow> backend \<Rightarrow> confidence_band \<Rightarrow> tier2_meta stage" where
  "band_stage E b band =
     (if band = Alert_Only then record_alert_only_filter E else apply_verdict_action_filter E b)"

definition band_route :: "env \<Rightarrow> backend \<Rightarrow> confidence_band \<Rightarrow> tier2_meta pipeline" where
  "band_route E b band = (if band = Alert_Only then alert_only_route E b else act_route E b)"

lemma band_route_eq: "band_route E b band = Pipeline (wrap2 E [band_stage E b band,
    create_draft_if_wanted_filter E b, write_audit_entry_filter2, mark_processed_filter2 E]) None []"
  by (simp add: band_route_def band_stage_def act_route_def alert_only_route_def)

definition band_head :: "backend \<Rightarrow> confidence_band \<Rightarrow> message \<Rightarrow> verdict \<Rightarrow> call list" where
  "band_head b band msg v =
     (if band = Alert_Only then [] else apply_calls b msg (v_suggested_action v)) @
     verdict_alerts band msg v"

lemma band_stage_run:
  assumes "m2_verdict (p_meta p) = Some v" and "m2_band (p_meta p) = Some band"
    and "m2_correlation_id (p_meta p) = Some cid"
    and "stage_fun (band_stage E b band) p w = (r, w')"
  shows "wdb w' = wdb w"
    and "\<exists>cs. visible w' = visible w @ cs \<and> prefix cs (band_head b band (m2_message (p_meta p)) v)"
    and "r = Inr q \<Longrightarrow> visible w' = visible w @ band_head b band (m2_message (p_meta p)) v \<and>
      q = p\<lparr>p_meta := (p_meta p)\<lparr>m2_audit_event := Some (band_event band),
                         m2_audit_detail_json := Some (band_detail band v)\<rparr>\<rparr>"
proof -
  note defs = band_stage_def band_head_def band_event_def band_detail_def
  show "wdb w' = wdb w"
    using assms apply_verdict_run(1) [OF assms(1,2) _ assms(3)]
      alert_only_stage_run(1) [OF assms(1) _ assms(3)]
    by (auto simp: defs split: if_splits)
  show "\<exists>cs. visible w' = visible w @ cs \<and> prefix cs (band_head b band (m2_message (p_meta p)) v)"
    using assms apply_verdict_run(2) [OF assms(1,2) _ assms(3)]
      alert_only_stage_run(2) [OF assms(1) _ assms(3)]
    by (auto simp: defs split: if_splits)
  show "r = Inr q \<Longrightarrow> visible w' = visible w @ band_head b band (m2_message (p_meta p)) v \<and>
      q = p\<lparr>p_meta := (p_meta p)\<lparr>m2_audit_event := Some (band_event band),
                         m2_audit_detail_json := Some (band_detail band v)\<rparr>\<rparr>"
    using assms apply_verdict_run(3) [OF assms(1,2) _ assms(3)]
      alert_only_stage_run(2,3) [OF assms(1) _ assms(3)]
    by (auto simp: defs split: if_splits)
qed

lemma band_calls_eq: "band_calls b band msg v = band_head b band msg v @ draft_calls b msg v"
  by (simp add: band_calls_def band_head_def)

lemma band_route_run:
  assumes "m2_verdict (p_meta p) = Some v" and "m2_band (p_meta p) = Some band"
    and "m2_correlation_id (p_meta p) = Some cid" and "m2_ts (p_meta p) = Some ts"
    and "run (band_route E b band) p w = (r, w')"
  shows "\<exists>cs. visible w' = visible w @ cs \<and> prefix cs (band_calls b band (m2_message (p_meta p)) v)"
    and "r = Inl e \<Longrightarrow> wdb w' = wdb w"
    and "r = Inr q \<Longrightarrow> m2_verdict (p_meta q) = Some v \<and>
      visible w' = visible w @ band_calls b band (m2_message (p_meta p)) v \<and>
      wdb w' = tier2_done E (m2_message (p_meta p)) (Some v) ts (band_event band)
                 (Some (band_detail band v)) (wdb w)"
proof -
  let ?msg = "m2_message (p_meta p)"
  let ?q = "p\<lparr>p_meta := (p_meta p)\<lparr>m2_audit_event := Some (band_event band),
                 m2_audit_detail_json := Some (band_detail band v)\<rparr>\<rparr>"
  obtain r1 w1 where st: "stage_fun (band_stage E b band) p w = (r1, w1)"
    by (cases "stage_fun (band_stage E b band) p w")
  note h = band_stage_run [OF assms(1-3) st]
  have all: "(\<exists>cs. visible w' = visible w @ cs \<and> prefix cs (band_calls b band ?msg v)) \<and>
      (\<forall>e. r = Inl e \<longrightarrow> wdb w' = wdb w) \<and>
      (\<forall>q. r = Inr q \<longrightarrow> m2_verdict (p_meta q) = Some v \<and>
        visible w' = visible w @ band_calls b band ?msg v \<and>
        wdb w' = tier2_done E ?msg (Some v) ts (band_event band) (Some (band_detail band v)) (wdb w))"
  proof (cases r1)
    case (Inl e)
    with assms(5) st have "r = Inl e" "w' = w1" by (simp_all add: band_route_eq run_eq wrapped_Cons)
    with h(1,2) show ?thesis by (auto simp: band_calls_eq intro: prefix_order.trans)
  next
    case (Inr q1)
    note h3 = h(3) [OF Inr]
    define w2 where "w2 = log_call (stage_trace E m2_correlation_id (band_stage E b band) p w1) w1"
    have w2: "visible w2 = visible w @ band_head b band ?msg v" "wdb w2 = wdb w"
      using h(1) h3 by (simp_all add: w2_def)
    have q1: "m2_verdict (p_meta q1) = Some v" "m2_message (p_meta q1) = ?msg"
        "m2_ts (p_meta q1) = Some ts" "m2_audit_event (p_meta q1) = Some (band_event band)"
        "m2_audit_detail_json (p_meta q1) = Some (band_detail band v)"
      using h3 assms by simp_all
    obtain r3 w3 where dr: "stage_fun (create_draft_if_wanted_filter E b) q1 w2 = (r3, w3)"
      by (cases "stage_fun (create_draft_if_wanted_filter E b) q1 w2")
    note d = draft_run [OF q1(1) dr]
    show ?thesis
    proof (cases r3)
      case (Inl e)
      with assms(5) st Inr dr have "r = Inl e" "w' = w3"
        by (simp_all add: band_route_eq run_eq wrapped_Cons w2_def)
      with d(1,2) w2 q1(2) show ?thesis by (auto simp: band_calls_eq)
    next
      case (Inr q3)
      then have q3: "q3 = q1" by (rule d(3))
      define w4 where
        "w4 = log_call (stage_trace E m2_correlation_id (create_draft_if_wanted_filter E b) q1 w3) w3"
      have "run_stages (wrap2 E [write_audit_entry_filter2, mark_processed_filter2 E]) q1 w4 = (r, w')"
        using assms(5) st \<open>r1 = Inr q1\<close> dr Inr q3
        by (simp add: band_route_eq run_eq wrapped_Cons w2_def w4_def)
      from finish2 [OF q1(3,4) this] d(1,2) w2 q1 show ?thesis
        by (auto simp: w4_def band_calls_eq)
    qed
  qed
  show "\<exists>cs. visible w' = visible w @ cs \<and> prefix cs (band_calls b band ?msg v)"
    using all by blast
  show "wdb w' = wdb w" if "r = Inl e" using all that by blast
  show "m2_verdict (p_meta q) = Some v \<and> visible w' = visible w @ band_calls b band ?msg v \<and>
      wdb w' = tier2_done E ?msg (Some v) ts (band_event band) (Some (band_detail band v)) (wdb w)"
    if "r = Inr q" using all that by blast
qed

text \<open>The budget-exhausted branch.\<close>

definition exhausted_calls :: "message \<Rightarrow> call list" where
  "exhausted_calls msg = [alert_call ''Tier 2 skipped: daily budget exhausted'' msg Critical]"

lemma exhausted_run:
  assumes "m2_correlation_id (p_meta p) = Some cid" and "m2_ts (p_meta p) = Some ts"
    and "m2_verdict (p_meta p) = None" and "m2_audit_detail_json (p_meta p) = None"
    and "run (budget_exhausted_route E) p w = (r, w')"
  shows "visible w' = visible w @ exhausted_calls (m2_message (p_meta p))"
    and "r = Inl e \<Longrightarrow> wdb w' = wdb w"
    and "r = Inr q \<Longrightarrow> m2_verdict (p_meta q) = None \<and>
      wdb w' = tier2_done E (m2_message (p_meta p)) None ts ''tier2_budget_exhausted'' None (wdb w)"
proof -
  let ?msg = "m2_message (p_meta p)"
  let ?al = "alert E cid ''Tier 2 skipped: daily budget exhausted'' (sender_line ?msg) Critical"
  let ?q = "p\<lparr>p_meta := (p_meta p)\<lparr>m2_audit_event := Some ''tier2_budget_exhausted''\<rparr>\<rparr>"
  obtain r1 w1 where al: "?al w = (r1, w1)" by (cases "?al w")
  note a = alert_run [OF al]
  have all: "visible w' = visible w @ exhausted_calls ?msg \<and> (\<forall>e. r = Inl e \<longrightarrow> wdb w' = wdb w) \<and>
      (\<forall>q. r = Inr q \<longrightarrow> m2_verdict (p_meta q) = None \<and>
        wdb w' = tier2_done E ?msg None ts ''tier2_budget_exhausted'' None (wdb w))"
  proof (cases r1)
    case (Inl e)
    with assms al have "r = Inl e" "w' = w1"
      by (simp_all add: budget_exhausted_route_def run_eq wrapped_Cons
          record_budget_exhausted_filter_def Let_def bind_def)
    with a show ?thesis by (simp add: exhausted_calls_def alert_call_def)
  next
    case (Inr u)
    define w2 where
      "w2 = log_call (stage_trace E m2_correlation_id (record_budget_exhausted_filter E) p w1) w1"
    have "run_stages (wrap2 E [write_audit_entry_filter2, mark_processed_filter2 E]) ?q w2 = (r, w')"
      using assms al Inr by (simp add: budget_exhausted_route_def run_eq wrapped_Cons
          record_budget_exhausted_filter_def Let_def bind_def ret_def w2_def)
    from finish2 [OF _ _ this, of ts "''tier2_budget_exhausted''"] assms a show ?thesis
      by (auto simp: w2_def exhausted_calls_def alert_call_def)
  qed
  show "visible w' = visible w @ exhausted_calls ?msg" using all by blast
  show "wdb w' = wdb w" if "r = Inl e" using all that by blast
  show "m2_verdict (p_meta q) = None \<and>
      wdb w' = tier2_done E ?msg None ts ''tier2_budget_exhausted'' None (wdb w)" if "r = Inr q"
    using all that by blast
qed

section \<open>The call and its accounting\<close>

definition tier2_request :: "env \<Rightarrow> tiering_config \<Rightarrow> string \<Rightarrow> tier2_meta \<Rightarrow> context_result \<Rightarrow> verdict_request" where
  "tier2_request E t text meta ctx =
     \<lparr>vq_subject = subject (m2_message meta), vq_from_address = from_address (m2_message meta),
      vq_to_addresses = m2_to_addresses meta,
      vq_cleaned_body = clean_body (e_strip_html E) text (t_max_body_chars t),
      vq_thread_prior_subject = m2_thread_prior_subject meta,
      vq_thread_user_has_replied = m2_thread_user_has_replied meta,
      vq_available_mailboxes = m2_available_mailboxes meta,
      vq_available_categories = t_allowed_categories t,
      vq_context_snippets = map (\<lambda>s. cs_source s @ '': '' @ cs_text s) ctx\<rparr>"

definition front_stages :: "env \<Rightarrow> tiering_config \<Rightarrow> tier2_meta stage list" where
  "front_stages E t =
     [fetch_context_augment E,
      build_verdict_request_filter E (t_allowed_categories t) (t_max_body_chars t),
      call_llm_augment E, record_llm_usage_filter,
      validate_verdict_filter (t_allowed_categories t)]"

definition same_start :: "tier2_meta \<Rightarrow> tier2_meta \<Rightarrow> bool" where
  "same_start m m' \<longleftrightarrow>
     m2_message m' = m2_message m \<and> m2_ts m' = m2_ts m \<and>
     m2_correlation_id m' = m2_correlation_id m \<and>
     m2_available_mailboxes m' = m2_available_mailboxes m"

text \<open>What came of the call: the outcome of the five stages, branch by branch.\<close>

definition front_outcome ::
  "env \<Rightarrow> tiering_config \<Rightarrow> tier2_meta payload \<Rightarrow> string \<Rightarrow> world \<Rightarrow>
   exn + tier2_meta payload \<Rightarrow> world \<Rightarrow> bool" where
  "front_outcome E t p ts w r w' \<longleftrightarrow>
     (let msg = m2_message (p_meta p) in
      case e_context E (hist w) msg of
        Inl e \<Rightarrow> r = Inl e \<and> wdb w' = wdb w \<and> visible w' = visible w @ [C_Context msg]
      | Inr ctx \<Rightarrow>
          (let req = tier2_request E t (p_text p) (p_meta p) ctx in
           visible w' = visible w @ [C_Context msg, C_Llm req] \<and>
           (\<exists>h. case e_llm E h req of
              Inl e \<Rightarrow> r = Inl e \<and> wdb w' = wdb w
            | Inr res \<Rightarrow>
                (case record_llm_call (take 10 ts) (lu_tokens_in (lr_usage res))
                        (lu_tokens_out (lr_usage res)) (wdb w) of
                   Inl e \<Rightarrow> r = Inl e \<and> wdb w' = wdb w
                 | Inr db' \<Rightarrow> wdb w' = db' \<and>
                     (case validate_verdict (lr_verdict res) (t_allowed_categories t)
                             (m2_available_mailboxes (p_meta p)) of
                        Inl e \<Rightarrow> r = Inl e
                      | Inr v \<Rightarrow> (\<exists>q. r = Inr q \<and> m2_verdict (p_meta q) = Some v \<and>
                                    same_start (p_meta p) (p_meta q)))))))"

lemma front_run:
  assumes "m2_ts (p_meta p) = Some ts" and "run_stages (wrap2 E (front_stages E t)) p w = (r, w')"
  shows "front_outcome E t p ts w r w'"
proof -
  let ?msg = "m2_message (p_meta p)"
  define w1 where "w1 = log_call (C_Context ?msg) w"
  show ?thesis
  proof (cases "e_context E (hist w) ?msg")
    case (Inl e)
    with assms show ?thesis
      by (auto simp: front_outcome_def front_stages_def wrapped_Cons fetch_context_augment_def
          Let_def bind_def call_def visible_def)
  next
    case (Inr ctx)
    let ?req = "tier2_request E t (p_text p) (p_meta p) ctx"
    define p1 where "p1 = p\<lparr>p_meta := (p_meta p)\<lparr>m2_context := Some ctx\<rparr>\<rparr>"
    define w2 where "w2 = log_call (stage_trace E m2_correlation_id (fetch_context_augment E) p w1) w1"
    have s1: "stage_fun (fetch_context_augment E) p w = (Inr p1, w1)"
      using Inr by (simp add: fetch_context_augment_def Let_def bind_def call_def ret_def p1_def
          w1_def log_call_def)
    let ?build = "build_verdict_request_filter E (t_allowed_categories t) (t_max_body_chars t)"
    define p2 where "p2 = p1\<lparr>p_text := vq_cleaned_body ?req,
        p_meta := (p_meta p1)\<lparr>m2_request := Some ?req\<rparr>\<rparr>"
    have s2: "stage_fun ?build p1 w2 = (Inr p2, w2)"
      by (simp add: build_verdict_request_filter_def Let_def ret_def p1_def p2_def tier2_request_def)
    define w3 where "w3 = log_call (stage_trace E m2_correlation_id ?build p1 w2) w2"
    have req2: "m2_request (p_meta p2) = Some ?req" by (simp add: p2_def)
    have vis3: "visible w3 = visible w @ [C_Context ?msg]" and db3: "wdb w3 = wdb w"
      by (simp_all add: w3_def w2_def w1_def)
    show ?thesis
    proof (cases "e_llm E (hist w3) ?req")
      case (Inl e)
      with assms(2) s1 s2 have "r = Inl e" "w' = log_call (C_Llm ?req) w3"
        by (simp_all add: front_stages_def wrapped_Cons w2_def w3_def call_llm_augment_def req2
            bind_def call_def log_call_def)
      with Inl Inr vis3 db3 show ?thesis
        by (auto simp: front_outcome_def Let_def intro!: exI [of _ "hist w3"])
    next
      case (Inr res)
      define w4 where "w4 = log_call (C_Llm ?req) w3"
      define p3 where "p3 = p2\<lparr>p_meta := (p_meta p2)\<lparr>m2_verdict := Some (lr_verdict res),
          m2_llm_usage := Some (lr_usage res)\<rparr>\<rparr>"
      have s3: "stage_fun (call_llm_augment E) p2 w3 = (Inr p3, w4)"
        using Inr by (simp add: call_llm_augment_def req2 bind_def call_def ret_def p3_def w4_def
            log_call_def)
      define w5 where "w5 = log_call (stage_trace E m2_correlation_id (call_llm_augment E) p2 w4) w4"
      have vis5: "visible w5 = visible w @ [C_Context ?msg, C_Llm ?req]" and db5: "wdb w5 = wdb w"
        using vis3 db3 by (simp_all add: w5_def w4_def)
      have p3: "m2_ts (p_meta p3) = Some ts" "m2_llm_usage (p_meta p3) = Some (lr_usage res)"
          "m2_verdict (p_meta p3) = Some (lr_verdict res)"
          "m2_available_mailboxes (p_meta p3) = m2_available_mailboxes (p_meta p)"
          "same_start (p_meta p) (p_meta p3)"
        using assms(1) by (simp_all add: p3_def p2_def p1_def same_start_def)
      have rest: "run_stages (wrap2 E [record_llm_usage_filter,
          validate_verdict_filter (t_allowed_categories t)]) p3 w5 = (r, w')"
        using assms(2) s1 s2 s3 by (simp add: front_stages_def wrapped_Cons w2_def w3_def w5_def)
      show ?thesis
        using rest p3 vis5 db5 Inr \<open>e_context E (hist w) ?msg = Inr ctx\<close>
        by (cases "record_llm_call (take 10 ts) (lu_tokens_in (lr_usage res))
              (lu_tokens_out (lr_usage res)) (wdb w)";
            cases "validate_verdict (lr_verdict res) (t_allowed_categories t)
              (m2_available_mailboxes (p_meta p))";
            auto simp: front_outcome_def Let_def wrapped_Cons record_llm_usage_filter_def
              validate_verdict_filter_def bind_def update_db_def of_sum_def ret_def throw_def
              same_start_def
              intro!: exI [of _ "hist w3"])
    qed
  qed
qed

section \<open>A whole run\<close>

lemma wrapped_selector_run:
  "selector_fun (wrap_selector E cid_of s) p w =
     (case selector_fun s p w of
        (Inl e, w1) \<Rightarrow> (Inl e, w1)
      | (Inr (b, q), w1) \<Rightarrow>
          (Inr (b, q), log_call (C_Trace (correlation_id_or_dash (cid_of (p_meta p)))
             (selector_name s @ '' selected'')
             [(''branch'', b), (''duration_ms'', e_duration E (hist w1))]) w1))"
  by (auto simp: wrap_selector_def tracing_selector_def bind_def ret_def trace_timed_def trace_def
      call_def log_call_def split: prod.splits sum.splits)

lemma budget_ok_run:
  assumes "m2_ts (p_meta p) = Some ts" and "run (budget_ok_route E b t) p w = (r, w')"
  obtains (front) e where "front_outcome E t p ts w (Inl e) w'" and "r = Inl e"
  | (banded) q w1 where "front_outcome E t p ts w (Inr q) w1"
      and "\<And>v. m2_verdict (p_meta q) = Some v \<Longrightarrow>
        (case confidence_band (v_confidence v) (t_alert_threshold t) (t_autoact_threshold t) of
           Inl e \<Rightarrow> r = Inl e \<and> w' = w1
         | Inr band \<Rightarrow> \<exists>tr. is_trace tr \<and>
             run (band_route E b band) (q\<lparr>p_meta := (p_meta q)\<lparr>m2_band := Some band\<rparr>\<rparr>)
               (log_call tr w1) = (r, w'))"
proof -
  obtain r1 w1 where fr: "run_stages (wrap2 E (front_stages E t)) p w = (r1, w1)"
    by (cases "run_stages (wrap2 E (front_stages E t)) p w")
  note fo = front_run [OF assms(1) fr]
  show thesis
  proof (cases r1)
    case (Inl e)
    with assms(2) fr have "r = Inl e" "w' = w1"
      by (simp_all add: budget_ok_route_def run_eq bind_def front_stages_def)
    with fo Inl show thesis by (intro front) simp_all
  next
    case (Inr q)
    show thesis
    proof (rule banded [of q w1])
      show "front_outcome E t p ts w (Inr q) w1" using fo Inr by simp
      fix v assume v: "m2_verdict (p_meta q) = Some v"
      let ?cb = "confidence_band (v_confidence v) (t_alert_threshold t) (t_autoact_threshold t)"
      let ?sel = "wrap_selector E m2_correlation_id
          (confidence_band_selector (t_alert_threshold t) (t_autoact_threshold t))"
      have whole: "(r, w') = bind (selector_fun ?sel q)
          (\<lambda>(branch, p''). case map_of [(''autoact'', act_route E b), (''autoact_alert'', act_route E b),
               (''alert_only'', alert_only_route E b)] branch of
             None \<Rightarrow> throw (UnknownBranchError branch) | Some next \<Rightarrow> run next p'') w1"
        using assms(2) fr Inr by (simp add: budget_ok_route_def run_eq bind_def front_stages_def)
      show "case ?cb of
           Inl e \<Rightarrow> r = Inl e \<and> w' = w1
         | Inr band \<Rightarrow> \<exists>tr. is_trace tr \<and>
             run (band_route E b band) (q\<lparr>p_meta := (p_meta q)\<lparr>m2_band := Some band\<rparr>\<rparr>)
               (log_call tr w1) = (r, w')"
      proof (cases ?cb)
        case (Inl e)
        with whole v show ?thesis
          by (simp add: wrapped_selector_run confidence_band_selector_def bind_def throw_def)
      next
        case (Inr band)
        let ?q = "q\<lparr>p_meta := (p_meta q)\<lparr>m2_band := Some band\<rparr>\<rparr>"
        let ?tr = "C_Trace (correlation_id_or_dash (m2_correlation_id (p_meta q)))
            (''ConfidenceBandSelector'' @ '' selected'')
            [(''branch'', band_name band), (''duration_ms'', e_duration E (hist w1))]"
        have "selector_fun ?sel q w1 = (Inr (band_name band, ?q), log_call ?tr w1)"
          using v Inr by (simp add: wrapped_selector_run confidence_band_selector_def bind_def ret_def)
        with whole have "run (band_route E b band) ?q (log_call ?tr w1) = (r, w')"
          by (cases band) (simp_all add: bind_def band_route_def)
        with Inr show ?thesis by (auto intro!: exI [of _ ?tr])
      qed
    qed
  qed
qed

lemma tier2_start:
  "\<exists>p1 w1.
     run_stages (wrap2 E [timestamp_filter2 E, correlation_id_filter2 E])
       \<lparr>p_text = body_text msg, p_meta = initial_meta2 msg to ctx boxes\<rparr> w = (Inr p1, w1) \<and>
     wdb w1 = wdb w \<and> visible w1 = visible w @ [C_Now, C_New_Id] \<and>
     p_text p1 = body_text msg \<and> m2_ts (p_meta p1) = Some (e_now E (hist w)) \<and>
     (\<exists>i. p_meta p1 = (initial_meta2 msg to ctx boxes)
        \<lparr>m2_ts := Some (e_now E (hist w)), m2_correlation_id := Some i\<rparr>)"
  by (simp add: wrapped_Cons timestamp_filter2_def correlation_id_filter2_def now_def
      new_correlation_id_def bind_def call_def ret_def visible_def) (rule exI, rule refl)

lemma tier2_run:
  assumes "process_tier2_message E b t msg to ctx boxes w = (r, w')"
  obtains (exhausted) p1 w1 r1
    where "\<not> has_budget_remaining (get_llm_usage (wdb w) (take 10 (e_now E (hist w)))) (t_daily_call_budget t)"
      and "run (budget_exhausted_route E) p1 w1 = (r1, w')"
      and "r = map_sum id (\<lambda>q. m2_verdict (p_meta q)) r1"
      and "wdb w1 = wdb w" and "visible w1 = visible w @ [C_Now, C_New_Id]"
      and "p_text p1 = body_text msg" and "\<exists>i. p_meta p1 = (initial_meta2 msg to ctx boxes)
        \<lparr>m2_ts := Some (e_now E (hist w)), m2_correlation_id := Some i\<rparr>"
  | (allowed) p1 w1 r1
    where "has_budget_remaining (get_llm_usage (wdb w) (take 10 (e_now E (hist w)))) (t_daily_call_budget t)"
      and "run (budget_ok_route E b t) p1 w1 = (r1, w')"
      and "r = map_sum id (\<lambda>q. m2_verdict (p_meta q)) r1"
      and "wdb w1 = wdb w" and "visible w1 = visible w @ [C_Now, C_New_Id]"
      and "p_text p1 = body_text msg" and "\<exists>i. p_meta p1 = (initial_meta2 msg to ctx boxes)
        \<lparr>m2_ts := Some (e_now E (hist w)), m2_correlation_id := Some i\<rparr>"
proof -
  let ?p0 = "\<lparr>p_text = body_text msg, p_meta = initial_meta2 msg to ctx boxes\<rparr>"
  obtain p1 w1
    where st: "run_stages (wrap2 E [timestamp_filter2 E, correlation_id_filter2 E]) ?p0 w = (Inr p1, w1)"
      and w1: "wdb w1 = wdb w" "visible w1 = visible w @ [C_Now, C_New_Id]"
      and p1: "p_text p1 = body_text msg" "m2_ts (p_meta p1) = Some (e_now E (hist w))"
        "\<exists>i. p_meta p1 = (initial_meta2 msg to ctx boxes)
          \<lparr>m2_ts := Some (e_now E (hist w)), m2_correlation_id := Some i\<rparr>"
    using tier2_start by blast
  let ?usage = "get_llm_usage (wdb w) (take 10 (e_now E (hist w)))"
  let ?ok = "has_budget_remaining ?usage (t_daily_call_budget t)"
  let ?b = "if ?ok then ''budget_ok'' else ''budget_exhausted''"
  let ?route = "if ?ok then budget_ok_route E b t else budget_exhausted_route E"
  let ?tr = "C_Trace (correlation_id_or_dash (m2_correlation_id (p_meta p1)))
      (''BudgetGateSelector'' @ '' selected'')
      [(''branch'', ?b), (''duration_ms'', e_duration E (hist w1))]"
  let ?w2 = "log_call ?tr w1"
  obtain r1 w3 where rn: "run ?route p1 ?w2 = (r1, w3)" by (cases "run ?route p1 ?w2")
  have "selector_fun (wrap_selector E m2_correlation_id (budget_gate_selector (t_daily_call_budget t)))
      p1 w1 = (Inr (?b, p1), ?w2)"
    using p1(2) w1(1)
    by (simp add: wrapped_selector_run budget_gate_selector_def bind_def read_db_def ret_def)
  with st rn have "run (build_tier2_pipeline E b t) ?p0 w = (r1, w3)"
    by (simp add: build_tier2_pipeline_def run_eq bind_def split: if_splits)
  with assms have r: "r = map_sum id (\<lambda>q. m2_verdict (p_meta q)) r1" and w3: "w' = w3"
    by (auto simp: process_tier2_message_def bind_def ret_def split: sum.splits)
  have w2: "wdb ?w2 = wdb w" "visible ?w2 = visible w @ [C_Now, C_New_Id]" using w1 by simp_all
  show thesis
  proof (cases ?ok)
    case True
    with rn w3 have "run (budget_ok_route E b t) p1 ?w2 = (r1, w')" by simp
    from allowed [OF True this r w2 p1(1,3)] show thesis .
  next
    case False
    with rn w3 have "run (budget_exhausted_route E) p1 ?w2 = (r1, w')" by simp
    from exhausted [OF False this r w2 p1(1,3)] show thesis .
  qed
qed

text \<open>
  What the model's answer amounts to: the request it was given, the usage recorded for it, a
  verdict inside the configured sets and its band.
\<close>

definition usage_recorded :: "env \<Rightarrow> verdict_request \<Rightarrow> string \<Rightarrow> state_db \<Rightarrow> llm_result \<Rightarrow> state_db \<Rightarrow> bool" where
  "usage_recorded E req ts db res db' \<longleftrightarrow>
     (\<exists>h. e_llm E h req = Inr res) \<and>
     record_llm_call (take 10 ts) (lu_tokens_in (lr_usage res)) (lu_tokens_out (lr_usage res)) db = Inr db'"

definition verdict_accepted :: "tiering_config \<Rightarrow> string list \<Rightarrow> verdict \<Rightarrow> confidence_band \<Rightarrow> bool" where
  "verdict_accepted t boxes v band \<longleftrightarrow>
     v_category v \<in> set (t_allowed_categories t) \<and>
     (\<forall>m. a_mailbox (v_suggested_action v) = Some m \<longrightarrow> m \<in> set boxes) \<and>
     confidence_band (v_confidence v) (t_alert_threshold t) (t_autoact_threshold t) = Inr band"

definition request_for :: "env \<Rightarrow> tiering_config \<Rightarrow> message \<Rightarrow> string list \<Rightarrow> thread_context \<Rightarrow>
    string list \<Rightarrow> verdict_request \<Rightarrow> bool" where
  "request_for E t msg to ctx boxes req \<longleftrightarrow>
     (\<exists>h cx. e_context E h msg = Inr cx \<and>
        req = tier2_request E t (body_text msg) (initial_meta2 msg to ctx boxes) cx)"

text \<open>The two ways an allowed run goes: refused before a band is chosen, or banded.\<close>

definition refused ::
  "env \<Rightarrow> tiering_config \<Rightarrow> message \<Rightarrow> string list \<Rightarrow> thread_context \<Rightarrow> string list \<Rightarrow> string \<Rightarrow>
   world \<Rightarrow> exn \<Rightarrow> world \<Rightarrow> bool" where
  "refused E t msg to ctx boxes ts w e w' \<longleftrightarrow>
     (visible w' = visible w @ [C_Context msg] \<and> wdb w' = wdb w) \<or>
     (\<exists>req. request_for E t msg to ctx boxes req \<and>
        visible w' = visible w @ [C_Context msg, C_Llm req] \<and>
        (wdb w' = wdb w \<or> (\<exists>res. usage_recorded E req ts (wdb w) res (wdb w'))))"

definition banded ::
  "env \<Rightarrow> backend \<Rightarrow> tiering_config \<Rightarrow> message \<Rightarrow> string list \<Rightarrow> thread_context \<Rightarrow> string list \<Rightarrow>
   string \<Rightarrow> world \<Rightarrow> exn + verdict \<Rightarrow> world \<Rightarrow> bool" where
  "banded E b t msg to ctx boxes ts w r w' \<longleftrightarrow>
     (\<exists>req res band db1 cs. request_for E t msg to ctx boxes req \<and>
        usage_recorded E req ts (wdb w) res db1 \<and> verdict_accepted t boxes (lr_verdict res) band \<and>
        visible w' = visible w @ [C_Context msg, C_Llm req] @ cs \<and>
        prefix cs (band_calls b band msg (lr_verdict res)) \<and>
        (case r of
           Inl e \<Rightarrow> wdb w' = db1
         | Inr v \<Rightarrow> v = lr_verdict res \<and> cs = band_calls b band msg v \<and>
             wdb w' = tier2_done E msg (Some v) ts (band_event band) (Some (band_detail band v)) db1))"

lemma front_outcome_request:
  assumes "front_outcome E t p ts w r w'" and "p_text p = body_text msg"
    and "p_meta p = (initial_meta2 msg to ctx boxes)\<lparr>m2_ts := Some ts, m2_correlation_id := i\<rparr>"
  shows "case r of
      Inl e \<Rightarrow> refused E t msg to ctx boxes ts w e w'
    | Inr q \<Rightarrow> (\<exists>req res. request_for E t msg to ctx boxes req \<and>
        usage_recorded E req ts (wdb w) res (wdb w') \<and>
        visible w' = visible w @ [C_Context msg, C_Llm req] \<and>
        v_category (lr_verdict res) \<in> set (t_allowed_categories t) \<and>
        (\<forall>m. a_mailbox (v_suggested_action (lr_verdict res)) = Some m \<longrightarrow> m \<in> set boxes) \<and>
        m2_verdict (p_meta q) = Some (lr_verdict res) \<and> same_start (p_meta p) (p_meta q))"
proof -
  have msg: "m2_message (p_meta p) = msg" and boxes: "m2_available_mailboxes (p_meta p) = boxes"
    using assms(3) by (simp_all add: initial_meta2_def)
  have req: "tier2_request E t (p_text p) (p_meta p) cx =
      tier2_request E t (body_text msg) (initial_meta2 msg to ctx boxes) cx" for cx
    using assms(2,3) by (simp add: tier2_request_def initial_meta2_def)
  show ?thesis
  proof (cases "e_context E (hist w) msg")
    case (Inl e)
    with assms(1) msg show ?thesis by (auto simp: front_outcome_def refused_def Let_def)
  next
    case (Inr cx)
    let ?req = "tier2_request E t (body_text msg) (initial_meta2 msg to ctx boxes) cx"
    have rf: "request_for E t msg to ctx boxes ?req" using Inr by (auto simp: request_for_def)
    obtain h where vis: "visible w' = visible w @ [C_Context msg, C_Llm ?req]"
      and out: "case e_llm E h ?req of
              Inl e \<Rightarrow> r = Inl e \<and> wdb w' = wdb w
            | Inr res \<Rightarrow>
                (case record_llm_call (take 10 ts) (lu_tokens_in (lr_usage res))
                        (lu_tokens_out (lr_usage res)) (wdb w) of
                   Inl e \<Rightarrow> r = Inl e \<and> wdb w' = wdb w
                 | Inr db' \<Rightarrow> wdb w' = db' \<and>
                     (case validate_verdict (lr_verdict res) (t_allowed_categories t) boxes of
                        Inl e \<Rightarrow> r = Inl e
                      | Inr v \<Rightarrow> (\<exists>q. r = Inr q \<and> m2_verdict (p_meta q) = Some v \<and>
                                    same_start (p_meta p) (p_meta q))))"
      using assms(1) Inr msg boxes req by (auto simp: front_outcome_def Let_def)
    show ?thesis
    proof (cases r)
      case (Inl e)
      with out vis rf show ?thesis
        by (fastforce simp: refused_def usage_recorded_def split: sum.splits)
    next
      case (Inr q)
      with out obtain res where res: "e_llm E h ?req = Inr res"
        "record_llm_call (take 10 ts) (lu_tokens_in (lr_usage res)) (lu_tokens_out (lr_usage res))
           (wdb w) = Inr (wdb w')"
        and val: "validate_verdict (lr_verdict res) (t_allowed_categories t) boxes = Inr (lr_verdict res)"
        and q: "m2_verdict (p_meta q) = Some (lr_verdict res)" "same_start (p_meta p) (p_meta q)"
        by (auto split: sum.splits simp: validate_verdict_Inr_iff)
      from res have "usage_recorded E ?req ts (wdb w) res (wdb w')" by (auto simp: usage_recorded_def)
      with rf vis val q Inr show ?thesis by (auto simp: validate_verdict_Inr_iff)
    qed
  qed
qed

lemma allowed_outcome:
  assumes "run (budget_ok_route E b t) p w = (r, w')" and "p_text p = body_text msg"
    and "p_meta p = (initial_meta2 msg to ctx boxes)\<lparr>m2_ts := Some ts, m2_correlation_id := Some i\<rparr>"
  shows "(\<exists>e. r = Inl e \<and> refused E t msg to ctx boxes ts w e w') \<or>
    (\<exists>rv. banded E b t msg to ctx boxes ts w rv w' \<and>
       map_sum id (\<lambda>q. m2_verdict (p_meta q)) r = map_sum id Some rv)"
proof -
  have ts: "m2_ts (p_meta p) = Some ts" and cid: "m2_correlation_id (p_meta p) = Some i"
    and msg: "m2_message (p_meta p) = msg"
    using assms(3) by (simp_all add: initial_meta2_def)
  from ts assms(1) show ?thesis
  proof (cases rule: budget_ok_run)
    case (front e)
    with front_outcome_request [OF front(1) assms(2,3)] show ?thesis by simp
  next
    case (banded q w1)
    from front_outcome_request [OF banded(1) assms(2,3)] obtain req res
      where rf: "request_for E t msg to ctx boxes req"
        and us: "usage_recorded E req ts (wdb w) res (wdb w1)"
        and vis: "visible w1 = visible w @ [C_Context msg, C_Llm req]"
        and ok: "v_category (lr_verdict res) \<in> set (t_allowed_categories t)"
          "\<forall>m. a_mailbox (v_suggested_action (lr_verdict res)) = Some m \<longrightarrow> m \<in> set boxes"
        and q: "m2_verdict (p_meta q) = Some (lr_verdict res)" "same_start (p_meta p) (p_meta q)"
      by auto
    let ?v = "lr_verdict res"
    let ?cb = "confidence_band (v_confidence ?v) (t_alert_threshold t) (t_autoact_threshold t)"
    show ?thesis
    proof (cases ?cb)
      case (Inl e)
      with banded(2) [OF q(1)] have "r = Inl e" "w' = w1" by simp_all
      with rf us vis show ?thesis by (auto simp: refused_def)
    next
      case (Inr band)
      let ?q = "q\<lparr>p_meta := (p_meta q)\<lparr>m2_band := Some band\<rparr>\<rparr>"
      from banded(2) [OF q(1)] Inr obtain tr where tr: "is_trace tr"
        and rn: "run (band_route E b band) ?q (log_call tr w1) = (r, w')" by auto
      have qm: "m2_verdict (p_meta ?q) = Some ?v" "m2_band (p_meta ?q) = Some band"
          "m2_correlation_id (p_meta ?q) = Some i" "m2_ts (p_meta ?q) = Some ts"
          "m2_message (p_meta ?q) = msg"
        using q ts cid msg by (simp_all add: same_start_def)
      note br = band_route_run [OF qm(1-4) rn, unfolded qm(5)]
      have acc: "verdict_accepted t boxes ?v band" using ok Inr by (simp add: verdict_accepted_def)
      from br(1) obtain cs where cs: "visible w' = visible w1 @ cs" "prefix cs (band_calls b band msg ?v)"
        using tr by auto
      show ?thesis
      proof (cases r)
        case (Inl e)
        with br(2) have "wdb w' = wdb w1" by simp
        with rf us acc vis cs have "banded E b t msg to ctx boxes ts w (Inl e) w'"
          unfolding banded_def by (intro exI [of _ req] exI [of _ res] exI [of _ band]
              exI [of _ "wdb w1"] exI [of _ cs]) simp
        with Inl show ?thesis by (auto intro!: exI [of _ "Inl e"])
      next
        case (Inr q2)
        from br(3) [OF Inr] cs tr have "m2_verdict (p_meta q2) = Some ?v"
          and "cs = band_calls b band msg ?v"
          and "wdb w' = tier2_done E msg (Some ?v) ts (band_event band) (Some (band_detail band ?v)) (wdb w1)"
          by simp_all
        with rf us acc vis cs have "banded E b t msg to ctx boxes ts w (Inr ?v) w'"
          unfolding banded_def by (intro exI [of _ req] exI [of _ res] exI [of _ band]
              exI [of _ "wdb w1"] exI [of _ cs]) simp
        with Inr \<open>m2_verdict (p_meta q2) = Some ?v\<close> show ?thesis
          by (auto intro!: exI [of _ "Inr ?v"])
      qed
    qed
  qed
qed

lemma tier2_cases:
  assumes "process_tier2_message E b t msg to ctx boxes w = (r, w')"
  shows "if has_budget_remaining (get_llm_usage (wdb w) (take 10 (e_now E (hist w)))) (t_daily_call_budget t)
     then (\<exists>w1. wdb w1 = wdb w \<and> visible w1 = visible w @ [C_Now, C_New_Id] \<and>
        ((\<exists>e. r = Inl e \<and> refused E t msg to ctx boxes (e_now E (hist w)) w1 e w') \<or>
         (\<exists>rv. r = map_sum id Some rv \<and> banded E b t msg to ctx boxes (e_now E (hist w)) w1 rv w')))
     else visible w' = visible w @ [C_Now, C_New_Id] @ exhausted_calls msg \<and>
       (case r of Inl e \<Rightarrow> wdb w' = wdb w
        | Inr x \<Rightarrow> x = None \<and> wdb w' =
            tier2_done E msg None (e_now E (hist w)) ''tier2_budget_exhausted'' None (wdb w))"
  using assms
proof (cases rule: tier2_run)
  case (exhausted p1 w1 r1)
  from exhausted(7) obtain i where m: "p_meta p1 = (initial_meta2 msg to ctx boxes)
      \<lparr>m2_ts := Some (e_now E (hist w)), m2_correlation_id := Some i\<rparr>" by blast
  have p1: "m2_correlation_id (p_meta p1) = Some i" "m2_ts (p_meta p1) = Some (e_now E (hist w))"
      "m2_verdict (p_meta p1) = None" "m2_audit_detail_json (p_meta p1) = None"
      "m2_message (p_meta p1) = msg"
    by (simp_all add: m initial_meta2_def)
  note x = exhausted_run [OF p1(1-4) exhausted(2), unfolded p1(5)]
  show ?thesis
  proof (cases r1)
    case (Inl e)
    with x(1,2) exhausted show ?thesis by simp
  next
    case (Inr q)
    with x(1) x(3) [OF Inr] exhausted show ?thesis by simp
  qed
next
  case (allowed p1 w1 r1)
  from allowed(7) obtain i where m: "p_meta p1 = (initial_meta2 msg to ctx boxes)
      \<lparr>m2_ts := Some (e_now E (hist w)), m2_correlation_id := Some i\<rparr>" by blast
  from allowed_outcome [OF allowed(2,6) m] allowed(3)
  have "(\<exists>e. r = Inl e \<and> refused E t msg to ctx boxes (e_now E (hist w)) w1 e w') \<or>
      (\<exists>rv. r = map_sum id Some rv \<and> banded E b t msg to ctx boxes (e_now E (hist w)) w1 rv w')"
    by auto
  with allowed(1,4,5) show ?thesis by auto
qed

definition only_usage_written :: "state_db \<Rightarrow> state_db \<Rightarrow> bool" where
  "only_usage_written db db' \<longleftrightarrow> db' = db\<lparr>db_llm_usage := db_llm_usage db'\<rparr>"

lemma record_only_usage: "record_llm_call d i t db = Inr db' \<Longrightarrow> only_usage_written db db'"
  by (auto simp: record_llm_call_def only_usage_written_def split: if_splits option.splits)

lemma usage_recorded_only: "usage_recorded E req ts db res db' \<Longrightarrow> only_usage_written db db'"
  by (auto simp: usage_recorded_def dest: record_only_usage)

lemma only_usage_refl [simp]: "only_usage_written db db"
  by (simp add: only_usage_written_def)

definition is_llm :: "call \<Rightarrow> bool" where
  "is_llm c \<longleftrightarrow> (\<exists>req. c = C_Llm req)"

lemma filter_visible: "(\<And>c. P c \<Longrightarrow> \<not> is_trace c) \<Longrightarrow> filter P (hist w) = filter P (visible w)"
  by (auto simp: visible_def intro!: filter_cong)

lemma writes_visible: "mailbox_writes w = filter is_apply (visible w)"
  unfolding mailbox_writes_def by (rule filter_visible) (auto dest: trace_not_apply)

lemma no_apply_alerts: "filter is_apply (verdict_alerts band msg v @ draft_calls b msg v) = []"
  by (auto simp: verdict_alerts_def draft_calls_def alert_call_def Let_def filter_empty_conv
      split: confidence_band.splits option.splits if_splits)

lemma band_calls_writes:
  assumes "prefix cs (band_calls b band msg v)"
  shows "filter is_apply cs = [] \<or>
    (band \<noteq> Alert_Only \<and> writes_mailbox b (v_suggested_action v) \<and>
     filter is_apply cs = [C_Apply msg (v_suggested_action v)])"
proof -
  obtain ds where d: "band_calls b band msg v = cs @ ds" using assms by (auto elim: prefixE)
  have "filter is_apply (cs @ ds) =
      (if band \<noteq> Alert_Only \<and> writes_mailbox b (v_suggested_action v)
       then [C_Apply msg (v_suggested_action v)] else [])"
    unfolding d [symmetric] band_calls_def
    using no_apply_alerts [of band msg v b] by (simp add: apply_calls_def)
  then show ?thesis by (auto simp: append_eq_Cons_conv split: if_splits)
qed

lemma llm_alerts [simp]:
  "filter is_llm (band_calls b band msg v) = []" "filter is_llm (exhausted_calls msg) = []"
  by (auto simp: band_calls_def apply_calls_def verdict_alerts_def draft_calls_def alert_call_def
      exhausted_calls_def is_llm_def Let_def filter_empty_conv
      split: confidence_band.splits option.splits if_splits)

lemma llm_prefix: "prefix cs (band_calls b band msg v) \<Longrightarrow> filter is_llm cs = []"
  using llm_alerts(1) [of b band msg v] by (metis Nil_is_append_conv filter_append prefixE)

lemma tier2_done_usage [simp]: "get_llm_usage (tier2_done E msg v ts ev d db) x = get_llm_usage db x"
  by (simp add: tier2_done_def get_llm_usage_def mark_processed_def write_audit_entry_def Let_def)

lemma tier2_done_processed [simp]: "has_processed (tier2_done E msg v ts ev d db) (message_id msg)"
  by (simp add: tier2_done_def has_processed_def mark_processed_def)

lemma banded_usage:
  assumes "banded E b t msg to ctx boxes ts w rv w'"
  shows "\<exists>req res db1. usage_recorded E req ts (wdb w) res db1 \<and>
    get_llm_usage (wdb w') d = get_llm_usage db1 d"
proof -
  obtain req res band db1 cs where us: "usage_recorded E req ts (wdb w) res db1"
    and out: "case rv of Inl e \<Rightarrow> wdb w' = db1
      | Inr v \<Rightarrow> v = lr_verdict res \<and> cs = band_calls b band msg v \<and>
          wdb w' = tier2_done E msg (Some v) ts (band_event band) (Some (band_detail band v)) db1"
    using assms unfolding banded_def by blast
  from out have "get_llm_usage (wdb w') d = get_llm_usage db1 d" by (cases rv) auto
  with us show ?thesis by blast
qed

section \<open>Escalation and quarantine\<close>

lemma tier2_failure_usage:
  assumes "process_tier2_message E b t msg to ctx boxes w = (Inl e, w')"
  shows "only_usage_written (wdb w) (wdb w')"
proof (cases "has_budget_remaining (get_llm_usage (wdb w) (take 10 (e_now E (hist w))))
    (t_daily_call_budget t)")
  case False
  with tier2_cases [OF assms] show ?thesis by simp
next
  case True
  let ?ts = "e_now E (hist w)"
  from tier2_cases [OF assms] True obtain w1 where w1: "wdb w1 = wdb w"
    and alt: "refused E t msg to ctx boxes ?ts w1 e w' \<or>
      (\<exists>rv. Inl e = map_sum id Some rv \<and> banded E b t msg to ctx boxes ?ts w1 rv w')"
    by auto
  from alt show ?thesis
  proof
    assume "refused E t msg to ctx boxes ?ts w1 e w'"
    with w1 show ?thesis by (auto simp: refused_def dest: usage_recorded_only)
  next
    assume "\<exists>rv. Inl e = map_sum id Some rv \<and> banded E b t msg to ctx boxes ?ts w1 rv w'"
    then obtain rv where rv: "Inl e = map_sum id Some rv"
      and bd: "banded E b t msg to ctx boxes ?ts w1 rv w'" by blast
    from rv have "rv = Inl e" by (cases rv) auto
    with bd w1 show ?thesis unfolding banded_def by (auto dest: usage_recorded_only)
  qed
qed

lemma tier2_success_processed:
  assumes "process_tier2_message E b t msg to ctx boxes w = (Inr x, w')"
  shows "has_processed (wdb w') (message_id msg)"
proof (cases "has_budget_remaining (get_llm_usage (wdb w) (take 10 (e_now E (hist w))))
    (t_daily_call_budget t)")
  case False
  with tier2_cases [OF assms] show ?thesis by simp
next
  case True
  with tier2_cases [OF assms] obtain w1 rv where "Inr x = map_sum id Some rv"
    and bd: "banded E b t msg to ctx boxes (e_now E (hist w)) w1 rv w'" by auto
  then obtain v where "rv = Inr v" by (cases rv) auto
  with bd show ?thesis unfolding banded_def by auto
qed

lemma escalate_message_run:
  assumes "escalate_message E b t msg w = (r, w')"
  shows "case r of Inl e \<Rightarrow> only_usage_written (wdb w) (wdb w')
    | Inr x \<Rightarrow> has_processed (wdb w') (message_id msg)"
proof (cases r)
  case (Inl e)
  with assms tier2_failure_usage show ?thesis
    by (fastforce simp: escalate_message_def prog_simps)
next
  case (Inr x)
  with assms tier2_success_processed show ?thesis
    by (fastforce simp: escalate_message_def prog_simps)
qed

definition quarantined_db :: "env \<Rightarrow> message \<Rightarrow> exn \<Rightarrow> string \<Rightarrow> state_db \<Rightarrow> state_db" where
  "quarantined_db E msg e ts db =
     mark_processed (message_id msg) (quarantined_row msg ts)
       (write_audit_entry ts (message_id msg) ''tier2_quarantined''
          (Some (quarantine_detail_json e (e_str E e))) db)"

lemma quarantine_run:
  assumes "quarantine_message E msg e w = (r, w')"
  shows "wdb w' = quarantined_db E msg e (e_now E (hist w)) (wdb w)"
    and "case r of Inl e' \<Rightarrow> \<exists>h title body. e_notify E h title body None Critical = Inl e'
         | Inr x \<Rightarrow> x = Quarantined (e_str E e)"
  using assms
  by (auto simp: quarantine_message_def now_def new_correlation_id_def alert_def notify_def
      trace_def bind_def call_def write_db_def ret_def Let_def quarantined_db_def
      split: sum.splits)

section \<open>Progress\<close>

text \<open>Every collaborator answers; the model answers \<open>res\<close>.\<close>

definition answering :: "env \<Rightarrow> message \<Rightarrow> llm_result \<Rightarrow> bool" where
  "answering E msg res \<longleftrightarrow>
     (\<forall>h a. e_apply E h msg a = Inr ()) \<and> (\<forall>h t b u ur. e_notify E h t b u ur = Inr ()) \<and>
     (\<forall>h d. e_draft E h msg d = Inr ()) \<and> (\<forall>h. \<exists>cx. e_context E h msg = Inr cx) \<and>
     (\<forall>h req. e_llm E h req = Inr res)"

lemma alert_progress:
  "(\<And>h t b u ur. e_notify E h t b u ur = Inr ()) \<Longrightarrow> \<exists>w'. alert E cid title body u w = (Inr (), w')"
  by (simp add: alert_def trace_def notify_def bind_def call_def)

lemma execute_progress:
  "executable_action a \<Longrightarrow> (\<And>h. e_apply E h msg a = Inr ()) \<Longrightarrow>
   \<exists>w'. execute E b msg a w = (Inr (), w')"
  by (cases "a_type a"; cases b)
    (auto simp: execute_def apply_action_def executable_action_def call_def ret_def)

lemma band_stage_progress:
  assumes "answering E (m2_message (p_meta p)) res" and "m2_verdict (p_meta p) = Some v"
    and "m2_correlation_id (p_meta p) = Some cid"
    and "band = Alert_Only \<or> executable_action (v_suggested_action v)"
  shows "\<exists>q w'. stage_fun (band_stage E b band) p w = (Inr q, w')"
proof -
  have notify: "\<And>h t b u ur. e_notify E h t b u ur = Inr ()"
    and app: "\<And>h a. e_apply E h (m2_message (p_meta p)) a = Inr ()"
    using assms(1) by (simp_all add: answering_def)
  show ?thesis
  proof (cases "band = Alert_Only")
    case True
    obtain w1 where "alert E cid (''Needs review: '' @ v_category v) (sender_line (m2_message (p_meta p)))
        (alert_urgency_by_verdict_urgency (v_urgency v)) w = (Inr (), w1)"
      using alert_progress [OF notify] by blast
    with True assms show ?thesis
      by (simp add: band_stage_def record_alert_only_filter_def Let_def bind_def ret_def)
  next
    case False
    with assms(4) have "executable_action (v_suggested_action v)" by simp
    from execute_progress [OF this app] obtain w1
      where ex: "execute E b (m2_message (p_meta p)) (v_suggested_action v) w = (Inr (), w1)" by blast
    obtain w2 where "alert E cid (''Action taken: '' @ v_category v) (sender_line (m2_message (p_meta p)))
        (alert_urgency_by_verdict_urgency (v_urgency v)) w1 = (Inr (), w2)"
      using alert_progress [OF notify] by blast
    with ex False assms show ?thesis
      by (auto simp: band_stage_def apply_verdict_action_filter_def Let_def bind_def ret_def)
  qed
qed

lemma band_route_progress:
  assumes "answering E (m2_message (p_meta p)) res" and "m2_verdict (p_meta p) = Some v"
    and "m2_band (p_meta p) = Some band" and "m2_correlation_id (p_meta p) = Some cid"
    and "m2_ts (p_meta p) = Some ts"
    and "band = Alert_Only \<or> executable_action (v_suggested_action v)"
  shows "\<exists>q w'. run (band_route E b band) p w = (Inr q, w')"
proof -
  obtain q w1 where st: "stage_fun (band_stage E b band) p w = (Inr q, w1)"
    using band_stage_progress [OF assms(1,2,4,6)] by blast
  from band_stage_run(3) [OF assms(2,3,4) st refl] assms
  have q: "m2_verdict (p_meta q) = Some v" "m2_ts (p_meta q) = Some ts"
      "\<exists>ev. m2_audit_event (p_meta q) = Some ev" "m2_message (p_meta q) = m2_message (p_meta p)"
    by simp_all
  let ?w2 = "log_call (stage_trace E m2_correlation_id (band_stage E b band) p w1) w1"
  have "\<exists>w3. stage_fun (create_draft_if_wanted_filter E b) q ?w2 = (Inr q, w3)"
    using q(1,4) assms(1)
    by (auto simp: create_draft_if_wanted_filter_def Let_def bind_def call_def ret_def answering_def
        split: option.split backend.split)
  then obtain w3 where dr: "stage_fun (create_draft_if_wanted_filter E b) q ?w2 = (Inr q, w3)" by blast
  obtain r4 w4 where fin: "run_stages (wrap2 E [write_audit_entry_filter2, mark_processed_filter2 E]) q
      (log_call (stage_trace E m2_correlation_id (create_draft_if_wanted_filter E b) q w3) w3) = (r4, w4)"
    by (cases "run_stages (wrap2 E [write_audit_entry_filter2, mark_processed_filter2 E]) q
      (log_call (stage_trace E m2_correlation_id (create_draft_if_wanted_filter E b) q w3) w3)")
  obtain ev where "m2_audit_event (p_meta q) = Some ev" using q(3) by blast
  from finish2(1) [OF q(2) this fin] fin st dr show ?thesis
    by (simp add: band_route_eq run_eq wrapped_Cons)
qed

lemma process_tier2_progress:
  assumes "answering E msg res" and "0 \<le> lu_tokens_in (lr_usage res)" and "0 \<le> lu_tokens_out (lr_usage res)"
    and "verdict_accepted t boxes (lr_verdict res) band"
    and "band = Alert_Only \<or> executable_action (v_suggested_action (lr_verdict res))"
    and "us_calls (get_llm_usage (wdb w) (take 10 (e_now E (hist w)))) < t_daily_call_budget t"
  shows "fst (process_tier2_message E b t msg to ctx boxes w) = Inr (Some (lr_verdict res))"
proof -
  let ?v = "lr_verdict res"
  obtain r w' where pt: "process_tier2_message E b t msg to ctx boxes w = (r, w')"
    by (cases "process_tier2_message E b t msg to ctx boxes w")
  from pt have "r = Inr (Some ?v)"
  proof (cases rule: tier2_run)
    case (exhausted p1 w1 r1)
    with assms(6) show ?thesis by (simp add: has_budget_remaining_def)
  next
    case (allowed p1 w1 r1)
    from allowed(7) obtain i where m: "p_meta p1 = (initial_meta2 msg to ctx boxes)
        \<lparr>m2_ts := Some (e_now E (hist w)), m2_correlation_id := Some i\<rparr>" by blast
    have ts: "m2_ts (p_meta p1) = Some (e_now E (hist w))" and mm: "m2_message (p_meta p1) = msg"
      and bx: "m2_available_mailboxes (p_meta p1) = boxes"
      and ci: "m2_correlation_id (p_meta p1) = Some i"
      by (simp_all add: m initial_meta2_def)
    obtain cx where cx: "e_context E (hist w1) msg = Inr cx" using assms(1) unfolding answering_def by blast
    have llm: "e_llm E h req = Inr res" for h req using assms(1) by (simp add: answering_def)
    have val: "validate_verdict ?v (t_allowed_categories t) boxes = Inr ?v"
      using assms(4) by (simp add: validate_verdict_Inr_iff verdict_accepted_def)
    obtain db1 where rec: "record_llm_call d (lu_tokens_in (lr_usage res))
        (lu_tokens_out (lr_usage res)) (wdb w1) = Inr (db1 d)" for d
      using assms(2,3) by (simp add: record_llm_call_def)
    have cb: "confidence_band (v_confidence ?v) (t_alert_threshold t) (t_autoact_threshold t) = Inr band"
      using assms(4) by (simp add: verdict_accepted_def)
    have never: "\<not> front_outcome E t p1 (e_now E (hist w)) w1 (Inl e) w2" for e w2
      by (simp add: front_outcome_def cx llm rec val mm bx Let_def)
    from ts allowed(2) have "\<exists>q. r1 = Inr q"
    proof (cases rule: budget_ok_run)
      case (front e)
      with never show ?thesis by blast
    next
      case (banded q w2)
      have q: "m2_verdict (p_meta q) = Some ?v" "same_start (p_meta p1) (p_meta q)"
        using banded(1) by (simp_all add: front_outcome_def cx llm rec val mm bx Let_def)
      from banded(2) [OF q(1)] cb obtain tr where
        "run (band_route E b band) (q\<lparr>p_meta := (p_meta q)\<lparr>m2_band := Some band\<rparr>\<rparr>) (log_call tr w2) = (r1, w')"
        by auto
      moreover have "\<exists>q' w3. run (band_route E b band) (q\<lparr>p_meta := (p_meta q)\<lparr>m2_band := Some band\<rparr>\<rparr>)
          (log_call tr w2) = (Inr q', w3)"
        by (rule band_route_progress [of _ _ res ?v _ i "e_now E (hist w)"])
          (use q ts ci mm assms in \<open>simp_all add: same_start_def\<close>)
      ultimately show ?thesis by auto
    qed
    then obtain q where r1: "r1 = Inr q" by blast
    from allowed_outcome [OF allowed(2,6) m] r1 obtain rv
      where bd: "banded E b t msg to ctx boxes (e_now E (hist w)) w1 rv w'"
        and eq: "map_sum id (\<lambda>q. m2_verdict (p_meta q)) r1 = map_sum id Some rv" by auto
    from eq r1 obtain v where rv: "rv = Inr v" "m2_verdict (p_meta q) = Some v" by (cases rv) auto
    from bd rv llm have "v = ?v" unfolding banded_def usage_recorded_def by auto
    with rv allowed(3) r1 show ?thesis by simp
  qed
  with pt show ?thesis by simp
qed

lemma banded_writes:
  assumes "banded E b t msg to ctx boxes ts w1 rv w'"
  shows "mailbox_writes w' = mailbox_writes w1 \<or>
    (\<exists>h req res v m. e_llm E h req = Inr res \<and> v = lr_verdict res \<and>
       mailbox_writes w' = mailbox_writes w1 @ [C_Apply msg (v_suggested_action v)] \<and> b = Live \<and>
       a_mailbox (v_suggested_action v) = Some m \<and> m \<in> set boxes \<and>
       a_type (v_suggested_action v) \<in> {Move, Tag} \<and>
       v_category v \<in> set (t_allowed_categories t) \<and> pf_le (t_alert_threshold t) (v_confidence v))"
proof -
  from assms obtain req res band db1 cs where us: "usage_recorded E req ts (wdb w1) res db1"
    and acc: "verdict_accepted t boxes (lr_verdict res) band"
    and vis: "visible w' = visible w1 @ [C_Context msg, C_Llm req] @ cs"
    and pre: "prefix cs (band_calls b band msg (lr_verdict res))"
    unfolding banded_def by blast
  let ?v = "lr_verdict res"
  from us obtain h where h: "e_llm E h req = Inr res" by (auto simp: usage_recorded_def)
  have wr: "mailbox_writes w' = mailbox_writes w1 @ filter is_apply cs"
    using vis by (simp add: writes_visible)
  from band_calls_writes [OF pre] show ?thesis
  proof
    assume "filter is_apply cs = []"
    with wr show ?thesis by simp
  next
    assume a: "band \<noteq> Alert_Only \<and> writes_mailbox b (v_suggested_action ?v) \<and>
        filter is_apply cs = [C_Apply msg (v_suggested_action ?v)]"
    then obtain m where m: "a_mailbox (v_suggested_action ?v) = Some m"
        "a_type (v_suggested_action ?v) \<in> {Move, Tag}" "b = Live"
      by (auto simp: writes_mailbox_def executable_action_def)
    have "pf_le (t_alert_threshold t) (v_confidence ?v)"
      using acc a pf_le_trans [of "t_alert_threshold t" "t_autoact_threshold t" "v_confidence ?v"]
      by (auto simp: verdict_accepted_def confidence_band_def pf_lt_le split: if_splits)
    with wr a m acc h show ?thesis by (auto simp: verdict_accepted_def)
  qed
qed

section \<open>Properties\<close>

text \<open>When the day's call budget is used up, no model, context, mailbox or draft call is
  made: the run reads the clock, draws an id and sends one critical alert; on success the
  message is marked with one \<open>tier2_budget_exhausted\<close> entry and no verdict, and if the alert
  fails the database is unchanged.\<close>

theorem tier2_budget_exhausted:
  assumes "process_tier2_message E b t msg to ctx boxes w = (r, w')"
    and "t_daily_call_budget t \<le> us_calls (get_llm_usage (wdb w) (take 10 (e_now E (hist w))))"
  shows "visible w' = visible w @ [C_Now, C_New_Id,
       C_Notify ''Tier 2 skipped: daily budget exhausted'' (sender_line msg) None Critical] \<and>
     (case r of
        Inl e \<Rightarrow> wdb w' = wdb w
      | Inr x \<Rightarrow> x = None \<and> wdb w' =
          tier2_done E msg None (e_now E (hist w)) ''tier2_budget_exhausted'' None (wdb w))"
  using tier2_cases [OF assms(1)] assms(2)
  by (simp add: has_budget_remaining_def exhausted_calls_def alert_call_def)

text \<open>C6: a verdict returned within budget is the model's own answer to the request built
  from this message, inside the configured categories and the mailboxes read; exactly the
  calls of its band were made (the action only from the alert threshold up, alerts for the
  middle and low band and for high urgency, the draft in every band), its usage was recorded
  once, one audit entry was written and the message marked.\<close>

theorem tier2_verdict_outcome:
  assumes "process_tier2_message E b t msg to ctx boxes w = (Inr (Some v), w')"
  shows "\<exists>req res band db1. request_for E t msg to ctx boxes req \<and> v = lr_verdict res \<and>
     usage_recorded E req (e_now E (hist w)) (wdb w) res db1 \<and> verdict_accepted t boxes v band \<and>
     visible w' = visible w @ [C_Now, C_New_Id, C_Context msg, C_Llm req] @ band_calls b band msg v \<and>
     wdb w' = tier2_done E msg (Some v) (e_now E (hist w)) (band_event band)
                (Some (band_detail band v)) db1"
proof -
  let ?ts = "e_now E (hist w)"
  from tier2_cases [OF assms]
  obtain w1 rv where w1: "wdb w1 = wdb w" "visible w1 = visible w @ [C_Now, C_New_Id]"
    and rv: "Inr (Some v) = map_sum id Some rv" and bd: "banded E b t msg to ctx boxes ?ts w1 rv w'"
    by (auto split: if_splits)
  from rv have "rv = Inr v" by (cases rv) auto
  with bd w1 show ?thesis unfolding banded_def by auto
qed

text \<open>C10: a failed Tier 2 run leaves the message pending: it changes at most the usage table,
  and that only by recording the tokens of the one answer the model gave.\<close>

theorem tier2_failure_atomic:
  assumes "process_tier2_message E b t msg to ctx boxes w = (Inl e, w')"
  shows "only_usage_written (wdb w) (wdb w') \<and>
    (wdb w' = wdb w \<or> (\<exists>req res. usage_recorded E req (e_now E (hist w)) (wdb w) res (wdb w') \<and>
        C_Llm req \<in> set (visible w')))"
proof -
  let ?ts = "e_now E (hist w)"
  have "wdb w' = wdb w \<or> (\<exists>req res. usage_recorded E req ?ts (wdb w) res (wdb w') \<and>
      C_Llm req \<in> set (visible w'))"
  proof (cases "has_budget_remaining (get_llm_usage (wdb w) (take 10 ?ts)) (t_daily_call_budget t)")
    case False
    with tier2_cases [OF assms] show ?thesis by simp
  next
    case True
    from tier2_cases [OF assms] True obtain w1 where w1: "wdb w1 = wdb w"
      and alt: "refused E t msg to ctx boxes ?ts w1 e w' \<or>
        (\<exists>rv. Inl e = map_sum id Some rv \<and> banded E b t msg to ctx boxes ?ts w1 rv w')"
      by auto
    from alt show ?thesis
    proof
      assume "refused E t msg to ctx boxes ?ts w1 e w'"
      with w1 show ?thesis by (auto simp: refused_def)
    next
      assume "\<exists>rv. Inl e = map_sum id Some rv \<and> banded E b t msg to ctx boxes ?ts w1 rv w'"
      then obtain rv where rv: "Inl e = map_sum id Some rv"
        and bd: "banded E b t msg to ctx boxes ?ts w1 rv w'" by blast
      from rv have "rv = Inl e" by (cases rv) auto
      with bd w1 show ?thesis unfolding banded_def by auto
    qed
  qed
  then show ?thesis using usage_recorded_only by auto
qed

text \<open>C2: whatever the model answers and whatever fails, a Tier 2 run writes the mailbox at most
  once, only live, only with the action the model itself suggested for this message, to a
  mailbox that exists, in an allowed category and with a confidence of at least the alert
  threshold.\<close>

theorem tier2_writes_safe:
  assumes "process_tier2_message E b t msg to ctx boxes w = (r, w')"
  shows "mailbox_writes w' = mailbox_writes w \<or>
    (\<exists>h req res v m. e_llm E h req = Inr res \<and> v = lr_verdict res \<and>
       mailbox_writes w' = mailbox_writes w @ [C_Apply msg (v_suggested_action v)] \<and> b = Live \<and>
       a_mailbox (v_suggested_action v) = Some m \<and> m \<in> set boxes \<and>
       a_type (v_suggested_action v) \<in> {Move, Tag} \<and>
       v_category v \<in> set (t_allowed_categories t) \<and> pf_le (t_alert_threshold t) (v_confidence v))"
proof (cases "has_budget_remaining (get_llm_usage (wdb w) (take 10 (e_now E (hist w))))
    (t_daily_call_budget t)")
  case False
  with tier2_cases [OF assms] show ?thesis
    by (simp add: writes_visible exhausted_calls_def alert_call_def)
next
  case True
  let ?ts = "e_now E (hist w)"
  from tier2_cases [OF assms] True obtain w1
    where w1: "visible w1 = visible w @ [C_Now, C_New_Id]"
      and alt: "(\<exists>e. refused E t msg to ctx boxes ?ts w1 e w') \<or>
        (\<exists>rv. banded E b t msg to ctx boxes ?ts w1 rv w')" by auto
  have same: "mailbox_writes w1 = mailbox_writes w" using w1 by (simp add: writes_visible)
  from alt show ?thesis
  proof
    assume "\<exists>e. refused E t msg to ctx boxes ?ts w1 e w'"
    with w1 show ?thesis by (auto simp: refused_def writes_visible)
  next
    assume "\<exists>rv. banded E b t msg to ctx boxes ?ts w1 rv w'"
    then obtain rv where "banded E b t msg to ctx boxes ?ts w1 rv w'" by blast
    from banded_writes [OF this] show ?thesis by (simp only: same)
  qed
qed


text \<open>C4: quarantine. Handling an escalated message ends in one of three ways: it is marked
  processed with a verdict or the budget placeholder; or the model's output was unusable and
  the message is marked, with one \<open>tier2_quarantined\<close> entry that names the error; or the
  exception propagates. A propagated exception is never one of the quarantinable classes
  raised by Tier 2 and leaves the message pending (at most a recorded usage), except when the
  quarantine's own alert fails, which happens after the message was marked.\<close>

theorem quarantine_spec:
  assumes "escalate_message_or_quarantine E b t msg w = (r, w')"
  shows "case r of
      Inr (Quarantined reason) \<Rightarrow>
        \<exists>e ts db1. quarantinable e \<and> reason = e_str E e \<and> only_usage_written (wdb w) db1 \<and>
          wdb w' = quarantined_db E msg e ts db1
    | Inr _ \<Rightarrow> has_processed (wdb w') (message_id msg)
    | Inl e \<Rightarrow>
        (\<not> quarantinable e \<and> only_usage_written (wdb w) (wdb w')) \<or>
        (\<exists>e0 ts db1 h title body. quarantinable e0 \<and> e_notify E h title body None Critical = Inl e \<and>
           only_usage_written (wdb w) db1 \<and> wdb w' = quarantined_db E msg e0 ts db1)"
proof -
  obtain r1 w1 where em: "escalate_message E b t msg w = (r1, w1)"
    by (cases "escalate_message E b t msg w")
  note em_run = escalate_message_run [OF em]
  show ?thesis
  proof (cases r1)
    case (Inr x)
    with assms em have "w' = w1" and "r = Inr (case x of None \<Rightarrow> Budget_Exhausted | Some v \<Rightarrow> Verdict_Result v)"
      by (auto simp: escalate_message_or_quarantine_def try_except_def bind_def ret_def)
    with em_run Inr show ?thesis by (cases x) simp_all
  next
    case (Inl e)
    show ?thesis
    proof (cases "quarantinable e")
      case False
      with assms em Inl have "r = Inl e" "w' = w1"
        by (auto simp: escalate_message_or_quarantine_def try_except_def bind_def)
      with em_run Inl False show ?thesis by simp
    next
      case True
      with assms em Inl have "quarantine_message E msg e w1 = (r, w')"
        by (simp add: escalate_message_or_quarantine_def try_except_def bind_def)
      note q = quarantine_run [OF this]
      from em_run Inl have ou: "only_usage_written (wdb w) (wdb w1)" by simp
      show ?thesis
      proof (cases r)
        case (Inl e')
        with q ou True show ?thesis by auto
      next
        case (Inr x)
        with q ou True show ?thesis by auto
      qed
    qed
  qed
qed

text \<open>C25: progress. When every collaborator answers, the model answers with an acceptable
  verdict whose action can be executed, and budget remains, the run returns that verdict:
  nothing in the pipeline itself can fail.\<close>

theorem tier2_progress:
  assumes "answering E msg res" and "0 \<le> lu_tokens_in (lr_usage res)" and "0 \<le> lu_tokens_out (lr_usage res)"
    and "verdict_accepted t boxes (lr_verdict res) band"
    and "band = Alert_Only \<or> executable_action (v_suggested_action (lr_verdict res))"
    and "us_calls (get_llm_usage (wdb w) (take 10 (e_now E (hist w)))) < t_daily_call_budget t"
  shows "fst (process_tier2_message E b t msg to ctx boxes w) = Inr (Some (lr_verdict res))"
  using assms by (rule process_tier2_progress)

section \<open>Witnesses\<close>

definition ex_llm_result :: llm_result where
  "ex_llm_result = \<lparr>lr_verdict = ex_verdict, lr_usage = \<lparr>lu_tokens_in = 7, lu_tokens_out = 3\<rparr>\<rparr>"

definition ex_env2 :: env where
  "ex_env2 = ex_env\<lparr>e_llm := (\<lambda>_ _. Inr ex_llm_result)\<rparr>"

definition ex_tiering :: tiering_config where
  "ex_tiering = tiering_defaults\<lparr>t_allowed_categories := [''work'']\<rparr>"

definition ex_thread :: thread_context where
  "ex_thread = \<lparr>tc_prior_subject = None, tc_user_has_replied = False\<rparr>"

definition ex_tier2 :: "tiering_config \<Rightarrow> (exn + verdict option) \<times> world" where
  "ex_tier2 t = process_tier2_message ex_env2 Live t ex_message [] ex_thread [''Shop''] ex_world"

lemma ex_progress:
  "answering ex_env2 ex_message ex_llm_result"
  "0 \<le> lu_tokens_in (lr_usage ex_llm_result)" "0 \<le> lu_tokens_out (lr_usage ex_llm_result)"
  "verdict_accepted ex_tiering [''Shop''] (lr_verdict ex_llm_result) Autoact"
  "Autoact = Alert_Only \<or> executable_action (v_suggested_action (lr_verdict ex_llm_result))"
  "us_calls (get_llm_usage (wdb ex_world) d) < t_daily_call_budget ex_tiering"
  by (simp_all add: answering_def ex_env2_def ex_env_def ex_llm_result_def verdict_accepted_def
      ex_tiering_def tiering_defaults_def ex_verdict_def confidence_band_def executable_action_def
      action_of_type_def ex_world_def empty_db_def get_llm_usage_def)

lemma ex_tier2_ok: "fst (ex_tier2 ex_tiering) = Inr (Some ex_verdict)"
  using process_tier2_progress [OF ex_progress] by (simp add: ex_tier2_def ex_llm_result_def)

lemma ex_tier2_run: "ex_tier2 ex_tiering = (Inr (Some ex_verdict), snd (ex_tier2 ex_tiering))"
  using ex_tier2_ok by (metis prod.collapse)

theorem tier2_progress_witness: "fst (ex_tier2 ex_tiering) = Inr (Some (lr_verdict ex_llm_result))"
  unfolding ex_tier2_def by (rule tier2_progress [OF ex_progress])

theorem tier2_budget_exhausted_witness:
  "visible (snd (ex_tier2 (ex_tiering\<lparr>t_daily_call_budget := 0\<rparr>))) = [C_Now, C_New_Id,
     C_Notify ''Tier 2 skipped: daily budget exhausted'' (sender_line ex_message) None Critical]"
proof -
  obtain r w' where run: "ex_tier2 (ex_tiering\<lparr>t_daily_call_budget := 0\<rparr>) = (r, w')"
    by (cases "ex_tier2 (ex_tiering\<lparr>t_daily_call_budget := 0\<rparr>)")
  have "visible ex_world = []" by (simp add: visible_def ex_world_def)
  with tier2_budget_exhausted [OF run [unfolded ex_tier2_def]] run show ?thesis
    by (simp add: ex_world_def empty_db_def get_llm_usage_def)
qed

theorem tier2_verdict_outcome_witness:
  "\<exists>band db1. wdb (snd (ex_tier2 ex_tiering)) =
     tier2_done ex_env2 ex_message (Some ex_verdict) (e_now ex_env2 (hist ex_world))
       (band_event band) (Some (band_detail band ex_verdict)) db1"
  using tier2_verdict_outcome [OF ex_tier2_run [unfolded ex_tier2_def]]
  unfolding ex_tier2_def by blast

theorem tier2_failure_atomic_witness:
  "only_usage_written (wdb ex_world)
     (wdb (snd (process_tier2_message ex_env Live ex_tiering ex_message [] ex_thread [''Shop''] ex_world)))"
proof -
  obtain r w' where run:
    "process_tier2_message ex_env Live ex_tiering ex_message [] ex_thread [''Shop''] ex_world = (r, w')"
    by (cases "process_tier2_message ex_env Live ex_tiering ex_message [] ex_thread [''Shop''] ex_world")
  have "\<not> (\<exists>v. r = Inr v)"
  proof
    assume "\<exists>v. r = Inr v"
    then obtain v where r: "r = Inr v" by blast
    have "has_budget_remaining (get_llm_usage (wdb ex_world) (take 10 (e_now ex_env (hist ex_world))))
        (t_daily_call_budget ex_tiering)"
      using ex_progress(6) by (simp add: has_budget_remaining_def)
    with tier2_cases [OF run] r obtain w1 rv where
      "banded ex_env Live ex_tiering ex_message [] ex_thread [''Shop''] (e_now ex_env (hist ex_world)) w1 rv w'"
      by auto
    then show False by (auto simp: banded_def usage_recorded_def ex_env_def)
  qed
  then obtain e where "r = Inl e" by (cases r) auto
  with tier2_failure_atomic run show ?thesis by fastforce
qed

theorem tier2_writes_safe_witness:
  "mailbox_writes (snd (ex_tier2 ex_tiering)) = [] \<or>
   mailbox_writes (snd (ex_tier2 ex_tiering)) = [C_Apply ex_message (v_suggested_action ex_verdict)]"
proof -
  have "mailbox_writes ex_world = []" by (simp add: mailbox_writes_def ex_world_def)
  with tier2_writes_safe [OF ex_tier2_run [unfolded ex_tier2_def]] show ?thesis
    unfolding ex_tier2_def by (auto simp: ex_env2_def ex_llm_result_def)
qed


theorem quarantine_spec_witness:
  "let w' = snd (escalate_message_or_quarantine ex_env Live ex_tiering ex_message ex_world) in
     has_processed (wdb w') ''m1'' \<or> only_usage_written (wdb ex_world) (wdb w')"
proof -
  obtain r w' where run: "escalate_message_or_quarantine ex_env Live ex_tiering ex_message ex_world = (r, w')"
    by (cases "escalate_message_or_quarantine ex_env Live ex_tiering ex_message ex_world")
  have marked: "has_processed (quarantined_db E ex_message e ts db) ''m1''" for E e ts db
    by (simp add: quarantined_db_def has_processed_def mark_processed_def ex_message_def)
  have id: "message_id ex_message = ''m1''" by (simp add: ex_message_def)
  from quarantine_spec [OF run] marked show ?thesis
    by (auto simp: run Let_def id split: sum.splits escalation.splits)
qed

end
