(* ===== verification/Html_Text.thy ===== *)
theory Html_Text
  imports Tier2_Pipeline
begin

text \<open>
  \<open>_TagStripper\<close> and \<open>_strip_html\<close> of \<open>core/llm/clean.py\<close> over the events of \<open>html.parser\<close>, and what the
  parser reports of a text without markup. \<open>_strip_html\<close> feeds the text and never closes the parser, so
  what the parser holds back, waiting for the rest of a character reference, is lost.

  Lemmas: which texts are held back, and what of a mail body reaches the model.
\<close>

section \<open>The tag stripper\<close>

text \<open>What the parser calls; the stripper overrides \<open>handle_data\<close> only.\<close>

datatype html_event = Data string | Markup string

fun handle_event :: "string list \<Rightarrow> html_event \<Rightarrow> string list" where
  "handle_event chunks (Data d) = chunks @ [d]"
| "handle_event chunks (Markup m) = chunks"

definition get_text :: "string list \<Rightarrow> string" where
  "get_text chunks = concat chunks"

definition strip_html :: "(string \<Rightarrow> html_event list) \<Rightarrow> string \<Rightarrow> string" where
  "strip_html feed s = get_text (foldl handle_event [] (feed s))"

section \<open>html.parser on a text without markup\<close>

text \<open>\<open>goahead\<close> with \<open>convert_charrefs\<close>, not at the end: an ampersand among the last 34 characters
  with neither white space nor a semicolon after it may be a reference cut in half, and stops the
  parser before it has reported anything of the text.\<close>

definition held_back :: "string \<Rightarrow> bool" where
  "held_back s \<longleftrightarrow>
     (let tail = drop (length s - 34) s
      in CHR ''&'' \<in> set tail \<and>
         list_all (\<lambda>c. \<not> py_space c \<and> c \<noteq> CHR '';'') (takeWhile (\<lambda>c. c \<noteq> CHR ''&'') (rev tail)))"

text \<open>\<open>unescape\<close> is \<open>html.unescape\<close>, \<open>tagged\<close> the parser on a text with a \<open><\<close>.\<close>

definition html_feed :: "(string \<Rightarrow> string) \<Rightarrow> (string \<Rightarrow> html_event list) \<Rightarrow> string \<Rightarrow> html_event list" where
  "html_feed unescape tagged s =
     (if CHR ''<'' \<in> set s then tagged s
      else if s = [] \<or> held_back s then [] else [Data (unescape s)])"

lemma strip_plain:
  "CHR ''<'' \<notin> set s \<Longrightarrow>
   strip_html (html_feed unescape tagged) s = (if s = [] \<or> held_back s then [] else unescape s)"
  by (simp add: strip_html_def html_feed_def get_text_def)

lemma held_back_suffix:
  assumes "\<forall>c \<in> set rest. \<not> py_space c \<and> c \<noteq> CHR '';'' \<and> c \<noteq> CHR ''&''" and "length rest < 34"
  shows "held_back (front @ CHR ''&'' # rest)"
proof -
  have "length (front @ CHR ''&'' # rest) - 34 \<le> length front" using assms(2) by simp
  then obtain front' where tail: "drop (length (front @ CHR ''&'' # rest) - 34) (front @ CHR ''&'' # rest) =
      front' @ CHR ''&'' # rest" by simp
  have "takeWhile (\<lambda>c. c \<noteq> CHR ''&'') (rev (front' @ CHR ''&'' # rest)) = rev rest"
    using assms(1) by (simp add: takeWhile_append2 takeWhile_append)
  with assms(1) show ?thesis
    unfolding held_back_def Let_def tail by (simp add: list_all_iff)
qed

lemma held_back_amp: "held_back s \<Longrightarrow> CHR ''&'' \<in> set s"
  by (auto simp: held_back_def Let_def dest: in_set_dropD)

lemma clean_nothing: "strip raw = [] \<Longrightarrow> 0 \<le> n \<Longrightarrow> clean_body strip raw n = []"
  by (simp add: clean_body_def collapse_quote_chain_def truncate_text_def py_strip_def py_lstrip_def
      split: option.split)

section \<open>What a run asks the model\<close>

lemma band_calls_no_llm: "C_Llm req \<notin> set (band_calls b band msg v)"
  by (auto simp: band_calls_def draft_calls_def apply_calls_def verdict_alerts_def alert_call_def Let_def
      split: if_splits confidence_band.splits option.splits)

lemma tier2_requests:
  assumes "process_tier2_message E b t msg to ctx boxes w = (r, w')"
  obtains cs where "visible w' = visible w @ cs"
    and "\<And>req. C_Llm req \<in> set cs \<Longrightarrow> request_for E t msg to ctx boxes req"
    and "\<And>v. r = Inr (Some v) \<Longrightarrow> \<exists>req. C_Llm req \<in> set cs"
proof (cases "has_budget_remaining (get_llm_usage (wdb w) (take 10 (e_now E (hist w)))) (t_daily_call_budget t)")
  case False
  with tier2_cases [OF assms] show thesis
    by (intro that [of "[C_Now, C_New_Id] @ exhausted_calls msg"])
      (auto simp: exhausted_calls_def alert_call_def)
next
  case True
  with tier2_cases [OF assms] obtain w1 where w1: "visible w1 = visible w @ [C_Now, C_New_Id]"
    and "(\<exists>e. r = Inl e \<and> refused E t msg to ctx boxes (e_now E (hist w)) w1 e w') \<or>
      (\<exists>rv. r = map_sum id Some rv \<and> banded E b t msg to ctx boxes (e_now E (hist w)) w1 rv w')" by auto
  then consider (refused) e where "r = Inl e" "refused E t msg to ctx boxes (e_now E (hist w)) w1 e w'"
    | (banded) rv where "banded E b t msg to ctx boxes (e_now E (hist w)) w1 rv w'" by blast
  then show thesis
  proof cases
    case (refused e)
    from refused(2) consider "visible w' = visible w1 @ [C_Context msg]"
      | req where "request_for E t msg to ctx boxes req" "visible w' = visible w1 @ [C_Context msg, C_Llm req]"
      unfolding refused_def by blast
    then show thesis
    proof cases
      case 1
      with refused(1) w1 show thesis by (intro that [of "[C_Now, C_New_Id, C_Context msg]"]) auto
    next
      case (2 req)
      with refused(1) w1 show thesis
        by (intro that [of "[C_Now, C_New_Id, C_Context msg, C_Llm req]"]) auto
    qed
  next
    case (banded rv)
    then obtain req band v cs where b: "request_for E t msg to ctx boxes req"
      "visible w' = visible w1 @ [C_Context msg, C_Llm req] @ cs" "prefix cs (band_calls b band msg v)"
      unfolding banded_def by blast
    have "C_Llm req' \<notin> set cs" for req'
      using band_calls_no_llm set_mono_prefix [OF b(3)] by blast
    with b(1,2) w1 show thesis
      by (intro that [of "[C_Now, C_New_Id, C_Context msg, C_Llm req] @ cs"]) auto
  qed
qed

section \<open>Property\<close>

text \<open>C11: what the model sees of a mail body without markup: a body with no ampersand reaches it as it is,
  cut and trimmed; of a body that ends in an ampersand and fewer than 34 characters with no white space,
  semicolon or further ampersand, such as a link with a query, nothing does, so that a verdict on it is
  given on an empty body.\<close>

theorem plain_body_seen:
  assumes "process_tier2_message E b t msg to ctx boxes w = (r, w')"
    and "e_strip_html E = strip_html (html_feed unescape tagged)" and "\<And>s. CHR ''&'' \<notin> set s \<Longrightarrow> unescape s = s"
    and "CHR ''<'' \<notin> set (body_text msg)" and "0 \<le> t_max_body_chars t"
  shows "\<exists>cs. visible w' = visible w @ cs \<and> ((\<exists>v. r = Inr (Some v)) \<longrightarrow> (\<exists>req. C_Llm req \<in> set cs)) \<and>
    (\<forall>req. C_Llm req \<in> set cs \<longrightarrow>
       (CHR ''&'' \<notin> set (body_text msg) \<longrightarrow>
          vq_cleaned_body req = clean_body (\<lambda>s. s) (body_text msg) (t_max_body_chars t)) \<and>
       (\<forall>front rest. body_text msg = front @ CHR ''&'' # rest \<and> length rest < 34 \<and>
            (\<forall>c \<in> set rest. \<not> py_space c \<and> c \<noteq> CHR '';'' \<and> c \<noteq> CHR ''&'') \<longrightarrow>
          vq_cleaned_body req = []))"
proof -
  let ?strip = "strip_html (html_feed unescape tagged)"
  from tier2_requests [OF assms(1)] obtain cs where cs: "visible w' = visible w @ cs"
    "\<And>req. C_Llm req \<in> set cs \<Longrightarrow> request_for E t msg to ctx boxes req"
    "\<And>v. r = Inr (Some v) \<Longrightarrow> \<exists>req. C_Llm req \<in> set cs" by metis
  have body: "vq_cleaned_body req = clean_body ?strip (body_text msg) (t_max_body_chars t)"
    if "C_Llm req \<in> set cs" for req
    using cs(2) [OF that] assms(2) by (auto simp: request_for_def tier2_request_def)
  have "clean_body ?strip (body_text msg) (t_max_body_chars t) = clean_body (\<lambda>s. s) (body_text msg) (t_max_body_chars t)"
    if "CHR ''&'' \<notin> set (body_text msg)"
    using that held_back_amp assms(3,4) by (auto simp: clean_body_def strip_plain)
  moreover have "clean_body ?strip (body_text msg) (t_max_body_chars t) = []" if "held_back (body_text msg)"
    using clean_nothing [OF _ assms(5)] strip_plain [OF assms(4)] that by simp
  ultimately show ?thesis
    using cs(1,3) body held_back_suffix by (intro exI [of _ cs] conjI allI impI) auto
qed

section \<open>Witness\<close>

text \<open>A mail whose last words hold an ampersand.\<close>

definition ex_at_t :: message where
  "ex_at_t = ex_message\<lparr>body_text := ''Your bill from AT&T''\<rparr>"

definition ex_html_env :: env where
  "ex_html_env = ex_env2\<lparr>e_strip_html := strip_html (html_feed (\<lambda>s. s) (\<lambda>_. []))\<rparr>"

lemma ex_html_run:
  "fst (process_tier2_message ex_html_env Live ex_tiering ex_at_t [] ex_thread [''Shop''] ex_world) =
     Inr (Some (lr_verdict ex_llm_result))"
proof -
  have "answering ex_html_env ex_at_t ex_llm_result" by (simp add: answering_def ex_html_env_def ex_env2_def ex_env_def)
  from process_tier2_progress [OF this ex_progress(2-)] show ?thesis by simp
qed

theorem plain_body_seen_witness:
  "\<exists>req. C_Llm req \<in> set (visible (snd (process_tier2_message ex_html_env Live ex_tiering ex_at_t [] ex_thread
       [''Shop''] ex_world))) \<and> vq_cleaned_body req = []"
proof -
  let ?p = "process_tier2_message ex_html_env Live ex_tiering ex_at_t [] ex_thread [''Shop''] ex_world"
  have run: "?p = (Inr (Some (lr_verdict ex_llm_result)), snd ?p)" using ex_html_run by (metis prod.collapse)
  have strip: "e_strip_html ex_html_env = strip_html (html_feed (\<lambda>s. s) (\<lambda>_. []))" by (simp add: ex_html_env_def)
  have body: "CHR ''<'' \<notin> set (body_text ex_at_t)" "0 \<le> t_max_body_chars ex_tiering"
    by (simp_all add: ex_at_t_def ex_tiering_def tiering_defaults_def)
  have "body_text ex_at_t = ''Your bill from AT'' @ CHR ''&'' # ''T''" "length ''T'' < 34"
    "\<forall>c \<in> set ''T''. \<not> py_space c \<and> c \<noteq> CHR '';'' \<and> c \<noteq> CHR ''&''"
    by (simp_all add: ex_at_t_def py_space_def)
  with plain_body_seen [OF run strip refl body] show ?thesis
    by (metis UnCI set_append)
qed

end
