(* ===== verification/Secret_Store.thy ===== *)
theory Secret_Store
  imports Config_File
begin

text \<open>
  \<open>core/secrets.py\<close>, \<open>core/secret_store.py\<close>, the secret handling of \<open>core/runtime.py\<close> and
  \<open>spork secrets enroll\<close>. The OS keyring is a parameter: a reader and a writer over an opaque
  state, with the law \<open>keyring_laws\<close> (an entry that was set is read back, the others are kept),
  which is what the \<open>keyring\<close> package documents; so is \<open>secretspec.resolve\<close>.
\<close>

section \<open>The manifest\<close>

definition SecretsError :: "string \<Rightarrow> exn" where
  "SecretsError why = Other_Error ''SecretsError'' why"

definition SecretStoreError :: "string \<Rightarrow> exn" where
  "SecretStoreError why = Other_Error ''SecretStoreError'' why"

text \<open>\<open>v[k]\<close>: \<open>None\<close> is the \<open>KeyError\<close> or \<open>TypeError\<close> the callers catch.\<close>

definition subscript :: "toml \<Rightarrow> string \<Rightarrow> toml option" where
  "subscript v k = (case v of T_Table t \<Rightarrow> dict_get t k | _ \<Rightarrow> None)"

text \<open>Truth of a value, as \<open>if\<close> reads it.\<close>

definition toml_truthy :: "toml \<Rightarrow> bool" where
  "toml_truthy v =
     (case v of
        T_Bool b \<Rightarrow> b | T_Str s \<Rightarrow> s \<noteq> [] | T_Int i \<Rightarrow> i \<noteq> 0 | T_Float x \<Rightarrow> x \<noteq> Num 0
      | T_Date d \<Rightarrow> True | T_Arr vs \<Rightarrow> vs \<noteq> [] | T_Table t \<Rightarrow> t \<noteq> [])"

definition service_name :: "string \<Rightarrow> string \<Rightarrow> string \<Rightarrow> string" where
  "service_name project profile name = ''secretspec/'' @ project @ ''/'' @ profile @ ''/'' @ name"

text \<open>\<open>document["project"]["name"]\<close>.\<close>

definition project_of :: "(string, toml) dict \<Rightarrow> toml option" where
  "project_of doc = Option.bind (dict_get doc ''project'') (\<lambda>p. subscript p ''name'')"

section \<open>Resolving (secrets.py)\<close>

type_synonym secrets = "(string, string) dict"

definition secrets_get :: "secrets \<Rightarrow> string \<Rightarrow> exn + string" where
  "secrets_get values name =
     (case dict_get values name of
        Some v \<Rightarrow> Inr v
      | None \<Rightarrow> Inl (SecretsError (''secret '' @ py_repr name @ '' was not resolved; available: '' @
                py_repr_list (sort (map fst values)))))"

text \<open>The declarations in order: the values found and the required names without one.\<close>

fun read_declared ::
  "(string \<Rightarrow> exn + string option) \<Rightarrow> (string \<times> toml) list \<Rightarrow> secrets \<Rightarrow> string list \<Rightarrow>
   exn + (secrets \<times> string list)" where
  "read_declared get [] values missing = Inr (values, missing)"
| "read_declared get ((name, declaration) # ds) values missing =
     (case table_of declaration of
        None \<Rightarrow> Inl (SecretsError ''invalid SecretSpec secret declaration'')
      | Some d \<Rightarrow>
          (case get name of
             Inl e \<Rightarrow> Inl (SecretsError (''could not read '' @ name @ '' from the OS keyring''))
           | Inr None \<Rightarrow>
               read_declared get ds values
                 (if toml_truthy (case dict_get d ''required'' of None \<Rightarrow> T_Bool True | Some v \<Rightarrow> v)
                  then missing @ [name] else missing)
           | Inr (Some v) \<Rightarrow> read_declared get ds (dict_set values name v) missing))"

definition resolve_keyring ::
  "(string \<Rightarrow> string \<Rightarrow> exn + string option) \<Rightarrow> string \<Rightarrow> toml_file \<Rightarrow> string option \<Rightarrow> exn + secrets" where
  "resolve_keyring get_password account manifest profile =
     (let selected = (case profile of None \<Rightarrow> ''default'' | Some p \<Rightarrow> if p = [] then ''default'' else p) in
      case manifest of
        Parsed doc \<Rightarrow>
          (case (project_of doc, Option.bind (dict_get doc ''profiles'') (\<lambda>p. subscript p selected)) of
             (Some (T_Str project), Some (T_Table declarations)) \<Rightarrow>
               (case read_declared (\<lambda>name. get_password (service_name project selected name) account) declarations [] [] of
                  Inl e \<Rightarrow> Inl e
                | Inr (values, missing) \<Rightarrow>
                    if missing \<noteq> []
                    then Inl (SecretsError (''missing required secret(s): '' @ py_join '', '' (sort missing)))
                    else Inr values)
           | (Some _, Some _) \<Rightarrow> Inl (SecretsError ''invalid SecretSpec keyring manifest'')
           | _ \<Rightarrow> Inl (SecretsError ''could not read SecretSpec keyring manifest''))
      | Not_Utf8 why \<Rightarrow> Inl (unicode_error why)
      | _ \<Rightarrow> Inl (SecretsError ''could not read SecretSpec keyring manifest''))"

definition manifest_provider :: "toml_file \<Rightarrow> exn + string option" where
  "manifest_provider manifest =
     (case manifest of
        Parsed doc \<Rightarrow>
          (case (case dict_get doc ''providers'' of None \<Rightarrow> T_Table [] | Some v \<Rightarrow> v) of
             T_Table providers \<Rightarrow>
               (case dict_get providers ''default'' of
                  None \<Rightarrow> Inr None
                | Some (T_Str d) \<Rightarrow> Inr (Some (if d = ''keyring://'' then ''keyring'' else d))
                | Some _ \<Rightarrow> Inl (SecretsError ''SecretSpec providers.default must be a string''))
           | _ \<Rightarrow> Inl (SecretsError ''SecretSpec [providers] must be a table''))
      | Not_Utf8 why \<Rightarrow> Inl (unicode_error why)
      | _ \<Rightarrow> Inl (SecretsError ''could not read SecretSpec manifest''))"

text \<open>\<open>sdk\<close> is \<open>secretspec.resolve\<close>: per declared name the value, when it has one.\<close>

definition resolve_secrets ::
  "(string \<Rightarrow> string \<Rightarrow> exn + string option) \<Rightarrow> string \<Rightarrow>
   (string option \<Rightarrow> string option \<Rightarrow> string + (string, string option) dict) \<Rightarrow> toml_file \<Rightarrow>
   string option \<Rightarrow> string option \<Rightarrow> exn + secrets" where
  "resolve_secrets get_password account sdk manifest provider profile =
     (case (if provider = None then manifest_provider manifest else Inr provider) of
        Inl e \<Rightarrow> Inl e
      | Inr p \<Rightarrow>
          if p = Some ''keyring'' then resolve_keyring get_password account manifest profile
          else (case sdk p profile of
                  Inl why \<Rightarrow> Inl (SecretsError why)
                | Inr resolved \<Rightarrow>
                    Inr (List.map_filter (\<lambda>kv. map_option (Pair (fst kv)) (snd kv)) resolved)))"

section \<open>Storing (secret_store.py, cli/commands/secrets.py)\<close>

definition keyring_service_name :: "toml_file \<Rightarrow> string \<Rightarrow> string \<Rightarrow> exn + string" where
  "keyring_service_name manifest name profile =
     (case manifest of
        Parsed doc \<Rightarrow>
          (case project_of doc of
             Some (T_Str project) \<Rightarrow>
               if project = [] then Inl (SecretStoreError ''invalid SecretSpec project name'')
               else Inr (service_name project profile name)
           | Some _ \<Rightarrow> Inl (SecretStoreError ''invalid SecretSpec project name'')
           | None \<Rightarrow> Inl (SecretStoreError ''invalid SecretSpec manifest''))
      | Not_Utf8 why \<Rightarrow> Inl (unicode_error why)
      | _ \<Rightarrow> Inl (SecretStoreError ''invalid SecretSpec manifest''))"

text \<open>\<open>set_password service account value\<close> on the keyring's state.\<close>

definition store_secret ::
  "(string \<Rightarrow> string \<Rightarrow> string \<Rightarrow> 'k \<Rightarrow> exn + 'k) \<Rightarrow> string \<Rightarrow> toml_file \<Rightarrow> string \<Rightarrow> string \<Rightarrow> string \<Rightarrow> 'k \<Rightarrow> exn + 'k" where
  "store_secret set_password account manifest name value profile k =
     (if value = [] then Inl (SecretStoreError (''cannot store an empty value for '' @ name))
      else case keyring_service_name manifest name profile of
             Inl e \<Rightarrow> Inl e
           | Inr service \<Rightarrow>
               (case set_password service account value k of
                  Inl e \<Rightarrow> Inl (SecretStoreError (''could not store '' @ name @ '' in the OS keyring''))
                | Inr k' \<Rightarrow> Inr k'))"

definition secret_names :: "string list" where
  "secret_names = [''JMAP_API_TOKEN'', ''ANTHROPIC_API_KEY'']"

text \<open>\<open>enroll\<close>: the prompted values are stored one after the other; the first failure ends the
  command, with the values before it already in the keyring.\<close>

fun enroll ::
  "(string \<Rightarrow> string \<Rightarrow> string \<Rightarrow> 'k \<Rightarrow> exn + 'k) \<Rightarrow> string \<Rightarrow> toml_file \<Rightarrow> (string \<times> string) list \<Rightarrow> 'k \<Rightarrow>
   exn option \<times> 'k" where
  "enroll set_password account manifest [] k = (None, k)"
| "enroll set_password account manifest ((name, value) # vs) k =
     (case store_secret set_password account manifest name value ''default'' k of
        Inl e \<Rightarrow> (Some e, k)
      | Inr k' \<Rightarrow> enroll set_password account manifest vs k')"

section \<open>Secrets in memory (runtime.py)\<close>

definition configured_specs :: "spork_config \<Rightarrow> backend_spec list" where
  "configured_specs config =
     [sc_provider config, sc_llm config, sc_alerts config] @
     (case sc_context config of None \<Rightarrow> [] | Some s \<Rightarrow> [s]) @
     (case sc_receipt_archive config of None \<Rightarrow> [] | Some r \<Rightarrow> [rc_extraction r])"

definition resolve_runtime_secrets :: "spork_config \<Rightarrow> (unit \<Rightarrow> exn + secrets) \<Rightarrow> exn + secrets" where
  "resolve_runtime_secrets config resolver =
     (if \<not> list_ex (\<lambda>s. be_secret_kwargs s \<noteq> []) (configured_specs config) then Inr [] else resolver ())"

text \<open>The dict of resolved arguments is built before the update, so a failure leaves nothing.\<close>

fun secret_arguments :: "secrets \<Rightarrow> (string \<times> string) list \<Rightarrow> exn + (string \<times> toml) list" where
  "secret_arguments values [] = Inr []"
| "secret_arguments values ((argument, name) # rest) =
     (case secrets_get values name of
        Inl e \<Rightarrow> Inl e
      | Inr v \<Rightarrow>
          (case secret_arguments values rest of Inl e \<Rightarrow> Inl e | Inr kvs \<Rightarrow> Inr ((argument, T_Str v) # kvs)))"

definition materialize_backend_kwargs :: "backend_spec \<Rightarrow> secrets \<Rightarrow> exn + (string, toml) dict" where
  "materialize_backend_kwargs spec values =
     (case secret_arguments values (be_secret_kwargs spec) of
        Inl e \<Rightarrow> Inl e
      | Inr kvs \<Rightarrow> Inr (dict_update (be_kwargs spec) kvs))"

section \<open>What resolution finds\<close>

definition required :: "toml \<Rightarrow> bool" where
  "required declaration =
     (case table_of declaration of
        None \<Rightarrow> True
      | Some d \<Rightarrow> toml_truthy (case dict_get d ''required'' of None \<Rightarrow> T_Bool True | Some v \<Rightarrow> v))"

definition missing_required :: "(string \<Rightarrow> exn + string option) \<Rightarrow> (string \<times> toml) list \<Rightarrow> string list" where
  "missing_required get ds = map fst (filter (\<lambda>nd. get (fst nd) = Inr None \<and> required (snd nd)) ds)"

definition found :: "(string \<Rightarrow> exn + string option) \<Rightarrow> string \<Rightarrow> string option" where
  "found get name = (case get name of Inr v \<Rightarrow> v | Inl e \<Rightarrow> None)"

text \<open>Declarations that are tables, over a keyring that answers.\<close>

definition readable :: "(string \<Rightarrow> exn + string option) \<Rightarrow> (string \<times> toml) list \<Rightarrow> bool" where
  "readable get ds \<longleftrightarrow> (\<forall>nd \<in> set ds. table_of (snd nd) \<noteq> None \<and> (\<forall>e. get (fst nd) \<noteq> Inl e))"

lemma read_declared_found:
  assumes "readable get ds"
  shows "\<exists>vals'. read_declared get ds vals missing = Inr (vals', missing @ missing_required get ds) \<and>
    (\<forall>n. dict_get vals' n =
       (if n \<in> fst ` set ds \<and> found get n \<noteq> None then found get n else dict_get vals n))"
  using assms
proof (induction ds arbitrary: vals missing)
  case Nil
  show ?case by (simp add: missing_required_def)
next
  case (Cons nd ds)
  obtain n d where nd: "nd = (n, d)" by (cases nd)
  have ds: "readable get ds" using Cons.prems by (simp add: readable_def)
  obtain t where t: "table_of d = Some t" using Cons.prems nd by (auto simp: readable_def)
  obtain x where x: "get n = Inr x" using Cons.prems nd by (cases "get n") (auto simp: readable_def)
  show ?case
  proof (cases x)
    case None
    from Cons.IH [OF ds, of vals "if required d then missing @ [n] else missing"] obtain vals' where
      v: "read_declared get ds vals (if required d then missing @ [n] else missing) =
          Inr (vals', (if required d then missing @ [n] else missing) @ missing_required get ds)"
      "\<And>m. dict_get vals' m =
         (if m \<in> fst ` set ds \<and> found get m \<noteq> None then found get m else dict_get vals m)"
      by blast
    have "found get n = None" by (simp add: found_def x None)
    with v show ?thesis
      by (intro exI [of _ vals'])
        (auto simp: nd t x None required_def missing_required_def)
  next
    case (Some w)
    from Cons.IH [OF ds, of "dict_set vals n w" missing] obtain vals' where
      v: "read_declared get ds (dict_set vals n w) missing = Inr (vals', missing @ missing_required get ds)"
      "\<And>m. dict_get vals' m =
         (if m \<in> fst ` set ds \<and> found get m \<noteq> None then found get m else dict_get (dict_set vals n w) m)"
      by blast
    have "found get n = Some w" by (simp add: found_def x Some)
    with v show ?thesis
      by (intro exI [of _ vals']) (auto simp: nd t x Some missing_required_def)
  qed
qed

text \<open>A manifest that \<open>resolve_keyring\<close> reads.\<close>

definition keyring_manifest :: "toml_file \<Rightarrow> string \<Rightarrow> string \<Rightarrow> (string \<times> toml) list \<Rightarrow> bool" where
  "keyring_manifest manifest project profile declarations \<longleftrightarrow>
     (\<exists>doc. manifest = Parsed doc \<and> project_of doc = Some (T_Str project) \<and>
        Option.bind (dict_get doc ''profiles'') (\<lambda>p. subscript p profile) = Some (T_Table declarations))"

text \<open>What the \<open>keyring\<close> package documents of its two functions.\<close>

definition keyring_laws ::
  "('k \<Rightarrow> string \<Rightarrow> string \<Rightarrow> exn + string option) \<Rightarrow>
   (string \<Rightarrow> string \<Rightarrow> string \<Rightarrow> 'k \<Rightarrow> exn + 'k) \<Rightarrow> bool" where
  "keyring_laws get_password set_password \<longleftrightarrow>
     (\<forall>s a v k k'. set_password s a v k = Inr k' \<longrightarrow>
        get_password k' s a = Inr (Some v) \<and>
        (\<forall>s' a'. (s', a') \<noteq> (s, a) \<longrightarrow> get_password k' s' a' = get_password k s' a'))"

lemma service_name_inject: "service_name p q n = service_name p q m \<longleftrightarrow> n = m"
  by (simp add: service_name_def)

lemma enroll_stores:
  assumes "keyring_laws getp setp" and "keyring_manifest manifest project ''default'' ds"
    and "enroll setp account manifest vs k = (None, k')" and "distinct (map fst vs)"
  shows "getp k' (service_name project ''default'' n) account =
      (case map_of vs n of
         Some v \<Rightarrow> Inr (Some v) | None \<Rightarrow> getp k (service_name project ''default'' n) account)"
  using assms(3,4)
proof (induction vs arbitrary: k)
  case (Cons nv vs)
  obtain m v where nv: "nv = (m, v)" by (cases nv)
  obtain doc where doc: "manifest = Parsed doc" "project_of doc = Some (T_Str project)"
    using assms(2) by (auto simp: keyring_manifest_def)
  obtain k1 where k1: "setp (service_name project ''default'' m) account v k = Inr k1"
    and rest: "enroll setp account manifest vs k1 = (None, k')"
    using Cons.prems(1) nv doc
    by (auto simp: store_secret_def keyring_service_name_def split: if_splits sum.splits)
  have m: "map_of vs m = None" using Cons.prems(2) nv by (simp add: map_of_eq_None_iff)
  have law: "getp k1 (service_name project ''default'' m) account = Inr (Some v)"
    "n \<noteq> m \<Longrightarrow> getp k1 (service_name project ''default'' n) account = getp k (service_name project ''default'' n) account"
    using assms(1) k1 by (simp_all add: keyring_laws_def service_name_inject)
  show ?case
    using Cons.IH [OF rest] Cons.prems(2) law m nv by (auto split: option.splits)
qed simp_all

lemma resolve_keyring_result:
  assumes "keyring_manifest manifest project profile ds" and "profile \<noteq> []"
    and "readable (\<lambda>n. getp (service_name project profile n) account) ds"
  shows "\<exists>vals. (\<forall>n. dict_get vals n =
        (if n \<in> fst ` set ds then found (\<lambda>n. getp (service_name project profile n) account) n else None)) \<and>
      resolve_keyring getp account manifest (Some profile) =
        (if missing_required (\<lambda>n. getp (service_name project profile n) account) ds = [] then Inr vals
         else Inl (SecretsError (''missing required secret(s): '' @ py_join '', ''
           (sort (missing_required (\<lambda>n. getp (service_name project profile n) account) ds)))))"
proof -
  define get where "get = (\<lambda>n. getp (service_name project profile n) account)"
  have r: "readable get ds" unfolding get_def by (rule assms(3))
  obtain vals where run: "read_declared get ds [] [] = Inr (vals, missing_required get ds)"
    and v: "\<And>n. dict_get vals n = (if n \<in> fst ` set ds \<and> found get n \<noteq> None then found get n else None)"
    using read_declared_found [OF r, of "[]" "[]"] by auto
  obtain doc where doc: "manifest = Parsed doc" "project_of doc = Some (T_Str project)"
      "Option.bind (dict_get doc ''profiles'') (\<lambda>p. subscript p profile) = Some (T_Table ds)"
    using assms(1) by (auto simp: keyring_manifest_def)
  have "resolve_keyring getp account manifest (Some profile) =
      (if missing_required get ds = [] then Inr vals
       else Inl (SecretsError (''missing required secret(s): '' @ py_join '', '' (sort (missing_required get ds)))))"
    using run assms(2) by (simp add: resolve_keyring_def doc get_def)
  moreover have "dict_get vals n = (if n \<in> fst ` set ds then found get n else None)" for n
    using v [of n] by auto
  ultimately show ?thesis unfolding get_def by blast
qed

lemma resolve_default_profile:
  "resolve_keyring getp account manifest None = resolve_keyring getp account manifest (Some ''default'')"
  by (simp add: resolve_keyring_def)

lemma secret_arguments_Inr:
  "secret_arguments vals args = Inr kvs \<Longrightarrow>
   map fst kvs = map fst args \<and>
   (\<forall>a. map_of kvs a = Option.bind (map_of args a) (\<lambda>n. map_option T_Str (dict_get vals n)))"
proof (induction args arbitrary: kvs)
  case (Cons an args)
  obtain a n where an: "an = (a, n)" by (cases an)
  with Cons.prems obtain v kvs' where "secrets_get vals n = Inr v" "secret_arguments vals args = Inr kvs'"
      "kvs = (a, T_Str v) # kvs'"
    by (auto split: sum.splits)
  with Cons.IH [of kvs'] show ?case by (auto simp: an secrets_get_def split: option.splits)
qed simp

lemma secret_arguments_Inl:
  "secret_arguments vals args = Inl e \<Longrightarrow> \<exists>a n. (a, n) \<in> set args \<and> secrets_get vals n = Inl e"
proof (induction args)
  case (Cons an args)
  then show ?case by (cases an) (auto split: sum.splits)
qed simp

section \<open>Properties\<close>

text \<open>With the keyring provider and a manifest whose declarations are tables, resolution
  succeeds exactly when every required secret has an entry, and then gives each declared name
  the keyring's value; otherwise it fails, naming all the missing ones in order.\<close>

theorem keyring_resolution:
  assumes "manifest_provider manifest = Inr (Some ''keyring'')"
    and "keyring_manifest manifest project ''default'' ds"
    and "get = (\<lambda>n. getp (service_name project ''default'' n) account)" and "readable get ds"
  shows "\<exists>vals. (\<forall>n. dict_get vals n = (if n \<in> fst ` set ds then found get n else None)) \<and>
    resolve_secrets getp account sdk manifest None None =
      (if missing_required get ds = [] then Inr vals
       else Inl (SecretsError (''missing required secret(s): '' @ py_join '', '' (sort (missing_required get ds)))))"
proof -
  have eq: "resolve_secrets getp account sdk manifest None None =
      resolve_keyring getp account manifest (Some ''default'')"
    by (simp add: resolve_secrets_def assms(1) resolve_default_profile)
  show ?thesis
    unfolding eq assms(3) by (rule resolve_keyring_result [OF assms(2)]) (use assms(3,4) in auto)
qed

text \<open>C24: enrolling and then resolving: once \<open>spork secrets enroll\<close> has stored its values, a
  manifest that uses the keyring and whose other declared secrets are optional and readable
  resolves, and every enrolled secret it declares has the value that was entered.\<close>

theorem secrets_roundtrip:
  assumes laws: "keyring_laws getp setp" and prov: "manifest_provider manifest = Inr (Some ''keyring'')"
    and man: "keyring_manifest manifest project ''default'' ds" and tables: "\<forall>nd \<in> set ds. table_of (snd nd) \<noteq> None"
    and stored: "enroll setp account manifest vs k = (None, k')" and once: "distinct (map fst vs)"
    and others: "\<forall>nd \<in> set ds. fst nd \<in> fst ` set vs \<or>
      (\<not> required (snd nd) \<and> (\<exists>x. getp k (service_name project ''default'' (fst nd)) account = Inr x))"
  shows "\<exists>vals. resolve_secrets (getp k') account sdk manifest None None = Inr vals \<and>
    (\<forall>n v. (n, v) \<in> set vs \<and> n \<in> fst ` set ds \<longrightarrow> secrets_get vals n = Inr v)"
proof -
  define get where "get = (\<lambda>n. getp k' (service_name project ''default'' n) account)"
  have get: "get n = (case map_of vs n of
      Some v \<Rightarrow> Inr (Some v) | None \<Rightarrow> getp k (service_name project ''default'' n) account)" for n
    unfolding get_def by (rule enroll_stores [OF laws man stored once])
  have enrolled: "get n = Inr (Some v)" if "(n, v) \<in> set vs" for n v
    using map_of_is_SomeI [OF once that] by (simp add: get)
  have read: "readable get ds"
    unfolding readable_def
  proof
    fix nd assume nd: "nd \<in> set ds"
    have "\<exists>x. get (fst nd) = Inr x"
    proof (cases "fst nd \<in> fst ` set vs")
      case True
      then show ?thesis using enrolled by force
    next
      case False
      then have "map_of vs (fst nd) = None" by (simp add: map_of_eq_None_iff)
      then show ?thesis using bspec [OF others nd] False by (simp add: get)
    qed
    then show "table_of (snd nd) \<noteq> None \<and> (\<forall>e. get (fst nd) \<noteq> Inl e)" using tables nd by auto
  qed
  have "missing_required get ds = []"
  proof -
    have "\<not> (get (fst nd) = Inr None \<and> required (snd nd))" if "nd \<in> set ds" for nd
      using others that enrolled by force
    then show ?thesis by (simp add: missing_required_def filter_empty_conv)
  qed
  then obtain vals where v: "\<forall>n. dict_get vals n = (if n \<in> fst ` set ds then found get n else None)"
    "resolve_keyring (getp k') account manifest (Some ''default'') = Inr vals"
    using resolve_keyring_result [OF man, of "getp k'" account, folded get_def] read by auto
  have "resolve_secrets (getp k') account sdk manifest None None = Inr vals"
    by (simp add: resolve_secrets_def prov resolve_default_profile v(2))
  moreover have "secrets_get vals n = Inr w" if "(n, w) \<in> set vs" "n \<in> fst ` set ds" for n w
    using enrolled [OF that(1)] that(2) by (simp add: secrets_get_def v(1) found_def)
  ultimately show ?thesis by blast
qed

text \<open>The constructor arguments of a backend: the plain ones as configured and, for each
  mapped one, the resolved secret; a plain argument is never replaced, since a validated
  specification has no overlap. A secret that was not resolved is the only failure.\<close>

theorem backend_arguments:
  assumes "disallow_overlapping_kwargs spec = Inr spec" and "distinct (map fst (be_secret_kwargs spec))"
  shows "case materialize_backend_kwargs spec vals of
    Inr kwargs \<Rightarrow>
      (\<forall>a. dict_get kwargs a =
         (case map_of (be_secret_kwargs spec) a of
            Some n \<Rightarrow> map_option T_Str (dict_get vals n) | None \<Rightarrow> dict_get (be_kwargs spec) a)) \<and>
      (\<forall>a \<in> fst ` set (be_kwargs spec). dict_get kwargs a = dict_get (be_kwargs spec) a)
  | Inl e \<Rightarrow> \<exists>a n. (a, n) \<in> set (be_secret_kwargs spec) \<and> dict_get vals n = None \<and>
      (\<exists>why. e = SecretsError why)"
proof (cases "secret_arguments vals (be_secret_kwargs spec)")
  case (Inl e)
  then obtain a n where an: "(a, n) \<in> set (be_secret_kwargs spec)" "secrets_get vals n = Inl e"
    using secret_arguments_Inl by blast
  then have "dict_get vals n = None \<and> (\<exists>why. e = SecretsError why)"
    by (auto simp: secrets_get_def split: option.splits)
  with an(1) Inl show ?thesis by (auto simp: materialize_backend_kwargs_def)
next
  case (Inr kvs)
  let ?kwargs = "dict_update (be_kwargs spec) kvs"
  have kvs: "map fst kvs = map fst (be_secret_kwargs spec)"
      "\<And>a. map_of kvs a = Option.bind (map_of (be_secret_kwargs spec) a) (\<lambda>n. map_option T_Str (dict_get vals n))"
    using secret_arguments_Inr [OF Inr] by auto
  have dom: "map_of kvs a = None \<longleftrightarrow> map_of (be_secret_kwargs spec) a = None" for a
    using arg_cong [OF kvs(1), of set] by (simp add: map_of_eq_None_iff)
  have rev: "map_of (rev kvs) = map_of kvs" using kvs(1) assms(2) by (simp add: map_of_rev_distinct)
  have get: "dict_get ?kwargs a =
      (case map_of (be_secret_kwargs spec) a of
         Some n \<Rightarrow> map_option T_Str (dict_get vals n) | None \<Rightarrow> dict_get (be_kwargs spec) a)" for a
  proof (cases "map_of (be_secret_kwargs spec) a")
    case None
    then have "map_of kvs a = None" using dom by simp
    then show ?thesis using rev None by (simp add: dict_get_update)
  next
    case (Some n)
    then obtain v where "map_of kvs a = Some v" using dom [of a] by (cases "map_of kvs a") auto
    then show ?thesis using rev kvs(2) [of a] Some by (auto simp: dict_get_update)
  qed
  have "map_of (be_secret_kwargs spec) a = None" if "a \<in> fst ` set (be_kwargs spec)" for a
    using assms(1) that
    by (auto simp: disallow_overlapping_kwargs_def Let_def filter_empty_conv map_of_eq_None_iff split: if_splits)
  then have keep: "\<forall>a \<in> fst ` set (be_kwargs spec). dict_get ?kwargs a = dict_get (be_kwargs spec) a"
    by (simp add: get)
  have m: "materialize_backend_kwargs spec vals = Inr ?kwargs"
    by (simp add: materialize_backend_kwargs_def Inr)
  show ?thesis unfolding m sum.case by (intro conjI allI get keep)
qed

section \<open>Witnesses\<close>

text \<open>A keyring held in memory.\<close>

type_synonym memory_keyring = "string \<times> string \<Rightarrow> string option"

definition memory_get :: "memory_keyring \<Rightarrow> string \<Rightarrow> string \<Rightarrow> exn + string option" where
  "memory_get k s a = Inr (k (s, a))"

definition memory_set :: "string \<Rightarrow> string \<Rightarrow> string \<Rightarrow> memory_keyring \<Rightarrow> exn + memory_keyring" where
  "memory_set s a v k = Inr (k((s, a) \<mapsto> v))"

lemma memory_laws: "keyring_laws memory_get memory_set"
  by (auto simp: keyring_laws_def memory_get_def memory_set_def)

definition ex_declarations :: "(string \<times> toml) list" where
  "ex_declarations =
     [(''JMAP_API_TOKEN'', T_Table []), (''ANTHROPIC_API_KEY'', T_Table [(''required'', T_Bool True)]),
      (''OTHER'', T_Table [(''required'', T_Bool False)])]"

definition ex_manifest :: toml_file where
  "ex_manifest =
     Parsed [(''project'', T_Table [(''name'', T_Str ''spork'')]),
             (''profiles'', T_Table [(''default'', T_Table ex_declarations)]),
             (''providers'', T_Table [(''default'', T_Str ''keyring://'')])]"

lemma ex_manifest_reads:
  "manifest_provider ex_manifest = Inr (Some ''keyring'')"
  "keyring_manifest ex_manifest ''spork'' ''default'' ex_declarations"
  by (simp_all add: ex_manifest_def manifest_provider_def keyring_manifest_def project_of_def subscript_def)

theorem keyring_resolution_witness:
  "resolve_secrets (memory_get Map.empty) ''me'' (\<lambda>_ _. Inr []) ex_manifest None None =
     Inl (SecretsError ''missing required secret(s): ANTHROPIC_API_KEY, JMAP_API_TOKEN'')"
proof -
  define get where "get = (\<lambda>n. memory_get Map.empty (service_name ''spork'' ''default'' n) ''me'')"
  have r: "readable get ex_declarations"
    by (simp add: readable_def ex_declarations_def get_def memory_get_def)
  have m: "missing_required get ex_declarations = [''JMAP_API_TOKEN'', ''ANTHROPIC_API_KEY'']"
    by (simp add: missing_required_def ex_declarations_def get_def memory_get_def required_def toml_truthy_def)
  have s: "sort [''JMAP_API_TOKEN'', ''ANTHROPIC_API_KEY''] = [''ANTHROPIC_API_KEY'', ''JMAP_API_TOKEN'']"
    by code_simp
  show ?thesis
    using keyring_resolution [where getp = "memory_get Map.empty" and account = "''me''" and get = get
        and sdk = "\<lambda>_ _. Inr []", OF ex_manifest_reads get_def r]
    by (simp add: m s)
qed

theorem secrets_roundtrip_witness:
  "\<exists>k' vals. enroll memory_set ''me'' ex_manifest [(''JMAP_API_TOKEN'', ''t''), (''ANTHROPIC_API_KEY'', ''k'')]
      Map.empty = (None, k') \<and>
     resolve_secrets (memory_get k') ''me'' (\<lambda>_ _. Inr []) ex_manifest None None = Inr vals \<and>
     secrets_get vals ''JMAP_API_TOKEN'' = Inr ''t''"
proof -
  obtain k' where k': "enroll memory_set ''me'' ex_manifest
      [(''JMAP_API_TOKEN'', ''t''), (''ANTHROPIC_API_KEY'', ''k'')] Map.empty = (None, k')"
    by (simp add: store_secret_def keyring_service_name_def ex_manifest_def project_of_def subscript_def memory_set_def)
  have "\<forall>nd \<in> set ex_declarations. table_of (snd nd) \<noteq> None" by (simp add: ex_declarations_def)
  from secrets_roundtrip [where sdk = "\<lambda>_ _. Inr []", OF memory_laws ex_manifest_reads this k'] k' show ?thesis
    by (auto simp: ex_declarations_def required_def toml_truthy_def memory_get_def)
qed

theorem backend_arguments_witness:
  "\<exists>kwargs. materialize_backend_kwargs
      \<lparr>be_spec = ''m:C'', be_kwargs = [(''host'', T_Str ''h'')], be_secret_kwargs = [(''api_token'', ''T'')]\<rparr>
      [(''T'', ''v'')] = Inr kwargs \<and> dict_get kwargs ''api_token'' = Some (T_Str ''v'') \<and>
      dict_get kwargs ''host'' = Some (T_Str ''h'')"
  using backend_arguments [of "\<lparr>be_spec = ''m:C'', be_kwargs = [(''host'', T_Str ''h'')],
      be_secret_kwargs = [(''api_token'', ''T'')]\<rparr>" "[(''T'', ''v'')]"]
  by (auto simp: disallow_overlapping_kwargs_def materialize_backend_kwargs_def secrets_get_def split: sum.splits)

end
