(* ===== verification/Entity_Context.thy ===== *)
theory Entity_Context
  imports Mail_Sources Receipt_Archive
begin

text \<open>
  The context providers: \<open>core/context/clients/null.py\<close>, the stub \<open>vault.py\<close>, and
  \<open>core/context/clients/entities\<close> (the fixture's loader, its records and the provider with its
  indices). The loader works on decoded JSON, whose values it does not check; the provider on a
  fixture whose fields have the declared types (\<open>typed_entity_data\<close>), since anything else fails
  in its constructor's string methods. A tracked domain is the \<open>domain_record\<close> the receipt
  archive looks up.
\<close>

section \<open>Loading (data.py)\<close>

record json_company =
  jc_name :: json
  jc_domains :: "json list"
  jc_services :: "json list"

record json_service =
  js_name :: json
  js_category :: json

record json_person =
  jp_name :: json
  jp_email :: json
  jp_company :: json

record json_entity_data =
  je_companies :: "json_company list"
  je_service_metadata :: "json_service list"
  je_people :: "json_person list"

definition entry_place :: "string \<Rightarrow> string \<Rightarrow> nat \<Rightarrow> string" where
  "entry_place path sec index = path @ '': '' @ sec @ ''['' @ py_str_int (int index) @ '']''"

text \<open>\<open>_require_object\<close>, then the required \<open>name\<close>.\<close>

definition entity_entry :: "string \<Rightarrow> string \<Rightarrow> nat \<Rightarrow> json \<Rightarrow> exn + (json \<times> (string \<times> json) list)" where
  "entity_entry path sec index entry =
     (case entry of
        J_Obj d \<Rightarrow>
          (case map_of d ''name'' of
             None \<Rightarrow> Inl (EntityDataLoadError (entry_place path sec index @ '' missing required field '' @ py_repr ''name''))
           | Some name \<Rightarrow> Inr (name, d))
      | _ \<Rightarrow> Inl (EntityDataLoadError (entry_place path sec index @ '' must be a JSON object, got '' @ json_type_name entry)))"

definition parse_company :: "string \<Rightarrow> nat \<Rightarrow> json \<Rightarrow> exn + json_company" where
  "parse_company path index entry =
     (case entity_entry path ''companies'' index entry of
        Inl e \<Rightarrow> Inl e
      | Inr (name, d) \<Rightarrow>
          (case json_iter (field_or (J_Arr []) d ''domains'') of
             Inl e \<Rightarrow> Inl e
           | Inr domains \<Rightarrow>
               (case json_iter (field_or (J_Arr []) d ''services'') of
                  Inl e \<Rightarrow> Inl e
                | Inr services \<Rightarrow> Inr \<lparr>jc_name = name, jc_domains = domains, jc_services = services\<rparr>)))"

definition parse_service :: "string \<Rightarrow> nat \<Rightarrow> json \<Rightarrow> exn + json_service" where
  "parse_service path index entry =
     (case entity_entry path ''services'' index entry of
        Inl e \<Rightarrow> Inl e
      | Inr (name, d) \<Rightarrow> Inr \<lparr>js_name = name, js_category = field_or J_Null d ''category''\<rparr>)"

definition parse_person :: "string \<Rightarrow> nat \<Rightarrow> json \<Rightarrow> exn + json_person" where
  "parse_person path index entry =
     (case entity_entry path ''people'' index entry of
        Inl e \<Rightarrow> Inl e
      | Inr (name, d) \<Rightarrow>
          Inr \<lparr>jp_name = name, jp_email = field_or J_Null d ''email'', jp_company = field_or J_Null d ''company''\<rparr>)"

text \<open>One section: absent is empty.\<close>

definition load_section :: "(nat \<Rightarrow> json \<Rightarrow> exn + 'a) \<Rightarrow> (string \<times> json) list \<Rightarrow> string \<Rightarrow> exn + 'a list" where
  "load_section parse raw sec =
     (case json_iter (field_or (J_Arr []) raw sec) of
        Inl e \<Rightarrow> Inl e
      | Inr entries \<Rightarrow> decode_entries parse 0 entries)"

definition load_entity_data :: "string \<Rightarrow> json_file \<Rightarrow> exn + json_entity_data" where
  "load_entity_data path f =
     (case f of
        Missing_File \<Rightarrow> Inl (EntityDataLoadError (''entity knowledge base file not found: '' @ path))
      | Undecodable why \<Rightarrow> Inl (EntityDataLoadError (''invalid JSON in '' @ path @ '': '' @ why))
      | Decoded (J_Obj raw) \<Rightarrow>
          (case load_section (parse_company path) raw ''companies'' of
             Inl e \<Rightarrow> Inl e
           | Inr companies \<Rightarrow>
               (case load_section (parse_service path) raw ''services'' of
                  Inl e \<Rightarrow> Inl e
                | Inr service_metadata \<Rightarrow>
                    (case load_section (parse_person path) raw ''people'' of
                       Inl e \<Rightarrow> Inl e
                     | Inr people \<Rightarrow>
                         Inr \<lparr>je_companies = companies, je_service_metadata = service_metadata, je_people = people\<rparr>)))
      | Decoded v \<Rightarrow> Inl (EntityDataLoadError (path @ '' must contain a JSON object, got '' @ json_type_name v)))"

section \<open>Records (models.py)\<close>

record company =
  co_name :: string
  co_domains :: "string list"
  co_services :: "string list"

record service =
  sv_name :: string
  sv_category :: "string option"
  sv_provided_by :: "string list"

record person =
  pn_name :: string
  pn_email :: "string option"
  pn_company :: "string option"

record entity_data =
  en_companies :: "company list"
  en_service_metadata :: "(string \<times> string option) list"
  en_people :: "person list"

text \<open>A fixture whose values have the declared types; a \<open>null\<close> is \<open>None\<close>.\<close>

fun json_text_option :: "json \<Rightarrow> string option option" where
  "json_text_option J_Null = Some None"
| "json_text_option (J_Str s) = Some (Some s)"
| "json_text_option v = None"

definition typed_company :: "json_company \<Rightarrow> company option" where
  "typed_company c =
     (case (json_text (jc_name c), all_some (map json_text (jc_domains c)), all_some (map json_text (jc_services c))) of
        (Some n, Some ds, Some ss) \<Rightarrow> Some \<lparr>co_name = n, co_domains = ds, co_services = ss\<rparr>
      | _ \<Rightarrow> None)"

definition typed_person :: "json_person \<Rightarrow> person option" where
  "typed_person p =
     (case (json_text (jp_name p), json_text_option (jp_email p), json_text_option (jp_company p)) of
        (Some n, Some e, Some c) \<Rightarrow> Some \<lparr>pn_name = n, pn_email = e, pn_company = c\<rparr>
      | _ \<Rightarrow> None)"

definition typed_service :: "json_service \<Rightarrow> (string \<times> string option) option" where
  "typed_service s =
     (case (json_text (js_name s), json_text_option (js_category s)) of
        (Some n, Some c) \<Rightarrow> Some (n, c) | _ \<Rightarrow> None)"

definition typed_entity_data :: "json_entity_data \<Rightarrow> entity_data option" where
  "typed_entity_data d =
     (case (all_some (map typed_company (je_companies d)), all_some (map typed_service (je_service_metadata d)),
            all_some (map typed_person (je_people d))) of
        (Some cs, Some ss, Some ps) \<Rightarrow>
          Some \<lparr>en_companies = cs, en_service_metadata = ss, en_people = ps\<rparr>
      | _ \<Rightarrow> None)"

section \<open>The provider (provider.py)\<close>

definition render_company :: "company \<Rightarrow> string" where
  "render_company c =
     co_name c @
     (if co_domains c = [] then [] else '' operates '' @ py_join '', '' (co_domains c)) @
     (if co_services c = [] then [] else '' and provides '' @ py_join '', '' (co_services c)) @ ''.''"

definition render_person :: "person \<Rightarrow> string" where
  "render_person p =
     pn_name p @ '' is affiliated with '' @ (case pn_company p of None \<Rightarrow> ''None'' | Some c \<Rightarrow> c) @ ''.''"

record entity_provider =
  ep_companies :: "(string, company) dict"
  ep_domains :: "(string, domain_record) dict"
  ep_services :: "(string, service) dict"
  ep_people_by_email :: "(string, person) dict"
  ep_people_by_name :: "(string, person) dict"

definition setdefault :: "('k, 'v) dict \<Rightarrow> 'k \<Rightarrow> 'v \<Rightarrow> ('k, 'v) dict" where
  "setdefault d k v = (if dict_get d k = None then d @ [(k, v)] else d)"

text \<open>The services the companies list, with the listing company, in fixture order.\<close>

definition listed_services :: "company list \<Rightarrow> (string \<times> string) list" where
  "listed_services cs = concat (map (\<lambda>c. map (\<lambda>s. (s, co_name c)) (co_services c)) cs)"

definition display_names :: "entity_data \<Rightarrow> (string, string) dict" where
  "display_names d =
     fold (\<lambda>n names. setdefault names (py_lower n) n)
       (map fst (listed_services (en_companies d)) @ map fst (en_service_metadata d)) []"

text \<open>\<open>providers_by_key.setdefault(key, []).append(name)\<close>.\<close>

definition append_provider :: "string \<times> string \<Rightarrow> (string, string list) dict \<Rightarrow> (string, string list) dict" where
  "append_provider sn d =
     (let key = py_lower (fst sn)
      in dict_set d key ((case dict_get d key of None \<Rightarrow> [] | Some ns \<Rightarrow> ns) @ [snd sn]))"

definition providers_by_key :: "entity_data \<Rightarrow> (string, string list) dict" where
  "providers_by_key d = fold append_provider (listed_services (en_companies d)) []"

definition category_by_key :: "entity_data \<Rightarrow> (string, string option) dict" where
  "category_by_key d = dict_of (map (\<lambda>m. (py_lower (fst m), snd m)) (en_service_metadata d))"

definition entity_provider_init :: "entity_data \<Rightarrow> entity_provider" where
  "entity_provider_init d =
     \<lparr>ep_companies = dict_of (map (\<lambda>c. (py_lower (co_name c), c)) (en_companies d)),
      ep_domains = dict_of (concat (map (\<lambda>c. map (\<lambda>n. (py_lower n, \<lparr>dr_name = n, dr_company = Some (co_name c)\<rparr>))
                                            (co_domains c)) (en_companies d))),
      ep_services = map (\<lambda>(key, name). (key,
          \<lparr>sv_name = name,
           sv_category = (case dict_get (category_by_key d) key of None \<Rightarrow> None | Some c \<Rightarrow> c),
           sv_provided_by = (case dict_get (providers_by_key d) key of None \<Rightarrow> [] | Some ns \<Rightarrow> ns)\<rparr>))
        (display_names d),
      ep_people_by_email = dict_of (List.map_filter (\<lambda>p. case pn_email p of
           None \<Rightarrow> None | Some e \<Rightarrow> if e = [] then None else Some (py_lower e, p)) (en_people d)),
      ep_people_by_name = dict_of (map (\<lambda>p. (py_lower (pn_name p), p)) (en_people d))\<rparr>"

definition lookup_domain :: "entity_provider \<Rightarrow> string \<Rightarrow> domain_record option" where
  "lookup_domain ep name = dict_get (ep_domains ep) (py_lower name)"

definition lookup_company :: "entity_provider \<Rightarrow> string \<Rightarrow> company option" where
  "lookup_company ep name = dict_get (ep_companies ep) (py_lower name)"

definition lookup_service :: "entity_provider \<Rightarrow> string \<Rightarrow> service option" where
  "lookup_service ep name = dict_get (ep_services ep) (py_lower name)"

definition lookup_person :: "entity_provider \<Rightarrow> string \<Rightarrow> person option" where
  "lookup_person ep identifier =
     (let key = py_lower identifier
      in case dict_get (ep_people_by_email ep) key of
           Some p \<Rightarrow> Some p | None \<Rightarrow> dict_get (ep_people_by_name ep) key)"

definition entity_get_context :: "entity_provider \<Rightarrow> message \<Rightarrow> exn + context_result" where
  "entity_get_context ep msg =
     (case lookup_domain ep (from_domain msg) of
        None \<Rightarrow> Inr []
      | Some rec \<Rightarrow>
          (case dr_company rec of
             None \<Rightarrow> Inr []
           | Some name \<Rightarrow>
               (case lookup_company ep name of
                  None \<Rightarrow> Inl (Other_Error ''AssertionError''
                            (''domain '' @ py_repr (dr_name rec) @ '' names an untracked company''))
                | Some c \<Rightarrow>
                    Inr (\<lparr>cs_source = dr_name rec, cs_text = render_company c\<rparr> #
                      (case lookup_person ep (from_address msg) of
                         None \<Rightarrow> []
                       | Some p \<Rightarrow>
                           if pn_company p = None then []
                           else [\<lparr>cs_source = from_address msg, cs_text = render_person p\<rparr>])))))"

definition null_get_context :: "message \<Rightarrow> exn + context_result" where
  "null_get_context msg = Inr []"

definition vault_get_context :: "message \<Rightarrow> exn + context_result" where
  "vault_get_context msg = Inl (NotImplementedError ''MarkdownVaultContextProvider.get_context() is a settled-shape stub'')"

section \<open>What the indices answer\<close>

lemma map_of_find: "map_of (map (\<lambda>x. (f x, g x)) xs) k = map_option g (find (\<lambda>x. f x = k) xs)"
  by (induction xs) auto

lemma dict_of_find:
  "dict_get (dict_of (map (\<lambda>x. (f x, g x)) xs)) k = map_option g (find (\<lambda>x. f x = k) (rev xs))"
  by (simp add: dict_get_update rev_map map_of_find split: option.splits)

definition tracked_domains :: "entity_data \<Rightarrow> domain_record list" where
  "tracked_domains d =
     concat (map (\<lambda>c. map (\<lambda>n. \<lparr>dr_name = n, dr_company = Some (co_name c)\<rparr>) (co_domains c)) (en_companies d))"

lemma tracked_pairs:
  "concat (map (\<lambda>c. map (\<lambda>n. (py_lower n, \<lparr>dr_name = n, dr_company = Some (co_name c)\<rparr>)) (co_domains c)) (en_companies d)) =
   map (\<lambda>r. (py_lower (dr_name r), r)) (tracked_domains d)"
  by (simp add: tracked_domains_def map_concat comp_def)

lemma lookup_domain_init:
  "lookup_domain (entity_provider_init d) n =
     find (\<lambda>r. py_lower (dr_name r) = py_lower n) (rev (tracked_domains d))"
  by (simp add: lookup_domain_def entity_provider_init_def tracked_pairs dict_of_find option.map_ident)

lemma lookup_company_init:
  "lookup_company (entity_provider_init d) n =
     find (\<lambda>c. py_lower (co_name c) = py_lower n) (rev (en_companies d))"
  by (simp add: lookup_company_def entity_provider_init_def dict_of_find option.map_ident)

lemma setdefault_get:
  "dict_get (setdefault d k v) k' =
     (case dict_get d k' of Some w \<Rightarrow> Some w | None \<Rightarrow> if k' = k then Some v else None)"
  by (auto simp: setdefault_def map_add_def split: option.splits)

lemma display_get:
  "dict_get (fold (\<lambda>n names. setdefault names (py_lower n) n) ns d) k =
     (case dict_get d k of Some v \<Rightarrow> Some v | None \<Rightarrow> find (\<lambda>n. py_lower n = k) ns)"
  by (induction ns arbitrary: d) (auto simp: setdefault_get split: option.splits)

definition providers_of :: "entity_data \<Rightarrow> string \<Rightarrow> string list" where
  "providers_of d key =
     map snd (filter (\<lambda>sn. py_lower (fst sn) = key) (listed_services (en_companies d)))"

lemma append_providers_get:
  "(case dict_get (fold append_provider sns d) k of None \<Rightarrow> [] | Some ns \<Rightarrow> ns) =
     (case dict_get d k of None \<Rightarrow> [] | Some ns \<Rightarrow> ns) @ map snd (filter (\<lambda>sn. py_lower (fst sn) = k) sns)"
proof (induction sns arbitrary: d)
  case Nil
  show ?case by simp
next
  case (Cons sn sns)
  show ?case by (simp add: Cons) (simp add: append_provider_def Let_def)
qed

lemma lookup_service_init:
  "lookup_service (entity_provider_init d) n =
     map_option (\<lambda>s. \<lparr>sv_name = s,
         sv_category = (case find (\<lambda>m. py_lower (fst m) = py_lower n) (rev (en_service_metadata d)) of
            None \<Rightarrow> None | Some m \<Rightarrow> snd m),
         sv_provided_by = providers_of d (py_lower n)\<rparr>)
       (find (\<lambda>s. py_lower s = py_lower n)
          (map fst (listed_services (en_companies d)) @ map fst (en_service_metadata d)))"
proof -
  have m: "map_of (map (\<lambda>(key, name). (key, g key name)) ks) k = map_option (g k) (map_of ks k)"
    for g :: "string \<Rightarrow> string \<Rightarrow> service" and ks k
    by (induction ks) auto
  have names: "dict_get (display_names d) k =
      find (\<lambda>s. py_lower s = k) (map fst (listed_services (en_companies d)) @ map fst (en_service_metadata d))" for k
    unfolding display_names_def display_get by simp
  have cat: "(case dict_get (category_by_key d) k of None \<Rightarrow> None | Some c \<Rightarrow> c) =
      (case find (\<lambda>m. py_lower (fst m) = k) (rev (en_service_metadata d)) of None \<Rightarrow> None | Some m \<Rightarrow> snd m)" for k
    by (simp add: category_by_key_def dict_of_find split: option.splits)
  have prov: "(case dict_get (providers_by_key d) k of None \<Rightarrow> [] | Some ns \<Rightarrow> ns) = providers_of d k" for k
    unfolding providers_by_key_def append_providers_get by (simp add: providers_of_def)
  show ?thesis
    by (simp add: lookup_service_def entity_provider_init_def m names cat prov)
qed

lemma find_SomeD: "find P xs = Some x \<Longrightarrow> P x \<and> x \<in> set xs"
  by (induction xs) (auto split: if_splits)

section \<open>Properties\<close>

text \<open>The context of a message never fails and has at most two snippets: none when the
  sender's domain is not tracked; otherwise one rendering the last company whose folded name is
  that of the domain's company, then, for a known and affiliated sender, one about the person.\<close>

theorem entity_context_total:
  "\<exists>snippets. entity_get_context (entity_provider_init d) msg = Inr snippets \<and> length snippets \<le> 2 \<and>
    (case find (\<lambda>r. py_lower (dr_name r) = py_lower (from_domain msg)) (rev (tracked_domains d)) of
       None \<Rightarrow> snippets = []
     | Some r \<Rightarrow> \<exists>c0 c rest. c0 \<in> set (en_companies d) \<and> dr_name r \<in> set (co_domains c0) \<and>
         find (\<lambda>c. py_lower (co_name c) = py_lower (co_name c0)) (rev (en_companies d)) = Some c \<and>
         snippets = \<lparr>cs_source = dr_name r, cs_text = render_company c\<rparr> # rest \<and>
         (distinct (map (py_lower \<circ> co_name) (en_companies d)) \<longrightarrow> c = c0) \<and>
         (\<forall>s \<in> set rest. \<exists>p. lookup_person (entity_provider_init d) (from_address msg) = Some p \<and>
            pn_company p \<noteq> None \<and> s = \<lparr>cs_source = from_address msg, cs_text = render_person p\<rparr>))"
proof (cases "find (\<lambda>r. py_lower (dr_name r) = py_lower (from_domain msg)) (rev (tracked_domains d))")
  case None
  then show ?thesis by (simp add: entity_get_context_def lookup_domain_init)
next
  case (Some r)
  then have "r \<in> set (tracked_domains d)" by (auto dest: find_SomeD)
  then obtain c0 where c0: "c0 \<in> set (en_companies d)" "dr_name r \<in> set (co_domains c0)"
      "dr_company r = Some (co_name c0)"
    by (auto simp: tracked_domains_def)
  have "find (\<lambda>c. py_lower (co_name c) = py_lower (co_name c0)) (rev (en_companies d)) \<noteq> None"
    using c0(1) by (auto simp: find_None_iff)
  then obtain c where c: "find (\<lambda>c. py_lower (co_name c) = py_lower (co_name c0)) (rev (en_companies d)) = Some c"
    by auto
  have same: "c = c0" if "distinct (map (py_lower \<circ> co_name) (en_companies d))"
    using find_SomeD [OF c] c0(1) that by (auto simp: distinct_map inj_on_def)
  define rest where "rest = (case lookup_person (entity_provider_init d) (from_address msg) of
      None \<Rightarrow> []
    | Some p \<Rightarrow> if pn_company p = None then []
        else [\<lparr>cs_source = from_address msg, cs_text = render_person p\<rparr>])"
  have rest: "length rest \<le> 1" "\<forall>s \<in> set rest. \<exists>p. lookup_person (entity_provider_init d) (from_address msg) = Some p \<and>
            pn_company p \<noteq> None \<and> s = \<lparr>cs_source = from_address msg, cs_text = render_person p\<rparr>"
    by (cases "lookup_person (entity_provider_init d) (from_address msg)"; simp add: rest_def)+
  have run: "entity_get_context (entity_provider_init d) msg =
      Inr (\<lparr>cs_source = dr_name r, cs_text = render_company c\<rparr> # rest)"
    by (simp add: entity_get_context_def lookup_domain_init Some c0(3) lookup_company_init c rest_def)
  show ?thesis
    unfolding run Some option.case
    by (rule exI, rule conjI [OF refl], rule conjI)
      (use rest(1) in simp, intro exI conjI impI, (rule c0 c refl rest same | assumption)+)
qed

text \<open>What a service lookup answers: it finds the names the companies and the metadata list,
  without regard to case, shows the first spelling, and names every company that lists it, in
  the fixture's order.\<close>

theorem entity_service_spec:
  "case lookup_service (entity_provider_init d) n of
     None \<Rightarrow> \<forall>s \<in> set (map fst (listed_services (en_companies d)) @ map fst (en_service_metadata d)).
       py_lower s \<noteq> py_lower n
   | Some s \<Rightarrow> py_lower (sv_name s) = py_lower n \<and>
       sv_name s \<in> set (map fst (listed_services (en_companies d)) @ map fst (en_service_metadata d)) \<and>
       set (sv_provided_by s) =
         {co_name c | c. c \<in> set (en_companies d) \<and> (\<exists>x \<in> set (co_services c). py_lower x = py_lower n)}"
proof -
  have prov: "set (providers_of d k) =
      {co_name c | c. c \<in> set (en_companies d) \<and> (\<exists>x \<in> set (co_services c). py_lower x = k)}" for k
    by (force simp: providers_of_def listed_services_def)
  show ?thesis
    unfolding lookup_service_init
    by (auto simp: prov find_None_iff split: option.splits dest!: find_SomeD)
qed

section \<open>Witnesses\<close>

definition ex_entities :: entity_data where
  "ex_entities =
     \<lparr>en_companies =
        [\<lparr>co_name = ''Gandi'', co_domains = [''gandi.net''], co_services = [''DNS'']\<rparr>,
         \<lparr>co_name = ''Other'', co_domains = [], co_services = [''dns'']\<rparr>],
      en_service_metadata = [(''Dns'', Some ''net'')],
      en_people = [\<lparr>pn_name = ''Ann'', pn_email = Some ''ann@gandi.net'', pn_company = Some ''Gandi''\<rparr>]\<rparr>"

lemma ex_lower:
  "py_lower ''GANDI.net'' = ''gandi.net''" "py_lower ''gandi.net'' = ''gandi.net''"
  "py_lower ''Gandi'' = ''gandi''" "py_lower ''Other'' = ''other''"
  "py_lower ''DNS'' = ''dns''" "py_lower ''dns'' = ''dns''" "py_lower ''Dns'' = ''dns''"
  by code_simp+

theorem entity_context_total_witness:
  "\<exists>snippets. entity_get_context (entity_provider_init ex_entities)
      \<lparr>message_id = ''m'', thread_id = ''t'', from_address = ''Ann@gandi.net'', from_domain = ''GANDI.net'',
       subject = [], body_text = [], headers = [], mailbox_ids = []\<rparr> = Inr snippets \<and>
     map cs_text (take 1 snippets) = [''Gandi operates gandi.net and provides DNS.'']"
  using entity_context_total [of ex_entities "\<lparr>message_id = ''m'', thread_id = ''t'', from_address = ''Ann@gandi.net'',
      from_domain = ''GANDI.net'', subject = [], body_text = [], headers = [], mailbox_ids = []\<rparr>"]
  by (auto simp: ex_entities_def tracked_domains_def ex_lower render_company_def)

lemma ex_providers:
  "{co_name c | c. c \<in> set (en_companies ex_entities) \<and> (\<exists>x \<in> set (co_services c). py_lower x = py_lower ''dns'')} =
     {''Gandi'', ''Other''}"
proof -
  have "{co_name c | c. c \<in> set (en_companies ex_entities) \<and> (\<exists>x \<in> set (co_services c). py_lower x = py_lower ''dns'')} =
      co_name ` set (filter (\<lambda>c. list_ex (\<lambda>x. py_lower x = py_lower ''dns'') (co_services c)) (en_companies ex_entities))"
    by (auto simp: list_ex_iff)
  then show ?thesis by (simp add: ex_entities_def ex_lower)
qed

theorem entity_service_spec_witness:
  "\<exists>s. lookup_service (entity_provider_init ex_entities) ''dns'' = Some s \<and>
     set (sv_provided_by s) = {''Gandi'', ''Other''}"
proof (cases "lookup_service (entity_provider_init ex_entities) ''dns''")
  case None
  with entity_service_spec [of ex_entities "''dns''"] show ?thesis
    by (simp add: ex_entities_def listed_services_def ex_lower)
next
  case (Some s)
  with entity_service_spec [of ex_entities "''dns''"] ex_providers show ?thesis by simp
qed

end
