(* ===== verification/Daemon_Control.thy ===== *)
theory Daemon_Control
  imports Tier2_Pipeline "HOL-Library.Word"
begin

text \<open>
  \<open>daemon/state.py\<close>, \<open>core/ipc/protocol.py\<close>, \<open>core/ipc/server.py\<close> and the handlers of
  \<open>daemon/loop.py\<close>: the state the loop shares with the control socket, the command
  handlers and their dispatch, and the check of the socket's directory. Parsing one request
  line (pydantic's \<open>model_validate_json\<close>) is a parameter of \<open>handle_client\<close>.
\<close>

unbundle bit_operations_syntax

section \<open>State (state.py)\<close>

record pending_audit_event =
  pe_event :: string
  pe_detail_json :: "string option"

record daemon_state =
  ds_paused :: bool
  ds_started_at :: string
  ds_budget_exhausted_alert_date :: "string option"
  ds_pending :: "pending_audit_event list"

definition fresh_daemon_state :: "string \<Rightarrow> daemon_state" where
  "fresh_daemon_state started_at =
     \<lparr>ds_paused = False, ds_started_at = started_at, ds_budget_exhausted_alert_date = None,
      ds_pending = []\<rparr>"

text \<open>The state the handlers and the loop share: \<open>DaemonState\<close> and \<open>RulesState\<close>.\<close>

record shared_state =
  sh_daemon :: daemon_state
  sh_rules :: "rule list"

section \<open>Protocol (protocol.py)\<close>

datatype ipc_value = V_Bool bool | V_Str string | V_Int int

record ipc_request =
  iq_command :: string
  iq_params :: "(string, ipc_value) dict"

record ipc_response =
  ir_ok :: bool
  ir_data :: "(string, ipc_value) dict"
  ir_error :: "string option"

definition ok_response :: "(string, ipc_value) dict \<Rightarrow> ipc_response" where
  "ok_response data = \<lparr>ir_ok = True, ir_data = data, ir_error = None\<rparr>"

definition error_response :: "string \<Rightarrow> ipc_response" where
  "error_response msg = \<lparr>ir_ok = False, ir_data = [], ir_error = Some msg\<rparr>"

section \<open>Handlers (loop.py) and dispatch (server.py)\<close>

definition paused_event :: pending_audit_event where
  "paused_event = \<lparr>pe_event = ''daemon_paused'', pe_detail_json = None\<rparr>"

definition resumed_event :: pending_audit_event where
  "resumed_event = \<lparr>pe_event = ''daemon_resumed'', pe_detail_json = None\<rparr>"

definition set_paused :: "bool \<Rightarrow> shared_state \<Rightarrow> shared_state" where
  "set_paused b s =
     s\<lparr>sh_daemon := (sh_daemon s)\<lparr>ds_paused := b,
         ds_pending := ds_pending (sh_daemon s) @ [if b then paused_event else resumed_event]\<rparr>\<rparr>"

text \<open>A handler: the exception it raises or its data, and the state it leaves. \<open>loaded\<close> is
  what \<open>load_rules(rules_path)\<close> gives at the moment of the call.\<close>

definition ipc_handler ::
  "exn + rule list \<Rightarrow> string \<Rightarrow>
   (shared_state \<Rightarrow> (exn + (string, ipc_value) dict) \<times> shared_state) option" where
  "ipc_handler loaded command =
     (if command = ''status''
      then Some (\<lambda>s. (Inr [(''paused'', V_Bool (ds_paused (sh_daemon s))),
                           (''started_at'', V_Str (ds_started_at (sh_daemon s)))], s))
      else if command = ''pause''
      then Some (\<lambda>s. (Inr [(''paused'', V_Bool True)], set_paused True s))
      else if command = ''resume''
      then Some (\<lambda>s. (Inr [(''paused'', V_Bool False)], set_paused False s))
      else if command = ''reload''
      then Some (\<lambda>s. case loaded of
             Inl e \<Rightarrow> (Inl e, s)
           | Inr rules \<Rightarrow> (Inr [(''rule_count'', V_Int (int (length rules)))], s\<lparr>sh_rules := rules\<rparr>))
      else None)"

definition ipc_dispatch ::
  "(exn \<Rightarrow> string) \<Rightarrow> exn + rule list \<Rightarrow> ipc_request \<Rightarrow> shared_state \<Rightarrow> ipc_response \<times> shared_state" where
  "ipc_dispatch str loaded req s =
     (case ipc_handler loaded (iq_command req) of
        None \<Rightarrow> (error_response (''unknown command: '' @ py_repr (iq_command req)), s)
      | Some handler \<Rightarrow>
          (case handler s of
             (Inl e, s') \<Rightarrow> (error_response (str e), s')
           | (Inr data, s') \<Rightarrow> (ok_response data, s')))"

definition handle_client ::
  "(exn \<Rightarrow> string) \<Rightarrow> (string \<Rightarrow> exn + ipc_request) \<Rightarrow> exn + rule list \<Rightarrow> string \<Rightarrow> shared_state \<Rightarrow>
   ipc_response \<times> shared_state" where
  "handle_client str validate loaded line s =
     (case validate line of
        Inl e \<Rightarrow> (error_response (''invalid request: '' @ str e), s)
      | Inr req \<Rightarrow> ipc_dispatch str loaded req s)"

text \<open>The audit events a request queues.\<close>

definition queued_by :: "string \<Rightarrow> pending_audit_event list" where
  "queued_by command =
     (if command = ''pause'' then [paused_event]
      else if command = ''resume'' then [resumed_event] else [])"

lemma dispatch_pending:
  "ipc_dispatch str loaded req s = (resp, s') \<Longrightarrow>
   ds_pending (sh_daemon s') = ds_pending (sh_daemon s) @ queued_by (iq_command req)"
  by (auto simp: ipc_dispatch_def ipc_handler_def queued_by_def set_paused_def
      split: if_splits sum.splits)

lemma dispatch_alert_date:
  "ipc_dispatch str loaded req s = (resp, s') \<Longrightarrow>
   ds_budget_exhausted_alert_date (sh_daemon s') = ds_budget_exhausted_alert_date (sh_daemon s) \<and>
   ds_started_at (sh_daemon s') = ds_started_at (sh_daemon s)"
  by (auto simp: ipc_dispatch_def ipc_handler_def set_paused_def split: if_splits sum.splits)

section \<open>The socket's directory (server.py)\<close>

text \<open>What is at the path: a symlink, a directory (owner and mode bits), another file or nothing.\<close>

datatype path_entry =
    No_Entry | Symlink | Other_File
  | Directory (dir_uid: nat) (dir_mode: "12 word")

definition dir_mode_private :: "12 word" where
  "dir_mode_private = 448"

definition group_other_bits :: "12 word" where
  "group_other_bits = 63"

text \<open>Modes in octal: 448 is 700, 63 is 077. \<open>mkdir\<close> under a umask, then the checks, then \<open>chmod\<close>.\<close>

definition ensure_private_dir :: "nat \<Rightarrow> 12 word \<Rightarrow> path_entry \<Rightarrow> exn + path_entry" where
  "ensure_private_dir uid umask p =
     (let refuse = (\<lambda>why. Inl (Other_Error ''IpcServerError'' why)) in
      case p of
        Symlink \<Rightarrow> refuse ''it's a symlink''
      | Other_File \<Rightarrow> Inl (Other_Error ''FileExistsError'' ''file exists'')
      | No_Entry \<Rightarrow>
          (if (dir_mode_private AND NOT umask) AND group_other_bits \<noteq> 0
           then refuse ''group/other access'' else Inr (Directory uid dir_mode_private))
      | Directory owner mode \<Rightarrow>
          (if owner \<noteq> uid then refuse ''not the current user''
           else if mode AND group_other_bits \<noteq> 0 then refuse ''group/other access''
           else Inr (Directory uid dir_mode_private)))"

section \<open>Properties\<close>

lemma private_and_umask: "(dir_mode_private AND NOT umask) AND group_other_bits = 0"
proof -
  have "dir_mode_private AND group_other_bits = 0"
    by (simp add: dir_mode_private_def group_other_bits_def)
  then show ?thesis by (metis and.commute and.left_commute and_zero_eq)
qed

text \<open>The control socket's directory is used exactly when it did not exist or is a real
  directory of this user without group or other bits, and it then belongs to the user with
  mode 700; a symlink, another file, another owner or an open mode is always refused,
  whatever the umask.\<close>

theorem ensure_private_dir_spec:
  "ensure_private_dir uid umask p = Inr q \<longleftrightarrow>
     q = Directory uid 448 \<and>
     (p = No_Entry \<or> (\<exists>mode. p = Directory uid mode \<and> mode AND 63 = 0))"
  using private_and_umask [of umask]
  by (cases p) (auto simp: ensure_private_dir_def Let_def dir_mode_private_def group_other_bits_def)

text \<open>C30: the control socket answers every line: an undecodable line, an unknown command and a
  handler's exception become an error response and change nothing; a failed reload keeps the
  rules in force; pause and resume queue exactly one audit event each and nothing else is
  ever removed from the queue; no command touches the budget alert's date.\<close>

theorem handle_client_spec:
  "case handle_client str validate loaded line s of (resp, s') \<Rightarrow>
     (ir_ok resp \<longleftrightarrow> ir_error resp = None) \<and>
     (\<not> ir_ok resp \<longrightarrow> s' = s) \<and>
     (\<forall>req. validate line = Inr req \<longrightarrow>
        ds_pending (sh_daemon s') = ds_pending (sh_daemon s) @ queued_by (iq_command req) \<and>
        (iq_command req = ''reload'' \<longrightarrow>
           (case loaded of Inl e \<Rightarrow> resp = error_response (str e) \<and> s' = s
            | Inr rules \<Rightarrow> ir_ok resp \<and> sh_rules s' = rules)) \<and>
        (iq_command req \<notin> {''status'', ''pause'', ''resume'', ''reload''} \<longrightarrow> \<not> ir_ok resp)) \<and>
     ds_budget_exhausted_alert_date (sh_daemon s') = ds_budget_exhausted_alert_date (sh_daemon s)"
proof (cases "validate line")
  case (Inl e)
  then show ?thesis by (simp add: handle_client_def error_response_def)
next
  case (Inr req)
  obtain resp s' where d: "ipc_dispatch str loaded req s = (resp, s')"
    by (cases "ipc_dispatch str loaded req s")
  then have h: "handle_client str validate loaded line s = (resp, s')"
    by (simp add: handle_client_def Inr)
  have "(ir_ok resp \<longleftrightarrow> ir_error resp = None) \<and> (\<not> ir_ok resp \<longrightarrow> s' = s) \<and>
      (iq_command req = ''reload'' \<longrightarrow>
           (case loaded of Inl e \<Rightarrow> resp = error_response (str e) \<and> s' = s
            | Inr rules \<Rightarrow> ir_ok resp \<and> sh_rules s' = rules)) \<and>
      (iq_command req \<notin> {''status'', ''pause'', ''resume'', ''reload''} \<longrightarrow> \<not> ir_ok resp)"
    using d by (auto simp: ipc_dispatch_def ipc_handler_def ok_response_def error_response_def
        split: if_splits sum.splits)
  with h Inr dispatch_pending [OF d] dispatch_alert_date [OF d] show ?thesis by auto
qed

section \<open>Witnesses\<close>

definition ex_shared :: shared_state where
  "ex_shared = \<lparr>sh_daemon = fresh_daemon_state ''now'', sh_rules = ex_rules\<rparr>"

theorem handle_client_spec_witness:
  "handle_client (\<lambda>_. ''bad rules'') (\<lambda>_. Inr \<lparr>iq_command = ''reload'', iq_params = []\<rparr>)
     (Inl (RulesLoadError ''x'')) ''line'' ex_shared = (error_response ''bad rules'', ex_shared)"
  using handle_client_spec [where str = "\<lambda>_. ''bad rules''" and s = ex_shared
      and validate = "\<lambda>_. Inr \<lparr>iq_command = ''reload'', iq_params = []\<rparr>"
      and loaded = "Inl (RulesLoadError ''x'')" and line = "''line''"]
  by (auto split: prod.splits)

end
