(* ===== verification/Rules_File.thy ===== *)
theory Rules_File
  imports Toml_Text Daemon_Control Mail_Sources
begin

text \<open>
  \<open>core/rules/schema.py\<close> (the validation of a rule table), \<open>core/rules/loader.py\<close>,
  \<open>core/rules/writer.py\<close>, \<open>core/ipc/client.py\<close> and the \<open>spork rules\<close> commands. pydantic is a
  parameter (\<open>validate\<close>, the text of a \<open>ValidationError\<close> or the rule): \<open>rule_of_table\<close> is what
  the schema itself declares for a table whose values have the declared types, and pydantic
  agrees with it there; what it does with other values (it converts some) is left open.
  Exit codes and echoed lines are values of \<open>cli_result\<close>; the long dash of two messages is
  written as two hyphens, since characters are code points below 256.
\<close>

section \<open>The schema (schema.py)\<close>

fun toml_str :: "toml \<Rightarrow> string option" where
  "toml_str (T_Str s) = Some s"
| "toml_str v = None"

fun toml_bool :: "toml \<Rightarrow> bool option" where
  "toml_bool (T_Bool b) = Some b"
| "toml_bool v = None"

fun toml_strs :: "toml \<Rightarrow> string list option" where
  "toml_strs (T_Arr vs) = all_some (map toml_str vs)"
| "toml_strs v = None"

definition action_types :: "action_type list" where
  "action_types = [Move, Tag, Escalate, Ignore, Archive_Receipt]"

definition toml_action_type :: "toml \<Rightarrow> action_type option" where
  "toml_action_type v =
     Option.bind (toml_str v) (map_of (map (\<lambda>t. (action_type_name t, t)) action_types))"

text \<open>A field with a default, and the check \<open>extra="forbid"\<close>.\<close>

definition field_default :: "(string, toml) dict \<Rightarrow> string \<Rightarrow> 'a \<Rightarrow> (toml \<Rightarrow> 'a option) \<Rightarrow> 'a option" where
  "field_default d k dflt conv = (case dict_get d k of None \<Rightarrow> Some dflt | Some v \<Rightarrow> conv v)"

definition field_required :: "(string, toml) dict \<Rightarrow> string \<Rightarrow> (toml \<Rightarrow> 'a option) \<Rightarrow> 'a option" where
  "field_required d k conv = Option.bind (dict_get d k) conv"

definition closed_table :: "string list \<Rightarrow> toml \<Rightarrow> (string, toml) dict option" where
  "closed_table allowed v =
     Option.bind (table_of v) (\<lambda>d. if list_all (\<lambda>k. k \<in> set allowed) (map fst d) then Some d else None)"

definition condition_of_table :: "toml \<Rightarrow> condition option" where
  "condition_of_table v =
     Option.bind (closed_table [''always'', ''from_domain_in'', ''from_in'', ''local_classifier_category_in''] v)
       (\<lambda>d. Option.bind (field_default d ''always'' False toml_bool)
         (\<lambda>a. Option.bind (field_default d ''from_domain_in'' None (map_option Some \<circ> toml_strs))
           (\<lambda>fd. Option.bind (field_default d ''from_in'' None (map_option Some \<circ> toml_strs))
             (\<lambda>fi. Option.bind (field_default d ''local_classifier_category_in'' None (map_option Some \<circ> toml_strs))
               (\<lambda>lc. Some \<lparr>c_always = a, c_from_domain_in = fd, c_from_in = fi,
                          c_local_classifier_category_in = lc\<rparr>)))))"

definition action_of_table :: "toml \<Rightarrow> action option" where
  "action_of_table v =
     Option.bind (closed_table [''type'', ''mailbox'', ''reason'', ''alert_immediately''] v)
       (\<lambda>d. Option.bind (field_required d ''type'' toml_action_type)
         (\<lambda>t. Option.bind (field_default d ''mailbox'' None (map_option Some \<circ> toml_str))
           (\<lambda>m. Option.bind (field_default d ''reason'' None (map_option Some \<circ> toml_str))
             (\<lambda>r. Option.bind (field_default d ''alert_immediately'' False toml_bool)
               (\<lambda>ai. Some \<lparr>a_type = t, a_mailbox = m, a_reason = r, a_alert_immediately = ai\<rparr>)))))"

definition rule_of_table :: "toml \<Rightarrow> rule option" where
  "rule_of_table v =
     Option.bind (closed_table [''id'', ''description'', ''when'', ''action'', ''enabled''] v)
       (\<lambda>d. Option.bind (field_required d ''id'' toml_str)
         (\<lambda>i. Option.bind (field_default d ''description'' [] toml_str)
           (\<lambda>de. Option.bind (field_required d ''when'' condition_of_table)
             (\<lambda>w. Option.bind (field_required d ''action'' action_of_table)
               (\<lambda>a. Option.bind (field_default d ''enabled'' True toml_bool)
                 (\<lambda>e. Some \<lparr>r_id = i, r_description = de, r_when = w, r_action = a, r_enabled = e\<rparr>))))))"

text \<open>pydantic takes a table of the declared shape for the model it declares.\<close>

definition follows_schema :: "(toml \<Rightarrow> string + rule) \<Rightarrow> bool" where
  "follows_schema validate \<longleftrightarrow> (\<forall>v r. rule_of_table v = Some r \<longrightarrow> validate v = Inr r)"

section \<open>Loading (loader.py)\<close>

text \<open>Iterating over \<open>raw.get("rule", [])\<close>: an array, a table's keys or a string's characters.\<close>

fun toml_iter :: "toml \<Rightarrow> exn + toml list" where
  "toml_iter (T_Arr vs) = Inr vs"
| "toml_iter (T_Table t) = Inr (map (T_Str \<circ> fst) t)"
| "toml_iter (T_Str s) = Inr (map (\<lambda>c. T_Str [c]) s)"
| "toml_iter v = Inl (Other_Error ''TypeError'' ''object is not iterable'')"

fun load_entries ::
  "(toml \<Rightarrow> string + rule) \<Rightarrow> string \<Rightarrow> nat \<Rightarrow> string list \<Rightarrow> toml list \<Rightarrow> exn + rule list" where
  "load_entries validate path index seen_ids [] = Inr []"
| "load_entries validate path index seen_ids (entry # entries) =
     (case validate entry of
        Inl why \<Rightarrow> Inl (RulesLoadError (''invalid rule at index '' @ py_str_int (int index) @ '' in '' @ path @ '': '' @ why))
      | Inr r \<Rightarrow>
          if r_id r \<in> set seen_ids
          then Inl (RulesLoadError (''duplicate rule id '' @ py_repr (r_id r) @ '' in '' @ path))
          else (case load_entries validate path (Suc index) (r_id r # seen_ids) entries of
                  Inl e \<Rightarrow> Inl e
                | Inr rs \<Rightarrow> Inr (r # rs)))"

text \<open>\<open>content\<close> is the file's text, \<open>None\<close> when it does not exist. The decoder's own words, at
  the end of the message on invalid TOML, are left off.\<close>

definition load_rules :: "(toml \<Rightarrow> string + rule) \<Rightarrow> string \<Rightarrow> string option \<Rightarrow> exn + rule list" where
  "load_rules validate path content =
     (case content of
        None \<Rightarrow> Inl (RulesLoadError (''rules file not found: '' @ path))
      | Some text \<Rightarrow>
          (case toml_loads text of
             None \<Rightarrow> Inl (RulesLoadError (''invalid TOML in '' @ path))
           | Some raw \<Rightarrow>
               (case toml_iter (case dict_get raw ''rule'' of None \<Rightarrow> T_Arr [] | Some v \<Rightarrow> v) of
                  Inl e \<Rightarrow> Inl e
                | Inr entries \<Rightarrow> load_entries validate path 0 [] entries)))"

text \<open>What opening the file meets: \<open>Not_Read\<close> is every failure but a missing file, an \<open>OSError\<close> or a
  \<open>UnicodeDecodeError\<close>.\<close>

datatype rules_text = Missing | Not_Read exn | Read string

definition load_rules_at :: "(toml \<Rightarrow> string + rule) \<Rightarrow> string \<Rightarrow> rules_text \<Rightarrow> exn + rule list" where
  "load_rules_at validate path f =
     (case f of
        Missing \<Rightarrow> load_rules validate path None
      | Not_Read e \<Rightarrow> Inl e
      | Read t \<Rightarrow> load_rules validate path (Some t))"

section \<open>Writing (writer.py)\<close>

text \<open>\<open>s.replace(c, by)\<close> for one character.\<close>

definition py_replace :: "char \<Rightarrow> string \<Rightarrow> string \<Rightarrow> string" where
  "py_replace c by s = concat (map (\<lambda>x. if x = c then by else [x]) s)"

definition toml_string :: "string \<Rightarrow> string" where
  "toml_string value =
     dquote # py_replace dquote [backslash, dquote] (py_replace backslash [backslash, backslash] value) @ [dquote]"

fun toml_value :: "toml \<Rightarrow> exn + string" and toml_values :: "toml list \<Rightarrow> exn + string list" where
  "toml_value (T_Bool b) = Inr (if b then ''true'' else ''false'')"
| "toml_value (T_Str s) = Inr (toml_string s)"
| "toml_value (T_Arr vs) =
     (case toml_values vs of Inl e \<Rightarrow> Inl e | Inr ts \<Rightarrow> Inr (''['' @ py_join '', '' ts @ '']''))"
| "toml_value (T_Int i) = Inl (Other_Error ''TypeError'' ''cannot serialize value'')"
| "toml_value (T_Float x) = Inl (Other_Error ''TypeError'' ''cannot serialize value'')"
| "toml_value (T_Date s) = Inl (Other_Error ''TypeError'' ''cannot serialize value'')"
| "toml_value (T_Table t) = Inl (Other_Error ''TypeError'' ''cannot serialize value'')"
| "toml_values [] = Inr []"
| "toml_values (v # vs) =
     (case toml_value v of
        Inl e \<Rightarrow> Inl e
      | Inr t \<Rightarrow> (case toml_values vs of Inl e \<Rightarrow> Inl e | Inr ts \<Rightarrow> Inr (t # ts)))"

fun table_parts :: "(string \<times> toml) list \<Rightarrow> exn + string list" where
  "table_parts [] = Inr []"
| "table_parts ((key, v) # ps) =
     (case toml_value v of
        Inl e \<Rightarrow> Inl e
      | Inr t \<Rightarrow> (case table_parts ps of Inl e \<Rightarrow> Inl e | Inr ts \<Rightarrow> Inr ((key @ '' = '' @ t) # ts)))"

definition inline_table :: "(string \<times> toml) list \<Rightarrow> exn + string" where
  "inline_table ps =
     (case table_parts ps of Inl e \<Rightarrow> Inl e | Inr ts \<Rightarrow> Inr (''{ '' @ py_join '', '' ts @ '' }''))"

text \<open>\<open>model_dump(exclude_none=True)\<close>: the fields in their order, the unset ones left out.\<close>

definition optional_pair :: "string \<Rightarrow> ('a \<Rightarrow> toml) \<Rightarrow> 'a option \<Rightarrow> (string \<times> toml) list" where
  "optional_pair k conv v = (case v of None \<Rightarrow> [] | Some x \<Rightarrow> [(k, conv x)])"

abbreviation T_Strs :: "string list \<Rightarrow> toml" where
  "T_Strs ss \<equiv> T_Arr (map T_Str ss)"

definition dump_condition :: "condition \<Rightarrow> (string \<times> toml) list" where
  "dump_condition c =
     (''always'', T_Bool (c_always c)) #
     optional_pair ''from_domain_in'' T_Strs (c_from_domain_in c) @
     optional_pair ''from_in'' T_Strs (c_from_in c) @
     optional_pair ''local_classifier_category_in'' T_Strs (c_local_classifier_category_in c)"

definition dump_action :: "action \<Rightarrow> (string \<times> toml) list" where
  "dump_action a =
     (''type'', T_Str (action_type_name (a_type a))) #
     optional_pair ''mailbox'' T_Str (a_mailbox a) @
     optional_pair ''reason'' T_Str (a_reason a) @
     [(''alert_immediately'', T_Bool (a_alert_immediately a))]"

definition rule_lines :: "rule \<Rightarrow> exn + string list" where
  "rule_lines r =
     (case (toml_value (T_Bool (r_enabled r)), inline_table (dump_condition (r_when r)),
            inline_table (dump_action (r_action r))) of
        (Inr en, Inr wh, Inr ac) \<Rightarrow>
          Inr ([''[[rule]]'', ''id = '' @ toml_string (r_id r)] @
               (if r_description r = [] then [] else [''description = '' @ toml_string (r_description r)]) @
               [''enabled = '' @ en, ''when = '' @ wh, ''action = '' @ ac])
      | (Inl e, _, _) \<Rightarrow> Inl e
      | (Inr en, Inl e, _) \<Rightarrow> Inl e
      | (Inr en, Inr wh, Inl e) \<Rightarrow> Inl e)"

fun rule_blocks :: "rule list \<Rightarrow> exn + string list" where
  "rule_blocks [] = Inr []"
| "rule_blocks (r # rs) =
     (case rule_lines r of
        Inl e \<Rightarrow> Inl e
      | Inr ls \<Rightarrow> (case rule_blocks rs of Inl e \<Rightarrow> Inl e | Inr bs \<Rightarrow> Inr (py_join [newline] ls # bs)))"

definition dump_rules :: "rule list \<Rightarrow> exn + string" where
  "dump_rules rules =
     (case rule_blocks rules of
        Inl e \<Rightarrow> Inl e
      | Inr blocks \<Rightarrow> Inr (if blocks = [] then [] else py_join [newline, newline] blocks @ [newline]))"

section \<open>Reading back what was written\<close>

text \<open>A text a basic string can hold without an escape the writer does not make.\<close>

definition clean :: "string \<Rightarrow> bool" where
  "clean s \<longleftrightarrow> list_all (\<lambda>c. \<not> illegal_char c) s"

fun clean_value :: "toml \<Rightarrow> bool" where
  "clean_value (T_Str s) = clean s"
| "clean_value (T_Arr vs) = list_all clean_value vs"
| "clean_value v = True"

lemma escape_Cons:
  "py_replace dquote [backslash, dquote] (py_replace backslash [backslash, backslash] (c # s)) =
     (if c = backslash \<or> c = dquote then [backslash, c] else [c]) @
     py_replace dquote [backslash, dquote] (py_replace backslash [backslash, backslash] s)"
  by (simp add: py_replace_def quote_chars)

lemma legal_quotes: "\<not> illegal_char dquote" "\<not> illegal_char backslash"
  by (simp_all add: illegal_char_def quote_chars)

lemma read_string_escaped:
  "read_string (py_replace dquote [backslash, dquote] (py_replace backslash [backslash, backslash] s) @ dquote # rest) =
     (if clean s then Some (s, rest) else None)"
proof (induction s)
  case Nil
  show ?case by (simp add: py_replace_def clean_def)
next
  case (Cons c s)
  have "string_escape backslash = Some backslash" "string_escape dquote = Some dquote"
    by (simp_all add: string_escape_def quote_chars tab_def newline_char)
  moreover have "backslash \<noteq> dquote" by (simp add: quote_chars)
  ultimately show ?case
    using Cons legal_quotes unfolding escape_Cons by (auto simp: clean_def)
qed

text \<open>\<open>t\<close> reads as the value \<open>v\<close>, or not at all.\<close>

definition reads_as :: "string \<Rightarrow> toml \<Rightarrow> bool \<Rightarrow> bool" where
  "reads_as t v ok \<longleftrightarrow>
     (t \<noteq> [] \<and> hd t \<noteq> CHR '' '' \<and> hd t \<noteq> tab \<and> hd t \<noteq> CHR '']'' \<and> hd t \<noteq> newline \<and>
      (\<forall>n rest. length t < n \<longrightarrow> parse_value n (t @ rest) = (if ok then Some (v, rest) else None)))"

lemma tab_char: "tab = CHR 0x09"
  by code_simp

lemma skip_ws_simps [simp]:
  "skip_ws [] = []"
  "skip_ws (CHR '' '' # s) = skip_ws s"
  "c \<noteq> CHR '' '' \<Longrightarrow> c \<noteq> tab \<Longrightarrow> skip_ws (c # s) = c # s"
  by (simp_all add: skip_ws_def)

lemma reads_asD:
  assumes "reads_as t v ok"
  shows "t \<noteq> []" and "skip_ws (t @ rest) = t @ rest"
    and "length t < n \<Longrightarrow> parse_value n (t @ rest) = (if ok then Some (v, rest) else None)"
proof -
  show "t \<noteq> []" using assms by (simp add: reads_as_def)
  then obtain c cs where t: "t = c # cs" by (cases t) auto
  show "skip_ws (t @ rest) = t @ rest" using assms by (simp add: reads_as_def t)
  show "length t < n \<Longrightarrow> parse_value n (t @ rest) = (if ok then Some (v, rest) else None)"
    using assms unfolding reads_as_def by blast
qed

lemma toml_string_reads: "reads_as (toml_string s) (T_Str s) (clean s)"
proof -
  have "parse_value n (toml_string s @ rest) = (if clean s then Some (T_Str s, rest) else None)"
    if "length (toml_string s) < n" for n rest
    using that read_string_escaped [of s rest] by (cases n) (auto simp: toml_string_def)
  then show ?thesis by (simp add: reads_as_def) (simp add: toml_string_def quote_chars tab_char newline_char)
qed

lemma bool_reads: "reads_as (if b then ''true'' else ''false'') (T_Bool b) True"
proof -
  have "parse_value n ((if b then ''true'' else ''false'') @ rest) = Some (T_Bool b, rest)"
    if "length (if b then ''true'' else ''false'') < n" for n rest
    using that by (cases n; cases b) (auto simp: quote_chars)
  then show ?thesis by (simp add: reads_as_def) (simp add: tab_char newline_char)
qed

text \<open>The values of an array, each read to its end by a comma or the bracket.\<close>

lemma array_reads:
  assumes "list_all2 (\<lambda>t v. reads_as t v (clean_value v)) ts vs"
    and "length (py_join '', '' ts) + 1 < n"
  shows "parse_items n (py_join '', '' ts @ CHR '']'' # rest) =
    (if list_all clean_value vs then Some (vs, rest) else None)"
  using assms
proof (induction ts arbitrary: vs n)
  case Nil
  then show ?case by (cases n) auto
next
  case (Cons t ts)
  obtain v vs' where vs: "vs = v # vs'" and v: "reads_as t v (clean_value v)"
    and vs': "list_all2 (\<lambda>t v. reads_as t v (clean_value v)) ts vs'"
    using Cons.prems(1) by (auto simp: list_all2_Cons1)
  obtain m where n: "n = Suc m" using Cons.prems(2) by (cases n) auto
  obtain c cs where t: "t = c # cs" and c: "c \<noteq> CHR '']''" using v by (cases t) (auto simp: reads_as_def)
  have len: "length t < m" using Cons.prems(2) n by (cases ts) auto
  note val = reads_asD(3) [OF v len]
  show ?case
  proof (cases ts)
    case Nil
    then show ?thesis using vs vs' val [of "CHR '']'' # rest"] c by (auto simp: n t tab_char)
  next
    case (Cons t2 ts2)
    then obtain v2 vs2 where vs2: "vs' = v2 # vs2" "reads_as t2 v2 (clean_value v2)"
      using vs' by (auto simp: list_all2_Cons1)
    have more: "parse_items m (py_join '', '' ts @ CHR '']'' # rest) =
        (if list_all clean_value vs' then Some (vs', rest) else None)"
      using Cons.IH [OF vs'] Cons.prems(2) n Cons by simp
    have ws: "skip_ws (py_join '', '' ts @ CHR '']'' # rest) = py_join '', '' ts @ CHR '']'' # rest"
      using reads_asD(2) [OF vs2(2)] Cons by (cases ts2) auto
    show ?thesis
      using vs val [of "CHR '','' # CHR '' '' # py_join '', '' ts @ CHR '']'' # rest"] c more ws Cons
      by (auto simp: n t tab_char)
  qed
qed

lemma toml_value_reads:
  "toml_value v = Inr t \<Longrightarrow> reads_as t v (clean_value v)"
  "toml_values vs = Inr ts \<Longrightarrow> list_all2 (\<lambda>t v. reads_as t v (clean_value v)) ts vs"
proof (induction v and vs arbitrary: t and ts rule: toml_value_toml_values.induct)
  case (1 b)
  then show ?case using bool_reads [of b] by simp
next
  case (2 s)
  then show ?case using toml_string_reads [of s] by auto
next
  case (3 vs)
  then obtain ts where ts: "toml_values vs = Inr ts" and t: "t = ''['' @ py_join '', '' ts @ '']''"
    by (auto split: sum.splits)
  have all: "list_all2 (\<lambda>t v. reads_as t v (clean_value v)) ts vs" using 3 ts by auto
  have ws: "skip_ws (py_join '', '' ts @ CHR '']'' # rest) = py_join '', '' ts @ CHR '']'' # rest" for rest
  proof (cases ts)
    case (Cons t1 ts1)
    then obtain v1 where "reads_as t1 v1 (clean_value v1)" using all by (auto simp: list_all2_Cons1)
    from reads_asD(2) [OF this] Cons show ?thesis by (cases ts1) auto
  qed (simp add: tab_char)
  have "parse_value n (t @ rest) = (if clean_value (T_Arr vs) then Some (T_Arr vs, rest) else None)"
    if len: "length t < n" for n rest
  proof -
    obtain m where n: "n = Suc m" using len by (cases n) auto
    have "length (py_join '', '' ts) + 1 < m" using len n t by simp
    from array_reads [OF all this, of rest] show ?thesis
      by (simp add: n t quote_chars ws)
  qed
  then show ?case by (simp add: reads_as_def) (simp add: t tab_char newline_char)
qed (auto split: sum.splits)

definition bare_key :: "string \<Rightarrow> bool" where
  "bare_key k \<longleftrightarrow> k \<noteq> [] \<and> list_all bare_key_char k"

lemma bare_key_hd:
  assumes "bare_key k"
  obtains c cs where "k = c # cs" and "bare_key_char c" and "skip_ws (k @ s) = k @ s" and "c \<noteq> newline"
    and "c \<noteq> CHR ''['' " and "c \<noteq> CHR ''}''"
proof -
  obtain c cs where k: "k = c # cs" "bare_key_char c" using assms by (cases k) (auto simp: bare_key_def)
  moreover have "c \<noteq> CHR '' ''" "c \<noteq> tab" "c \<noteq> newline" "c \<noteq> CHR ''[''" "c \<noteq> CHR ''}''"
    using k(2) by (auto simp: bare_key_char_def tab_char newline_char)
  ultimately show ?thesis using that by simp
qed

lemma takeWhile_bare: "list_all bare_key_char k \<Longrightarrow> takeWhile bare_key_char (k @ CHR '' '' # s) = k"
  by (induction k) (auto simp: bare_key_char_def)

lemma dropWhile_bare: "list_all bare_key_char k \<Longrightarrow> dropWhile bare_key_char (k @ CHR '' '' # s) = CHR '' '' # s"
  by (induction k) (auto simp: bare_key_char_def)

lemma read_equals_pair:
  assumes "bare_key k" and "reads_as t v ok"
  shows "read_equals (k @ '' = '' @ t @ rest) = Some (k, t @ rest)"
proof -
  have "read_key (k @ CHR '' '' # s) = Some (k, CHR '' '' # s)" for s
    using assms(1) by (simp add: read_key_def bare_key_def takeWhile_bare dropWhile_bare)
  then show ?thesis
    using reads_asD(2) [OF assms(2), of rest] by (simp add: read_equals_def tab_char)
qed

text \<open>The pairs of an inline table.\<close>

lemma table_parts_Cons:
  "table_parts (p # ps) = Inr ts \<Longrightarrow>
   \<exists>t ts'. ts = (fst p @ '' = '' @ t) # ts' \<and> table_parts ps = Inr ts' \<and> reads_as t (snd p) (clean_value (snd p))"
  using toml_value_reads(1) by (cases p) (auto split: sum.splits)

lemma pairs_read:
  assumes "table_parts ps = Inr ts" and "ps \<noteq> []" and "list_all bare_key (map fst ps)"
    and "distinct (map fst ps)" and "length (py_join '', '' ts) + 1 < n"
  shows "parse_pairs n (py_join '', '' ts @ '' }'' @ rest) =
    (if list_all (clean_value \<circ> snd) ps then Some (ps, rest) else None)"
  using assms
proof (induction ps arbitrary: ts n)
  case Nil
  then show ?case by simp
next
  case (Cons p ps)
  obtain t ts' where ts: "ts = (fst p @ '' = '' @ t) # ts'" and ts': "table_parts ps = Inr ts'"
    and t: "reads_as t (snd p) (clean_value (snd p))"
    using table_parts_Cons [OF Cons.prems(1)] by auto
  have k: "bare_key (fst p)" using Cons.prems(3) by simp
  obtain m where n: "n = Suc m" using Cons.prems(5) by (cases n) auto
  have len: "length t < m" using Cons.prems(5) n ts by (cases ts') auto
  note eqs = read_equals_pair [OF k t] reads_asD(3) [OF t len]
  show ?case
  proof (cases ps)
    case Nil
    then show ?thesis using ts ts' eqs [of "'' }'' @ rest"] by (cases p) (auto simp: n tab_char)
  next
    case (Cons q qs)
    obtain t2 ts2 where ts2: "ts' = (fst q @ '' = '' @ t2) # ts2"
      using table_parts_Cons ts' Cons by blast
    have join: "py_join '', '' ts = fst p @ '' = '' @ t @ '', '' @ py_join '', '' ts'"
      by (simp add: ts ts2)
    have more: "parse_pairs m (py_join '', '' ts' @ '' }'' @ rest) =
        (if list_all (clean_value \<circ> snd) ps then Some (ps, rest) else None)"
      by (rule Cons.IH [OF ts']) (use Cons.prems Cons join n in auto)
    have "bare_key (fst q)" using Cons.prems(3) Cons by simp
    then have ws: "skip_ws (py_join '', '' ts' @ s) = py_join '', '' ts' @ s" for s
      by (rule bare_key_hd [where s = "drop (length (fst q)) (py_join '', '' ts' @ s)"])
        (cases ts2; simp add: ts2)
    have dist: "fst p \<notin> fst ` set ps" using Cons.prems(4) by simp
    show ?thesis
      using eqs [of "'', '' @ py_join '', '' ts' @ '' }'' @ rest"] more ws [of "'' }'' @ rest"] dist
      by (cases p) (auto simp: n join tab_char comp_def)
  qed
qed

lemma inline_table_reads:
  assumes "inline_table ps = Inr t" and "ps \<noteq> []" and "list_all bare_key (map fst ps)"
    and "distinct (map fst ps)"
  shows "reads_as t (T_Table ps) (list_all (clean_value \<circ> snd) ps)"
proof -
  obtain ts where ts: "table_parts ps = Inr ts" and t: "t = ''{ '' @ py_join '', '' ts @ '' }''"
    using assms(1) by (auto simp: inline_table_def split: sum.splits)
  obtain p qs where ps: "ps = p # qs" using assms(2) by (cases ps) auto
  obtain t1 ts1 where ts1: "ts = (fst p @ '' = '' @ t1) # ts1"
    using table_parts_Cons ts ps by blast
  have "bare_key (fst p)" using assms(3) ps by simp
  then obtain c cs where c: "fst p = c # cs" "bare_key_char c" "c \<noteq> CHR ''}''" "skip_ws (fst p) = fst p"
    by (rule bare_key_hd [where s = "[]"]) simp
  obtain js where js: "py_join '', '' ts = c # js" using ts1 c(1) by (cases ts1) auto
  have ws: "skip_ws (py_join '', '' ts @ s) = py_join '', '' ts @ s" for s
    using c(2) js by (auto simp: bare_key_char_def tab_char skip_ws_def)
  have "parse_value n (t @ rest) = (if list_all (clean_value \<circ> snd) ps then Some (T_Table ps, rest) else None)"
    if len: "length t < n" for n rest
  proof -
    obtain m where n: "n = Suc m" using len by (cases n) auto
    have "length (py_join '', '' ts) + 1 < m" using len n t by simp
    from pairs_read [OF ts assms(2-4) this, of rest] show ?thesis
      using ws [of "'' }'' @ rest"] c(3) js by (simp add: n t quote_chars)
  qed
  then show ?thesis by (simp add: reads_as_def) (simp add: t tab_char newline_char)
qed

text \<open>One line of a block, and the block's lines one after the other.\<close>

lemma pair_line:
  assumes "bare_key k" and "reads_as t v ok"
  shows "parse_lines (Suc n) d (k @ '' = '' @ t @ newline # rest) =
    (if ok then (case set_pair k v d of None \<Rightarrow> None | Some d' \<Rightarrow> parse_lines n d' rest) else None)"
proof -
  obtain c cs where c: "k = c # cs" "skip_ws (k @ '' = '' @ t @ newline # rest) = k @ '' = '' @ t @ newline # rest"
      "c \<noteq> newline" "c \<noteq> CHR ''[''"
    using assms(1) by (rule bare_key_hd [where s = "'' = '' @ t @ newline # rest"]) simp
  have st: "parse_statement d (k @ '' = '' @ t @ newline # rest) =
      (if ok then map_option (\<lambda>d'. (d', newline # rest)) (set_pair k v d) else None)"
    using read_equals_pair [OF assms, of "newline # rest"] c(1,4)
      reads_asD(3) [OF assms(2), of "Suc (length (t @ newline # rest))" "newline # rest"]
    by (simp add: parse_statement_def del: parse_value.simps)
  have nl: "skip_ws (newline # rest) = newline # rest" by (simp add: tab_char newline_char)
  show ?thesis
    using st c nl by (simp split: option.splits)
qed

text \<open>A line \<open>key = text\<close> with the value it holds.\<close>

type_synonym pair_line = "string \<times> string \<times> toml \<times> bool"

definition line_text :: "pair_line \<Rightarrow> string" where
  "line_text p = (case p of (k, t, v, ok) \<Rightarrow> k @ '' = '' @ t)"

definition line_pair :: "pair_line \<Rightarrow> string \<times> toml" where
  "line_pair p = (case p of (k, t, v, ok) \<Rightarrow> (k, v))"

definition line_ok :: "pair_line \<Rightarrow> bool" where
  "line_ok p = (case p of (k, t, v, ok) \<Rightarrow> ok)"

lemma line_simps [simp]:
  "line_text (k, t, v, ok) = k @ '' = '' @ t" "line_pair (k, t, v, ok) = (k, v)" "line_ok (k, t, v, ok) = ok"
  by (simp_all add: line_text_def line_pair_def line_ok_def)

definition good_line :: "pair_line \<Rightarrow> bool" where
  "good_line p \<longleftrightarrow> (case p of (k, t, v, ok) \<Rightarrow> bare_key k \<and> reads_as t v ok)"

definition lines_text :: "string list \<Rightarrow> string" where
  "lines_text ls = concat (map (\<lambda>l. l @ [newline]) ls)"

lemma lines_text_simps [simp]:
  "lines_text [] = []"
  "lines_text (l # ls) = l @ newline # lines_text ls"
  "lines_text (ls @ ls') = lines_text ls @ lines_text ls'"
  by (simp_all add: lines_text_def)

text \<open>The document after some finished rules and a further table.\<close>

definition doc_with :: "toml list \<Rightarrow> (string \<times> toml) list \<Rightarrow> toml_doc" where
  "doc_with vs t =
     \<lparr>td_root = [(''rule'', T_Arr (vs @ [T_Table t]))], td_arrays = [''rule''], td_open = Some ''rule''\<rparr>"

definition doc_after :: "toml list \<Rightarrow> toml_doc" where
  "doc_after vs =
     (if vs = [] then empty_doc
      else \<lparr>td_root = [(''rule'', T_Arr vs)], td_arrays = [''rule''], td_open = Some ''rule''\<rparr>)"

lemma set_pair_doc_with:
  "set_pair k v (doc_with vs t) = (if k \<in> fst ` set t then None else Some (doc_with vs (t @ [(k, v)])))"
  by (simp add: set_pair_def doc_with_def last_table_def add_key_def)

lemma open_entry_doc_after:
  assumes "\<forall>v \<in> set vs. table_of v \<noteq> None"
  shows "open_entry ''rule'' (doc_after vs) = Some (doc_with vs [])"
proof (cases vs rule: rev_cases)
  case Nil
  then show ?thesis by (simp add: open_entry_def doc_after_def doc_with_def empty_doc_def)
next
  case (snoc us u)
  then obtain t where "u = T_Table t" using assms by (cases u) auto
  with snoc show ?thesis
    by (simp add: open_entry_def doc_after_def doc_with_def last_table_def)
qed

lemma pair_lines_run:
  assumes "list_all good_line ps" and "distinct (map fst t @ map (fst \<circ> line_pair) ps)"
  shows "parse_lines (length ps + m) (doc_with vs t) (lines_text (map line_text ps) @ rest) =
    (if list_all line_ok ps then parse_lines m (doc_with vs (t @ map line_pair ps)) rest else None)"
  using assms
proof (induction ps arbitrary: t)
  case Nil
  show ?case by simp
next
  case (Cons p ps)
  obtain k x v b where p: "p = (k, x, v, b)" by (cases p)
  have k: "bare_key k" and x: "reads_as x v b" using Cons.prems(1) p by (auto simp: good_line_def)
  have fresh: "k \<notin> fst ` set t" using Cons.prems(2) p by (auto simp: line_pair_def)
  have IH: "parse_lines (length ps + m) (doc_with vs (t @ [(k, v)])) (lines_text (map line_text ps) @ rest) =
      (if list_all line_ok ps then parse_lines m (doc_with vs (t @ (k, v) # map line_pair ps)) rest else None)"
    using Cons.IH [of "t @ [(k, v)]"] Cons.prems p by (simp add: line_pair_def)
  show ?case
    using pair_line [OF k x, of "length ps + m" "doc_with vs t" "lines_text (map line_text ps) @ rest"] IH fresh
    by (simp add: p set_pair_doc_with del: parse_lines.simps)
qed

lemma header_line:
  assumes "\<forall>v \<in> set vs. table_of v \<noteq> None"
  shows "parse_lines (Suc n) (doc_after vs) (''[[rule]]'' @ newline # rest) = parse_lines n (doc_with vs []) rest"
proof -
  have "read_key (''rule'' @ '']]'' @ s) = Some (''rule'', '']]'' @ s)" for s
    by (simp add: read_key_def bare_key_char_def)
  then show ?thesis
    using open_entry_doc_after [OF assms] by (simp add: parse_statement_def tab_char newline_char)
qed

lemma blank_line: "parse_lines (Suc n) d (newline # rest) = parse_lines n d rest"
  by (simp add: tab_char newline_char)

text \<open>What a rule's block holds, and the texts in it.\<close>

definition rule_pairs :: "rule \<Rightarrow> (string \<times> toml) list" where
  "rule_pairs r =
     (''id'', T_Str (r_id r)) #
     (if r_description r = [] then [] else [(''description'', T_Str (r_description r))]) @
     [(''enabled'', T_Bool (r_enabled r)), (''when'', T_Table (dump_condition (r_when r))),
      (''action'', T_Table (dump_action (r_action r)))]"

definition optional_strs :: "string list option \<Rightarrow> string list" where
  "optional_strs v = (case v of None \<Rightarrow> [] | Some ss \<Rightarrow> ss)"

definition optional_str :: "string option \<Rightarrow> string list" where
  "optional_str v = (case v of None \<Rightarrow> [] | Some s \<Rightarrow> [s])"

definition rule_texts :: "rule \<Rightarrow> string list" where
  "rule_texts r =
     [r_id r, r_description r] @ optional_strs (c_from_domain_in (r_when r)) @
     optional_strs (c_from_in (r_when r)) @ optional_strs (c_local_classifier_category_in (r_when r)) @
     optional_str (a_mailbox (r_action r)) @ optional_str (a_reason (r_action r))"

definition rule_clean :: "rule \<Rightarrow> bool" where
  "rule_clean r \<longleftrightarrow> list_all clean (rule_texts r)"

lemma toml_values_strs: "toml_values (map T_Str ss) = Inr (map toml_string ss)"
  by (induction ss) auto

lemma clean_strs: "list_all (clean_value \<circ> T_Str) ss \<longleftrightarrow> list_all clean ss"
  by (induction ss) auto

lemma clean_type_name: "clean (action_type_name t)"
  by (cases t) (simp_all add: clean_def illegal_char_def)

lemma inline_condition:
  obtains t where "inline_table (dump_condition c) = Inr t"
    and "reads_as t (T_Table (dump_condition c))
      (list_all clean (optional_strs (c_from_domain_in c) @ optional_strs (c_from_in c) @
         optional_strs (c_local_classifier_category_in c)))"
proof -
  obtain t where t: "inline_table (dump_condition c) = Inr t"
    by (cases "c_from_domain_in c"; cases "c_from_in c"; cases "c_local_classifier_category_in c")
      (auto simp: inline_table_def dump_condition_def optional_pair_def toml_values_strs)
  have keys: "list_all bare_key (map fst (dump_condition c))" "distinct (map fst (dump_condition c))"
      "dump_condition c \<noteq> []"
    by (auto simp: dump_condition_def optional_pair_def bare_key_def bare_key_char_def split: option.splits)
  have "list_all (clean_value \<circ> snd) (dump_condition c) =
      list_all clean (optional_strs (c_from_domain_in c) @ optional_strs (c_from_in c) @
         optional_strs (c_local_classifier_category_in c))"
    by (auto simp: dump_condition_def optional_pair_def optional_strs_def list.pred_map clean_strs split: option.splits)
  with inline_table_reads [OF t keys(3,1,2)] t that show ?thesis by simp
qed

lemma inline_action:
  obtains t where "inline_table (dump_action a) = Inr t"
    and "reads_as t (T_Table (dump_action a)) (list_all clean (optional_str (a_mailbox a) @ optional_str (a_reason a)))"
proof -
  obtain t where t: "inline_table (dump_action a) = Inr t"
    by (cases "a_mailbox a"; cases "a_reason a") (auto simp: inline_table_def dump_action_def optional_pair_def)
  have keys: "list_all bare_key (map fst (dump_action a))" "distinct (map fst (dump_action a))" "dump_action a \<noteq> []"
    by (auto simp: dump_action_def optional_pair_def bare_key_def bare_key_char_def split: option.splits)
  have "list_all (clean_value \<circ> snd) (dump_action a) =
      list_all clean (optional_str (a_mailbox a) @ optional_str (a_reason a))"
    by (auto simp: dump_action_def optional_pair_def optional_str_def clean_type_name split: option.splits)
  with inline_table_reads [OF t keys(3,1,2)] t that show ?thesis by simp
qed

lemma rule_lines_read:
  obtains ps where "rule_lines r = Inr (''[[rule]]'' # map line_text ps)" and "list_all good_line ps"
    and "map line_pair ps = rule_pairs r" and "list_all line_ok ps \<longleftrightarrow> rule_clean r"
proof -
  obtain w where w: "inline_table (dump_condition (r_when r)) = Inr w"
      "reads_as w (T_Table (dump_condition (r_when r)))
        (list_all clean (optional_strs (c_from_domain_in (r_when r)) @ optional_strs (c_from_in (r_when r)) @
           optional_strs (c_local_classifier_category_in (r_when r))))"
    by (rule inline_condition)
  obtain a where a: "inline_table (dump_action (r_action r)) = Inr a"
      "reads_as a (T_Table (dump_action (r_action r)))
        (list_all clean (optional_str (a_mailbox (r_action r)) @ optional_str (a_reason (r_action r))))"
    by (rule inline_action)
  let ?ps = "(''id'', toml_string (r_id r), T_Str (r_id r), clean (r_id r)) #
     (if r_description r = [] then []
      else [(''description'', toml_string (r_description r), T_Str (r_description r), clean (r_description r))]) @
     [(''enabled'', if r_enabled r then ''true'' else ''false'', T_Bool (r_enabled r), True),
      (''when'', w, T_Table (dump_condition (r_when r)),
        list_all clean (optional_strs (c_from_domain_in (r_when r)) @ optional_strs (c_from_in (r_when r)) @
           optional_strs (c_local_classifier_category_in (r_when r)))),
      (''action'', a, T_Table (dump_action (r_action r)),
        list_all clean (optional_str (a_mailbox (r_action r)) @ optional_str (a_reason (r_action r))))]"
  have "rule_lines r = Inr (''[[rule]]'' # map line_text ?ps)"
    by (simp add: rule_lines_def w(1) a(1))
  moreover have "list_all good_line ?ps"
    using toml_string_reads bool_reads w(2) a(2) by (simp add: good_line_def bare_key_def bare_key_char_def)
  moreover have "map line_pair ?ps = rule_pairs r" by (simp add: rule_pairs_def)
  moreover have "list_all line_ok ?ps \<longleftrightarrow> rule_clean r"
    by (auto simp: rule_clean_def rule_texts_def clean_def)
  ultimately show ?thesis by (rule that)
qed

definition toml_of_rule :: "rule \<Rightarrow> toml" where
  "toml_of_rule r = T_Table (rule_pairs r)"

lemma rule_pairs_distinct: "distinct (map fst (rule_pairs r))"
  by (simp add: rule_pairs_def)

lemma block_run:
  assumes "\<forall>v \<in> set vs. table_of v \<noteq> None"
  obtains ls where "rule_lines r = Inr ls" and "ls \<noteq> []"
    and "\<And>m rest. parse_lines (length ls + m) (doc_after vs) (lines_text ls @ rest) =
      (if rule_clean r then parse_lines m (doc_after (vs @ [toml_of_rule r])) rest else None)"
proof -
  obtain ps where ps: "rule_lines r = Inr (''[[rule]]'' # map line_text ps)" "list_all good_line ps"
      "map line_pair ps = rule_pairs r" "list_all line_ok ps \<longleftrightarrow> rule_clean r"
    by (rule rule_lines_read)
  have keys: "map (fst \<circ> line_pair) ps = map fst (rule_pairs r)" by (simp flip: ps(3))
  have "parse_lines (length (''[[rule]]'' # map line_text ps) + m) (doc_after vs)
      (lines_text (''[[rule]]'' # map line_text ps) @ rest) =
      (if rule_clean r then parse_lines m (doc_after (vs @ [toml_of_rule r])) rest else None)" for m rest
    using header_line [OF assms, of "length ps + m" "lines_text (map line_text ps) @ rest"]
      pair_lines_run [OF ps(2), of "[]" m vs rest] keys rule_pairs_distinct [of r]
    by (simp add: ps(3,4) doc_with_def doc_after_def toml_of_rule_def del: parse_lines.simps)
  with ps(1) that show ?thesis by blast
qed

lemma join_lines: "ls \<noteq> [] \<Longrightarrow> py_join [newline] ls @ newline # s = lines_text ls @ s"
proof (induction ls)
  case (Cons l ls)
  then show ?case by (cases ls) auto
qed simp

lemma dump_rules_Cons:
  assumes "rule_lines r = Inr ls" and "ls \<noteq> []" and "dump_rules rs = Inr t"
  shows "dump_rules (r # rs) = Inr (lines_text ls @ (if rs = [] then [] else newline # t))"
proof -
  obtain bs where bs: "rule_blocks rs = Inr bs" using assms(3) by (auto simp: dump_rules_def split: sum.splits)
  have bs_Nil: "bs = [] \<longleftrightarrow> rs = []" using bs by (cases rs) (auto split: sum.splits)
  show ?thesis
  proof (cases bs)
    case Nil
    then show ?thesis using assms bs bs_Nil join_lines [OF assms(2), of "[]"] by (simp add: dump_rules_def)
  next
    case (Cons b bs')
    then have "t = py_join [newline, newline] bs @ [newline]" using assms(3) bs by (simp add: dump_rules_def)
    then show ?thesis
      using assms bs bs_Nil Cons join_lines [OF assms(2), of "newline # t"] by (simp add: dump_rules_def)
  qed
qed

lemma length_lines_text: "length ls \<le> length (lines_text ls)"
  by (induction ls) auto

lemma dump_read:
  assumes "\<forall>v \<in> set vs. table_of v \<noteq> None"
  shows "\<exists>t n. dump_rules rs = Inr t \<and> n \<le> length t \<and>
    (\<forall>m. parse_lines (n + Suc m) (doc_after vs) t =
      (if list_all rule_clean rs then Some (doc_after (vs @ map toml_of_rule rs)) else None))"
  using assms
proof (induction rs arbitrary: vs)
  case Nil
  show ?case by (auto simp: dump_rules_def)
next
  case (Cons r rs)
  obtain ls where ls: "rule_lines r = Inr ls" "ls \<noteq> []"
      "\<And>m rest. parse_lines (length ls + m) (doc_after vs) (lines_text ls @ rest) =
        (if rule_clean r then parse_lines m (doc_after (vs @ [toml_of_rule r])) rest else None)"
    using block_run [OF Cons.prems] by blast
  have "\<forall>v \<in> set (vs @ [toml_of_rule r]). table_of v \<noteq> None" using Cons.prems by (simp add: toml_of_rule_def)
  from Cons.IH [OF this] obtain t n where t: "dump_rules rs = Inr t" "n \<le> length t"
      "\<And>m. parse_lines (n + Suc m) (doc_after (vs @ [toml_of_rule r])) t =
        (if list_all rule_clean rs then Some (doc_after (vs @ toml_of_rule r # map toml_of_rule rs)) else None)"
    by auto
  show ?case
  proof (cases "rs = []")
    case True
    have "parse_lines (length ls + Suc m) (doc_after vs) (lines_text ls) =
        (if rule_clean r then Some (doc_after (vs @ [toml_of_rule r])) else None)" for m
      using ls(3) [of "Suc m" "[]"] by simp
    then show ?thesis
      using dump_rules_Cons [OF ls(1,2) t(1)] True length_lines_text [of ls] by auto
  next
    case False
    have "parse_lines (length ls + Suc (n + Suc m)) (doc_after vs) (lines_text ls @ newline # t) =
        (if rule_clean r \<and> list_all rule_clean rs
         then Some (doc_after (vs @ toml_of_rule r # map toml_of_rule rs)) else None)" for m
      using ls(3) [of "Suc (n + Suc m)" "newline # t"] t(3) [of m] blank_line [of "n + Suc m"] by simp
    then show ?thesis
      using dump_rules_Cons [OF ls(1,2) t(1)] False length_lines_text [of ls] t(2)
      by (intro exI [of _ "lines_text ls @ newline # t"] exI [of _ "length ls + Suc n"])
        (simp add: add.assoc del: parse_lines.simps)
  qed
qed

lemma toml_loads_dump:
  obtains t where "dump_rules rs = Inr t"
    and "toml_loads t =
      (if list_all rule_clean rs
       then Some (if rs = [] then [] else [(''rule'', T_Arr (map toml_of_rule rs))]) else None)"
proof -
  obtain t n where t: "dump_rules rs = Inr t" "n \<le> length t"
      "\<And>m. parse_lines (n + Suc m) (doc_after []) t =
        (if list_all rule_clean rs then Some (doc_after (map toml_of_rule rs)) else None)"
    using dump_read [of "[]" rs] by auto
  have "toml_loads t =
      (if list_all rule_clean rs
       then Some (if rs = [] then [] else [(''rule'', T_Arr (map toml_of_rule rs))]) else None)"
    using t(3) [of "length t - n"] t(2) by (simp add: toml_loads_def doc_after_def empty_doc_def)
  with t(1) that show ?thesis by blast
qed

section \<open>The schema accepts what the writer writes\<close>

lemma toml_strs_T_Strs [simp]: "toml_strs (T_Strs ss) = Some ss"
  by (simp add: comp_def all_some_map)

lemma action_type_name_back: "toml_action_type (T_Str (action_type_name t)) = Some t"
  by (cases t) (simp_all add: toml_action_type_def action_types_def)

lemma condition_of_dump: "condition_of_table (T_Table (dump_condition c)) = Some c"
  by (cases c; cases "c_from_domain_in c"; cases "c_from_in c"; cases "c_local_classifier_category_in c")
    (simp_all add: condition_of_table_def closed_table_def dump_condition_def optional_pair_def
      field_default_def comp_def all_some_map)

lemma action_of_dump: "action_of_table (T_Table (dump_action a)) = Some a"
  by (cases a; cases "a_mailbox a"; cases "a_reason a")
    (simp_all add: action_of_table_def closed_table_def dump_action_def optional_pair_def
      field_default_def field_required_def action_type_name_back)

lemma rule_of_toml: "rule_of_table (toml_of_rule r) = Some r"
  by (simp add: rule_of_table_def closed_table_def toml_of_rule_def rule_pairs_def
      field_default_def field_required_def condition_of_dump action_of_dump)

lemma validate_toml_of_rule: "follows_schema validate \<Longrightarrow> validate (toml_of_rule r) = Inr r"
  by (simp add: follows_schema_def rule_of_toml)

lemma load_entries_rules:
  assumes "follows_schema validate"
  shows "if distinct (map r_id rs) \<and> set (map r_id rs) \<inter> set seen = {}
    then load_entries validate path i seen (map toml_of_rule rs) = Inr rs
    else \<exists>r \<in> set rs. load_entries validate path i seen (map toml_of_rule rs) =
      Inl (RulesLoadError (''duplicate rule id '' @ py_repr (r_id r) @ '' in '' @ path))"
proof (induction rs arbitrary: i seen)
  case Nil
  show ?case by simp
next
  case (Cons r rs)
  show ?case
    using Cons [of "r_id r # seen" "Suc i"] validate_toml_of_rule [OF assms, of r]
    by (auto split: if_splits)
qed

lemma load_dumped:
  assumes "follows_schema validate"
  shows "\<exists>t. dump_rules rs = Inr t \<and>
    (\<not> list_all rule_clean rs \<longrightarrow>
       load_rules validate path (Some t) = Inl (RulesLoadError (''invalid TOML in '' @ path))) \<and>
    (list_all rule_clean rs \<longrightarrow> distinct (map r_id rs) \<longrightarrow> load_rules validate path (Some t) = Inr rs) \<and>
    (list_all rule_clean rs \<longrightarrow> \<not> distinct (map r_id rs) \<longrightarrow>
       (\<exists>why. load_rules validate path (Some t) = Inl (RulesLoadError why)))"
proof -
  obtain u where t: "dump_rules rs = Inr u"
    "toml_loads u =
      (if list_all rule_clean rs
       then Some (if rs = [] then [] else [(''rule'', T_Arr (map toml_of_rule rs))]) else None)"
    by (rule toml_loads_dump)
  have "load_rules validate path (Some u) =
      (if list_all rule_clean rs then load_entries validate path 0 [] (map toml_of_rule rs)
       else Inl (RulesLoadError (''invalid TOML in '' @ path)))"
    using t(2) by (simp add: load_rules_def)
  with load_entries_rules [OF assms, where rs = rs and seen = "[]" and i = 0 and path = path] t(1)
  show ?thesis by (intro exI [of _ u]) (auto split: if_splits)
qed

lemma load_entries_ok:
  "load_entries validate path i seen es = Inr rs \<Longrightarrow>
   map validate es = map Inr rs \<and> distinct (map r_id rs) \<and> set (map r_id rs) \<inter> set seen = {}"
proof (induction es arbitrary: i seen rs)
  case Nil
  then show ?case by simp
next
  case (Cons e es)
  then obtain r rs' where "validate e = Inr r" "r_id r \<notin> set seen" "rs = r # rs'"
      "load_entries validate path (Suc i) (r_id r # seen) es = Inr rs'"
    by (auto split: sum.splits if_splits)
  with Cons.IH [of "Suc i" "r_id r # seen" rs'] show ?case by auto
qed

lemma load_rules_distinct: "load_rules validate path content = Inr rs \<Longrightarrow> distinct (map r_id rs)"
  by (auto simp: load_rules_def split: option.splits sum.splits dest!: load_entries_ok)

section \<open>The commands (cli/commands/rules.py, core/ipc/client.py)\<close>

text \<open>What a command leaves: its exit code and the lines it echoed to the two streams.\<close>

record cli_result =
  cr_exit :: nat
  cr_out :: "string list"
  cr_err :: "string list"

definition exit_ok :: "string list \<Rightarrow> cli_result" where
  "exit_ok out = \<lparr>cr_exit = 0, cr_out = out, cr_err = []\<rparr>"

definition exit_error :: "string \<Rightarrow> cli_result" where
  "exit_error why = \<lparr>cr_exit = 1, cr_out = [], cr_err = [''Error: '' @ why]\<rparr>"

text \<open>The files, the audit store and, when it is running, the daemon on the control socket.\<close>

record rules_host =
  rh_files :: files
  rh_db :: state_db
  rh_daemon :: "shared_state option"

text \<open>The settings the commands read from the configuration, and the collaborators.\<close>

record rules_setup =
  rp_rules_path :: string
  rp_validate :: "toml \<Rightarrow> string + rule"
  rp_str :: "exn \<Rightarrow> string"
  rp_now :: string

definition load_rules_file :: "rules_setup \<Rightarrow> files \<Rightarrow> exn + rule list" where
  "load_rules_file cfg fs = load_rules (rp_validate cfg) (rp_rules_path cfg) (fs (rp_rules_path cfg))"

text \<open>One request and one answer over a fresh connection: no daemon is an \<open>IpcConnectionError\<close>.\<close>

definition send_request ::
  "rules_setup \<Rightarrow> string \<Rightarrow> (string, ipc_value) dict \<Rightarrow> rules_host \<Rightarrow> (exn + ipc_response) \<times> rules_host" where
  "send_request cfg command params h =
     (case rh_daemon h of
        None \<Rightarrow> (Inl (Other_Error ''IpcConnectionError'' ''could not reach sporkd''), h)
      | Some s \<Rightarrow>
          (case ipc_dispatch (rp_str cfg) (load_rules_file cfg (rh_files h)) \<lparr>iq_command = command, iq_params = params\<rparr> s of
             (resp, s') \<Rightarrow> (Inr resp, h\<lparr>rh_daemon := Some s'\<rparr>)))"

fun ipc_value_text :: "ipc_value \<Rightarrow> string" where
  "ipc_value_text (V_Str s) = s"
| "ipc_value_text (V_Int i) = py_str_int i"
| "ipc_value_text (V_Bool b) = (if b then ''True'' else ''False'')"

definition push_reload :: "rules_setup \<Rightarrow> rules_host \<Rightarrow> cli_result \<times> rules_host" where
  "push_reload cfg h =
     (case send_request cfg ''reload'' [] h of
        (Inl e, h') \<Rightarrow> (exit_ok [''sporkd is not running -- changes will apply on next start.''], h')
      | (Inr resp, h') \<Rightarrow>
          if ir_ok resp
          then (exit_ok [''sporkd reloaded ('' @
                  (case dict_get (ir_data resp) ''rule_count'' of None \<Rightarrow> ''?'' | Some v \<Rightarrow> ipc_value_text v) @
                  '' rule(s)).''], h')
          else (\<lparr>cr_exit = 0, cr_out = [],
                 cr_err = [''Warning: sporkd rejected the reload: '' @
                   (case ir_error resp of None \<Rightarrow> ''None'' | Some e \<Rightarrow> e)]\<rparr>, h'))"

text \<open>\<open>_set_enabled\<close>. \<open>str\<close> of a \<open>RulesLoadError\<close> is its message.\<close>

definition set_enabled_in :: "string \<Rightarrow> bool \<Rightarrow> rule list \<Rightarrow> rule list" where
  "set_enabled_in rule_id enabled rules =
     map (\<lambda>r. if r_id r = rule_id then r\<lparr>r_enabled := enabled\<rparr> else r) rules"

definition add_out :: "string list \<Rightarrow> cli_result \<Rightarrow> cli_result" where
  "add_out ls r = r\<lparr>cr_out := cr_out r @ ls\<rparr>"

definition set_enabled :: "rules_setup \<Rightarrow> string \<Rightarrow> bool \<Rightarrow> rules_host \<Rightarrow> (exn + cli_result) \<times> rules_host" where
  "set_enabled cfg rule_id enabled h =
     (case load_rules_file cfg (rh_files h) of
        Inl (RulesLoadError why) \<Rightarrow> (Inr (exit_error why), h)
      | Inl e \<Rightarrow> (Inl e, h)
      | Inr rules \<Rightarrow>
          if \<not> list_ex (\<lambda>r. r_id r = rule_id) rules
          then (Inr (exit_error (''no rule with id '' @ py_repr rule_id @ '' in '' @ rp_rules_path cfg)), h)
          else (case dump_rules (set_enabled_in rule_id enabled rules) of
                  Inl e \<Rightarrow> (Inl e, h)
                | Inr text \<Rightarrow>
                    (let h1 = h\<lparr>rh_files := (rh_files h)(rp_rules_path cfg \<mapsto> text)\<rparr>;
                         h2 = h1\<lparr>rh_db := write_control_plane_audit_entry (rp_now cfg)
                                (if enabled then ''rules_enable'' else ''rules_disable'')
                                (Some (json_object [(''rule_id'', json_string rule_id)])) (rh_db h1)\<rparr>
                     in case push_reload cfg h2 of
                          (r, h3) \<Rightarrow>
                            (Inr (add_out [rule_id @ '': '' @ (if enabled then ''enabled'' else ''disabled'') @ ''.''] r), h3))))"

text \<open>\<open>rules list\<close> and \<open>rules test\<close>.\<close>

definition rule_summary :: "rule \<Rightarrow> string" where
  "rule_summary r =
     r_id r @ '' ['' @ (if r_enabled r then ''enabled'' else ''disabled'') @ ''] '' @ action_type_name (a_type (r_action r)) @
     (case a_mailbox (r_action r) of None \<Rightarrow> [] | Some m \<Rightarrow> if m = [] then [] else '' -> '' @ m) @
     (if r_description r = [] then [] else '' -- '' @ r_description r)"

definition list_rules :: "rules_setup \<Rightarrow> files \<Rightarrow> exn + cli_result" where
  "list_rules cfg fs =
     (case load_rules_file cfg fs of
        Inl (RulesLoadError why) \<Rightarrow> Inr (exit_error why)
      | Inl e \<Rightarrow> Inl e
      | Inr rules \<Rightarrow> Inr (exit_ok (if rules = [] then [''No rules configured.''] else map rule_summary rules)))"

definition test_rules :: "rules_setup \<Rightarrow> files \<Rightarrow> exn + cli_result" where
  "test_rules cfg fs =
     (case load_rules_file cfg fs of
        Inl (RulesLoadError why) \<Rightarrow> Inr (exit_error why)
      | Inl e \<Rightarrow> Inl e
      | Inr rules \<Rightarrow>
          Inr \<lparr>cr_exit = 1,
               cr_out = [''Loaded '' @ py_str_int (int (length rules)) @ '' rule(s) from '' @ rp_rules_path cfg @ ''.''],
               cr_err = [''Error: spork rules test requires a live JMAP connection to fetch recent mail -- not implemented yet, see docs/ROADMAP.md M1'']\<rparr>)"

lemma rule_clean_enabled [simp]: "rule_clean (r\<lparr>r_enabled := b\<rparr>) = rule_clean r"
  by (simp add: rule_clean_def rule_texts_def)

lemma set_enabled_in_ids: "map r_id (set_enabled_in i b rules) = map r_id rules"
  by (induction rules) (auto simp: set_enabled_in_def)

lemma set_enabled_in_clean: "list_all rule_clean (set_enabled_in i b rules) = list_all rule_clean rules"
  by (induction rules) (auto simp: set_enabled_in_def)

lemma load_entries_iff:
  "load_entries validate path i seen es = Inr rs \<longleftrightarrow>
   map validate es = map Inr rs \<and> distinct (map r_id rs) \<and> set (map r_id rs) \<inter> set seen = {}"
proof (induction es arbitrary: i seen rs)
  case Nil
  then show ?case by auto
next
  case (Cons e es)
  show ?case
  proof (cases rs)
    case Nil
    then show ?thesis by (auto split: sum.splits if_splits)
  next
    case (Cons r rs')
    with Cons.IH [of "Suc i" "r_id r # seen" rs'] show ?thesis
      by (auto split: sum.splits if_splits)
  qed
qed

lemma load_entries_Inl:
  "load_entries validate path i seen es = Inl e \<Longrightarrow> \<exists>why. e = RulesLoadError why"
  by (induction es arbitrary: i seen) (auto split: sum.splits if_splits)

lemma push_reload_after:
  "\<exists>r. push_reload cfg h =
      (r, h\<lparr>rh_daemon := (case load_rules_file cfg (rh_files h) of
           Inl e \<Rightarrow> rh_daemon h | Inr rs \<Rightarrow> map_option (sh_rules_update (\<lambda>_. rs)) (rh_daemon h))\<rparr>) \<and>
    cr_exit r = 0"
  by (cases "rh_daemon h"; cases "load_rules_file cfg (rh_files h)")
    (auto simp: push_reload_def send_request_def ipc_dispatch_def ipc_handler_def ok_response_def
      error_response_def exit_ok_def)

section \<open>Properties\<close>

text \<open>C18: writing rules and loading the file gives back exactly the written rules, if and only if
  their ids are distinct and none of their texts holds a control character; otherwise the file
  is refused with a \<open>RulesLoadError\<close>. Writing never fails.\<close>

theorem rules_roundtrip:
  assumes "follows_schema validate"
  shows "\<exists>t. dump_rules rs = Inr t \<and>
    (load_rules validate path (Some t) = Inr rs \<longleftrightarrow> list_all rule_clean rs \<and> distinct (map r_id rs)) \<and>
    (load_rules validate path (Some t) = Inr rs \<or> (\<exists>why. load_rules validate path (Some t) = Inl (RulesLoadError why)))"
  using load_dumped [OF assms, of rs path]
  by (cases "list_all rule_clean rs"; cases "distinct (map r_id rs)") auto


text \<open>C19: \<open>spork rules enable\<close> and \<open>disable\<close> on a file that loads and has the rule: only the
  rules file is rewritten and one audit entry written; when no text of any rule holds a control
  character the file then loads to the same rules with the one switched, and a running daemon
  has them; otherwise the rewritten file no longer loads, the daemon keeps its rules, and the
  command still exits with 0.\<close>

theorem set_enabled_spec:
  assumes schema: "follows_schema (rp_validate cfg)" and loaded: "load_rules_file cfg (rh_files h) = Inr rules"
    and known: "list_ex (\<lambda>r. r_id r = rule_id) rules"
    and switched: "new = map (\<lambda>r. if r_id r = rule_id then r\<lparr>r_enabled := b\<rparr> else r) rules"
  shows "\<exists>res h'. set_enabled cfg rule_id b h = (Inr res, h') \<and> cr_exit res = 0 \<and>
    (\<forall>p. p \<noteq> rp_rules_path cfg \<longrightarrow> rh_files h' p = rh_files h p) \<and>
    rh_db h' = write_control_plane_audit_entry (rp_now cfg) (if b then ''rules_enable'' else ''rules_disable'')
      (Some (json_object [(''rule_id'', json_string rule_id)])) (rh_db h) \<and>
    load_rules_file cfg (rh_files h') =
      (if list_all rule_clean rules then Inr new
       else Inl (RulesLoadError (''invalid TOML in '' @ rp_rules_path cfg))) \<and>
    rh_daemon h' =
      (if list_all rule_clean rules
       then map_option (sh_rules_update (\<lambda>_. new)) (rh_daemon h)
       else rh_daemon h)"
proof -
  let ?new = "set_enabled_in rule_id b rules"
  have new: "new = ?new" by (simp add: switched set_enabled_in_def)
  have dist: "distinct (map r_id rules)" using loaded by (auto simp: load_rules_file_def intro: load_rules_distinct)
  obtain t where t: "dump_rules ?new = Inr t"
    and l: "load_rules (rp_validate cfg) (rp_rules_path cfg) (Some t) =
      (if list_all rule_clean rules then Inr ?new
       else Inl (RulesLoadError (''invalid TOML in '' @ rp_rules_path cfg)))"
    using load_dumped [OF schema, of ?new "rp_rules_path cfg"] dist
    by (auto simp: set_enabled_in_clean set_enabled_in_ids)
  define h2 where "h2 = h\<lparr>rh_files := (rh_files h)(rp_rules_path cfg \<mapsto> t),
      rh_db := write_control_plane_audit_entry (rp_now cfg) (if b then ''rules_enable'' else ''rules_disable'')
        (Some (json_object [(''rule_id'', json_string rule_id)])) (rh_db h)\<rparr>"
  have l2: "load_rules_file cfg (rh_files h2) =
      (if list_all rule_clean rules then Inr ?new
       else Inl (RulesLoadError (''invalid TOML in '' @ rp_rules_path cfg)))"
    by (simp add: load_rules_file_def h2_def l)
  obtain r h3 where r: "push_reload cfg h2 = (r, h3)" "cr_exit r = 0"
      "h3 = h2\<lparr>rh_daemon := (if list_all rule_clean rules
         then map_option (sh_rules_update (\<lambda>_. ?new)) (rh_daemon h2) else rh_daemon h2)\<rparr>"
    using push_reload_after [of cfg h2] unfolding l2 by (cases "list_all rule_clean rules") auto
  have "set_enabled cfg rule_id b h =
      (Inr (add_out [rule_id @ '': '' @ (if b then ''enabled'' else ''disabled'') @ ''.''] r), h3)"
    using loaded known t r(1) by (simp add: set_enabled_def h2_def Let_def)
  then show ?thesis
    unfolding new using r(2,3) l2 by (simp add: add_out_def load_rules_file_def) (simp add: h2_def)
qed

section \<open>Witnesses\<close>

text \<open>A validator that takes exactly the tables of the declared shape.\<close>

definition strict_validate :: "toml \<Rightarrow> string + rule" where
  "strict_validate v = (case rule_of_table v of None \<Rightarrow> Inl ''validation error'' | Some r \<Rightarrow> Inr r)"

lemma strict_validate_follows: "follows_schema strict_validate"
  by (simp add: follows_schema_def strict_validate_def)

definition ex_file_rules :: "rule list" where
  "ex_file_rules =
     [\<lparr>r_id = ''spam'', r_description = ''known \"spam\"'',
       r_when = \<lparr>c_always = False, c_from_domain_in = Some [''a.com'', ''b.com''], c_from_in = None,
                 c_local_classifier_category_in = Some []\<rparr>,
       r_action = \<lparr>a_type = Move, a_mailbox = Some ''junk'', a_reason = None, a_alert_immediately = False\<rparr>,
       r_enabled = True\<rparr>,
      \<lparr>r_id = ''rest'', r_description = [],
       r_when = \<lparr>c_always = True, c_from_domain_in = None, c_from_in = None,
                 c_local_classifier_category_in = None\<rparr>,
       r_action = action_of_type Escalate, r_enabled = True\<rparr>]"

lemma ex_file_rules_clean: "list_all rule_clean ex_file_rules \<and> distinct (map r_id ex_file_rules)"
  by (simp add: ex_file_rules_def rule_clean_def rule_texts_def optional_strs_def optional_str_def
      clean_def illegal_char_def action_of_type_def)

theorem rules_roundtrip_witness:
  "\<exists>t. dump_rules ex_file_rules = Inr t \<and>
     load_rules strict_validate ''rules.toml'' (Some t) = Inr ex_file_rules"
  using rules_roundtrip [OF strict_validate_follows, of ex_file_rules "''rules.toml''"] ex_file_rules_clean
  by auto

lemma ex_not_iterable: "toml_loads ''rule = true'' = Some [(''rule'', T_Bool True)]"
  by code_simp


definition ex_setup :: rules_setup where
  "ex_setup =
     \<lparr>rp_rules_path = ''rules.toml'', rp_validate = strict_validate, rp_str = (\<lambda>_. ''error''), rp_now = ''now''\<rparr>"

definition ex_host :: "string \<Rightarrow> rules_host" where
  "ex_host t =
     \<lparr>rh_files = [''rules.toml'' \<mapsto> t], rh_db = empty_db,
      rh_daemon = Some \<lparr>sh_daemon = fresh_daemon_state ''now'', sh_rules = ex_file_rules\<rparr>\<rparr>"

theorem set_enabled_spec_witness:
  "\<exists>t res h'. dump_rules ex_file_rules = Inr t \<and>
     set_enabled ex_setup ''spam'' False (ex_host t) = (Inr res, h') \<and>
     load_rules_file ex_setup (rh_files h') = Inr (set_enabled_in ''spam'' False ex_file_rules) \<and>
     map_option sh_rules (rh_daemon h') = Some (set_enabled_in ''spam'' False ex_file_rules)"
proof -
  obtain t where t: "dump_rules ex_file_rules = Inr t"
    "load_rules strict_validate ''rules.toml'' (Some t) = Inr ex_file_rules"
    using load_dumped [OF strict_validate_follows, of ex_file_rules "''rules.toml''"] ex_file_rules_clean by auto
  have s: "follows_schema (rp_validate ex_setup)" by (simp add: ex_setup_def strict_validate_follows)
  have l: "load_rules_file ex_setup (rh_files (ex_host t)) = Inr ex_file_rules"
    using t(2) by (simp add: load_rules_file_def ex_setup_def ex_host_def)
  have k: "list_ex (\<lambda>r. r_id r = ''spam'') ex_file_rules" by (simp add: ex_file_rules_def)
  have n: "set_enabled_in ''spam'' False ex_file_rules =
      map (\<lambda>r. if r_id r = ''spam'' then r\<lparr>r_enabled := False\<rparr> else r) ex_file_rules" by (simp add: set_enabled_in_def)
  from set_enabled_spec [OF s l k n] obtain res h' where
    "set_enabled ex_setup ''spam'' False (ex_host t) = (Inr res, h')"
    "load_rules_file ex_setup (rh_files h') = Inr (set_enabled_in ''spam'' False ex_file_rules)"
    "rh_daemon h' = map_option (sh_rules_update (\<lambda>_. set_enabled_in ''spam'' False ex_file_rules)) (rh_daemon (ex_host t))"
    using ex_file_rules_clean by auto
  with t(1) show ?thesis by (auto simp: ex_host_def)
qed

end
