(* ===== verification/Local_Classify.thy ===== *)
theory Local_Classify
  imports Rule_Engine
begin

text \<open>
  The local classifiers: \<open>core/classify/keyword.py\<close> (keyword scores), \<open>core/classify/registry.py\<close>
  (name to backend) and \<open>core/dispatch\<close> (fan-out to several backends and the combiners).
  A backend is a \<open>classifier\<close> (\<open>core/classify/base.py\<close>'s Protocol), so the combination of
  several backends is one again. Scores are exact rationals: a Python quotient of two list
  lengths is the correctly rounded double, and rounding keeps the order of distinct scores of
  lists shorter than \<open>2^26\<close>.
\<close>

section \<open>KeywordClassifier\<close>

definition default_category_keywords :: "(string, string list) dict" where
  "default_category_keywords =
     [(''urgent'', [''urgent'', ''asap'', ''immediately'', ''deadline'', ''action required'']),
      (''newsletter'', [''unsubscribe'', ''newsletter'', ''view in browser'']),
      (''receipt'', [''receipt'', ''invoice'', ''order confirmation'', ''payment received''])]"

definition default_category :: string where
  "default_category = ''uncategorized''"

definition keyword_score :: "string \<Rightarrow> string list \<Rightarrow> rat" where
  "keyword_score haystack keywords =
     (if keywords = [] then 0
      else of_nat (length (filter (\<lambda>k. py_contains (py_lower k) haystack) keywords)) /
           of_nat (length keywords))"

definition keyword_scores :: "(string, string list) dict \<Rightarrow> message \<Rightarrow> (string, rat) dict" where
  "keyword_scores category_keywords msg =
     (let haystack = py_lower (subject msg @ [newline] @ body_text msg)
      in map (\<lambda>(cat, ks). (cat, keyword_score haystack ks)) category_keywords)"

definition keyword_classify ::
  "(string, string list) dict \<Rightarrow> string \<Rightarrow> classifier" where
  "keyword_classify category_keywords dflt_category msg =
     (let scores = keyword_scores category_keywords msg;
          best = (case py_max_by snd scores of
                    None \<Rightarrow> dflt_category
                  | Some (cat, s) \<Rightarrow> if s = 0 then dflt_category else cat)
      in Inr \<lparr>cr_category = best, cr_scores = scores\<rparr>)"

lemma keyword_score_range: "0 \<le> keyword_score h ks \<and> keyword_score h ks \<le> 1"
proof (cases "ks = []")
  case True
  then show ?thesis by (simp add: keyword_score_def)
next
  case False
  have "length (filter (\<lambda>k. py_contains (py_lower k) h) ks) \<le> length ks"
    by (rule length_filter_le)
  with False show ?thesis
    by (simp add: keyword_score_def divide_le_eq_1)
qed

lemma keyword_score_pos:
  "0 < keyword_score h ks \<longleftrightarrow> (\<exists>k \<in> set ks. py_contains (py_lower k) h)"
  by (auto simp: keyword_score_def filter_empty_conv zero_less_divide_iff)

section \<open>The backend registry\<close>

type_synonym registry = "(string, classifier) dict"

definition register :: "string \<Rightarrow> classifier \<Rightarrow> registry \<Rightarrow> exn + registry" where
  "register name factory reg =
     (if dict_get reg name \<noteq> None then Inl (ValueError name)
      else Inr (dict_set reg name factory))"

definition registry_get :: "registry \<Rightarrow> string \<Rightarrow> exn + classifier" where
  "registry_get reg name =
     (case dict_get reg name of None \<Rightarrow> Inl (UnknownClassifierError name) | Some f \<Rightarrow> Inr f)"

text \<open>The registry after the package import: the one shipped backend.\<close>

definition shipped_registry :: "exn + registry" where
  "shipped_registry =
     register ''keyword_heuristic'' (keyword_classify default_category_keywords default_category) []"

section \<open>Dispatcher and combiners\<close>

type_synonym dispatch_result = "(string, exn + classification_result) dict"

text \<open>Every target is asked; an exception is kept as that target's result.\<close>

definition dispatch :: "(string, classifier) dict \<Rightarrow> message \<Rightarrow> dispatch_result" where
  "dispatch targets msg =
     fold (\<lambda>(name, target) results. dict_set results name (target msg)) targets []"

type_synonym combiner = "dispatch_result \<Rightarrow> exn + classification_result"

definition primary_combine :: "string \<Rightarrow> combiner" where
  "primary_combine primary_name results =
     (case dict_get results primary_name of
        None \<Rightarrow> Inl (CombineError ''primary target was not in the dispatch results'')
      | Some (Inl _) \<Rightarrow> Inl (CombineError ''primary target failed to classify'')
      | Some (Inr r) \<Rightarrow> Inr r)"

fun successes :: "dispatch_result \<Rightarrow> (string, classification_result) dict" where
  "successes [] = []"
| "successes ((name, Inl e) # rs) = successes rs"
| "successes ((name, Inr r) # rs) = (name, r) # successes rs"

definition confidence :: "classification_result \<Rightarrow> rat" where
  "confidence r =
     (case map snd (cr_scores r) of [] \<Rightarrow> 0 | s # ss \<Rightarrow> max_from (\<lambda>x. x) s ss)"

definition highest_confidence_combine :: combiner where
  "highest_confidence_combine results =
     (case py_max_by (\<lambda>(name, r). confidence r) (successes results) of
        None \<Rightarrow> Inl (CombineError ''no target produced a successful classification result'')
      | Some (name, r) \<Rightarrow> Inr r)"

definition dispatching_classifier :: "(string, classifier) dict \<Rightarrow> combiner \<Rightarrow> classifier" where
  "dispatching_classifier targets combine msg = combine (dispatch targets msg)"

lemma dict_get_fold_set:
  "dict_get (fold (\<lambda>(name, target) results. dict_set results name (target msg)) ts acc) k =
     (case map_of (rev ts) k of Some t \<Rightarrow> Some (t msg) | None \<Rightarrow> dict_get acc k)"
proof (induction ts arbitrary: acc)
  case Nil
  show ?case by simp
next
  case (Cons p ts)
  obtain n t where p: "p = (n, t)" by (cases p)
  show ?case by (auto simp: Cons p map_add_def split: option.splits)
qed

lemma dispatch_get:
  assumes "distinct (map fst targets)"
  shows "dict_get (dispatch targets msg) name = map_option (\<lambda>t. t msg) (dict_get targets name)"
  using assms
  by (auto simp: dispatch_def dict_get_fold_set map_of_rev_distinct split: option.splits)

lemma dispatch_eq:
  assumes "distinct (map fst targets)"
  shows "dispatch targets msg = map (\<lambda>(n, t). (n, t msg)) targets"
proof -
  have snoc: "dict_set d k v = d @ [(k, v)]" if "k \<notin> fst ` set d"
    for d :: dispatch_result and k v
    using that by (induction d) auto
  have "fold (\<lambda>(name, target) results. dict_set results name (target msg)) ts acc =
      acc @ map (\<lambda>(n, t). (n, t msg)) ts"
    if "distinct (map fst acc @ map fst ts)" for ts :: "(string, classifier) dict" and acc
    using that
  proof (induction ts arbitrary: acc)
    case Nil
    show ?case by simp
  next
    case (Cons p ts)
    obtain n t where p: "p = (n, t)" by (cases p)
    have "n \<notin> fst ` set acc" using Cons.prems by (auto simp: p)
    then show ?case using Cons by (auto simp: p snoc)
  qed
  from this [of "[]" targets] assms show ?thesis by (simp add: dispatch_def)
qed

lemma set_successes: "(n, r) \<in> set (successes rs) \<longleftrightarrow> (n, Inr r) \<in> set rs"
  by (induction rs rule: successes.induct) auto

section \<open>Properties\<close>

text \<open>The keyword classifier never raises; its scores follow the configured categories
  in order, each between 0 and 1. When no category scores it answers the default category;
  otherwise a category with the highest score, the first one listed among the ties.\<close>

theorem keyword_classify_best:
  "\<exists>r. keyword_classify cks dc msg = Inr r \<and>
     map fst (cr_scores r) = map fst cks \<and>
     (\<forall>p \<in> set (cr_scores r). 0 \<le> snd p \<and> snd p \<le> 1) \<and>
     (if \<forall>p \<in> set (cr_scores r). snd p = 0 then cr_category r = dc
      else \<exists>pre s post. cr_scores r = pre @ (cr_category r, s) # post \<and> 0 < s \<and>
             (\<forall>p \<in> set pre. snd p < s) \<and> (\<forall>p \<in> set post. snd p \<le> s))"
proof -
  define sc where "sc = keyword_scores cks msg"
  define r where "r = \<lparr>cr_category = (case py_max_by snd sc of None \<Rightarrow> dc
      | Some (cat, s) \<Rightarrow> if s = 0 then dc else cat), cr_scores = sc\<rparr>"
  have eq: "keyword_classify cks dc msg = Inr r"
    by (simp add: keyword_classify_def r_def sc_def Let_def)
  have keys: "map fst sc = map fst cks"
    by (auto simp: sc_def keyword_scores_def Let_def split: prod.splits)
  have range: "\<forall>p \<in> set sc. 0 \<le> snd p \<and> snd p \<le> 1"
    using keyword_score_range by (auto simp: sc_def keyword_scores_def Let_def)
  have "if \<forall>p \<in> set sc. snd p = 0 then cr_category r = dc
      else \<exists>pre s post. sc = pre @ (cr_category r, s) # post \<and> 0 < s \<and>
             (\<forall>p \<in> set pre. snd p < s) \<and> (\<forall>p \<in> set post. snd p \<le> s)"
  proof (cases "py_max_by snd sc")
    case None
    then have "sc = []" by (cases sc) auto
    then show ?thesis by (simp add: r_def)
  next
    case (Some m)
    obtain cat s where m: "m = (cat, s)" by (cases m)
    note max = py_max_by_SomeD [OF Some, unfolded m]
    from max(1) range have "0 \<le> s" by auto
    show ?thesis
    proof (cases "s = 0")
      case True
      with max(2) range have "\<forall>p \<in> set sc. snd p = 0" by fastforce
      moreover have "cr_category r = dc" using True Some m by (simp add: r_def)
      ultimately show ?thesis by simp
    next
      case False
      with \<open>0 \<le> s\<close> have pos: "0 < s" by simp
      have cat: "cr_category r = cat" using False Some m by (simp add: r_def)
      obtain pre post where s: "sc = pre @ (cat, s) # post" and "\<forall>p \<in> set pre. snd p < s"
        using max(3) by auto
      moreover have "\<forall>p \<in> set post. snd p \<le> s" using max(2) s by simp
      moreover have "\<not> (\<forall>p \<in> set sc. snd p = 0)" using max(1) pos by force
      ultimately show ?thesis using pos cat by auto
    qed
  qed
  moreover have "cr_scores r = sc" by (simp add: r_def)
  ultimately show ?thesis using eq keys range by (intro exI [of _ r]) simp
qed

definition ex_keywords :: "(string, string list) dict" where
  "ex_keywords = [(''spam'', [''win'']), (''bill'', [''Invoice'', ''total'']), (''news'', [''invoice'', ''week''])]"

theorem keyword_classify_best_witness:
  "\<exists>r pre s post. keyword_classify ex_keywords ''other''
       (ex_message\<lparr>subject := ''Your INVOICE'', body_text := []\<rparr>) = Inr r \<and> cr_category r = ''bill'' \<and>
     cr_scores r = pre @ (''bill'', s) # post \<and> 0 < s \<and> (\<forall>p \<in> set post. snd p \<le> s)"
proof -
  let ?m = "ex_message\<lparr>subject := ''Your INVOICE'', body_text := []\<rparr>"
  have hay: "py_lower (subject ?m @ [newline] @ body_text ?m) = ''your invoice'' @ [newline]"
    by simp code_simp
  have "py_contains (py_lower ''win'') (''your invoice'' @ [newline]) = False"
    "py_contains (py_lower ''Invoice'') (''your invoice'' @ [newline]) = True"
    "py_contains (py_lower ''total'') (''your invoice'' @ [newline]) = False"
    "py_contains (py_lower ''invoice'') (''your invoice'' @ [newline]) = True"
    "py_contains (py_lower ''week'') (''your invoice'' @ [newline]) = False"
    by code_simp+
  then have c: "keyword_classify ex_keywords ''other'' ?m =
      Inr \<lparr>cr_category = ''bill'', cr_scores = [(''spam'', 0), (''bill'', 1 / 2), (''news'', 1 / 2)]\<rparr>"
    by (simp only: keyword_classify_def keyword_scores_def hay Let_def ex_keywords_def list.map
        prod.case keyword_score_def) simp
  from keyword_classify_best [of ex_keywords "''other''" ?m] c show ?thesis by fastforce
qed

text \<open>Failure isolation and shadow mode. Over distinct target names every target has
  its own answer or exception in the dispatch, whatever the others do; and a classifier that
  combines them with a primary target answers exactly what that target answers, so replacing
  every other target changes nothing.\<close>

theorem shadow_mode:
  assumes "distinct (map fst targets)" and "distinct (map fst targets')"
    and "dict_get targets p = Some c" and "dict_get targets' p = Some c"
  shows "dispatch targets msg = map (\<lambda>(n, t). (n, t msg)) targets \<and>
    dispatching_classifier targets (primary_combine p) msg =
    dispatching_classifier targets' (primary_combine p) msg \<and>
    (\<forall>r. c msg = Inr r \<longrightarrow> dispatching_classifier targets (primary_combine p) msg = Inr r)"
  using assms
  by (simp add: dispatching_classifier_def primary_combine_def dispatch_get)
    (simp add: dispatch_eq)

theorem shadow_mode_witness:
  "dispatching_classifier
     [(''a'', \<lambda>_. Inl (RuntimeError ''boom'')), (''b'', ex_classifier)] (primary_combine ''b'') ex_message
   = Inr \<lparr>cr_category = ''other'', cr_scores = []\<rparr>"
proof -
  have "ex_classifier ex_message = Inr \<lparr>cr_category = ''other'', cr_scores = []\<rparr>"
    by (simp add: ex_classifier_def)
  moreover have "\<forall>r. ex_classifier ex_message = Inr r \<longrightarrow> dispatching_classifier
     [(''a'', \<lambda>_. Inl (RuntimeError ''boom'')), (''b'', ex_classifier)] (primary_combine ''b'')
     ex_message = Inr r"
    by (rule conjunct2 [OF conjunct2 [OF shadow_mode
          [where targets' = "[(''b'', ex_classifier)]" and c = ex_classifier]]]) simp_all
  ultimately show ?thesis by blast
qed

text \<open>The highest-confidence combiner fails exactly when every target failed; otherwise
  its answer is a successful target's, of the highest confidence, the first such in the
  targets' order.\<close>

theorem highest_confidence_spec:
  "(case highest_confidence_combine rs of
      Inl e \<Rightarrow> (\<forall>p \<in> set rs. \<exists>x. snd p = Inl x)
    | Inr r \<Rightarrow> (\<exists>pre n post. successes rs = pre @ (n, r) # post \<and> (n, Inr r) \<in> set rs \<and>
        (\<forall>p \<in> set pre. confidence (snd p) < confidence r) \<and>
        (\<forall>p \<in> set post. confidence (snd p) \<le> confidence r)))"
proof (cases "py_max_by (\<lambda>(name, r). confidence r) (successes rs)")
  case None
  then have "successes rs = []" by (cases "successes rs") auto
  then have "\<forall>p \<in> set rs. \<exists>x. snd p = Inl x"
    by (induction rs rule: successes.induct) auto
  with None show ?thesis by (simp add: highest_confidence_combine_def)
next
  case (Some m)
  obtain n r where m: "m = (n, r)" by (cases m)
  have f: "(\<lambda>(name, r). confidence r) = (\<lambda>p. confidence (snd p))" by auto
  note max = py_max_by_SomeD [OF Some [unfolded f], unfolded m]
  obtain pre post where s: "successes rs = pre @ (n, r) # post"
    and "\<forall>p \<in> set pre. confidence (snd p) < confidence r" using max(3) by auto
  moreover have "\<forall>p \<in> set post. confidence (snd p) \<le> confidence r" using max(2) s by simp
  moreover have "(n, Inr r) \<in> set rs" using max(1) set_successes by blast
  ultimately show ?thesis using Some m by (auto simp: highest_confidence_combine_def)
qed

definition ex_result :: "string \<Rightarrow> rat \<Rightarrow> classification_result" where
  "ex_result cat score = \<lparr>cr_category = cat, cr_scores = [(cat, score)]\<rparr>"

definition ex_results :: dispatch_result where
  "ex_results = [(''a'', Inl (RuntimeError ''boom'')), (''b'', Inr (ex_result ''spam'' (1 / 2))),
     (''c'', Inr (ex_result ''bill'' (3 / 4))), (''d'', Inr (ex_result ''news'' (3 / 4)))]"

theorem highest_confidence_spec_witness:
  "highest_confidence_combine ex_results = Inr (ex_result ''bill'' (3 / 4)) \<and>
   (\<exists>pre n post. successes ex_results = pre @ (n, ex_result ''bill'' (3 / 4)) # post \<and>
      (\<forall>p \<in> set pre. confidence (snd p) < 3 / 4))"
proof -
  have c: "highest_confidence_combine ex_results = Inr (ex_result ''bill'' (3 / 4))"
    by (simp add: highest_confidence_combine_def ex_results_def confidence_def ex_result_def)
  have "confidence (ex_result ''bill'' (3 / 4)) = 3 / 4" by (simp add: confidence_def ex_result_def)
  with highest_confidence_spec [of ex_results] c show ?thesis by auto
qed

end
