(* ===== verification/Composition.thy ===== *)
theory Composition
  imports Prompt_Recording Secret_Store Entity_Context Rules_File Local_Classify Alert_Backends
begin

text \<open>
  The loaders (\<open>core/providers/loader.py\<close>, \<open>core/llm/loader.py\<close>, \<open>core/context/loader.py\<close>,
  \<open>core/alerts/loader.py\<close>, \<open>core/receipts/loader.py\<close>), \<open>core/runtime.py\<close>'s builders, the
  composition at the start of \<open>run_daemon\<close> (\<open>daemon/loop.py\<close>) and the entry point
  \<open>daemon/main.py\<close>. \<open>importlib\<close> is a parameter: a module's path to its attributes, a class
  being the function from its keyword arguments to the object. What a constructed backend then
  does is what the theories of its interface say.
\<close>

section \<open>Loading a backend\<close>

type_synonym 'b constructor = "(string, toml) dict \<Rightarrow> exn + 'b"

type_synonym 'b importer = "string \<Rightarrow> exn + (string \<Rightarrow> 'b constructor option)"

text \<open>\<open>spec.partition(":")\<close>; \<open>None\<close> when there is no colon.\<close>

definition py_partition :: "char \<Rightarrow> string \<Rightarrow> (string \<times> string) option" where
  "py_partition c s =
     (if c \<in> set s then Some (takeWhile (\<lambda>x. x \<noteq> c) s, tl (dropWhile (\<lambda>x. x \<noteq> c) s)) else None)"

text \<open>What the five loaders share: the name in their messages, their error class, and which
  exceptions of a constructor they wrap.\<close>

definition load_backend ::
  "string \<Rightarrow> string \<Rightarrow> (exn \<Rightarrow> bool) \<Rightarrow> (exn \<Rightarrow> string) \<Rightarrow> 'b importer \<Rightarrow> string \<Rightarrow> (string, toml) dict \<Rightarrow> exn + 'b" where
  "load_backend what err wraps str importer spec kwargs =
     (case py_partition (CHR '':'') spec of
        None \<Rightarrow> Inl (Other_Error err (''invalid '' @ what @ '' spec '' @ py_repr spec @ ''; expected '' @
                  py_repr ''module.path:ClassName''))
      | Some (module_path, class_name) \<Rightarrow>
          (case importer module_path of
             Inl e \<Rightarrow>
               if of_class ''ImportError'' e
               then Inl (Other_Error err (''could not import '' @ what @ '' module '' @ py_repr module_path @ '': '' @ str e))
               else Inl e
           | Inr attributes \<Rightarrow>
               (case attributes class_name of
                  None \<Rightarrow> Inl (Other_Error err (''module '' @ py_repr module_path @ '' has no attribute '' @ py_repr class_name))
                | Some cls \<Rightarrow>
                    (case cls kwargs of
                       Inl e \<Rightarrow>
                         if wraps e
                         then Inl (Other_Error err (''could not construct '' @ what @ '' '' @ py_repr spec @ '': '' @ str e))
                         else Inl e
                     | Inr b \<Rightarrow> Inr b))))"

definition load_provider :: "(exn \<Rightarrow> string) \<Rightarrow> 'b importer \<Rightarrow> string \<Rightarrow> (string, toml) dict \<Rightarrow> exn + 'b" where
  "load_provider = load_backend ''provider'' ''ProviderLoadError'' (of_class ''TypeError'')"

definition load_alerter :: "(exn \<Rightarrow> string) \<Rightarrow> 'b importer \<Rightarrow> string \<Rightarrow> (string, toml) dict \<Rightarrow> exn + 'b" where
  "load_alerter = load_backend ''Alerter'' ''AlerterLoadError'' (of_class ''TypeError'')"

definition load_llm_client :: "(exn \<Rightarrow> string) \<Rightarrow> 'b importer \<Rightarrow> string \<Rightarrow> (string, toml) dict \<Rightarrow> exn + 'b" where
  "load_llm_client = load_backend ''LLM client'' ''LLMClientLoadError'' (\<lambda>_. True)"

definition load_context_provider :: "(exn \<Rightarrow> string) \<Rightarrow> 'b importer \<Rightarrow> string \<Rightarrow> (string, toml) dict \<Rightarrow> exn + 'b" where
  "load_context_provider = load_backend ''context provider'' ''ContextProviderLoadError'' (\<lambda>_. True)"

definition load_receipt_extraction_client ::
  "(exn \<Rightarrow> string) \<Rightarrow> 'b importer \<Rightarrow> string \<Rightarrow> (string, toml) dict \<Rightarrow> exn + 'b" where
  "load_receipt_extraction_client =
     load_backend ''receipt extraction client'' ''ReceiptExtractionClientLoadError'' (\<lambda>_. True)"

section \<open>Building the configured backends (runtime.py)\<close>

definition sum_bind :: "'e + 'a \<Rightarrow> ('a \<Rightarrow> 'e + 'b) \<Rightarrow> 'e + 'b" where
  "sum_bind r f = (case r of Inl e \<Rightarrow> Inl e | Inr x \<Rightarrow> f x)"

lemma sum_bind_simps [simp]: "sum_bind (Inl e) f = Inl e" "sum_bind (Inr x) f = f x"
  by (simp_all add: sum_bind_def)

lemma sum_bind_Inr_iff: "sum_bind r f = Inr y \<longleftrightarrow> (\<exists>x. r = Inr x \<and> f x = Inr y)"
  by (cases r) auto

text \<open>A provider, as far as the composition looks at it: \<open>account_id()\<close> when it is a
  \<open>CheckpointedProvider\<close>.\<close>

record provider_handle =
  ph_account_id :: "(exn + string) option"

text \<open>A context provider, with \<open>lookup_domain\<close> when it is a \<open>SenderDomainLookup\<close>.\<close>

record context_handle =
  cx_get_context :: "message \<Rightarrow> exn + context_result"
  cx_lookup_domain :: "domain_lookup option"

definition null_context_provider :: context_handle where
  "null_context_provider = \<lparr>cx_get_context = null_get_context, cx_lookup_domain = None\<rparr>"

definition entity_context_provider :: "entity_provider \<Rightarrow> context_handle" where
  "entity_context_provider ep = \<lparr>cx_get_context = entity_get_context ep, cx_lookup_domain = Some (lookup_domain ep)\<rparr>"

type_synonym extraction_client = "receipt_extraction_request \<Rightarrow> exn + receipt_extraction"

type_synonym verdict_client = "verdict_request \<Rightarrow> exn + llm_result"

record 'a importers =
  im_str :: "exn \<Rightarrow> string"
  im_provider :: "provider_handle importer"
  im_llm :: "verdict_client importer"
  im_alerter :: "'a importer"
  im_context :: "context_handle importer"
  im_extraction :: "extraction_client importer"

definition build_provider :: "'a importers \<Rightarrow> spork_config \<Rightarrow> secrets \<Rightarrow> exn + provider_handle" where
  "build_provider im config vals =
     sum_bind (materialize_backend_kwargs (sc_provider config) vals)
       (load_provider (im_str im) (im_provider im) (be_spec (sc_provider config)))"

text \<open>The client and, when \<open>[llm_recording]\<close> is set, the corpus it is wrapped to record to.\<close>

definition build_llm_client :: "'a importers \<Rightarrow> spork_config \<Rightarrow> secrets \<Rightarrow> exn + (verdict_client \<times> string option)" where
  "build_llm_client im config vals =
     sum_bind (sum_bind (materialize_backend_kwargs (sc_llm config) vals)
                 (load_llm_client (im_str im) (im_llm im) (be_spec (sc_llm config))))
       (\<lambda>client. Inr (client, sc_llm_recording config))"

definition build_alerter :: "'a importers \<Rightarrow> spork_config \<Rightarrow> secrets \<Rightarrow> exn + 'a" where
  "build_alerter im config vals =
     sum_bind (materialize_backend_kwargs (sc_alerts config) vals)
       (load_alerter (im_str im) (im_alerter im) (be_spec (sc_alerts config)))"

definition build_context_provider :: "'a importers \<Rightarrow> spork_config \<Rightarrow> secrets \<Rightarrow> exn + context_handle" where
  "build_context_provider im config vals =
     (case sc_context config of
        None \<Rightarrow> Inr null_context_provider
      | Some spec \<Rightarrow>
          sum_bind (materialize_backend_kwargs spec vals)
            (load_context_provider (im_str im) (im_context im) (be_spec spec)))"

definition build_receipt_archive_components ::
  "'a importers \<Rightarrow> spork_config \<Rightarrow> context_handle \<Rightarrow> secrets \<Rightarrow>
   exn + (receipt_archive_components \<times> extraction_client) option" where
  "build_receipt_archive_components im config cx vals =
     (case sc_receipt_archive config of
        None \<Rightarrow> Inr None
      | Some ra \<Rightarrow>
          sum_bind (sum_bind (materialize_backend_kwargs (rc_extraction ra) vals)
                      (load_receipt_extraction_client (im_str im) (im_extraction im) (be_spec (rc_extraction ra))))
            (\<lambda>client. Inr (Some (\<lparr>rac_output_dir = rc_output_dir ra, rac_domain_lookup = cx_lookup_domain cx,
                                  rac_keyword_backend = Live, rac_dry_run = False\<rparr>, client))))"

section \<open>Starting the daemon (daemon/loop.py, daemon/main.py)\<close>

record 'a daemon_parts =
  dp_provider :: provider_handle
  dp_rules :: "rule list"
  dp_llm :: "verdict_client \<times> string option"
  dp_context :: context_handle
  dp_receipts :: "(receipt_archive_components \<times> extraction_client) option"
  dp_alerter :: 'a
  dp_classifier :: "classifier option"
  dp_account_id :: "string option"

text \<open>The composition of \<open>run_daemon\<close>, up to \<open>READY=1\<close>: the first failure ends it. \<open>load\<close> is
  \<open>load_rules\<close> on the rules path.\<close>

definition observed_receipts ::
  "bool \<Rightarrow> (receipt_archive_components \<times> extraction_client) option \<Rightarrow>
   (receipt_archive_components \<times> extraction_client) option" where
  "observed_receipts observe r =
     (if observe then map_option (\<lambda>(c, x). (c\<lparr>rac_keyword_backend := Observe, rac_dry_run := True\<rparr>, x)) r else r)"

definition local_classifier :: "registry \<Rightarrow> string option \<Rightarrow> exn + classifier option" where
  "local_classifier reg name =
     (case name of None \<Rightarrow> Inr None | Some n \<Rightarrow> sum_bind (registry_get reg n) (\<lambda>c. Inr (Some c)))"

definition checkpoint_account :: "provider_handle \<Rightarrow> exn + string option" where
  "checkpoint_account p =
     (case ph_account_id p of None \<Rightarrow> Inr None | Some r \<Rightarrow> sum_bind r (\<lambda>a. Inr (Some a)))"

definition compose_daemon ::
  "'a importers \<Rightarrow> registry \<Rightarrow> (unit \<Rightarrow> exn + secrets) \<Rightarrow> (string \<Rightarrow> exn + rule list) \<Rightarrow> bool \<Rightarrow> spork_config \<Rightarrow>
   exn + 'a daemon_parts" where
  "compose_daemon im reg resolver load observe config =
     sum_bind (resolve_runtime_secrets config resolver) (\<lambda>vals.
     sum_bind (build_provider im config vals) (\<lambda>provider.
     sum_bind (load (sc_rules_path config)) (\<lambda>rules.
     sum_bind (build_llm_client im config vals) (\<lambda>llm.
     sum_bind (build_context_provider im config vals) (\<lambda>cx.
     sum_bind (build_receipt_archive_components im config cx vals) (\<lambda>receipts.
     sum_bind (build_alerter im config vals) (\<lambda>alerter.
     sum_bind (local_classifier reg (t_local_classifier (sc_tiering config))) (\<lambda>classifier.
     sum_bind (checkpoint_account provider) (\<lambda>account.
     Inr \<lparr>dp_provider = provider, dp_rules = rules, dp_llm = llm, dp_context = cx,
          dp_receipts = observed_receipts observe receipts, dp_alerter = alerter,
          dp_classifier = classifier, dp_account_id = account\<rparr>)))))))))"

text \<open>How the process ends: an exit code with the line it printed, or an uncaught exception.\<close>

datatype main_outcome = Exited nat "string option" | Traceback exn

definition effective_level :: "string option \<Rightarrow> spork_config \<Rightarrow> string" where
  "effective_level arg config =
     (case arg of None \<Rightarrow> log_level_text (sc_log_level config)
      | Some s \<Rightarrow> if s = [] then log_level_text (sc_log_level config) else s)"

text \<open>The exceptions \<open>main\<close> turns into a message.\<close>

definition clean_startup_error :: "exn \<Rightarrow> bool" where
  "clean_startup_error e \<longleftrightarrow>
     (case e of
        RulesLoadError _ \<Rightarrow> True
      | UnknownClassifierError _ \<Rightarrow> True
      | Other_Error c _ \<Rightarrow> c \<in> {''ProviderLoadError'', ''AlerterLoadError'', ''LLMClientLoadError'', ''SecretsError''}
      | _ \<Rightarrow> False)"

text \<open>\<open>serve\<close> is the rest of \<open>run_daemon\<close>: the source, then the message loop and the control server
  under the task group. An exception of one of those comes out wrapped in an exception group, which no
  clause catches.\<close>

definition daemon_main ::
  "'a importers \<Rightarrow> registry \<Rightarrow> (unit \<Rightarrow> exn + secrets) \<Rightarrow> (string \<Rightarrow> exn + rule list) \<Rightarrow>
   ('a daemon_parts \<Rightarrow> exn option) \<Rightarrow> exn + spork_config \<Rightarrow> string option \<Rightarrow> bool \<Rightarrow> main_outcome" where
  "daemon_main im reg resolver load serve loaded log_level observe =
     (case loaded of
        Inl (ConfigLoadError why) \<Rightarrow> Exited 1 (Some (''Error: '' @ why))
      | Inl e \<Rightarrow> Traceback e
      | Inr config \<Rightarrow>
          if effective_level log_level config \<notin> set level_names
          then Exited 1 (Some (''Error: Unknown level: '' @ py_repr (effective_level log_level config)))
          else (case (case compose_daemon im reg resolver load observe config of
                        Inl e \<Rightarrow> Some e
                      | Inr parts \<Rightarrow> serve parts) of
                  None \<Rightarrow> Exited 0 None
                | Some e \<Rightarrow> if clean_startup_error e then Exited 1 (Some (''Error: '' @ im_str im e)) else Traceback e))"

section \<open>Properties\<close>

text \<open>What the loaders let through: for a client, an error is of the loader's own class unless
  importing failed with something other than an \<open>ImportError\<close>; for a provider also every
  exception of its constructor that is no \<open>TypeError\<close> comes out as it is.\<close>

theorem loader_errors:
  "(load_llm_client str imp spec kwargs = Inl e \<longrightarrow>
      of_class ''LLMClientLoadError'' e \<or>
      (\<exists>m c. py_partition (CHR '':'') spec = Some (m, c) \<and> imp m = Inl e \<and> \<not> of_class ''ImportError'' e)) \<and>
   (load_provider str imp spec kwargs = Inl e \<longrightarrow>
      of_class ''ProviderLoadError'' e \<or>
      (\<exists>m c. py_partition (CHR '':'') spec = Some (m, c) \<and>
         ((imp m = Inl e \<and> \<not> of_class ''ImportError'' e) \<or>
          (\<exists>attrs cls. imp m = Inr attrs \<and> attrs c = Some cls \<and> cls kwargs = Inl e \<and> \<not> of_class ''TypeError'' e)))) \<and>
   (py_partition (CHR '':'') spec = Some (m, c) \<and> imp m = Inr attrs \<and> attrs c = Some cls \<and>
      cls kwargs = Inl e \<and> \<not> of_class ''TypeError'' e \<longrightarrow>
      load_provider str imp spec kwargs = Inl e \<and>
      (\<exists>why. load_llm_client str imp spec kwargs = Inl (Other_Error ''LLMClientLoadError'' why)))"
  by (auto simp: load_llm_client_def load_provider_def load_backend_def of_class_def
      split: option.splits sum.splits prod.splits if_splits)

text \<open>A backend specification without a colon stops the daemon before its loop; for the
  provider \<open>sporkd\<close> exits with 1 and a message, but for the context provider, when everything
  before it loads, the error is not among those it catches and ends in a traceback.\<close>

theorem startup_spec_errors:
  assumes level: "effective_level log_level config \<in> set level_names"
    and vals: "resolve_runtime_secrets config resolver = Inr vals"
  shows "(materialize_backend_kwargs (sc_provider config) vals = Inr kwargs \<and>
      CHR '':'' \<notin> set (be_spec (sc_provider config)) \<longrightarrow>
      (\<exists>msg. daemon_main im reg resolver load serve (Inr config) log_level observe = Exited 1 (Some msg))) \<and>
    (build_provider im config vals = Inr provider \<and> load (sc_rules_path config) = Inr rules \<and>
      build_llm_client im config vals = Inr llm \<and> sc_context config = Some spec \<and>
      materialize_backend_kwargs spec vals = Inr kwargs \<and> CHR '':'' \<notin> set (be_spec spec) \<longrightarrow>
      (\<exists>why. daemon_main im reg resolver load serve (Inr config) log_level observe =
         Traceback (Other_Error ''ContextProviderLoadError'' why)))"
  using assms
  by (auto simp: daemon_main_def compose_daemon_def build_provider_def build_context_provider_def
      load_provider_def load_context_provider_def load_backend_def py_partition_def clean_startup_error_def)

text \<open>With the entities provider configured, a receipt from a tracked domain is attributed to
  the tracked company from its date alone: no model call, nothing learned, whatever the sender
  cache says.\<close>

theorem curated_receipt:
  assumes built: "build_receipt_archive_components im config (entity_context_provider (entity_provider_init d)) vals =
      Inr (Some (comps, client))"
    and tracked: "find (\<lambda>r. py_lower (dr_name r) = py_lower (from_domain (mm_message meta))) (rev (tracked_domains d)) =
      Some r" and company: "dr_company r = Some c" "c \<noteq> []"
    and date: "extract_date (mm_message meta) = Some when_date"
  shows "resolve_extraction E comps meta w = (Inr \<lparr>re_company = c, re_date = when_date\<rparr>, w)"
proof -
  have "rac_domain_lookup comps = Some (lookup_domain (entity_provider_init d))"
    using built by (auto simp: build_receipt_archive_components_def entity_context_provider_def sum_bind_Inr_iff
        split: option.splits)
  then show ?thesis
    using tracked company date
    by (simp add: resolve_extraction_def Let_def extract_receipt_def resolve_company_def curated_company_def
        lookup_domain_init bind_def read_db_def ret_def)
qed

section \<open>Witnesses\<close>

definition ex_broken_class :: "(string \<times> toml) list \<Rightarrow> exn + unit" where
  "ex_broken_class _ = Inl (MessagesLoadError ''no file'')"

definition ex_broken_import :: "string \<Rightarrow> exn + (string \<Rightarrow> ((string \<times> toml) list \<Rightarrow> exn + unit) option)" where
  "ex_broken_import _ = Inr (\<lambda>_. Some ex_broken_class)"

theorem loader_errors_witness:
  "load_provider (\<lambda>_. ''e'') ex_broken_import ''m:C'' [] = Inl (MessagesLoadError ''no file'')"
proof -
  have p: "py_partition (CHR '':'') ''m:C'' = Some (''m'', ''C'')" by (simp add: py_partition_def)
  have t: "\<not> of_class ''TypeError'' (MessagesLoadError ''no file'')" by (simp add: of_class_def)
  show ?thesis
    using loader_errors [where str = "\<lambda>_. ''e''" and imp = ex_broken_import
        and spec = "''m:C''" and kwargs = "[]" and e = "MessagesLoadError ''no file''" and m = "''m''" and c = "''C''"
        and attrs = "\<lambda>_. Some ex_broken_class" and cls = ex_broken_class] p t
    by (simp add: ex_broken_import_def ex_broken_class_def)
qed

definition ex_importers :: "unit importers" where
  "ex_importers =
     \<lparr>im_str = (\<lambda>_. ''error''), im_provider = (\<lambda>_. Inr (\<lambda>_. Some (\<lambda>_. Inr \<lparr>ph_account_id = None\<rparr>))),
      im_llm = (\<lambda>_. Inr (\<lambda>_. Some (\<lambda>_. Inr ex_answer))), im_alerter = (\<lambda>_. Inr (\<lambda>_. Some (\<lambda>_. Inr ()))),
      im_context = (\<lambda>_. Inr (\<lambda>_. Some (\<lambda>_. Inr null_context_provider))),
      im_extraction = (\<lambda>_. Inr (\<lambda>_. Some (\<lambda>_. Inr (\<lambda>req. Inl (ValueError ''x'')))))\<rparr>"

definition ex_bad_context :: spork_config where
  "ex_bad_context = ex_config\<lparr>sc_context := Some \<lparr>be_spec = ''no colon'', be_kwargs = [], be_secret_kwargs = []\<rparr>\<rparr>"

theorem startup_spec_errors_witness:
  "\<exists>why. daemon_main ex_importers [] (\<lambda>_. Inr []) (\<lambda>_. Inr []) (\<lambda>_. None) (Inr ex_bad_context) None False =
     Traceback (Other_Error ''ContextProviderLoadError'' why)"
proof -
  have l: "effective_level None ex_bad_context \<in> set level_names"
    by (simp add: effective_level_def ex_bad_context_def ex_config_def log_level_text_def level_names_def)
  have v: "resolve_runtime_secrets ex_bad_context (\<lambda>_. Inr []) = Inr []"
    by (simp add: resolve_runtime_secrets_def configured_specs_def ex_bad_context_def ex_config_def ex_backend_def)
  have p: "build_provider ex_importers ex_bad_context [] = Inr \<lparr>ph_account_id = None\<rparr>"
    and m: "build_llm_client ex_importers ex_bad_context [] = Inr (ex_answer, None)"
    by (simp_all add: build_provider_def build_llm_client_def load_provider_def load_llm_client_def load_backend_def
        py_partition_def ex_importers_def ex_bad_context_def ex_config_def ex_backend_def materialize_backend_kwargs_def)
  have c: "sc_context ex_bad_context = Some \<lparr>be_spec = ''no colon'', be_kwargs = [], be_secret_kwargs = []\<rparr>"
    by (simp add: ex_bad_context_def)
  have k: "materialize_backend_kwargs \<lparr>be_spec = ''no colon'', be_kwargs = [], be_secret_kwargs = []\<rparr> [] = Inr []"
    by (simp add: materialize_backend_kwargs_def dict_update_def)
  show ?thesis
    using startup_spec_errors [OF l v, where im = ex_importers and reg = "[]" and load = "\<lambda>_. Inr []"
        and serve = "\<lambda>_. None" and observe = False and provider = "\<lparr>ph_account_id = None\<rparr>" and rules = "[]"
        and llm = "(ex_answer, None)" and kwargs = "[]"
        and spec = "\<lparr>be_spec = ''no colon'', be_kwargs = [], be_secret_kwargs = []\<rparr>"] p m c k
    by auto
qed

definition ex_receipts :: spork_config where
  "ex_receipts = ex_config\<lparr>sc_receipt_archive := Some \<lparr>rc_output_dir = ''/out'', rc_extraction = ex_backend\<rparr>\<rparr>"

definition ex_receipt_meta :: message_meta where
  "ex_receipt_meta =
     \<lparr>mm_message = \<lparr>message_id = ''m'', thread_id = ''t'', from_address = ''a@gandi.net'', from_domain = ''GANDI.net'',
        subject = [], body_text = [], headers = [(''Date'', ''2024'')], mailbox_ids = []\<rparr>,
      mm_rules = [], mm_default_unmatched_action = action_of_type Ignore, mm_classifier = None, mm_verdict = None,
      mm_ts = None, mm_correlation_id = None, mm_audit_event = None, mm_audit_detail_json = None\<rparr>"

theorem curated_receipt_witness:
  "\<exists>comps client. build_receipt_archive_components ex_importers ex_receipts
      (entity_context_provider (entity_provider_init ex_entities)) [] = Inr (Some (comps, client)) \<and>
     (\<forall>E w. resolve_extraction E comps ex_receipt_meta w = (Inr \<lparr>re_company = ''Gandi'', re_date = ''2024''\<rparr>, w))"
proof -
  obtain comps client where b: "build_receipt_archive_components ex_importers ex_receipts
      (entity_context_provider (entity_provider_init ex_entities)) [] = Inr (Some (comps, client))"
    by (simp add: build_receipt_archive_components_def ex_receipts_def ex_config_def ex_backend_def ex_importers_def
        load_receipt_extraction_client_def load_backend_def py_partition_def materialize_backend_kwargs_def)
  have r: "find (\<lambda>r. py_lower (dr_name r) = py_lower (from_domain (mm_message ex_receipt_meta)))
      (rev (tracked_domains ex_entities)) = Some \<lparr>dr_name = ''gandi.net'', dr_company = Some ''Gandi''\<rparr>"
    by (simp add: ex_receipt_meta_def ex_entities_def tracked_domains_def ex_lower)
  have d: "extract_date (mm_message ex_receipt_meta) = Some ''2024''"
    by (simp add: ex_receipt_meta_def extract_date_def) code_simp
  show ?thesis using b curated_receipt [OF b r _ _ d, of "''Gandi''"] by auto
qed

end
