(* ===== verification/System_Commands.thy ===== *)
theory System_Commands
  imports Composition
begin

text \<open>
  The commands around the daemon: systemd (\<open>core/systemd\<close>), \<open>spork doctor\<close>,
  \<open>spork pause/resume/status\<close>, \<open>spork install-service\<close> and \<open>spork secrets wait\<close>. \<open>systemctl\<close>, the
  file system's answer to a write, the notify socket and the monotonic clock are parameters.
\<close>

section \<open>The unit (systemd/template.py, systemd/install.py)\<close>

text \<open>The bytes written: the dash of its comment is UTF-8's three.\<close>

definition em_dash :: string where
  "em_dash = [CHR 0xE2, CHR 0x80, CHR 0x94]"

definition unit_file_content :: string where
  "unit_file_content = concat (map (\<lambda>l. l @ [newline])
     [''[Unit]'',
      ''Description=Spork JMAP email triage daemon'',
      ''After=network-online.target'',
      ''Wants=network-online.target'',
      [],
      ''[Service]'',
      ''Type=notify'',
      ''ExecStartPre=%h/.local/bin/spork --secretspec %h/.config/spork/%i/secretspec.toml secrets wait --timeout 120'',
      ''ExecStart=%h/.local/bin/sporkd --config %h/.config/spork/%i/config.toml --secretspec %h/.config/spork/%i/secretspec.toml'',
      ''Restart=on-failure'',
      ''RestartSec=5'',
      ''# Secrets are resolved by sporkd itself via the SecretSpec SDK at'',
      ''# startup '' @ em_dash @ '' no secret material is passed through the unit file.'',
      [],
      ''[Install]'',
      ''WantedBy=default.target''])"

text \<open>\<open>subprocess.run\<close>: completed, no such binary, a non-zero exit under \<open>check=True\<close> with its
  standard error and its text, or another exception.\<close>

record completed =
  cp_stdout :: string
  cp_stderr :: string

datatype run_result = Completed completed | Missing_Binary | Failed string string | Raised exn

datatype install_step = Wrote string string | Systemctl "string list"

definition InstallServiceError :: "string \<Rightarrow> exn" where
  "InstallServiceError why = Other_Error ''InstallServiceError'' why"

fun run_systemctl :: "(string list \<Rightarrow> run_result) \<Rightarrow> install_step list \<Rightarrow> string list list \<Rightarrow> (exn + unit) \<times> install_step list" where
  "run_systemctl runner steps [] = (Inr (), steps)"
| "run_systemctl runner steps (cmd # cmds) =
     (let steps' = steps @ [Systemctl cmd]
      in case runner cmd of
           Completed _ \<Rightarrow> run_systemctl runner steps' cmds
         | Missing_Binary \<Rightarrow> (Inl (InstallServiceError (''systemctl not found '' @ em_dash @ '' is systemd installed?'')), steps')
         | Failed stderr text' \<Rightarrow>
             (Inl (InstallServiceError (''systemctl failed: '' @ (if stderr = [] then text' else py_strip stderr))), steps')
         | Raised e \<Rightarrow> (Inl e, steps'))"

text \<open>\<open>write\<close> is what creating the directory and writing the file meets: the text of an
  \<open>OSError\<close>, or nothing.\<close>

definition install_service ::
  "process_env \<Rightarrow> (string \<Rightarrow> string option) \<Rightarrow> (string list \<Rightarrow> run_result) \<Rightarrow> string \<Rightarrow> string \<Rightarrow> string option \<Rightarrow> bool \<Rightarrow>
   (exn + string) \<times> install_step list" where
  "install_service env write runner unit_name inst unit_path enable_now =
     (let path = (case unit_path of Some p \<Rightarrow> p | None \<Rightarrow> resolve_user_unit_path env unit_name)
      in case write path of
           Some why \<Rightarrow> (Inl (InstallServiceError (''could not write unit file to '' @ path @ '': '' @ why)), [])
         | None \<Rightarrow>
             (case run_systemctl runner [Wrote path unit_file_content]
                     ([''systemctl'', ''--user'', ''daemon-reload''] #
                      (if enable_now then [[''systemctl'', ''--user'', ''enable'', ''--now'', unit_name @ inst]] else [])) of
                (Inl e, steps) \<Rightarrow> (Inl e, steps)
              | (Inr _, steps) \<Rightarrow> (Inr path, steps)))"

definition install_service_command ::
  "process_env \<Rightarrow> (string \<Rightarrow> string option) \<Rightarrow> (string list \<Rightarrow> run_result) \<Rightarrow> string \<Rightarrow> bool \<Rightarrow>
   (exn + cli_result) \<times> install_step list" where
  "install_service_command env write runner inst enable_now =
     (case install_service env write runner ''sporkd@'' inst None enable_now of
        (Inl (Other_Error c why), steps) \<Rightarrow>
          (if c = ''InstallServiceError'' then Inr (exit_error why) else Inl (Other_Error c why), steps)
      | (Inl e, steps) \<Rightarrow> (Inl e, steps)
      | (Inr path, steps) \<Rightarrow>
          (Inr (exit_ok [''Installed unit file to '' @ path,
             if enable_now then ''Enabled and started sporkd@'' @ inst @ '' (systemctl --user enable --now)''
             else ''Run `systemctl --user enable --now sporkd@'' @ inst @ ''` to enable and start it.'']), steps))"

section \<open>The unit's state (systemd/unit.py)\<close>

record unit_status =
  us_installed :: bool
  us_enabled :: string
  us_active :: string

text \<open>Without \<open>check=True\<close> there is no failure on a non-zero exit. The exceptions \<open>_query\<close> catches
  are the \<open>OSError\<close>s and \<open>SubprocessError\<close>s.\<close>

definition query_catches :: "exn \<Rightarrow> bool" where
  "query_catches e \<longleftrightarrow>
     of_class ''FileNotFoundError'' e \<or> of_class ''PermissionError'' e \<or> of_class ''OSError'' e \<or>
     of_class ''SubprocessError'' e \<or> of_class ''CalledProcessError'' e \<or> of_class ''TimeoutExpired'' e"

definition query_unit :: "(string list \<Rightarrow> exn + completed) \<Rightarrow> string \<Rightarrow> string \<Rightarrow> exn + string" where
  "query_unit runner unit_name subcommand =
     (case runner [''systemctl'', ''--user'', subcommand, unit_name] of
        Inl e \<Rightarrow> if query_catches e then Inr ''unknown'' else Inl e
      | Inr result \<Rightarrow>
          if py_contains ''failed to connect to bus'' (py_lower (cp_stderr result)) then Inr ''unknown''
          else if py_strip (cp_stdout result) = [] then Inr ''unknown'' else Inr (py_strip (cp_stdout result)))"

definition status_path :: "process_env \<Rightarrow> string \<Rightarrow> string option \<Rightarrow> string" where
  "status_path env unit_name unit_path =
     (case unit_path of Some p \<Rightarrow> p
      | None \<Rightarrow> resolve_user_unit_path env (if unit_name = ''sporkd@default'' then ''sporkd@'' else unit_name))"

definition check_unit_status ::
  "process_env \<Rightarrow> (string \<Rightarrow> bool) \<Rightarrow> (string list \<Rightarrow> exn + completed) \<Rightarrow> string \<Rightarrow> string option \<Rightarrow> exn + unit_status" where
  "check_unit_status env exists runner unit_name unit_path =
     sum_bind (query_unit runner unit_name ''is-enabled'') (\<lambda>enabled.
     sum_bind (query_unit runner unit_name ''is-active'') (\<lambda>active.
     Inr \<lparr>us_installed = exists (status_path env unit_name unit_path), us_enabled = enabled, us_active = active\<rparr>))"

section \<open>The readiness signal (systemd/notify.py)\<close>

text \<open>\<open>send\<close> answers whether connecting and sending went through; the second component is the
  datagrams tried.\<close>

definition sd_notify ::
  "(string \<Rightarrow> string option) \<Rightarrow> (string \<Rightarrow> string \<Rightarrow> bool) \<Rightarrow> string option \<Rightarrow> string \<Rightarrow> bool \<times> (string \<times> string) list" where
  "sd_notify environ send socket_path state =
     (if state = [] then (False, [])
      else case (case socket_path of Some p \<Rightarrow> Some p | None \<Rightarrow> environ ''NOTIFY_SOCKET'') of
             None \<Rightarrow> (False, [])
           | Some address \<Rightarrow>
               (case address of
                  [] \<Rightarrow> (False, [])
                | c # cs \<Rightarrow>
                    (let target = (if c = CHR ''@'' then CHR 0x00 # cs else address)
                     in (send target state, [(target, state)]))))"

section \<open>spork doctor (cli/commands/doctor.py)\<close>

definition remove_prefix :: "string \<Rightarrow> string \<Rightarrow> string" where
  "remove_prefix p s = (if prefix p s then drop (length p) s else s)"

definition failure_detail :: "string \<Rightarrow> string \<Rightarrow> string" where
  "failure_detail pre why =
     (let message = (case find (\<lambda>l. l \<noteq> []) (map py_strip (py_splitlines why)) of
                       None \<Rightarrow> ''unknown error'' | Some l \<Rightarrow> l)
      in pre @ '': '' @
         (if pre = ''invalid configuration'' then remove_prefix ''invalid config: '' message else message))"

record doctor_check =
  dc_name :: string
  dc_ok :: bool
  dc_detail :: string

text \<open>What the checks ask: the loaded configuration, the secrets of the installed manifest, the rules
  loader, the unit's state, and the same importers and registry the daemon starts from.\<close>

record 'a doctor_host =
  dh_importers :: "'a importers"
  dh_registry :: registry
  dh_config :: "exn + spork_config"
  dh_secrets :: "exn + secrets"
  dh_load_rules :: "string \<Rightarrow> exn + rule list"
  dh_unit :: "exn + unit_status"

definition passed :: "string \<Rightarrow> string \<Rightarrow> doctor_check" where
  "passed name detail = \<lparr>dc_name = name, dc_ok = True, dc_detail = detail\<rparr>"

definition failed :: "string \<Rightarrow> string \<Rightarrow> doctor_check" where
  "failed name detail = \<lparr>dc_name = name, dc_ok = False, dc_detail = detail\<rparr>"

definition raised :: "'a doctor_host \<Rightarrow> string \<Rightarrow> string \<Rightarrow> exn \<Rightarrow> doctor_check" where
  "raised D name pre e = failed name (failure_detail pre (im_str (dh_importers D) e))"

definition check_secrets :: "'a doctor_host \<Rightarrow> doctor_check" where
  "check_secrets D =
     (case dh_secrets D of
        Inl e \<Rightarrow> raised D ''secrets'' ''could not resolve secrets'' e
      | Inr _ \<Rightarrow> passed ''secrets'' ''all declared secrets resolved'')"

definition check_config :: "'a doctor_host \<Rightarrow> doctor_check" where
  "check_config D =
     (case dh_config D of
        Inl e \<Rightarrow> raised D ''config'' ''invalid configuration'' e
      | Inr _ \<Rightarrow> passed ''config'' ''loaded and validated'')"

text \<open>The checks that need the configuration, and those that need the secrets too.\<close>

definition with_config :: "'a doctor_host \<Rightarrow> string \<Rightarrow> (spork_config \<Rightarrow> doctor_check) \<Rightarrow> doctor_check" where
  "with_config D name check =
     (case dh_config D of
        Inl _ \<Rightarrow> failed name (''skipped '' @ em_dash @ '' config failed to load'')
      | Inr config \<Rightarrow> check config)"

definition with_secrets :: "'a doctor_host \<Rightarrow> string \<Rightarrow> (spork_config \<Rightarrow> secrets \<Rightarrow> doctor_check) \<Rightarrow> doctor_check" where
  "with_secrets D name check =
     with_config D name (\<lambda>config.
       case dh_secrets D of
         Inl _ \<Rightarrow> failed name (''skipped '' @ em_dash @ '' secrets failed to resolve'')
       | Inr vals \<Rightarrow> check config vals)"

definition check_provider :: "'a doctor_host \<Rightarrow> doctor_check" where
  "check_provider D = with_secrets D ''provider'' (\<lambda>config vals.
     case build_provider (dh_importers D) config vals of
       Inl e \<Rightarrow> raised D ''provider'' ''could not load provider'' e
     | Inr _ \<Rightarrow> passed ''provider'' (''loaded '' @ be_spec (sc_provider config)))"

definition check_llm :: "'a doctor_host \<Rightarrow> doctor_check" where
  "check_llm D = with_secrets D ''LLM client'' (\<lambda>config vals.
     case build_llm_client (dh_importers D) config vals of
       Inl e \<Rightarrow> raised D ''LLM client'' ''could not load LLM client'' e
     | Inr _ \<Rightarrow> passed ''LLM client'' (''loaded '' @ be_spec (sc_llm config)))"

definition check_alerter :: "'a doctor_host \<Rightarrow> doctor_check" where
  "check_alerter D = with_secrets D ''alerter'' (\<lambda>config vals.
     case build_alerter (dh_importers D) config vals of
       Inl e \<Rightarrow> raised D ''alerter'' ''could not load alerter'' e
     | Inr _ \<Rightarrow> passed ''alerter'' (''loaded '' @ be_spec (sc_alerts config)))"

definition check_rules :: "'a doctor_host \<Rightarrow> doctor_check" where
  "check_rules D = with_config D ''rules'' (\<lambda>config.
     case dh_load_rules D (sc_rules_path config) of
       Inl e \<Rightarrow> raised D ''rules'' ''could not load rules'' e
     | Inr rules \<Rightarrow>
         passed ''rules'' (py_str_int (int (length rules)) @ '' rule(s) loaded from '' @ sc_rules_path config))"

definition check_classifier :: "'a doctor_host \<Rightarrow> doctor_check" where
  "check_classifier D = with_config D ''local classifier'' (\<lambda>config.
     case t_local_classifier (sc_tiering config) of
       None \<Rightarrow> passed ''local classifier'' ''none configured''
     | Some name \<Rightarrow>
         (case registry_get (dh_registry D) name of
            Inl e \<Rightarrow> raised D ''local classifier'' ''could not load local classifier'' e
          | Inr _ \<Rightarrow> passed ''local classifier'' (py_repr name @ '' registered'')))"

definition check_jmap_connectivity :: "'a doctor_host \<Rightarrow> doctor_check" where
  "check_jmap_connectivity D = with_secrets D ''JMAP connectivity'' (\<lambda>config vals.
     case build_provider (dh_importers D) config vals of
       Inl e \<Rightarrow> raised D ''JMAP connectivity'' ''could not connect to JMAP'' e
     | Inr provider \<Rightarrow>
         (case ph_account_id provider of
            None \<Rightarrow> passed ''JMAP connectivity'' ''not applicable for the configured provider''
          | Some (Inl e) \<Rightarrow> raised D ''JMAP connectivity'' ''could not connect to JMAP'' e
          | Some (Inr account_id) \<Rightarrow>
              if account_id = [] then failed ''JMAP connectivity'' ''provider returned no account ID''
              else passed ''JMAP connectivity'' (''connected to account '' @ account_id)))"

definition bool_text :: "bool \<Rightarrow> string" where
  "bool_text b = (if b then ''True'' else ''False'')"

definition unit_ok :: "unit_status \<Rightarrow> bool" where
  "unit_ok u \<longleftrightarrow> us_installed u \<and> us_enabled u = ''enabled'' \<and> us_active u = ''active''"

definition check_systemd_unit :: "'a doctor_host \<Rightarrow> doctor_check" where
  "check_systemd_unit D =
     (case dh_unit D of
        Inl e \<Rightarrow> raised D ''systemd unit'' ''could not check systemd unit'' e
      | Inr u \<Rightarrow>
          \<lparr>dc_name = ''systemd unit'', dc_ok = unit_ok u,
           dc_detail = ''installed='' @ bool_text (us_installed u) @ '' enabled='' @ us_enabled u @ '' active='' @ us_active u\<rparr>)"

definition run_checks :: "'a doctor_host \<Rightarrow> doctor_check list" where
  "run_checks D =
     [check_secrets D, check_config D, check_provider D, check_llm D, check_alerter D, check_rules D,
      check_classifier D, check_jmap_connectivity D, check_systemd_unit D]"

definition check_line :: "doctor_check \<Rightarrow> string" where
  "check_line c = ''['' @ (if dc_ok c then ''ok'' else ''FAIL'') @ ''] '' @ dc_name c @ '': '' @ dc_detail c"

definition doctor :: "'a doctor_host \<Rightarrow> cli_result" where
  "doctor D =
     \<lparr>cr_exit = (if list_ex (\<lambda>c. \<not> dc_ok c) (run_checks D) then 1 else 0),
      cr_out = map check_line (run_checks D), cr_err = []\<rparr>"

section \<open>spork pause, resume and status (cli/commands/pause.py, status.py)\<close>

definition data_text :: "(string, ipc_value) dict \<Rightarrow> string \<Rightarrow> string" where
  "data_text d k = (case dict_get d k of None \<Rightarrow> ''None'' | Some v \<Rightarrow> ipc_value_text v)"

definition not_running :: cli_result where
  "not_running =
     \<lparr>cr_exit = 1, cr_out = [], cr_err = [''sporkd is not running (start it with: systemctl --user start sporkd)'']\<rparr>"

text \<open>What the two commands share: the request, and the fields of the answer they print.\<close>

definition control_command ::
  "exn + rules_setup \<Rightarrow> string \<Rightarrow> string list \<Rightarrow> rules_host \<Rightarrow> (exn + cli_result) \<times> rules_host" where
  "control_command loaded command shown h =
     (case loaded of
        Inl (ConfigLoadError why) \<Rightarrow> (Inr (exit_error why), h)
      | Inl e \<Rightarrow> (Inl e, h)
      | Inr cfg \<Rightarrow>
          (case send_request cfg command [] h of
             (Inl e, h') \<Rightarrow> (if of_class ''IpcConnectionError'' e then Inr not_running else Inl e, h')
           | (Inr resp, h') \<Rightarrow>
               (if \<not> ir_ok resp
                then Inr (exit_error (case ir_error resp of None \<Rightarrow> ''None'' | Some e \<Rightarrow> e))
                else Inr (exit_ok (map (\<lambda>k. k @ '': '' @ data_text (ir_data resp) k) shown)),
                h')))"

definition send_control_command :: "exn + rules_setup \<Rightarrow> string \<Rightarrow> rules_host \<Rightarrow> (exn + cli_result) \<times> rules_host" where
  "send_control_command loaded command = control_command loaded command [''paused'']"

definition pause :: "exn + rules_setup \<Rightarrow> rules_host \<Rightarrow> (exn + cli_result) \<times> rules_host" where
  "pause loaded = send_control_command loaded ''pause''"

definition resume :: "exn + rules_setup \<Rightarrow> rules_host \<Rightarrow> (exn + cli_result) \<times> rules_host" where
  "resume loaded = send_control_command loaded ''resume''"

definition status_command :: "exn + rules_setup \<Rightarrow> rules_host \<Rightarrow> (exn + cli_result) \<times> rules_host" where
  "status_command loaded = control_command loaded ''status'' [''paused'', ''started_at'']"

section \<open>spork secrets wait (cli/commands/secrets.py)\<close>

text \<open>Attempt \<open>n\<close> resolves to \<open>resolve n\<close>, and the clock then shows \<open>clock n\<close>. The loop has no other
  end than a resolution, the deadline, or an exception of another class.\<close>

partial_function (option) wait_from ::
  "(exn \<Rightarrow> string) \<Rightarrow> (nat \<Rightarrow> exn + secrets) \<Rightarrow> (nat \<Rightarrow> rat) \<Rightarrow> rat \<Rightarrow> nat \<Rightarrow> (exn + cli_result) option" where
  "wait_from str resolve clock deadline n =
     (case resolve n of
        Inr _ \<Rightarrow> Some (Inr (exit_ok []))
      | Inl e \<Rightarrow>
          if \<not> of_class ''SecretsError'' e then Some (Inl e)
          else if deadline \<le> clock n then Some (Inr (exit_error (''credentials not ready: '' @ str e)))
          else wait_from str resolve clock deadline (Suc n))"

definition wait_secrets ::
  "(exn \<Rightarrow> string) \<Rightarrow> (nat \<Rightarrow> exn + secrets) \<Rightarrow> rat \<Rightarrow> (nat \<Rightarrow> rat) \<Rightarrow> rat \<Rightarrow> (exn + cli_result) option" where
  "wait_secrets str resolve started clock timeout = wait_from str resolve clock (started + timeout) 0"

section \<open>What the checks decide\<close>

lemma materialize_no_secrets:
  "be_secret_kwargs spec = [] \<Longrightarrow> materialize_backend_kwargs spec vals = materialize_backend_kwargs spec vals'"
  by (simp add: materialize_backend_kwargs_def)

text \<open>Without secret arguments a builder does not look at the secrets.\<close>

lemma build_no_secrets:
  "be_secret_kwargs (sc_provider config) = [] \<Longrightarrow> build_provider im config vals = build_provider im config vals'"
  "be_secret_kwargs (sc_llm config) = [] \<Longrightarrow> build_llm_client im config vals = build_llm_client im config vals'"
  "be_secret_kwargs (sc_alerts config) = [] \<Longrightarrow> build_alerter im config vals = build_alerter im config vals'"
  by (simp_all add: build_provider_def build_llm_client_def build_alerter_def materialize_no_secrets [of _ vals vals'])

text \<open>The secrets \<open>doctor\<close> resolves and those the daemon starts with build the same backends.\<close>

lemma runtime_secrets_build:
  assumes "dh_secrets D = Inr vals"
    and "resolve_runtime_secrets config (\<lambda>_. dh_secrets D) = Inr vals'"
  shows "build_provider im config vals' = build_provider im config vals"
    and "build_llm_client im config vals' = build_llm_client im config vals"
    and "build_alerter im config vals' = build_alerter im config vals"
proof -
  have "vals' = vals \<or> (be_secret_kwargs (sc_provider config) = [] \<and> be_secret_kwargs (sc_llm config) = [] \<and>
      be_secret_kwargs (sc_alerts config) = [])"
    using assms by (auto simp: resolve_runtime_secrets_def configured_specs_def split: if_splits)
  then show "build_provider im config vals' = build_provider im config vals"
    and "build_llm_client im config vals' = build_llm_client im config vals"
    and "build_alerter im config vals' = build_alerter im config vals"
    using build_no_secrets by metis+
qed

lemma runtime_secrets_resolve:
  "dh_secrets D = Inr vals \<Longrightarrow> \<exists>vals'. resolve_runtime_secrets config (\<lambda>_. dh_secrets D) = Inr vals'"
  by (simp add: resolve_runtime_secrets_def)

lemmas doctor_checks_def =
  check_secrets_def check_config_def check_provider_def check_llm_def check_alerter_def check_rules_def
  check_classifier_def check_jmap_connectivity_def check_systemd_unit_def

lemma check_ok_simps [simp]:
  "dc_ok (passed name d)" "\<not> dc_ok (failed name d)" "\<not> dc_ok (raised D name pre e)"
  "dc_name (passed name d) = name" "dc_name (failed name d) = name" "dc_name (raised D name pre e) = name"
  by (simp_all add: passed_def failed_def raised_def)

lemma with_config_ok: "dc_ok (with_config D name check) \<longleftrightarrow> (\<exists>config. dh_config D = Inr config \<and> dc_ok (check config))"
  by (auto simp: with_config_def split: sum.splits)

lemma with_secrets_ok:
  "dc_ok (with_secrets D name check) \<longleftrightarrow>
   (\<exists>config vals. dh_config D = Inr config \<and> dh_secrets D = Inr vals \<and> dc_ok (check config vals))"
  by (cases "dh_secrets D") (auto simp: with_secrets_def with_config_ok)

text \<open>Everything \<open>doctor\<close> requires of a configuration and its secrets.\<close>

definition healthy :: "'a doctor_host \<Rightarrow> spork_config \<Rightarrow> secrets \<Rightarrow> bool" where
  "healthy D config vals \<longleftrightarrow>
     (\<exists>provider llm alerter rules u.
        build_provider (dh_importers D) config vals = Inr provider \<and>
        build_llm_client (dh_importers D) config vals = Inr llm \<and>
        build_alerter (dh_importers D) config vals = Inr alerter \<and>
        dh_load_rules D (sc_rules_path config) = Inr rules \<and>
        (t_local_classifier (sc_tiering config) = None \<or>
         (\<exists>name c. t_local_classifier (sc_tiering config) = Some name \<and> registry_get (dh_registry D) name = Inr c)) \<and>
        (ph_account_id provider = None \<or> (\<exists>a. ph_account_id provider = Some (Inr a) \<and> a \<noteq> [])) \<and>
        dh_unit D = Inr u \<and> unit_ok u)"

lemma checks_ok:
  "dc_ok (check_secrets D) \<longleftrightarrow> (\<exists>vals. dh_secrets D = Inr vals)"
  "dc_ok (check_config D) \<longleftrightarrow> (\<exists>config. dh_config D = Inr config)"
  "dc_ok (check_systemd_unit D) \<longleftrightarrow> (\<exists>u. dh_unit D = Inr u \<and> unit_ok u)"
  by (auto simp: check_secrets_def check_config_def check_systemd_unit_def split: sum.splits)

lemma backend_checks_ok:
  assumes "dh_config D = Inr config" "dh_secrets D = Inr vals"
  shows "dc_ok (check_provider D) \<longleftrightarrow> (\<exists>p. build_provider (dh_importers D) config vals = Inr p)"
    and "dc_ok (check_llm D) \<longleftrightarrow> (\<exists>l. build_llm_client (dh_importers D) config vals = Inr l)"
    and "dc_ok (check_alerter D) \<longleftrightarrow> (\<exists>a. build_alerter (dh_importers D) config vals = Inr a)"
    and "dc_ok (check_rules D) \<longleftrightarrow> (\<exists>rs. dh_load_rules D (sc_rules_path config) = Inr rs)"
    and "dc_ok (check_classifier D) \<longleftrightarrow>
      (t_local_classifier (sc_tiering config) = None \<or>
       (\<exists>name c. t_local_classifier (sc_tiering config) = Some name \<and> registry_get (dh_registry D) name = Inr c))"
    and "dc_ok (check_jmap_connectivity D) \<longleftrightarrow>
      (\<exists>p. build_provider (dh_importers D) config vals = Inr p \<and>
         (ph_account_id p = None \<or> (\<exists>a. ph_account_id p = Some (Inr a) \<and> a \<noteq> [])))"
  using assms
  by (auto simp: check_provider_def check_llm_def check_alerter_def check_rules_def check_classifier_def
      check_jmap_connectivity_def with_config_ok with_secrets_ok split: sum.splits option.splits)

lemma with_names:
  "(\<And>config. dc_name (check config) = name) \<Longrightarrow> dc_name (with_config D name check) = name"
  "(\<And>config vals. dc_name (check' config vals) = name) \<Longrightarrow> dc_name (with_secrets D name check') = name"
  by (simp_all add: with_secrets_def with_config_def split: sum.splits)

lemma check_names:
  "dc_name (check_secrets D) = ''secrets''" "dc_name (check_config D) = ''config''"
  "dc_name (check_provider D) = ''provider''" "dc_name (check_llm D) = ''LLM client''"
  "dc_name (check_alerter D) = ''alerter''" "dc_name (check_rules D) = ''rules''"
  "dc_name (check_classifier D) = ''local classifier''" "dc_name (check_jmap_connectivity D) = ''JMAP connectivity''"
  "dc_name (check_systemd_unit D) = ''systemd unit''"
  unfolding doctor_checks_def
  by ((rule with_names, simp split: sum.splits option.splits) | simp split: sum.splits)+

lemma doctor_exit_iff: "cr_exit (doctor D) = 0 \<longleftrightarrow> list_all dc_ok (run_checks D)"
  by (auto simp: doctor_def list_all_iff list_ex_iff)

lemma doctor_healthy:
  "cr_exit (doctor D) = 0 \<longleftrightarrow>
   (\<exists>config vals. dh_config D = Inr config \<and> dh_secrets D = Inr vals \<and> healthy D config vals)"
proof (cases "\<exists>config vals. dh_config D = Inr config \<and> dh_secrets D = Inr vals")
  case True
  then obtain config vals where cv: "dh_config D = Inr config" "dh_secrets D = Inr vals" by blast
  show ?thesis
    unfolding doctor_exit_iff run_checks_def healthy_def
    by (simp add: backend_checks_ok [OF cv] checks_ok cv) auto
next
  case False
  then have "\<not> dc_ok (check_secrets D) \<or> \<not> dc_ok (check_config D)" by (auto simp: checks_ok)
  then show ?thesis using False by (auto simp: doctor_exit_iff run_checks_def)
qed

text \<open>A detail made from an exception is one line.\<close>

definition one_line :: "string \<Rightarrow> bool" where
  "one_line s \<longleftrightarrow> list_all (\<lambda>c. \<not> line_break c) s"

lemma one_line_append [simp]: "one_line (s @ t) \<longleftrightarrow> one_line s \<and> one_line t"
  by (simp add: one_line_def)

lemma one_line_Cons [simp]: "one_line (c # s) \<longleftrightarrow> \<not> line_break c \<and> one_line s"
  by (simp add: one_line_def)

lemma splitlines_one_line:
  "list_all (\<lambda>c. \<not> line_break c) cur \<Longrightarrow> l \<in> set (splitlines_from cur s) \<Longrightarrow> one_line l"
proof (induction cur s rule: splitlines_from.induct)
  case (1 cur)
  then show ?case by (auto simp: one_line_def split: if_splits)
next
  case (2 cur c s)
  show ?case
  proof (cases "line_break c")
    case False
    with "2.IH"(3) "2.prems" show ?thesis by simp
  next
    case True
    then consider "l = rev cur"
      | d s' where "s = d # s'" "c = carriage_return" "d = newline" "l \<in> set (splitlines_from [] s')"
      | d s' where "s = d # s'" "\<not> (c = carriage_return \<and> d = newline)" "l \<in> set (splitlines_from [] s)"
      using "2.prems"(2) by (cases s) (auto split: if_splits)
    then show ?thesis
    proof cases
      case 1
      with "2.prems"(1) show ?thesis by (simp add: one_line_def)
    next
      case (2 d s')
      with "2.IH"(1) [OF True \<open>s = d # s'\<close>] show ?thesis by simp
    next
      case (3 d s')
      with "2.IH"(2) [OF True \<open>s = d # s'\<close>] show ?thesis by simp
    qed
  qed
qed

lemma set_py_strip: "set (py_strip s) \<subseteq> set s"
  unfolding py_strip_def by (metis (no_types, lifting) set_dropWhileD set_rev subsetI)

lemma one_line_strip: "one_line s \<Longrightarrow> one_line (py_strip s)"
  using set_py_strip unfolding one_line_def list_all_iff by blast

lemma one_line_remove_prefix: "one_line s \<Longrightarrow> one_line (remove_prefix p s)"
  by (auto simp: remove_prefix_def one_line_def list_all_iff dest: in_set_dropD)

lemma one_line_failure_detail: "one_line pre \<Longrightarrow> one_line (failure_detail pre why)"
proof -
  assume pre: "one_line pre"
  have "one_line (case find (\<lambda>l. l \<noteq> []) (map py_strip (py_splitlines why)) of None \<Rightarrow> ''unknown error'' | Some l \<Rightarrow> l)"
  proof (cases "find (\<lambda>l. l \<noteq> []) (map py_strip (py_splitlines why))")
    case None
    then show ?thesis by (simp add: one_line_def line_break_def)
  next
    case (Some l)
    then have "l \<in> set (map py_strip (py_splitlines why))" by (auto simp: find_Some_iff)
    then show ?thesis
      using Some splitlines_one_line [of "[]"] one_line_strip by (auto simp: py_splitlines_def)
  qed
  moreover have "\<not> line_break (CHR '':'')" "\<not> line_break (CHR '' '')" by code_simp+
  ultimately show ?thesis using pre by (simp add: failure_detail_def Let_def one_line_remove_prefix)
qed

lemma failed_checks_one_line:
  assumes "c \<in> set (run_checks D)" "\<not> dc_ok c" "dc_name c \<noteq> ''systemd unit''"
  shows "one_line (dc_detail c)"
proof -
  have lits: "one_line ''could not resolve secrets''" "one_line ''invalid configuration''" "one_line ''could not load provider''"
    "one_line ''could not load LLM client''" "one_line ''could not load alerter''" "one_line ''could not load rules''"
    "one_line ''could not load local classifier''" "one_line ''could not connect to JMAP''"
    "one_line ''provider returned no account ID''"
    "one_line (''skipped '' @ em_dash @ '' config failed to load'')" "one_line (''skipped '' @ em_dash @ '' secrets failed to resolve'')"
    by code_simp+
  have raised: "one_line pre \<Longrightarrow> one_line (dc_detail (raised D name pre e))" for name pre e
    by (simp add: raised_def failed_def one_line_failure_detail)
  have detail: "dc_detail (failed name d) = d" for name d by (simp add: failed_def)
  have cfg: "\<not> dc_ok (with_config D name check) \<Longrightarrow>
      (\<And>config. \<not> dc_ok (check config) \<Longrightarrow> one_line (dc_detail (check config))) \<Longrightarrow>
      one_line (dc_detail (with_config D name check))" for name check
    using lits(10) by (cases "dh_config D") (simp_all add: with_config_def detail del: append_Cons)
  have sec: "\<not> dc_ok (with_secrets D name check) \<Longrightarrow>
      (\<And>config vals. \<not> dc_ok (check config vals) \<Longrightarrow> one_line (dc_detail (check config vals))) \<Longrightarrow>
      one_line (dc_detail (with_secrets D name check))" for name check
    unfolding with_secrets_def using lits(11)
    by (intro cfg) (auto simp: detail simp del: append_Cons split: sum.splits)
  have "c = check_secrets D \<or> c = check_config D \<or> c = check_provider D \<or> c = check_llm D \<or> c = check_alerter D \<or>
      c = check_rules D \<or> c = check_classifier D \<or> c = check_jmap_connectivity D"
    using assms(1,3) by (auto simp: run_checks_def check_systemd_unit_def split: sum.splits)
  then show ?thesis
    using assms(2)
    apply (elim disjE)
    subgoal using raised [OF lits(1)] by (auto simp: check_secrets_def split: sum.splits)
    subgoal using raised [OF lits(2)] by (auto simp: check_config_def split: sum.splits)
    subgoal unfolding check_provider_def using raised [OF lits(3)] by (auto intro!: sec split: sum.splits)
    subgoal unfolding check_llm_def using raised [OF lits(4)] by (auto intro!: sec split: sum.splits)
    subgoal unfolding check_alerter_def using raised [OF lits(5)] by (auto intro!: sec split: sum.splits)
    subgoal unfolding check_rules_def using raised [OF lits(6)] by (auto intro!: cfg split: sum.splits)
    subgoal unfolding check_classifier_def using raised [OF lits(7)] by (auto intro!: cfg split: sum.splits option.splits)
    subgoal unfolding check_jmap_connectivity_def
      using raised [OF lits(8)] lits(9) detail
      by (auto intro!: sec split: sum.splits option.splits if_splits)
    done
qed

lemma wait_from_step: "resolve n = Inl e \<Longrightarrow> of_class ''SecretsError'' e \<Longrightarrow> clock n < deadline \<Longrightarrow>
    wait_from str resolve clock deadline n = wait_from str resolve clock deadline (Suc n)"
  by (subst wait_from.simps) (simp add: not_le)

text \<open>The attempts that neither resolve nor end the loop.\<close>

definition still_waiting :: "(nat \<Rightarrow> exn + secrets) \<Rightarrow> (nat \<Rightarrow> rat) \<Rightarrow> rat \<Rightarrow> nat \<Rightarrow> bool" where
  "still_waiting resolve clock deadline n \<longleftrightarrow>
     (\<exists>e. resolve n = Inl e \<and> of_class ''SecretsError'' e \<and> clock n < deadline)"

lemma wait_from_skip:
  "(\<And>m. m < n \<Longrightarrow> still_waiting resolve clock deadline m) \<Longrightarrow>
   wait_from str resolve clock deadline 0 = wait_from str resolve clock deadline n"
proof (induction n)
  case (Suc n)
  then obtain e where "resolve n = Inl e" "of_class ''SecretsError'' e" "clock n < deadline"
    unfolding still_waiting_def by blast
  with Suc show ?case by (simp add: wait_from_step)
qed simp

lemma wait_from_stop:
  "\<not> still_waiting resolve clock deadline n \<Longrightarrow>
   wait_from str resolve clock deadline n =
     Some (case resolve n of
             Inr _ \<Rightarrow> Inr (exit_ok [])
           | Inl e \<Rightarrow> if of_class ''SecretsError'' e then Inr (exit_error (''credentials not ready: '' @ str e)) else Inl e)"
  by (subst wait_from.simps) (auto simp: still_waiting_def split: sum.splits)

lemma clock_grows:
  fixes clock :: "nat \<Rightarrow> rat"
  assumes "\<And>n. clock n + interval \<le> clock (Suc n)"
  shows "clock 0 + of_nat n * interval \<le> clock n"
proof (induction n)
  case (Suc n)
  with assms [of n] show ?case by (simp add: algebra_simps)
qed simp

lemma run_systemctl_steps:
  "run_systemctl runner steps cmds = (r, steps') \<Longrightarrow>
   \<exists>made rest. cmds = made @ rest \<and> steps' = steps @ map Systemctl made \<and> (r = Inr () \<longrightarrow> rest = [])"
proof (induction cmds arbitrary: steps)
  case Nil
  then show ?case by auto
next
  case (Cons cmd cmds)
  show ?case
  proof (cases "\<exists>c. runner cmd = Completed c")
    case True
    with Cons.prems have "run_systemctl runner (steps @ [Systemctl cmd]) cmds = (r, steps')" by auto
    from Cons.IH [OF this] obtain made rest
      where "cmds = made @ rest" "steps' = (steps @ [Systemctl cmd]) @ map Systemctl made" "r = Inr () \<longrightarrow> rest = []" by blast
    then show ?thesis by (intro exI [of _ "cmd # made"] exI [of _ rest]) auto
  next
    case False
    with Cons.prems have "steps' = steps @ [Systemctl cmd] \<and> r \<noteq> Inr ()"
      by (auto simp: Let_def split: run_result.splits)
    then show ?thesis by (intro exI [of _ "[cmd]"] exI [of _ cmds]) auto
  qed
qed

section \<open>Properties\<close>

text \<open>\<open>spork doctor\<close> exits with 0 exactly when the configuration and the secrets load, the three
  backends, the rules and the classifier build, the account is known and the unit is up; it always
  prints its nine lines, and a failed check's detail (but the unit's) is one line whatever the
  exception's text.\<close>

theorem doctor_spec:
  "(cr_exit (doctor D) = 0) =
     (\<exists>config vals. dh_config D = Inr config \<and> dh_secrets D = Inr vals \<and> healthy D config vals) \<and>
   map dc_name (run_checks D) = [''secrets'', ''config'', ''provider'', ''LLM client'', ''alerter'', ''rules'',
     ''local classifier'', ''JMAP connectivity'', ''systemd unit''] \<and>
   cr_out (doctor D) = map check_line (run_checks D) \<and>
   (\<forall>c. c \<in> set (run_checks D) \<and> \<not> dc_ok c \<and> dc_name c \<noteq> ''systemd unit'' \<longrightarrow> one_line (dc_detail c))"
proof (intro conjI)
  show "map dc_name (run_checks D) = [''secrets'', ''config'', ''provider'', ''LLM client'', ''alerter'', ''rules'',
     ''local classifier'', ''JMAP connectivity'', ''systemd unit'']"
    by (simp add: run_checks_def check_names)
  show "cr_out (doctor D) = map check_line (run_checks D)" by (simp add: doctor_def)
qed (rule doctor_healthy, use failed_checks_one_line in blast)


text \<open>\<open>install-service\<close> writes the unit file where \<open>doctor\<close> looks for it, then reloads, then
  enables the instance; it reports success only after all of them, and each failure is exit 1 with
  nothing done after it.\<close>

theorem install_service_spec:
  assumes run: "install_service_command env write runner inst enable_now = (r, steps)"
    and path: "path = status_path env ''sporkd@default'' None"
    and plan: "plan = Wrote path unit_file_content # Systemctl [''systemctl'', ''--user'', ''daemon-reload''] #
      (if enable_now then [Systemctl [''systemctl'', ''--user'', ''enable'', ''--now'', ''sporkd@'' @ inst]] else [])"
  shows "prefix steps plan \<and>
    (write path \<noteq> None \<longrightarrow> steps = [] \<and> (\<exists>why. r = Inr (exit_error why))) \<and>
    (write path = None \<longrightarrow> steps \<noteq> [] \<and> hd steps = hd plan) \<and>
    (\<forall>out. r = Inr (exit_ok out) \<longrightarrow> steps = plan)"
proof (cases "write path")
  case (Some why)
  with run path show ?thesis
    by (auto simp: install_service_command_def install_service_def status_path_def InstallServiceError_def
        exit_error_def exit_ok_def)
next
  case None
  define cmds where "cmds = [''systemctl'', ''--user'', ''daemon-reload''] #
      (if enable_now then [[''systemctl'', ''--user'', ''enable'', ''--now'', ''sporkd@'' @ inst]] else [])"
  obtain r' steps' where go: "run_systemctl runner [Wrote path unit_file_content] cmds = (r', steps')" by fastforce
  from run_systemctl_steps [OF go] obtain made rest
    where made: "cmds = made @ rest" "steps' = Wrote path unit_file_content # map Systemctl made" "r' = Inr () \<longrightarrow> rest = []"
    by auto
  have plan': "plan = Wrote path unit_file_content # map Systemctl cmds"
    by (simp add: plan cmds_def)
  have res: "steps = steps' \<and> (\<forall>out. r = Inr (exit_ok out) \<longrightarrow> r' = Inr ())"
    using run None path go
    by (auto simp: install_service_command_def install_service_def status_path_def cmds_def exit_ok_def exit_error_def
        split: sum.splits exn.splits if_splits)
  have "prefix steps plan" using res made plan' by (simp add: prefix_def)
  then show ?thesis using None res made plan' by auto
qed

text \<open>\<open>pause\<close> and \<open>resume\<close> over the control socket: with a daemon the flag is set, the answer
  printed and the change queued for the audit log, and \<open>resume\<close> takes \<open>pause\<close> back; the rules, the
  files and the store stay. Without one the command says so and exits with 1.\<close>

theorem pause_resume_spec:
  "(rh_daemon h = Some s \<longrightarrow>
      (\<exists>h1 h2. pause (Inr cfg) h = (Inr (exit_ok [''paused: True'']), h1) \<and>
         rh_daemon h1 = Some (set_paused True s) \<and>
         resume (Inr cfg) h1 = (Inr (exit_ok [''paused: False'']), h2) \<and>
         status_command (Inr cfg) h2 = (Inr (exit_ok [''paused: False'', ''started_at: '' @ ds_started_at (sh_daemon s)]), h2) \<and>
         h2 = h\<lparr>rh_daemon := Some (s\<lparr>sh_daemon := (sh_daemon s)\<lparr>ds_paused := False,
                ds_pending := ds_pending (sh_daemon s) @ [paused_event, resumed_event]\<rparr>\<rparr>)\<rparr>)) \<and>
   (rh_daemon h = None \<longrightarrow>
      pause (Inr cfg) h = (Inr not_running, h) \<and> resume (Inr cfg) h = (Inr not_running, h) \<and>
      status_command (Inr cfg) h = (Inr not_running, h))"
  by (auto simp: pause_def resume_def status_command_def send_control_command_def control_command_def send_request_def
      ipc_dispatch_def ipc_handler_def set_paused_def ok_response_def data_text_def of_class_def)

text \<open>\<open>spork secrets wait\<close> ends: when each attempt takes at least the interval, it returns, with 0
  when an attempt before the deadline resolves everything, and else with 1 or the exception of
  another class at the first attempt that does not fail with a \<open>SecretsError\<close> before the deadline.\<close>

theorem wait_secrets_returns:
  fixes interval :: rat
  assumes interval: "0 < interval" and ticks: "\<And>n. clock n + interval \<le> clock (Suc n)"
  shows "\<exists>n. (\<forall>m. m < n \<longrightarrow> still_waiting resolve clock (started + timeout) m) \<and>
    \<not> still_waiting resolve clock (started + timeout) n \<and>
    wait_secrets str resolve started clock timeout =
      Some (case resolve n of
              Inr _ \<Rightarrow> Inr (exit_ok [])
            | Inl e \<Rightarrow> if of_class ''SecretsError'' e then Inr (exit_error (''credentials not ready: '' @ str e)) else Inl e)"
proof -
  obtain k where "started + timeout - clock 0 < of_nat k * interval"
    using ex_less_of_nat_mult [OF interval] by blast
  with clock_grows [of clock interval k] ticks have "started + timeout \<le> clock k" by (simp add: algebra_simps)
  then have "\<exists>n. \<not> still_waiting resolve clock (started + timeout) n"
    by (auto simp: still_waiting_def not_less intro: exI [of _ k])
  then obtain n where n: "\<not> still_waiting resolve clock (started + timeout) n"
    and first: "\<And>m. m < n \<Longrightarrow> still_waiting resolve clock (started + timeout) m"
    using exists_least_iff [of "\<lambda>n. \<not> still_waiting resolve clock (started + timeout) n"] by blast
  show ?thesis
    using n first wait_from_skip [of n, OF first] wait_from_stop [OF n]
    by (intro exI [of _ n]) (simp add: wait_secrets_def)
qed

section \<open>Witnesses\<close>

definition ex_unit :: unit_status where
  "ex_unit = \<lparr>us_installed = True, us_enabled = ''enabled'', us_active = ''active''\<rparr>"

text \<open>Everything \<open>doctor\<close> checks is fine, and the context provider's specification has no colon.\<close>

definition ex_doctor :: "unit doctor_host" where
  "ex_doctor =
     \<lparr>dh_importers = ex_importers, dh_registry = [], dh_config = Inr ex_bad_context, dh_secrets = Inr [],
      dh_load_rules = (\<lambda>_. Inr []), dh_unit = Inr ex_unit\<rparr>"

lemma ex_doctor_parts:
  "build_provider ex_importers ex_bad_context [] = Inr \<lparr>ph_account_id = None\<rparr>"
  "build_llm_client ex_importers ex_bad_context [] = Inr (ex_answer, None)"
  "build_alerter ex_importers ex_bad_context [] = Inr ()"
  "t_local_classifier (sc_tiering ex_bad_context) = None"
  by (simp_all add: build_provider_def build_llm_client_def build_alerter_def load_provider_def load_llm_client_def
      load_alerter_def load_backend_def py_partition_def ex_importers_def ex_bad_context_def ex_config_def ex_backend_def
      materialize_backend_kwargs_def dict_update_def tiering_defaults_def)

lemma ex_doctor_healthy: "healthy ex_doctor ex_bad_context []"
  by (simp add: healthy_def ex_doctor_parts ex_doctor_def ex_unit_def unit_ok_def)


theorem doctor_spec_witness: "cr_exit (doctor ex_doctor) = 0"
  using doctor_spec [of ex_doctor] ex_doctor_healthy by (auto simp: ex_doctor_def)

definition ex_failing_reload :: "string list \<Rightarrow> run_result" where
  "ex_failing_reload cmd =
     (if cmd = [''systemctl'', ''--user'', ''daemon-reload''] then Failed ''Failed to connect to bus'' ''exit 1''
      else Completed \<lparr>cp_stdout = [], cp_stderr = []\<rparr>)"

theorem install_service_spec_witness:
  "snd (install_service_command ex_process_env (\<lambda>_. None) ex_failing_reload ''personal'' True) \<noteq> []"
proof -
  obtain r steps where run: "install_service_command ex_process_env (\<lambda>_. None) ex_failing_reload ''personal'' True = (r, steps)"
    by fastforce
  show ?thesis using install_service_spec [OF run refl refl] run by simp
qed

theorem pause_resume_spec_witness:
  "pause (Inr ex_setup) \<lparr>rh_files = (\<lambda>_. None), rh_db = empty_db, rh_daemon = None\<rparr> =
     (Inr not_running, \<lparr>rh_files = (\<lambda>_. None), rh_db = empty_db, rh_daemon = None\<rparr>)"
  using pause_resume_spec [where h = "\<lparr>rh_files = (\<lambda>_. None), rh_db = empty_db, rh_daemon = None\<rparr>" and cfg = ex_setup]
  by simp

text \<open>One second between the attempts, and the keyring never answers.\<close>

theorem wait_secrets_returns_witness:
  "\<exists>r. wait_secrets (\<lambda>_. ''locked'') (\<lambda>_. Inl (SecretsError ''locked'')) 0 (\<lambda>n. of_nat n) 120 = Some r"
  using wait_secrets_returns [where interval = 1 and clock = "\<lambda>n. of_nat n" and resolve = "\<lambda>_. Inl (SecretsError ''locked'')"
      and started = 0 and timeout = 120 and str = "\<lambda>_. ''locked''"]
  by auto

end
