(* ===== verification/Pipeline_Frames.thy ===== *)
theory Pipeline_Frames
  imports Tier2_Pipeline
begin

text \<open>
  Frames of the two composed pipelines: a relation every module, the tracing and the few calls around
  a pipeline keep is kept by the whole processing of a message. Proved once in the locale
  \<open>effect_frame\<close>; the loop uses it for what the store keeps and for which calls are made.
\<close>

context effect_frame begin

lemma keeps_wrapped:
  assumes "\<And>c e f. keeps R (trace_timed E c e f)"
  shows "(\<And>s p. s \<in> set ss \<Longrightarrow> keeps R (stage_fun s p)) \<Longrightarrow> keeps R (run_stages (wrap_stages E cid ss) p)"
    and "(\<And>p. keeps R (selector_fun sel p)) \<Longrightarrow> keeps R (selector_fun (wrap_selector E cid sel) p)"
  using assms by (auto simp: wrap_selector_def intro!: keeps_wrapped_stages keeps_tracing_selector)

lemma keeps_process_message:
  assumes traced: "\<And>c e f. keeps R (trace_timed E c e f)"
    and tier1: "\<And>p. keeps R (stage_fun (timestamp_filter E) p)"
      "\<And>p. keeps R (stage_fun (correlation_id_filter E) p)"
      "\<And>p. keeps R (stage_fun (apply_action_filter E b) p)"
      "\<And>p. keeps R (stage_fun (record_escalation_filter E) p)"
      "\<And>p. keeps R (stage_fun write_audit_entry_filter p)"
      "\<And>p. keeps R (stage_fun mark_processed_filter p)"
      "\<And>p. keeps R (selector_fun idempotency_gate_selector p)"
      "\<And>p. keeps R (selector_fun rule_evaluation_selector p)"
    and archive: "\<And>comps p. ra = Some comps \<Longrightarrow> keeps R (stage_fun (archive_receipt_augment E comps) p)"
  shows "keeps R (process_message E b msg rules d c force ra)"
proof -
  note wrapped = keeps_wrapped [OF traced]
  have routes: "keeps R (run q p)" if "(n, q) \<in> set (default_routes E b ra)" for n q p
    using that unfolding default_routes_def terminal_route_def escalate_route_def archive_route_def
    by (auto split: option.splits intro!: keeps_run wrapped(1) simp: tier1 archive)
  have part: "keeps R (run (process_part E b ra) p)" for p
    unfolding process_part_def
    by (intro keeps_run wrapped(1)) (auto simp: tier1 routes intro!: wrapped(2))
  have "keeps R (run (build_default_pipeline E b force ra) p)" for p
    unfolding build_default_pipeline_eq
    by (cases force) (auto simp: part keeps_ret tier1 intro!: keeps_run wrapped(2))
  then show ?thesis unfolding process_message_def by (intro keeps_bind keeps_ret)
qed

lemma keeps_escalate:
  assumes traced: "\<And>c e f. keeps R (trace_timed E c e f)"
    and tier2: "\<And>p. keeps R (stage_fun (timestamp_filter2 E) p)"
      "\<And>p. keeps R (stage_fun (correlation_id_filter2 E) p)"
      "\<And>p. keeps R (stage_fun (fetch_context_augment E) p)"
      "\<And>cats n p. keeps R (stage_fun (build_verdict_request_filter E cats n) p)"
      "\<And>p. keeps R (stage_fun (call_llm_augment E) p)"
      "\<And>p. keeps R (stage_fun record_llm_usage_filter p)"
      "\<And>cats p. keeps R (stage_fun (validate_verdict_filter cats) p)"
      "\<And>p. keeps R (stage_fun (apply_verdict_action_filter E b) p)"
      "\<And>p. keeps R (stage_fun (record_alert_only_filter E) p)"
      "\<And>p. keeps R (stage_fun (record_budget_exhausted_filter E) p)"
      "\<And>p. keeps R (stage_fun (create_draft_if_wanted_filter E b) p)"
      "\<And>p. keeps R (stage_fun write_audit_entry_filter2 p)"
      "\<And>p. keeps R (stage_fun (mark_processed_filter2 E) p)"
      "\<And>n p. keeps R (selector_fun (budget_gate_selector n) p)"
      "\<And>c1 c2 p. keeps R (selector_fun (confidence_band_selector c1 c2) p)"
    and around: "keeps R (call (C_Thread msg) (\<lambda>h. e_thread E h msg))" "keeps R (call C_Mailboxes (e_mailboxes E))"
    and quarantine: "\<And>e. keeps R (quarantine_message E msg e)"
  shows "keeps R (escalate_message_or_quarantine E b t msg)"
proof -
  note wrapped = keeps_wrapped [OF traced]
  have act: "keeps R (run (act_route E b) p)" for p
    unfolding act_route_def by (intro keeps_run wrapped(1)) (auto simp: tier2)
  have only: "keeps R (run (alert_only_route E b) p)" for p
    unfolding alert_only_route_def by (intro keeps_run wrapped(1)) (auto simp: tier2)
  have ok: "keeps R (run (budget_ok_route E b t) p)" for p
    unfolding budget_ok_route_def
    by (intro keeps_run wrapped(1)) (auto simp: tier2 act only intro!: wrapped(2))
  have ex: "keeps R (run (budget_exhausted_route E) p)" for p
    unfolding budget_exhausted_route_def by (intro keeps_run wrapped(1)) (auto simp: tier2)
  have "keeps R (run (build_tier2_pipeline E b t) p)" for p
    unfolding build_tier2_pipeline_def
    by (intro keeps_run wrapped(1)) (auto simp: tier2 ok ex intro!: wrapped(2))
  then have "keeps R (escalate_message E b t msg)"
    unfolding escalate_message_def process_tier2_message_def by (intro keeps_bind keeps_ret around)
  with quarantine show ?thesis
    unfolding escalate_message_or_quarantine_def by (intro keeps_try_except keeps_bind keeps_ret)
qed

end

end
