(* ===== verification/Daemon_Loop.thy ===== *)
theory Daemon_Loop
  imports Daemon_Control Pipeline_Frames
begin

text \<open>
  \<open>daemon/loop.py\<close>: the message loop and the control socket as one transition system. A
  daemon is the loop's position, the state shared with the socket, the stop event and the
  world. The loop awaits between its positions, so a request or a stop can come in at each;
  code between two awaits is one step. The loop's steps are the function \<open>loop_step\<close>; the
  relation \<open>daemon_step\<close> interleaves them with requests and the stop event.

  Lemmas: frames of a message's whole processing, and invariants of every reachable daemon.
\<close>

section \<open>Composition (run_daemon)\<close>

record loop_config =
  lc_env :: env
  lc_default_unmatched_action :: action
  lc_classifier :: "classifier option"
  lc_tiering :: tiering_config
  lc_observe :: bool
  lc_receipt_archive :: "receipt_archive_components option"
  lc_cursor_account_id :: "string option"
  lc_checkpointed :: bool

definition loop_backend :: "loop_config \<Rightarrow> backend" where
  "loop_backend cfg = (if lc_observe cfg then Observe else Live)"

text \<open>
  Positions: the top of the while loop; writing the queued control-plane events; polling;
  before a message of the batch (handled and remaining ones); before the Tier 2 call of an
  escalated message; before the checkpoint is acknowledged; returned; ended by an exception.
\<close>

datatype loop_pc =
    At_Top
  | Draining "pending_audit_event list"
  | Polling
  | In_Batch "rule list" "message list" "message list" "string option"
  | In_Tier2 "rule list" "message list" message "message list" "string option"
  | Acking "message list" "string option"
  | Stopped
  | Crashed exn

record daemon =
  d_pc :: loop_pc
  d_shared :: shared_state
  d_stop :: bool
  d_world :: world

definition start_daemon :: "string \<Rightarrow> rule list \<Rightarrow> world \<Rightarrow> daemon" where
  "start_daemon started_at rules w =
     \<lparr>d_pc = At_Top, d_shared = \<lparr>sh_daemon = fresh_daemon_state started_at, sh_rules = rules\<rparr>,
      d_stop = False, d_world = w\<rparr>"

section \<open>The daily budget alert\<close>

definition budget_alert_body :: "int \<Rightarrow> int \<Rightarrow> string" where
  "budget_alert_body calls budget =
     ''sporkd has used '' @ py_str_int calls @ ''/'' @ py_str_int budget @
     '' Tier 2 calls today; further escalations are being skipped until the budget resets.''"

text \<open>Returns the new \<open>budget_exhausted_alert_date\<close>.\<close>

definition check_daily_budget_alert ::
  "env \<Rightarrow> tiering_config \<Rightarrow> string option \<Rightarrow> string option prog" where
  "check_daily_budget_alert E t alert_date =
     bind (now E) (\<lambda>ts. let today = take 10 ts in
       if alert_date = Some today then ret alert_date
       else bind (read_db (\<lambda>db. get_llm_usage db today))
              (\<lambda>usage. if has_budget_remaining usage (t_daily_call_budget t) then ret alert_date
                else bind (new_correlation_id E)
                       (\<lambda>cid. bind (alert E cid ''Daily LLM budget exhausted''
                                (budget_alert_body (us_calls usage) (t_daily_call_budget t)) Critical)
                          (\<lambda>_. ret (Some today)))))"

section \<open>Loop steps\<close>

definition move_to :: "loop_pc \<Rightarrow> daemon \<Rightarrow> daemon" where
  "move_to pc d = d\<lparr>d_pc := pc\<rparr>"

text \<open>Past the drain: a paused loop sleeps and starts over, otherwise it polls.\<close>

definition enter_cycle :: "daemon \<Rightarrow> daemon" where
  "enter_cycle d = move_to (if ds_paused (sh_daemon (d_shared d)) then At_Top else Polling) d"

definition after_message ::
  "rule list \<Rightarrow> message list \<Rightarrow> message list \<Rightarrow> string option \<Rightarrow> loop_pc" where
  "after_message rules handled_msgs rest cp =
     (if rest = [] then Acking handled_msgs cp else In_Batch rules handled_msgs rest cp)"

definition step_top :: "daemon \<Rightarrow> daemon" where
  "step_top d =
     (if d_stop d then move_to Stopped d
      else let pending = ds_pending (sh_daemon (d_shared d)) in
        if pending \<noteq> []
        then d\<lparr>d_pc := Draining pending,
               d_shared := (d_shared d)\<lparr>sh_daemon := (sh_daemon (d_shared d))\<lparr>ds_pending := []\<rparr>\<rparr>\<rparr>
        else enter_cycle d)"

definition step_drain :: "env \<Rightarrow> pending_audit_event list \<Rightarrow> daemon \<Rightarrow> daemon" where
  "step_drain E evs d =
     (case evs of
        [] \<Rightarrow> enter_cycle d
      | e # es \<Rightarrow>
          let w = d_world d; ts = e_now E (hist w);
              w' = (log_call C_Now w)\<lparr>wdb := write_control_plane_audit_entry ts (pe_event e)
                                               (pe_detail_json e) (wdb w)\<rparr>;
              d' = d\<lparr>d_world := w'\<rparr>
          in if es = [] then enter_cycle d' else move_to (Draining es) d')"

definition step_poll :: "loop_config \<Rightarrow> daemon \<Rightarrow> daemon" where
  "step_poll cfg d =
     (let w = d_world d; d' = d\<lparr>d_world := log_call C_Poll w\<rparr> in
      case e_poll (lc_env cfg) (hist w) of
        Inl e \<Rightarrow> move_to (Crashed e) d'
      | Inr batch \<Rightarrow>
          let cp = (if lc_checkpointed cfg then mb_checkpoint batch else None);
              rules = sh_rules (d_shared d)
          in if mb_messages batch = [] then move_to (Acking [] cp) d'
             else move_to (In_Batch rules [] (mb_messages batch) cp) d')"

definition step_message ::
  "loop_config \<Rightarrow> rule list \<Rightarrow> message list \<Rightarrow> message \<Rightarrow> message list \<Rightarrow> string option \<Rightarrow> daemon \<Rightarrow> daemon" where
  "step_message cfg rules done_msgs m rest cp d =
     (if d_stop d then move_to Stopped d
      else case process_message (lc_env cfg) (loop_backend cfg) m rules
                  (lc_default_unmatched_action cfg) (lc_classifier cfg) False
                  (lc_receipt_archive cfg) (d_world d) of
        (Inl e, w) \<Rightarrow> move_to (Crashed e) (d\<lparr>d_world := w\<rparr>)
      | (Inr verdict, w) \<Rightarrow>
          move_to (if \<not> lc_observe cfg \<and>
                      (case verdict of None \<Rightarrow> False | Some v \<Rightarrow> a_type (rv_action v) = Escalate)
                   then In_Tier2 rules done_msgs m rest cp
                   else after_message rules (done_msgs @ [m]) rest cp)
            (d\<lparr>d_world := w\<rparr>))"

definition step_tier2 ::
  "loop_config \<Rightarrow> rule list \<Rightarrow> message list \<Rightarrow> message \<Rightarrow> message list \<Rightarrow> string option \<Rightarrow> daemon \<Rightarrow> daemon" where
  "step_tier2 cfg rules done_msgs m rest cp d =
     (case escalate_message_or_quarantine (lc_env cfg) (loop_backend cfg) (lc_tiering cfg) m (d_world d) of
        (Inl e, w) \<Rightarrow> move_to (Crashed e) (d\<lparr>d_world := w\<rparr>)
      | (Inr _, w) \<Rightarrow>
          (case check_daily_budget_alert (lc_env cfg) (lc_tiering cfg)
                  (ds_budget_exhausted_alert_date (sh_daemon (d_shared d))) w of
             (Inl e, w') \<Rightarrow> move_to (Crashed e) (d\<lparr>d_world := w'\<rparr>)
           | (Inr day, w') \<Rightarrow>
               move_to (after_message rules (done_msgs @ [m]) rest cp)
                 (d\<lparr>d_world := w',
                   d_shared := (d_shared d)\<lparr>sh_daemon :=
                     (sh_daemon (d_shared d))\<lparr>ds_budget_exhausted_alert_date := day\<rparr>\<rparr>\<rparr>)))"

definition step_ack :: "loop_config \<Rightarrow> string option \<Rightarrow> daemon \<Rightarrow> daemon" where
  "step_ack cfg cp d =
     move_to At_Top
       (case (cp, lc_cursor_account_id cfg) of
          (Some c, Some account) \<Rightarrow>
            d\<lparr>d_world := (d_world d)\<lparr>wdb := set_cursor account c (wdb (d_world d))\<rparr>\<rparr>
        | _ \<Rightarrow> d)"

fun loop_step :: "loop_config \<Rightarrow> daemon \<Rightarrow> daemon" where
  "loop_step cfg d =
     (case d_pc d of
        At_Top \<Rightarrow> step_top d
      | Draining evs \<Rightarrow> step_drain (lc_env cfg) evs d
      | Polling \<Rightarrow> step_poll cfg d
      | In_Batch rules done_msgs todo cp \<Rightarrow>
          (case todo of [] \<Rightarrow> move_to (Acking done_msgs cp) d
           | m # rest \<Rightarrow> step_message cfg rules done_msgs m rest cp d)
      | In_Tier2 rules done_msgs m rest cp \<Rightarrow> step_tier2 cfg rules done_msgs m rest cp d
      | Acking batch cp \<Rightarrow> step_ack cfg cp d
      | Stopped \<Rightarrow> d
      | Crashed e \<Rightarrow> d)"

declare loop_step.simps [simp del]

section \<open>The transition system\<close>

datatype event_label = Loop | Ipc string | Stop_Event

fun running :: "loop_pc \<Rightarrow> bool" where
  "running Stopped = False"
| "running (Crashed e) = False"
| "running pc = True"

definition ipc_step :: "loop_config \<Rightarrow> ipc_request \<Rightarrow> daemon \<Rightarrow> daemon" where
  "ipc_step cfg req d =
     (let w = d_world d in
      d\<lparr>d_shared := snd (ipc_dispatch (e_str (lc_env cfg)) (e_load_rules (lc_env cfg) (hist w)) req
                           (d_shared d)),
        d_world := (if iq_command req = ''reload'' then log_call C_Load_Rules w else w)\<rparr>)"

inductive daemon_step :: "loop_config \<Rightarrow> daemon \<Rightarrow> event_label \<Rightarrow> daemon \<Rightarrow> bool" for cfg where
  loop: "running (d_pc d) \<Longrightarrow> daemon_step cfg d Loop (loop_step cfg d)"
| ipc: "running (d_pc d) \<Longrightarrow> daemon_step cfg d (Ipc (iq_command req)) (ipc_step cfg req d)"
| stop: "daemon_step cfg d Stop_Event (d\<lparr>d_stop := True\<rparr>)"

inductive daemon_steps :: "loop_config \<Rightarrow> daemon \<Rightarrow> event_label list \<Rightarrow> daemon \<Rightarrow> bool" for cfg d where
  none: "daemon_steps cfg d [] d"
| more: "daemon_steps cfg d ls d1 \<Longrightarrow> daemon_step cfg d1 l d2 \<Longrightarrow> daemon_steps cfg d (ls @ [l]) d2"

inductive_cases daemon_step_LoopE [elim]: "daemon_step cfg d Loop d'"
inductive_cases daemon_step_IpcE [elim]: "daemon_step cfg d (Ipc c) d'"
inductive_cases daemon_step_StopE [elim]: "daemon_step cfg d Stop_Event d'"
inductive_simps daemon_step_simps: "daemon_step cfg d l d'"

section \<open>Frames of a message's processing\<close>

text \<open>
  What every run of the two pipelines keeps: the cursors, every processed mark, the audit log
  so far and the store's invariant.
\<close>

definition advances :: "world \<Rightarrow> world \<Rightarrow> bool" where
  "advances w w' \<longleftrightarrow> same_cursor w w' \<and> processed_kept w w' \<and> audit_grows w w' \<and> db_ok_kept w w'"

lemmas advances_defs = advances_def frame_defs

interpretation advancing: effect_frame advances
  by unfold_locales (auto simp: advances_defs)

lemma same_db_advances [intro]: "keeps same_db m \<Longrightarrow> keeps advances m"
  by (simp add: keeps_def advances_defs)

lemma write_audit_advances: "keeps advances (write_db (write_audit_entry ts j ev dt))"
  by (auto simp: keeps_def write_db_def advances_defs has_processed_def write_audit_entry_def Let_def
      intro: db_ok_write_audit [unfolded write_audit_entry_def Let_def])

lemma mark_processed_advances: "keeps advances (write_db (mark_processed j row))"
  by (auto simp: keeps_def write_db_def advances_defs has_processed_def mark_processed_def
      intro: db_ok_mark_processed [unfolded mark_processed_def])

lemma learn_advances: "keeps advances (write_db (learn_known_sender dm c f a))"
  by (auto simp: keeps_def write_db_def advances_defs has_processed_def learn_known_sender_def
      intro: db_ok_learn [unfolded learn_known_sender_def])

lemma record_call_advances: "keeps advances (update_db (record_llm_call day i t))"
proof (rule keepsI)
  fix w r w'
  assume u: "update_db (record_llm_call day i t) w = (r, w')"
  show "advances w w'"
  proof (cases "record_llm_call day i t (wdb w)")
    case (Inl e)
    with u show ?thesis by (simp add: update_db_def advancing.frame_refl)
  next
    case (Inr db')
    with u have w': "w' = w\<lparr>wdb := db'\<rparr>" by (simp add: update_db_def)
    from record_only_usage [OF Inr] have d: "db' = (wdb w)\<lparr>db_llm_usage := db_llm_usage db'\<rparr>"
      by (simp add: only_usage_written_def)
    have "db_push_cursor db' = db_push_cursor (wdb w)" "db_processed db' = db_processed (wdb w)"
        "db_audit_log db' = db_audit_log (wdb w)"
      by (subst d, simp)+
    with w' db_ok_record_llm_call [OF _ Inr] show ?thesis
      by (simp add: advances_defs has_processed_def)
  qed
qed

lemmas advances_intros = advancing.keeps_bind advancing.keeps_ret advancing.keeps_throw
  advancing.keeps_read_db advancing.keeps_of_sum advancing.keeps_try_except
  keeps_call_db [THEN same_db_advances] write_audit_advances mark_processed_advances
  learn_advances record_call_advances execute_same_db [THEN same_db_advances]
  alert_same_db [THEN same_db_advances] now_same_db [THEN same_db_advances]
  new_id_same_db [THEN same_db_advances] trace_timed_same_db [THEN same_db_advances]
  evaluate_same_db [THEN same_db_advances]

lemma tier1_stage_advances:
  "keeps advances (stage_fun (timestamp_filter E) p)"
  "keeps advances (stage_fun (correlation_id_filter E) p)"
  "keeps advances (stage_fun (apply_action_filter E b) p)"
  "keeps advances (stage_fun (record_escalation_filter E) p)"
  "keeps advances (stage_fun write_audit_entry_filter p)"
  "keeps advances (stage_fun mark_processed_filter p)"
  "keeps advances (selector_fun idempotency_gate_selector p)"
  "keeps advances (selector_fun rule_evaluation_selector p)"
  by (auto simp: stage_defs Let_def split: option.splits intro!: advances_intros)

lemma archive_stage_advances: "keeps advances (stage_fun (archive_receipt_augment E comps) p)"
  by (auto simp: archive_receipt_augment_def resolve_extraction_def Let_def split: option.splits
      intro!: advances_intros archive_pdf_same_db [THEN same_db_advances]
        apply_keywords_same_db [THEN same_db_advances])

lemma tier2_stage_advances:
  "keeps advances (stage_fun (timestamp_filter2 E) p)"
  "keeps advances (stage_fun (correlation_id_filter2 E) p)"
  "keeps advances (stage_fun (fetch_context_augment E) p)"
  "keeps advances (stage_fun (build_verdict_request_filter E cats n) p)"
  "keeps advances (stage_fun (call_llm_augment E) p)"
  "keeps advances (stage_fun record_llm_usage_filter p)"
  "keeps advances (stage_fun (validate_verdict_filter cats) p)"
  "keeps advances (stage_fun (apply_verdict_action_filter E b) p)"
  "keeps advances (stage_fun (record_alert_only_filter E) p)"
  "keeps advances (stage_fun (record_budget_exhausted_filter E) p)"
  "keeps advances (stage_fun (create_draft_if_wanted_filter E b) p)"
  "keeps advances (stage_fun write_audit_entry_filter2 p)"
  "keeps advances (stage_fun (mark_processed_filter2 E) p)"
  "keeps advances (selector_fun (budget_gate_selector n') p)"
  "keeps advances (selector_fun (confidence_band_selector c1 c2) p)"
  by (auto simp: tier2_stage_defs tier2_selector_defs Let_def split: option.splits backend.splits
      intro!: advances_intros)

lemma process_message_advances: "keeps advances (process_message E b msg rules d c force ra)"
  by (intro advancing.keeps_process_message)
    (auto simp: tier1_stage_advances archive_stage_advances intro!: advances_intros)

lemma escalate_advances: "keeps advances (escalate_message_or_quarantine E b t msg)"
  by (intro advancing.keeps_escalate)
    (auto simp: tier2_stage_advances quarantine_message_def Let_def intro!: advances_intros)

lemma check_alert_same_db: "keeps same_db (check_daily_budget_alert E t day)"
  by (auto simp: check_daily_budget_alert_def Let_def
      intro!: same_db.keeps_bind same_db.keeps_ret same_db.keeps_read_db now_same_db new_id_same_db
        alert_same_db)

section \<open>The control-plane entries of the audit log\<close>

definition is_control :: "string \<Rightarrow> bool" where
  "is_control ev \<longleftrightarrow> ev = ''daemon_paused'' \<or> ev = ''daemon_resumed''"

definition control_log :: "state_db \<Rightarrow> pending_audit_event list" where
  "control_log db =
     map (\<lambda>e. \<lparr>pe_event = ae_event e, pe_detail_json = ae_detail_json e\<rparr>)
       (filter (\<lambda>e. is_control (ae_event e)) (db_audit_log db))"

lemma control_log_write [simp]:
  "control_log (write_audit_entry ts j ev dt db) =
     control_log db @ (if is_control ev then [\<lparr>pe_event = ev, pe_detail_json = dt\<rparr>] else [])"
  by (simp add: control_log_def write_audit_entry_def Let_def)

lemma control_log_other [simp]:
  "control_log (mark_processed j row db) = control_log db"
  "control_log (set_cursor a c db) = control_log db"
  by (simp_all add: control_log_def mark_processed_def set_cursor_def)

lemma control_log_audit: "db_audit_log db' = db_audit_log db \<Longrightarrow> control_log db' = control_log db"
  by (simp add: control_log_def)

lemma control_senders: "only_senders_written w w' \<Longrightarrow> control_log (wdb w') = control_log (wdb w)"
  by (rule control_log_audit) (simp add: only_senders_written_def)

lemma control_usage: "only_usage_written db db' \<Longrightarrow> control_log db' = control_log db"
  by (rule control_log_audit) (metis only_usage_written_def state_db.select_convs(3) state_db.surjective
      state_db.update_convs(5))

lemma control_tier1: "tier1_outcome ts msg v ra w w' \<Longrightarrow> control_log (wdb w') = control_log (wdb w)"
  by (cases "a_type (rv_action v)")
    (auto simp: tier1_outcome_def handled_def is_control_def dest: control_senders)

lemma process_message_control:
  assumes "process_message E b msg rules d c False ra w = (r, w')"
  shows "control_log (wdb w') = control_log (wdb w)"
proof (cases "has_processed (wdb w) (message_id msg)")
  case True
  with assms show ?thesis by (auto simp: process_gate)
next
  case False
  with assms obtain t where "process_message E b msg rules d c True ra (log_call t w) = (r, w')"
    by (auto simp: process_gate)
  from process_forced [OF this] show ?thesis
    by (cases r) (auto simp: Let_def dest: control_senders control_tier1)
qed

definition pending_escalation :: "state_db \<Rightarrow> string \<Rightarrow> bool" where
  "pending_escalation db j \<longleftrightarrow>
     (\<exists>e \<in> set (db_audit_log db). ae_jmap_id e = j \<and> ae_event e = ''escalated_pending_tier2'')"

lemma process_message_marks:
  assumes "process_message E b msg rules d c False ra w = (Inr verdict, w')"
  shows "has_processed (wdb w') (message_id msg) \<or>
    ((\<exists>v. verdict = Some v \<and> a_type (rv_action v) = Escalate) \<and>
     pending_escalation (wdb w') (message_id msg))"
proof (cases "has_processed (wdb w) (message_id msg)")
  case True
  with assms show ?thesis by (auto simp: process_gate)
next
  case False
  with assms obtain t where
    "process_message E b msg rules d c True ra (log_call t w) = (Inr verdict, w')"
    by (auto simp: process_gate)
  from process_forced [OF this] obtain v ts where v: "verdict = Some v"
    and o: "tier1_outcome ts msg v ra w w'" by (auto simp: Let_def)
  from o v show ?thesis
    by (cases "a_type (rv_action v)")
      (auto simp: tier1_outcome_def handled_def has_processed_def mark_processed_def
        pending_escalation_def write_audit_entry_def Let_def)
qed

lemma banded_db:
  assumes "banded E b t msg to ctx boxes ts w rv w'"
  shows "\<exists>req res band db1. usage_recorded E req ts (wdb w) res db1 \<and>
    (wdb w' = db1 \<or>
     (\<exists>v. wdb w' = tier2_done E msg (Some v) ts (band_event band) (Some (band_detail band v)) db1))"
proof -
  obtain req res band db1 cs where us: "usage_recorded E req ts (wdb w) res db1"
    and out: "case rv of Inl e \<Rightarrow> wdb w' = db1
      | Inr v \<Rightarrow> v = lr_verdict res \<and> cs = band_calls b band msg v \<and>
          wdb w' = tier2_done E msg (Some v) ts (band_event band) (Some (band_detail band v)) db1"
    using assms unfolding banded_def by blast
  from out have "wdb w' = db1 \<or>
     (\<exists>v. wdb w' = tier2_done E msg (Some v) ts (band_event band) (Some (band_detail band v)) db1)"
    by (cases rv) auto
  with us show ?thesis by blast
qed

lemma process_tier2_control:
  assumes "process_tier2_message E b t msg to ctx boxes w = (r, w')"
  shows "control_log (wdb w') = control_log (wdb w)"
proof -
  have fin: "control_log (tier2_done E msg v ts ev dt db) = control_log db" if "\<not> is_control ev" for v ts ev dt db
    using that by (simp add: tier2_done_def)
  have ev: "\<not> is_control (band_event band)" "\<not> is_control ''tier2_budget_exhausted''" for band
    by (simp_all add: band_event_def is_control_def)
  show ?thesis
  proof (cases "has_budget_remaining (get_llm_usage (wdb w) (take 10 (e_now E (hist w))))
      (t_daily_call_budget t)")
    case False
    with tier2_cases [OF assms] fin [OF ev(2)] show ?thesis by (cases r) auto
  next
    case True
    from tier2_cases [OF assms] True obtain w1 where w1: "wdb w1 = wdb w"
      and alt: "(\<exists>e. refused E t msg to ctx boxes (e_now E (hist w)) w1 e w') \<or>
        (\<exists>rv. banded E b t msg to ctx boxes (e_now E (hist w)) w1 rv w')" by auto
    from alt show ?thesis
    proof
      assume "\<exists>e. refused E t msg to ctx boxes (e_now E (hist w)) w1 e w'"
      with w1 show ?thesis by (auto simp: refused_def dest!: usage_recorded_only control_usage)
    next
      assume "\<exists>rv. banded E b t msg to ctx boxes (e_now E (hist w)) w1 rv w'"
      then obtain req res band db1 where us: "usage_recorded E req (e_now E (hist w)) (wdb w1) res db1"
        and out: "wdb w' = db1 \<or> (\<exists>v. wdb w' = tier2_done E msg (Some v) (e_now E (hist w))
            (band_event band) (Some (band_detail band v)) db1)"
        using banded_db by blast
      from control_usage [OF usage_recorded_only [OF us]] out fin [OF ev(1)] w1 show ?thesis by auto
    qed
  qed
qed

lemma escalate_control:
  assumes "escalate_message_or_quarantine E b t msg w = (r, w')"
  shows "control_log (wdb w') = control_log (wdb w)"
proof -
  have em: "control_log (wdb w2) = control_log (wdb w)" if "escalate_message E b t msg w = (r2, w2)" for r2 w2
    using that by (cases r2) (fastforce simp: escalate_message_def prog_simps dest: process_tier2_control)+
  obtain r1 w1 where e1: "escalate_message E b t msg w = (r1, w1)" by (cases "escalate_message E b t msg w")
  show ?thesis
  proof (cases "\<exists>e. r1 = Inl e \<and> quarantinable e")
    case True
    then obtain e where "r1 = Inl e" "quarantinable e" by blast
    with assms e1 have "quarantine_message E msg e w1 = (r, w')"
      by (simp add: escalate_message_or_quarantine_def try_except_def bind_def)
    from quarantine_run(1) [OF this] em [OF e1] show ?thesis
      by (simp add: quarantined_db_def is_control_def)
  next
    case False
    with assms e1 have "w' = w1"
      by (cases r1) (auto simp: escalate_message_or_quarantine_def try_except_def bind_def ret_def)
    with em [OF e1] show ?thesis by simp
  qed
qed

lemma escalate_marks:
  assumes "escalate_message_or_quarantine E b t msg w = (Inr x, w')"
  shows "has_processed (wdb w') (message_id msg)"
proof -
  obtain r1 w1 where e1: "escalate_message E b t msg w = (r1, w1)" by (cases "escalate_message E b t msg w")
  show ?thesis
  proof (cases r1)
    case (Inl e)
    show ?thesis
    proof (cases "quarantinable e")
      case True
      with assms e1 Inl have "quarantine_message E msg e w1 = (Inr x, w')"
        by (simp add: escalate_message_or_quarantine_def try_except_def bind_def)
      from quarantine_run(1) [OF this] show ?thesis
        by (simp add: quarantined_db_def has_processed_def mark_processed_def)
    next
      case False
      with assms e1 Inl show ?thesis
        by (simp add: escalate_message_or_quarantine_def try_except_def bind_def)
    qed
  next
    case (Inr v)
    with assms e1 have "w' = w1"
      by (auto simp: escalate_message_or_quarantine_def try_except_def bind_def ret_def)
    with escalate_message_run [OF e1] Inr show ?thesis by simp
  qed
qed

section \<open>Invariants of the daemon\<close>

definition grows :: "world \<Rightarrow> world \<Rightarrow> bool" where
  "grows w w' \<longleftrightarrow> processed_kept w w' \<and> audit_grows w w' \<and> db_ok_kept w w'"

lemma grows_refl [simp]: "grows w w"
  by (simp add: grows_def frame_defs)

lemma grows_trans: "grows w1 w2 \<Longrightarrow> grows w2 w3 \<Longrightarrow> grows w1 w3"
  by (auto simp: grows_def frame_defs)

lemma advances_grows: "advances w w' \<Longrightarrow> grows w w'"
  by (simp add: advances_def grows_def)

lemma same_db_grows: "wdb w' = wdb w \<Longrightarrow> grows w w'"
  by (simp add: grows_def frame_defs)

lemma move_to_sel [simp]:
  "d_pc (move_to pc d) = pc" "d_shared (move_to pc d) = d_shared d"
  "d_stop (move_to pc d) = d_stop d" "d_world (move_to pc d) = d_world d"
  by (simp_all add: move_to_def)

lemma enter_cycle_sel [simp]:
  "d_shared (enter_cycle d) = d_shared d" "d_stop (enter_cycle d) = d_stop d"
  "d_world (enter_cycle d) = d_world d"
  "d_pc (enter_cycle d) = (if ds_paused (sh_daemon (d_shared d)) then At_Top else Polling)"
  by (simp_all add: enter_cycle_def)

lemma control_write_grows:
  "grows w ((log_call C_Now w)\<lparr>wdb := write_control_plane_audit_entry ts ev dt (wdb w)\<rparr>)"
  by (auto simp: grows_def frame_defs has_processed_def write_control_plane_audit_entry_def
      write_audit_entry_def Let_def intro: db_ok_write_audit [unfolded write_audit_entry_def Let_def])

lemma set_cursor_grows: "grows w (w\<lparr>wdb := set_cursor a c (wdb w)\<rparr>)"
  by (auto simp: grows_def frame_defs has_processed_def set_cursor_def
      intro: db_ok_set_cursor [unfolded set_cursor_def])

lemma step_message_grows: "grows (d_world d) (d_world (step_message cfg rules dm m rest cp d))"
  using keepsD [OF process_message_advances]
  by (auto simp: step_message_def split: prod.splits sum.splits intro!: advances_grows)

lemma step_tier2_grows: "grows (d_world d) (d_world (step_tier2 cfg rules dm m rest cp d))"
proof -
  obtain r w1 where e: "escalate_message_or_quarantine (lc_env cfg) (loop_backend cfg) (lc_tiering cfg) m
      (d_world d) = (r, w1)"
    by (cases "escalate_message_or_quarantine (lc_env cfg) (loop_backend cfg) (lc_tiering cfg) m (d_world d)")
  have g1: "grows (d_world d) w1" by (rule advances_grows [OF keepsD [OF escalate_advances e]])
  let ?day = "ds_budget_exhausted_alert_date (sh_daemon (d_shared d))"
  obtain r2 w2 where c: "check_daily_budget_alert (lc_env cfg) (lc_tiering cfg) ?day w1 = (r2, w2)"
    by (cases "check_daily_budget_alert (lc_env cfg) (lc_tiering cfg) ?day w1")
  have g2: "grows w1 w2"
    using keepsD [OF check_alert_same_db c] by (intro same_db_grows) (simp add: same_db_def)
  from e c g1 grows_trans [OF g1 g2] show ?thesis
    by (cases r; cases r2) (simp_all add: step_tier2_def)
qed

lemma loop_step_grows: "grows (d_world d) (d_world (loop_step cfg d))"
proof (cases "d_pc d")
  case At_Top
  then show ?thesis by (simp add: loop_step.simps step_top_def Let_def)
next
  case (Draining evs)
  then show ?thesis
    by (cases evs) (auto simp: loop_step.simps step_drain_def Let_def control_write_grows)
next
  case Polling
  then show ?thesis
    by (auto simp: loop_step.simps step_poll_def Let_def split: sum.splits intro!: same_db_grows)
next
  case (In_Batch rules dm todo cp)
  then show ?thesis by (cases todo) (simp_all add: loop_step.simps step_message_grows)
next
  case (In_Tier2 rules dm m rest cp)
  then show ?thesis by (simp add: loop_step.simps step_tier2_grows)
next
  case (Acking batch cp)
  then show ?thesis
    by (auto simp: loop_step.simps step_ack_def set_cursor_grows split: option.splits)
qed (simp_all add: loop_step.simps)

lemma daemon_step_grows: "daemon_step cfg d l d' \<Longrightarrow> grows (d_world d) (d_world d')"
  by (auto simp: daemon_step_simps ipc_step_def Let_def loop_step_grows intro: same_db_grows)

lemma daemon_steps_grows: "daemon_steps cfg d ls d' \<Longrightarrow> grows (d_world d) (d_world d')"
  by (induction rule: daemon_steps.induct) (auto intro: grows_trans daemon_step_grows)

text \<open>The queue of control-plane events.\<close>

fun drain_rest :: "loop_pc \<Rightarrow> pending_audit_event list" where
  "drain_rest (Draining evs) = evs"
| "drain_rest pc = []"

definition control_events :: "daemon \<Rightarrow> pending_audit_event list" where
  "control_events d =
     control_log (wdb (d_world d)) @ drain_rest (d_pc d) @ ds_pending (sh_daemon (d_shared d))"

definition queue_ok :: "daemon \<Rightarrow> bool" where
  "queue_ok d \<longleftrightarrow>
     (\<forall>e \<in> set (drain_rest (d_pc d) @ ds_pending (sh_daemon (d_shared d))). is_control (pe_event e))"

fun label_events :: "event_label \<Rightarrow> pending_audit_event list" where
  "label_events (Ipc command) = queued_by command"
| "label_events l = []"

lemma drain_rest_after [simp]: "drain_rest (after_message rules dm rest cp) = []"
  by (simp add: after_message_def)

lemma step_message_control:
  "control_log (wdb (d_world (step_message cfg rules dm m rest cp d))) = control_log (wdb (d_world d)) \<and>
   drain_rest (d_pc (step_message cfg rules dm m rest cp d)) = [] \<and>
   d_shared (step_message cfg rules dm m rest cp d) = d_shared d"
  using process_message_control
  by (auto simp: step_message_def split: prod.splits sum.splits)

lemma step_tier2_control:
  "control_log (wdb (d_world (step_tier2 cfg rules dm m rest cp d))) = control_log (wdb (d_world d)) \<and>
   drain_rest (d_pc (step_tier2 cfg rules dm m rest cp d)) = [] \<and>
   ds_pending (sh_daemon (d_shared (step_tier2 cfg rules dm m rest cp d))) = ds_pending (sh_daemon (d_shared d))"
proof -
  obtain r w1 where e: "escalate_message_or_quarantine (lc_env cfg) (loop_backend cfg) (lc_tiering cfg) m
      (d_world d) = (r, w1)"
    by (cases "escalate_message_or_quarantine (lc_env cfg) (loop_backend cfg) (lc_tiering cfg) m (d_world d)")
  let ?day = "ds_budget_exhausted_alert_date (sh_daemon (d_shared d))"
  obtain r2 w2 where c: "check_daily_budget_alert (lc_env cfg) (lc_tiering cfg) ?day w1 = (r2, w2)"
    by (cases "check_daily_budget_alert (lc_env cfg) (lc_tiering cfg) ?day w1")
  have "wdb w2 = wdb w1" using keepsD [OF check_alert_same_db c] by (simp add: same_db_def)
  with e c escalate_control [OF e] show ?thesis by (cases r; cases r2) (simp_all add: step_tier2_def)
qed

lemma loop_step_control:
  assumes "queue_ok d"
  shows "control_events (loop_step cfg d) = control_events d \<and> queue_ok (loop_step cfg d)"
proof (cases "d_pc d")
  case At_Top
  with assms show ?thesis
    by (auto simp: loop_step.simps step_top_def Let_def control_events_def queue_ok_def)
next
  case (Draining evs)
  show ?thesis
  proof (cases evs)
    case Nil
    with Draining assms show ?thesis
      by (auto simp: loop_step.simps step_drain_def control_events_def queue_ok_def)
  next
    case (Cons e es)
    with Draining assms have "is_control (pe_event e)" by (simp add: queue_ok_def)
    with Draining Cons assms show ?thesis
      by (auto simp: loop_step.simps step_drain_def control_events_def queue_ok_def Let_def
          write_control_plane_audit_entry_def)
  qed
next
  case Polling
  with assms show ?thesis
    by (auto simp: loop_step.simps step_poll_def Let_def control_events_def queue_ok_def
        split: sum.splits)
next
  case (In_Batch rules dm todo cp)
  with assms show ?thesis
    by (cases todo) (auto simp: loop_step.simps step_message_control control_events_def queue_ok_def)
next
  case (In_Tier2 rules dm m rest cp)
  with assms show ?thesis
    by (auto simp: loop_step.simps step_tier2_control control_events_def queue_ok_def)
next
  case (Acking batch cp)
  with assms show ?thesis
    by (auto simp: loop_step.simps step_ack_def control_events_def queue_ok_def split: option.splits)
qed (use assms in \<open>simp_all add: loop_step.simps\<close>)

lemma daemon_step_control:
  assumes "daemon_step cfg d l d'" and "queue_ok d"
  shows "control_events d' = control_events d @ label_events l \<and> queue_ok d'"
  using assms
proof cases
  case loop
  with loop_step_control [OF assms(2)] show ?thesis by simp
next
  case (ipc req)
  obtain resp s' where dp: "ipc_dispatch (e_str (lc_env cfg)) (e_load_rules (lc_env cfg) (hist (d_world d)))
      req (d_shared d) = (resp, s')" by fastforce
  have "\<forall>e \<in> set (queued_by c). is_control (pe_event e)" for c
    by (auto simp: queued_by_def is_control_def paused_event_def resumed_event_def)
  with ipc dispatch_pending [OF dp] dp assms(2) show ?thesis
    by (auto simp: ipc_step_def Let_def control_events_def queue_ok_def)
next
  case stop
  with assms(2) show ?thesis by (simp add: control_events_def queue_ok_def)
qed

lemma daemon_steps_control:
  "daemon_steps cfg d ls d' \<Longrightarrow> queue_ok d \<Longrightarrow>
   control_events d' = control_events d @ concat (map label_events ls) \<and> queue_ok d'"
  by (induction rule: daemon_steps.induct) (auto dest: daemon_step_control)

text \<open>The handled part of the batch under way.\<close>

definition handled_message :: "loop_config \<Rightarrow> state_db \<Rightarrow> message \<Rightarrow> bool" where
  "handled_message cfg db m \<longleftrightarrow>
     has_processed db (message_id m) \<or> (lc_observe cfg \<and> pending_escalation db (message_id m))"

fun handled_part :: "loop_pc \<Rightarrow> message list" where
  "handled_part (In_Batch rules dm todo cp) = dm"
| "handled_part (In_Tier2 rules dm m rest cp) = dm"
| "handled_part (Acking batch cp) = batch"
| "handled_part pc = []"

definition batch_ok :: "loop_config \<Rightarrow> daemon \<Rightarrow> bool" where
  "batch_ok cfg d \<longleftrightarrow> (\<forall>m \<in> set (handled_part (d_pc d)). handled_message cfg (wdb (d_world d)) m)"

lemma handled_grows: "grows w w' \<Longrightarrow> handled_message cfg (wdb w) m \<Longrightarrow> handled_message cfg (wdb w') m"
  by (auto simp: grows_def frame_defs handled_message_def pending_escalation_def dest: set_mono_prefix)

lemma handled_after [simp]: "handled_part (after_message rules dm rest cp) = dm"
  by (simp add: after_message_def)

lemma step_message_batch:
  assumes "\<forall>x \<in> set dm. handled_message cfg (wdb (d_world d)) x"
  shows "batch_ok cfg (step_message cfg rules dm m rest cp d)"
proof (cases "d_stop d")
  case True
  then show ?thesis by (simp add: step_message_def batch_ok_def)
next
  case False
  obtain r w where pm: "process_message (lc_env cfg) (loop_backend cfg) m rules
      (lc_default_unmatched_action cfg) (lc_classifier cfg) False (lc_receipt_archive cfg) (d_world d) = (r, w)"
    by (cases "process_message (lc_env cfg) (loop_backend cfg) m rules
      (lc_default_unmatched_action cfg) (lc_classifier cfg) False (lc_receipt_archive cfg) (d_world d)")
  show ?thesis
  proof (cases r)
    case (Inl e)
    with pm False show ?thesis by (simp add: step_message_def batch_ok_def)
  next
    case (Inr verdict)
    have old: "\<forall>x \<in> set dm. handled_message cfg (wdb w) x"
      using assms handled_grows [OF advances_grows [OF keepsD [OF process_message_advances pm]]] by blast
    let ?esc = "case verdict of None \<Rightarrow> False | Some v \<Rightarrow> a_type (rv_action v) = Escalate"
    have new: "handled_message cfg (wdb w) m" if "\<not> (\<not> lc_observe cfg \<and> ?esc)"
      using process_message_marks [OF pm [unfolded Inr]] that by (auto simp: handled_message_def)
    from pm False Inr old new show ?thesis by (auto simp: step_message_def batch_ok_def)
  qed
qed

lemma step_tier2_batch:
  assumes "\<forall>x \<in> set dm. handled_message cfg (wdb (d_world d)) x"
  shows "batch_ok cfg (step_tier2 cfg rules dm m rest cp d)"
proof -
  obtain r w1 where e: "escalate_message_or_quarantine (lc_env cfg) (loop_backend cfg) (lc_tiering cfg) m
      (d_world d) = (r, w1)"
    by (cases "escalate_message_or_quarantine (lc_env cfg) (loop_backend cfg) (lc_tiering cfg) m (d_world d)")
  let ?day = "ds_budget_exhausted_alert_date (sh_daemon (d_shared d))"
  obtain r2 w2 where c: "check_daily_budget_alert (lc_env cfg) (lc_tiering cfg) ?day w1 = (r2, w2)"
    by (cases "check_daily_budget_alert (lc_env cfg) (lc_tiering cfg) ?day w1")
  have w2: "wdb w2 = wdb w1" using keepsD [OF check_alert_same_db c] by (simp add: same_db_def)
  have old: "\<forall>x \<in> set dm. handled_message cfg (wdb w1) x"
    using assms handled_grows [OF advances_grows [OF keepsD [OF escalate_advances e]]] by blast
  show ?thesis
  proof (cases r)
    case (Inl ex)
    with e show ?thesis by (simp add: step_tier2_def batch_ok_def)
  next
    case (Inr x)
    have "handled_message cfg (wdb w1) m"
      using escalate_marks [OF e [unfolded Inr]] by (simp add: handled_message_def)
    with e c Inr old w2 show ?thesis by (cases r2) (auto simp: step_tier2_def batch_ok_def)
  qed
qed

lemma loop_step_batch:
  assumes "batch_ok cfg d"
  shows "batch_ok cfg (loop_step cfg d)"
proof (cases "d_pc d")
  case (Draining evs)
  then show ?thesis
    by (cases evs) (auto simp: loop_step.simps step_drain_def Let_def batch_ok_def)
next
  case (In_Batch rules dm todo cp)
  with assms have "\<forall>x \<in> set dm. handled_message cfg (wdb (d_world d)) x" by (simp add: batch_ok_def)
  with In_Batch step_message_batch show ?thesis
    by (cases todo) (simp_all add: loop_step.simps batch_ok_def)
next
  case (In_Tier2 rules dm m rest cp)
  with assms step_tier2_batch show ?thesis by (simp add: loop_step.simps batch_ok_def)
qed (use assms in \<open>auto simp: loop_step.simps step_top_def step_poll_def step_ack_def Let_def batch_ok_def
      split: sum.splits option.splits\<close>)

lemma daemon_step_batch: "daemon_step cfg d l d' \<Longrightarrow> batch_ok cfg d \<Longrightarrow> batch_ok cfg d'"
  by (auto simp: daemon_step_simps loop_step_batch)
    (auto simp: batch_ok_def ipc_step_def Let_def split: if_splits)

lemma daemon_steps_batch: "daemon_steps cfg d ls d' \<Longrightarrow> batch_ok cfg d \<Longrightarrow> batch_ok cfg d'"
  by (induction rule: daemon_steps.induct) (auto dest: daemon_step_batch)

lemma step_message_cursor:
  "db_push_cursor (wdb (d_world (step_message cfg rules dm m rest cp d))) = db_push_cursor (wdb (d_world d))"
  using keepsD [OF process_message_advances]
  by (auto simp: step_message_def advances_def same_cursor_def split: prod.splits sum.splits)

lemma step_tier2_cursor:
  "db_push_cursor (wdb (d_world (step_tier2 cfg rules dm m rest cp d))) = db_push_cursor (wdb (d_world d))"
proof -
  obtain r w1 where e: "escalate_message_or_quarantine (lc_env cfg) (loop_backend cfg) (lc_tiering cfg) m
      (d_world d) = (r, w1)"
    by (cases "escalate_message_or_quarantine (lc_env cfg) (loop_backend cfg) (lc_tiering cfg) m (d_world d)")
  let ?day = "ds_budget_exhausted_alert_date (sh_daemon (d_shared d))"
  obtain r2 w2 where c: "check_daily_budget_alert (lc_env cfg) (lc_tiering cfg) ?day w1 = (r2, w2)"
    by (cases "check_daily_budget_alert (lc_env cfg) (lc_tiering cfg) ?day w1")
  have "wdb w2 = wdb w1" using keepsD [OF check_alert_same_db c] by (simp add: same_db_def)
  with keepsD [OF escalate_advances e] e c show ?thesis
    by (cases r; cases r2) (simp_all add: step_tier2_def advances_def same_cursor_def)
qed

lemma step_cursor:
  assumes "daemon_step cfg d l d'" and "db_push_cursor (wdb (d_world d')) \<noteq> db_push_cursor (wdb (d_world d))"
  shows "\<exists>batch c account. d_pc d = Acking batch (Some c) \<and> lc_cursor_account_id cfg = Some account \<and>
    wdb (d_world d') = set_cursor account c (wdb (d_world d))"
  using assms(1)
proof cases
  case loop
  show ?thesis
  proof (cases "d_pc d")
    case (Draining evs)
    with loop assms(2) show ?thesis
      by (cases evs) (auto simp: loop_step.simps step_drain_def Let_def
          write_control_plane_audit_entry_def write_audit_entry_def)
  next
    case (In_Batch rules dm todo cp)
    with loop assms(2) step_message_cursor show ?thesis
      by (cases todo) (simp_all add: loop_step.simps)
  next
    case (In_Tier2 rules dm m rest cp)
    with loop assms(2) step_tier2_cursor show ?thesis by (simp add: loop_step.simps)
  next
    case (Acking batch cp)
    with loop assms(2) show ?thesis
      by (auto simp: loop_step.simps step_ack_def split: option.splits)
  qed (use loop assms(2) in \<open>auto simp: loop_step.simps step_top_def step_poll_def Let_def split: sum.splits\<close>)
next
  case (ipc req)
  with assms(2) show ?thesis by (simp add: ipc_step_def Let_def split: if_splits)
next
  case stop
  with assms(2) show ?thesis by simp
qed

lemma start_ok:
  "batch_ok cfg (start_daemon t rules w)" "queue_ok (start_daemon t rules w)"
  "control_events (start_daemon t rules w) = control_log (wdb w)"
  "d_world (start_daemon t rules w) = w"
  by (simp_all add: start_daemon_def batch_ok_def queue_ok_def control_events_def
      fresh_daemon_state_def)

section \<open>Shutdown\<close>

fun steps_to_stop :: "loop_pc \<Rightarrow> nat" where
  "steps_to_stop (Draining evs) = max 1 (length evs) + 3"
| "steps_to_stop At_Top = 1"
| "steps_to_stop Polling = 3"
| "steps_to_stop (In_Batch rules dm todo cp) = (if todo = [] then 3 else 1)"
| "steps_to_stop (In_Tier2 rules dm m rest cp) = 3"
| "steps_to_stop (Acking batch cp) = 2"
| "steps_to_stop pc = 0"

lemma steps_to_stop_0: "steps_to_stop pc = 0 \<longleftrightarrow> \<not> running pc"
  by (cases pc) auto

lemma loop_step_idle: "\<not> running (d_pc d) \<Longrightarrow> loop_step cfg d = d"
  by (cases "d_pc d") (auto simp: loop_step.simps)

lemma steps_to_stop_after: "steps_to_stop (after_message rules dm rest cp) \<le> 2"
  by (simp add: after_message_def)

lemma loop_step_stopping:
  assumes "d_stop d" and "running (d_pc d)"
  shows "d_stop (loop_step cfg d) \<and> steps_to_stop (d_pc (loop_step cfg d)) < steps_to_stop (d_pc d)"
proof (cases "d_pc d")
  case (Draining evs)
  with assms show ?thesis
    by (cases evs) (auto simp: loop_step.simps step_drain_def Let_def)
next
  case (In_Batch rules dm todo cp)
  with assms show ?thesis by (cases todo) (auto simp: loop_step.simps step_message_def)
next
  case (In_Tier2 rules dm m rest cp)
  with assms le_less_trans [OF steps_to_stop_after] show ?thesis
    by (auto simp: loop_step.simps step_tier2_def split: prod.splits sum.splits)
qed (use assms in \<open>auto simp: loop_step.simps step_top_def step_poll_def step_ack_def Let_def
      split: sum.splits option.splits list.splits\<close>)

lemma stops_within:
  "d_stop d \<Longrightarrow> steps_to_stop (d_pc d) \<le> n \<Longrightarrow> \<not> running (d_pc ((loop_step cfg ^^ n) d))"
proof (induction n arbitrary: d)
  case 0
  then show ?case by (simp add: steps_to_stop_0 [symmetric])
next
  case (Suc n)
  show ?case
  proof (cases "running (d_pc d)")
    case True
    from loop_step_stopping [OF Suc.prems(1) True, of cfg] Suc.prems(2) Suc.IH [of "loop_step cfg d"]
    show ?thesis by (simp add: funpow_swap1)
  next
    case False
    then have "(loop_step cfg ^^ k) d = d" for k
      by (induction k) (simp_all add: loop_step_idle)
    with False loop_step_idle [OF False, of cfg] show ?thesis by simp
  qed
qed

section \<open>Properties\<close>

text \<open>The cursor is acknowledged only after the whole batch was handled: in every reachable
  daemon, whatever requests came in between, a step that changes a cursor is the
  acknowledgement of a polled batch's checkpoint under the daemon's own account, and every
  message of that batch is then marked processed (or, under observe, has its pending
  escalation in the audit log). So no message is skipped by a restart.\<close>

theorem cursor_after_batch:
  assumes "daemon_steps cfg (start_daemon started rules w) ls d" and "daemon_step cfg d l d'"
    and "db_push_cursor (wdb (d_world d')) \<noteq> db_push_cursor (wdb (d_world d))"
  shows "\<exists>batch c account. d_pc d = Acking batch (Some c) \<and> lc_cursor_account_id cfg = Some account \<and>
     wdb (d_world d') = set_cursor account c (wdb (d_world d)) \<and>
     (\<forall>m \<in> set batch. has_processed (wdb (d_world d')) (message_id m) \<or>
        (lc_observe cfg \<and> pending_escalation (wdb (d_world d')) (message_id m)))"
proof -
  from step_cursor [OF assms(2,3)] obtain batch c account
    where pc: "d_pc d = Acking batch (Some c)" "lc_cursor_account_id cfg = Some account"
      and db: "wdb (d_world d') = set_cursor account c (wdb (d_world d))" by blast
  have "batch_ok cfg d" by (rule daemon_steps_batch [OF assms(1) start_ok(1)])
  with pc(1) have "\<forall>m \<in> set batch. handled_message cfg (wdb (d_world d)) m" by (simp add: batch_ok_def)
  with handled_grows [OF daemon_step_grows [OF assms(2)]]
  have "\<forall>m \<in> set batch. handled_message cfg (wdb (d_world d')) m" by blast
  with pc db show ?thesis by (auto simp: handled_message_def)
qed

text \<open>No control-plane event is lost, duplicated or reordered while the daemon runs: the
  pause and resume entries of the audit log, then the events being drained, then the queue
  are at every moment exactly the initial entries followed by one event per pause or resume
  request, in the order the requests came, however they interleave with the drain.\<close>

theorem control_plane_conserved:
  assumes "daemon_steps cfg (start_daemon started rules w) ls d"
  shows "control_log (wdb (d_world d)) @ drain_rest (d_pc d) @ ds_pending (sh_daemon (d_shared d)) =
     control_log (wdb w) @ concat (map label_events ls)"
  using daemon_steps_control [OF assms start_ok(2)]
  by (simp add: start_ok(3) [unfolded control_events_def] control_events_def)


text \<open>Shutdown. Once the stop event is set, the loop ends within three more steps than it
  has control-plane events left to write, wherever it is.\<close>

theorem shutdown_bounded:
  assumes "d_stop d"
  shows "\<not> running (d_pc ((loop_step cfg ^^ (max 1 (length (drain_rest (d_pc d))) + 3)) d))"
proof (rule stops_within [OF assms])
  show "steps_to_stop (d_pc d) \<le> max 1 (length (drain_rest (d_pc d))) + 3"
    by (cases "d_pc d") auto
qed

text \<open>The daemon-health alert fires at most once per day: a check alerts exactly when the
  day's budget is used up and it has not alerted on that day yet, it then remembers the day,
  and a later check that reads the same day makes no call but the clock.\<close>

theorem budget_alert_once:
  assumes "check_daily_budget_alert E t day w = (Inr day', w')"
  shows "(let today = take 10 (e_now E (hist w));
           fires = (day \<noteq> Some today \<and>
             \<not> has_budget_remaining (get_llm_usage (wdb w) today) (t_daily_call_budget t)) in
      day' = (if fires then Some today else day) \<and>
      (\<exists>body. visible w' = visible w @ [C_Now] @
         (if fires then [C_New_Id, C_Notify ''Daily LLM budget exhausted'' body None Critical] else []))) \<and>
    (\<forall>E2 w2. day' = Some (take 10 (e_now E2 (hist w2))) \<longrightarrow>
       check_daily_budget_alert E2 t day' w2 = (Inr day', log_call C_Now w2))"
  using assms
  by (auto simp: check_daily_budget_alert_def now_def new_correlation_id_def Let_def bind_def call_def
      ret_def read_db_def alert_def trace_def notify_def visible_def log_call_def
      split: if_splits sum.splits)

section \<open>Witnesses\<close>

definition ex_loop :: loop_config where
  "ex_loop =
     \<lparr>lc_env = ex_env\<lparr>e_poll := (\<lambda>_. Inr \<lparr>mb_messages = [ex_message], mb_checkpoint = Some ''s2''\<rparr>)\<rparr>,
      lc_default_unmatched_action = action_of_type Escalate, lc_classifier = None,
      lc_tiering = ex_tiering, lc_observe = False, lc_receipt_archive = None,
      lc_cursor_account_id = Some ''acc'', lc_checkpointed = True\<rparr>"

definition ex_marked :: world where
  "ex_marked = ex_world\<lparr>wdb := mark_processed ''m1'' (quarantined_row ex_message ''t'') empty_db\<rparr>"

definition ex_start :: daemon where
  "ex_start = start_daemon ''t0'' ex_rules ex_marked"

definition ex_acking :: daemon where
  "ex_acking = (loop_step ex_loop ^^ 3) ex_start"

lemma ex_path: "d_pc ex_acking = Acking [ex_message] (Some ''s2'')"
  "running (d_pc ex_start)" "running (d_pc (loop_step ex_loop ex_start))"
  "running (d_pc (loop_step ex_loop (loop_step ex_loop ex_start)))"
  "db_push_cursor (wdb (d_world ex_acking)) = db_push_cursor empty_db"
  by (simp_all add: ex_acking_def ex_start_def start_daemon_def fresh_daemon_state_def ex_loop_def
      loop_step.simps step_top_def step_poll_def step_message_def process_gate ex_marked_def
      has_processed_def mark_processed_def ex_message_def numeral_3_eq_3 after_message_def ex_world_def)

lemma ex_steps: "daemon_steps ex_loop ex_start [Loop, Loop, Loop] ex_acking"
proof -
  have "daemon_steps ex_loop ex_start ([] @ [Loop]) (loop_step ex_loop ex_start)"
    by (rule daemon_steps.more [OF daemon_steps.none daemon_step.loop]) (rule ex_path)
  then have "daemon_steps ex_loop ex_start (([] @ [Loop]) @ [Loop])
      (loop_step ex_loop (loop_step ex_loop ex_start))"
    by (rule daemon_steps.more [OF _ daemon_step.loop]) (rule ex_path)
  then have "daemon_steps ex_loop ex_start ((([] @ [Loop]) @ [Loop]) @ [Loop])
      (loop_step ex_loop (loop_step ex_loop (loop_step ex_loop ex_start)))"
    by (rule daemon_steps.more [OF _ daemon_step.loop]) (rule ex_path)
  then show ?thesis by (simp add: ex_acking_def numeral_3_eq_3)
qed

theorem cursor_after_batch_witness:
  "has_processed (set_cursor ''acc'' ''s2'' (wdb (d_world ex_acking))) ''m1''"
proof -
  have st: "daemon_step ex_loop ex_acking Loop (loop_step ex_loop ex_acking)"
    by (rule daemon_step.loop) (simp add: ex_path)
  have db: "wdb (d_world (loop_step ex_loop ex_acking)) = set_cursor ''acc'' ''s2'' (wdb (d_world ex_acking))"
    by (simp add: loop_step.simps ex_path(1) step_ack_def) (simp add: ex_loop_def)
  then have "db_push_cursor (wdb (d_world (loop_step ex_loop ex_acking))) ''acc'' = Some ''s2''"
    by (simp add: set_cursor_def)
  moreover have "db_push_cursor (wdb (d_world ex_acking)) ''acc'' = None"
    by (simp add: ex_path(5) empty_db_def)
  ultimately have "db_push_cursor (wdb (d_world (loop_step ex_loop ex_acking))) \<noteq>
      db_push_cursor (wdb (d_world ex_acking))" by (metis option.distinct(1))
  from cursor_after_batch [OF ex_steps [unfolded ex_start_def] st this] ex_path(1) db show ?thesis
    by (auto simp: ex_loop_def ex_message_def)
qed

theorem control_plane_conserved_witness:
  "let d = ipc_step ex_loop \<lparr>iq_command = ''pause'', iq_params = []\<rparr> ex_acking in
     control_log (wdb (d_world d)) @ drain_rest (d_pc d) @ ds_pending (sh_daemon (d_shared d)) =
     control_log (wdb ex_marked) @ [paused_event]"
proof -
  let ?req = "\<lparr>iq_command = ''pause'', iq_params = []\<rparr>"
  have "daemon_step ex_loop ex_acking (Ipc (iq_command ?req)) (ipc_step ex_loop ?req ex_acking)"
    by (rule daemon_step.ipc) (simp add: ex_path)
  from daemon_steps.more [OF ex_steps this]
  have "daemon_steps ex_loop (start_daemon ''t0'' ex_rules ex_marked)
      ([Loop, Loop, Loop] @ [Ipc ''pause'']) (ipc_step ex_loop ?req ex_acking)"
    by (simp add: ex_start_def)
  from control_plane_conserved [OF this] show ?thesis by (simp add: Let_def queued_by_def)
qed


theorem shutdown_bounded_witness:
  "\<not> running (d_pc ((loop_step ex_loop ^^ 4) (ex_acking\<lparr>d_stop := True\<rparr>)))"
  using shutdown_bounded [of "ex_acking\<lparr>d_stop := True\<rparr>" ex_loop]
  by (simp add: ex_path(1) numeral_eq_Suc)

theorem budget_alert_once_witness:
  "let t = ex_tiering\<lparr>t_daily_call_budget := 0\<rparr> in
     fst (check_daily_budget_alert ex_env t None ex_world) = Inr (Some ''2026-08-14'') \<and>
     check_daily_budget_alert ex_env t (Some ''2026-08-14'') ex_world =
       (Inr (Some ''2026-08-14''), log_call C_Now ex_world)"
proof -
  let ?t = "ex_tiering\<lparr>t_daily_call_budget := 0\<rparr>"
  have today: "take 10 (e_now ex_env h) = ''2026-08-14''" for h
    by (simp add: ex_env_def)
  obtain w' where run: "check_daily_budget_alert ex_env ?t None ex_world = (Inr (Some ''2026-08-14''), w')"
    by (simp add: check_daily_budget_alert_def now_def new_correlation_id_def bind_def call_def ret_def
        read_db_def alert_def trace_def notify_def today Let_def has_budget_remaining_def ex_world_def
        get_llm_usage_def empty_db_def) (simp add: ex_env_def ret_def)
  from conjunct2 [OF budget_alert_once [OF run], rule_format, of ex_env ex_world] today
  have "check_daily_budget_alert ex_env ?t (Some ''2026-08-14'') ex_world =
      (Inr (Some ''2026-08-14''), log_call C_Now ex_world)" by simp
  with run show ?thesis by (simp add: Let_def)
qed

end
