(* ===== verification/Operator_Commands.thy ===== *)
theory Operator_Commands
  imports Daemon_Loop Mail_Sources
begin

text \<open>
  The commands that run the pipelines outside the daemon, \<open>cli/commands/backfill.py\<close> and
  \<open>cli/commands/reclassify.py\<close>, and the audit log's reader \<open>cli/commands/logs.py\<close>. The
  wiring before them (configuration, secrets, loaders) is their arguments. The backfill loop
  is a total recursive function: every page it goes on from has processed a message.

  Lemmas: what a page and the loop leave behind, and the sweep of a windowed listing.
\<close>

section \<open>Backfill\<close>

record command_config =
  cc_env :: env
  cc_rules :: "rule list"
  cc_default_unmatched_action :: action
  cc_classifier :: "classifier option"
  cc_tiering :: tiering_config

record backfill_state =
  bf_processed :: int
  bf_tier1_actions :: int
  bf_tier2_verdicts :: int
  bf_tier2_quarantined :: int
  bf_budget_exhausted :: bool

definition backfill_start :: backfill_state where
  "backfill_start =
     \<lparr>bf_processed = 0, bf_tier1_actions = 0, bf_tier2_verdicts = 0, bf_tier2_quarantined = 0,
      bf_budget_exhausted = False\<rparr>"

text \<open>The counters after Tier 2's answer.\<close>

fun count_escalation :: "escalation \<Rightarrow> backfill_state \<Rightarrow> backfill_state" where
  "count_escalation Budget_Exhausted st = st\<lparr>bf_budget_exhausted := True\<rparr>"
| "count_escalation (Quarantined why) st = st\<lparr>bf_tier2_quarantined := bf_tier2_quarantined st + 1\<rparr>"
| "count_escalation (Verdict_Result v) st = st\<lparr>bf_tier2_verdicts := bf_tier2_verdicts st + 1\<rparr>"

text \<open>No receipt components: the command builds none.\<close>

definition backfill_message :: "command_config \<Rightarrow> message \<Rightarrow> backfill_state \<Rightarrow> backfill_state prog" where
  "backfill_message cfg msg st =
     bind (process_message (cc_env cfg) Live msg (cc_rules cfg) (cc_default_unmatched_action cfg)
             (cc_classifier cfg) False None)
       (\<lambda>verdict. let st1 = st\<lparr>bf_processed := bf_processed st + 1\<rparr> in
          case verdict of
            None \<Rightarrow> ret st1
          | Some v \<Rightarrow>
              let st2 = st1\<lparr>bf_tier1_actions := bf_tier1_actions st1 + 1\<rparr> in
              if a_type (rv_action v) = Escalate
              then bind (escalate_message_or_quarantine (cc_env cfg) Live (cc_tiering cfg) msg)
                     (\<lambda>r. ret (count_escalation r st2))
              else ret st2)"

fun backfill_messages ::
  "command_config \<Rightarrow> int \<Rightarrow> message list \<Rightarrow> backfill_state \<Rightarrow> backfill_state prog" where
  "backfill_messages cfg limit_n [] st = ret st"
| "backfill_messages cfg limit_n (m # ms) st =
     (if limit_n \<le> bf_processed st then ret st
      else bind (backfill_message cfg m st)
             (\<lambda>st'. if bf_budget_exhausted st' then ret st' else backfill_messages cfg limit_n ms st'))"

definition query_messages :: "env \<Rightarrow> bool \<Rightarrow> int \<Rightarrow> int \<Rightarrow> backfill_page prog" where
  "query_messages E unread_only position limit_n =
     call (C_Query unread_only position limit_n) (\<lambda>h. e_query E h unread_only position limit_n)"

lemma backfill_message_counts:
  assumes "backfill_message cfg m st w = (Inr st', w')"
  shows "bf_processed st' = bf_processed st + 1"
proof -
  have "bf_processed (count_escalation r s) = bf_processed s" for r s by (cases r) simp_all
  with assms show ?thesis
    by (auto simp: backfill_message_def prog_simps Let_def split: option.splits if_splits)
qed

lemma backfill_messages_count:
  assumes "backfill_messages cfg limit_n ms st w = (Inr st', w')"
  shows "bf_processed st \<le> bf_processed st' \<and>
    (ms \<noteq> [] \<and> bf_processed st < limit_n \<longrightarrow> bf_processed st < bf_processed st')"
  using assms
proof (induction ms arbitrary: st w)
  case Nil
  then show ?case by (simp add: prog_simps)
next
  case (Cons m ms)
  show ?case
  proof (cases "limit_n \<le> bf_processed st")
    case True
    with Cons.prems show ?thesis by (simp add: prog_simps)
  next
    case False
    with Cons.prems obtain st1 w1 where m: "backfill_message cfg m st w = (Inr st1, w1)"
      and rest: "(if bf_budget_exhausted st1 then ret st1 else backfill_messages cfg limit_n ms st1) w1
        = (Inr st', w')" by (auto simp: prog_simps)
    from rest Cons.IH [of st1 w1] backfill_message_counts [OF m] show ?thesis
      by (auto simp: prog_simps split: if_splits)
  qed
qed

text \<open>The \<open>while\<close> loop, from a position on.\<close>

function backfill_loop ::
  "command_config \<Rightarrow> bool \<Rightarrow> int \<Rightarrow> int \<Rightarrow> int \<Rightarrow> backfill_state \<Rightarrow> backfill_state prog" where
  "backfill_loop cfg unread_only limit_n page_size position st w =
     (if bf_processed st < limit_n \<and> \<not> bf_budget_exhausted st
      then case query_messages (cc_env cfg) unread_only position
                  (min page_size (limit_n - bf_processed st)) w of
             (Inl e, w1) \<Rightarrow> (Inl e, w1)
           | (Inr pg, w1) \<Rightarrow>
               (if bp_messages pg = [] then (Inr st, w1)
                else case backfill_messages cfg limit_n (bp_messages pg) st w1 of
                       (Inl e, w2) \<Rightarrow> (Inl e, w2)
                     | (Inr st', w2) \<Rightarrow>
                         (if \<not> bp_has_more pg then (Inr st', w2)
                          else backfill_loop cfg unread_only limit_n page_size (bp_next_position pg) st' w2))
      else (Inr st, w))"
  by pat_completeness auto
termination
proof (relation "measure (\<lambda>(cfg, u, limit_n, ps, pos, st, w). nat (limit_n - bf_processed st))")
  fix cfg u limit_n ps pos w and st st' :: backfill_state and r1 w1 pg r2 w2
  assume "bf_processed st < limit_n \<and> \<not> bf_budget_exhausted st" and "bp_messages pg \<noteq> []"
    and "(r2, w2) = backfill_messages cfg limit_n (bp_messages pg) st w1" and "r2 = Inr st'"
  then have "bf_processed st < bf_processed st'"
    using backfill_messages_count [of cfg limit_n "bp_messages pg" st w1 st' w2] by auto
  with \<open>bf_processed st < limit_n \<and> \<not> bf_budget_exhausted st\<close>
  show "((cfg, u, limit_n, ps, bp_next_position pg, st', w2), cfg, u, limit_n, ps, pos, st, w)
      \<in> measure (\<lambda>(cfg, u, limit_n, ps, pos, st, w). nat (limit_n - bf_processed st))" by simp
qed simp

declare backfill_loop.simps [simp del]

definition json_bool :: "bool \<Rightarrow> string" where
  "json_bool b = (if b then ''true'' else ''false'')"

definition backfill :: "command_config \<Rightarrow> bool \<Rightarrow> int \<Rightarrow> int \<Rightarrow> backfill_state prog" where
  "backfill cfg unread_only limit_n page_size =
     bind (now (cc_env cfg))
       (\<lambda>ts. bind (write_db (write_control_plane_audit_entry ts ''backfill_triggered''
                (Some (json_object [(''unread_only'', json_bool unread_only),
                   (''limit'', py_str_int limit_n), (''page_size'', py_str_int page_size)]))))
          (\<lambda>_. backfill_loop cfg unread_only limit_n page_size 0 backfill_start))"

section \<open>Reclassify\<close>

definition reclassify_text :: "string \<Rightarrow> escalation \<Rightarrow> string" where
  "reclassify_text mid r =
     (case r of
        Budget_Exhausted \<Rightarrow> mid @ '': escalated, but Tier 2's daily call budget is exhausted''
      | Quarantined why \<Rightarrow> mid @ '': escalated -> Tier 2 quarantined it: '' @ why
      | Verdict_Result v \<Rightarrow> mid @ '': escalated -> Tier 2 -> '' @
          action_type_name (a_type (v_suggested_action v)))"

text \<open>\<open>lookup\<close> is the provider's \<open>get_message\<close>; the value is the echoed line.\<close>

definition reclassify ::
  "command_config \<Rightarrow> (string \<Rightarrow> exn + message) \<Rightarrow> string \<Rightarrow> string prog" where
  "reclassify cfg lookup mid =
     bind (of_sum (lookup mid))
       (\<lambda>msg. bind (now (cc_env cfg))
          (\<lambda>ts. bind (write_db (write_control_plane_audit_entry ts ''reclassify_triggered''
                   (Some (json_object [(''message_id'', json_string mid)]))))
             (\<lambda>_. bind (process_message (cc_env cfg) Live msg (cc_rules cfg)
                         (cc_default_unmatched_action cfg) (cc_classifier cfg) True None)
                (\<lambda>verdict. case verdict of
                   None \<Rightarrow> ret (mid @ '': Tier 1 -> none'')
                 | Some v \<Rightarrow>
                     if a_type (rv_action v) \<noteq> Escalate
                     then ret (mid @ '': Tier 1 -> '' @ action_type_name (a_type (rv_action v)))
                     else bind (escalate_message_or_quarantine (cc_env cfg) Live (cc_tiering cfg) msg)
                            (\<lambda>r. ret (reclassify_text mid r))))))"

section \<open>Logs\<close>

text \<open>\<open>entries[-tail:]\<close>, and the printed line.\<close>

definition py_tail :: "int \<Rightarrow> 'a list \<Rightarrow> 'a list" where
  "py_tail n xs = py_slice xs (- n) (int (length xs))"

definition logs :: "state_db \<Rightarrow> int option \<Rightarrow> string option \<Rightarrow> string option \<Rightarrow> audit_entry list" where
  "logs db tail since mid =
     (let entries = get_audit_entries db mid;
          entries' = (case since of None \<Rightarrow> entries | Some t \<Rightarrow> filter (\<lambda>e. t \<le> ae_ts e) entries)
      in case tail of None \<Rightarrow> entries' | Some n \<Rightarrow> py_tail n entries')"

definition logs_line :: "audit_entry \<Rightarrow> string" where
  "logs_line e =
     ae_ts e @ '' '' @ ae_jmap_id e @ '' '' @ ae_event e @
     (case ae_detail_json e of None \<Rightarrow> [] | Some d \<Rightarrow> if d = [] then [] else '' '' @ d)"

section \<open>What a run leaves behind\<close>

lemma grows_processed: "grows w w' \<Longrightarrow> has_processed (wdb w) j \<Longrightarrow> has_processed (wdb w') j"
  by (auto simp: grows_def processed_kept_def)

lemma process_message_grows:
  "process_message E b msg rules d c force ra w = (r, w') \<Longrightarrow> grows w w'"
  using keepsD [OF process_message_advances] by (rule advances_grows)

lemma escalate_grows: "escalate_message_or_quarantine E b t msg w = (r, w') \<Longrightarrow> grows w w'"
  using keepsD [OF escalate_advances] by (rule advances_grows)

lemma backfill_message_grows:
  assumes "backfill_message cfg m st w = (r, w')"
  shows "grows w w'"
proof -
  obtain r1 w1 where p: "process_message (cc_env cfg) Live m (cc_rules cfg)
      (cc_default_unmatched_action cfg) (cc_classifier cfg) False None w = (r1, w1)"
    by (cases "process_message (cc_env cfg) Live m (cc_rules cfg)
      (cc_default_unmatched_action cfg) (cc_classifier cfg) False None w")
  obtain r2 w2 where e: "escalate_message_or_quarantine (cc_env cfg) Live (cc_tiering cfg) m w1 = (r2, w2)"
    by (cases "escalate_message_or_quarantine (cc_env cfg) Live (cc_tiering cfg) m w1")
  have "w' = w1 \<or> w' = w2"
    using assms p e
    by (auto simp: backfill_message_def bind_def Let_def ret_def split: sum.splits option.splits if_splits)
  with process_message_grows [OF p] grows_trans [OF process_message_grows [OF p] escalate_grows [OF e]]
  show ?thesis by blast
qed

lemma backfill_message_marks:
  assumes "backfill_message cfg m st w = (Inr st', w')"
  shows "has_processed (wdb w') (message_id m)"
proof -
  obtain verdict w1 where p: "process_message (cc_env cfg) Live m (cc_rules cfg)
      (cc_default_unmatched_action cfg) (cc_classifier cfg) False None w = (Inr verdict, w1)"
    using assms by (auto simp: backfill_message_def bind_Inr_iff)
  show ?thesis
  proof (cases "\<exists>v. verdict = Some v \<and> a_type (rv_action v) = Escalate")
    case True
    then obtain x where "escalate_message_or_quarantine (cc_env cfg) Live (cc_tiering cfg) m w1 = (Inr x, w')"
      using assms p by (auto simp: backfill_message_def prog_simps Let_def)
    then show ?thesis by (rule escalate_marks)
  next
    case False
    then have "w' = w1"
      using assms p by (auto simp: backfill_message_def prog_simps Let_def split: option.splits if_splits)
    with process_message_marks [OF p] False show ?thesis by blast
  qed
qed

lemma backfill_messages_run:
  assumes "backfill_messages cfg limit_n ms st w = (r, w')"
  shows "grows w w' \<and>
    (case r of Inl e \<Rightarrow> True
     | Inr st' \<Rightarrow> bf_processed st + int (length ms) \<le> limit_n \<longrightarrow> \<not> bf_budget_exhausted st \<longrightarrow>
         (\<exists>k \<le> length ms. bf_processed st' = bf_processed st + int k \<and>
            (\<forall>m \<in> set (take k ms). has_processed (wdb w') (message_id m)) \<and>
            (\<not> bf_budget_exhausted st' \<longrightarrow> k = length ms)))"
  using assms
proof (induction ms arbitrary: st w)
  case Nil
  then show ?case by (auto simp: prog_simps ret_def)
next
  case (Cons m ms)
  show ?case
  proof (cases "limit_n \<le> bf_processed st")
    case True
    with Cons.prems show ?thesis by (auto simp: ret_def)
  next
    case False
    obtain r1 w1 where m: "backfill_message cfg m st w = (r1, w1)"
      by (cases "backfill_message cfg m st w")
    show ?thesis
    proof (cases r1)
      case (Inl e)
      with Cons.prems m False backfill_message_grows [OF m] show ?thesis by (auto simp: bind_def)
    next
      case (Inr st1)
      note m1 = m [unfolded Inr]
      show ?thesis
      proof (cases "bf_budget_exhausted st1")
        case True
        with Cons.prems m1 False have e: "r = Inr st1" "w' = w1" by (auto simp: bind_def ret_def)
        with True backfill_message_counts [OF m1] backfill_message_marks [OF m1] backfill_message_grows [OF m1]
        show ?thesis by (auto intro!: exI [of _ 1])
      next
        case ex: False
        with Cons.prems m1 False have rest: "backfill_messages cfg limit_n ms st1 w1 = (r, w')"
          by (auto simp: bind_def)
        note ih = Cons.IH [OF rest]
        have g: "grows w w'" using grows_trans [OF backfill_message_grows [OF m1]] ih by blast
        show ?thesis
        proof (cases r)
          case (Inl e)
          with g show ?thesis by simp
        next
          case r: (Inr st')
          show ?thesis
          proof (cases "bf_processed st + int (length (m # ms)) \<le> limit_n")
            case True
            then have "bf_processed st1 + int (length ms) \<le> limit_n"
              using backfill_message_counts [OF m1] by simp
            with ih r ex obtain k where k: "k \<le> length ms" "bf_processed st' = bf_processed st1 + int k"
              "\<forall>m \<in> set (take k ms). has_processed (wdb w') (message_id m)"
              "\<not> bf_budget_exhausted st' \<longrightarrow> k = length ms" by auto
            moreover have "has_processed (wdb w') (message_id m)"
              using grows_processed [OF _ backfill_message_marks [OF m1]] ih by blast
            ultimately show ?thesis
              using g r backfill_message_counts [OF m1] by (auto intro!: exI [of _ "Suc k"])
          qed (use g r in auto)
        qed
      qed
    qed
  qed
qed

text \<open>The counters' invariant.\<close>

definition counts_ok :: "int \<Rightarrow> backfill_state \<Rightarrow> bool" where
  "counts_ok limit_n st \<longleftrightarrow>
     0 \<le> bf_tier2_verdicts st \<and> 0 \<le> bf_tier2_quarantined st \<and>
     bf_tier2_verdicts st + bf_tier2_quarantined st +
       (if bf_budget_exhausted st then 1 else 0) \<le> bf_tier1_actions st \<and>
     bf_tier1_actions st \<le> bf_processed st \<and> bf_processed st \<le> max 0 limit_n"

lemma count_escalation_ok:
  assumes "counts_ok limit_n st" and "\<not> bf_budget_exhausted st" and "bf_processed st < limit_n"
  shows "counts_ok limit_n (count_escalation r
    (st\<lparr>bf_processed := bf_processed st + 1, bf_tier1_actions := bf_tier1_actions st + 1\<rparr>))"
  using assms by (cases r) (auto simp: counts_ok_def)

lemma backfill_message_counts_ok:
  assumes "backfill_message cfg m st w = (Inr st', w')"
    and "counts_ok limit_n st" and "\<not> bf_budget_exhausted st" and "bf_processed st < limit_n"
  shows "counts_ok limit_n st'"
proof -
  have "counts_ok limit_n (st\<lparr>bf_processed := bf_processed st + 1\<rparr>)"
    and "counts_ok limit_n (st\<lparr>bf_processed := bf_processed st + 1, bf_tier1_actions := bf_tier1_actions st + 1\<rparr>)"
    using assms(2-4) by (auto simp: counts_ok_def)
  with assms(1) count_escalation_ok [OF assms(2-4)] show ?thesis
    by (auto simp: backfill_message_def prog_simps Let_def split: option.splits if_splits)
qed

lemma backfill_messages_counts_ok:
  assumes "backfill_messages cfg limit_n ms st w = (Inr st', w')"
    and "counts_ok limit_n st" and "\<not> bf_budget_exhausted st"
  shows "counts_ok limit_n st'"
  using assms
proof (induction ms arbitrary: st w)
  case Nil
  then show ?case by (simp add: prog_simps)
next
  case (Cons m ms)
  show ?case
  proof (cases "limit_n \<le> bf_processed st")
    case True
    with Cons.prems show ?thesis by (simp add: prog_simps)
  next
    case False
    with Cons.prems obtain st1 w1 where m: "backfill_message cfg m st w = (Inr st1, w1)"
      and rest: "(if bf_budget_exhausted st1 then ret st1 else backfill_messages cfg limit_n ms st1) w1
        = (Inr st', w')" by (auto simp: prog_simps)
    from backfill_message_counts_ok [OF m Cons.prems(2,3)] False
    have "counts_ok limit_n st1" by simp
    with rest Cons.IH [of st1 w1] show ?thesis by (auto simp: prog_simps split: if_splits)
  qed
qed

text \<open>One round of the loop, as rules.\<close>

lemma query_messages_eq:
  "query_messages E u position n w = (e_query E (hist w) u position n, log_call (C_Query u position n) w)"
  by (simp add: query_messages_def call_def log_call_def)

lemma grows_log [simp]: "grows w (log_call c w') = grows w w'"
  by (simp add: grows_def frame_defs)

lemma grows_log2 [simp]: "grows (log_call c w) w' = grows w w'"
  by (simp add: grows_def frame_defs)

lemma backfill_round:
  assumes "backfill_loop cfg u limit_n ps pos st w = (r, w')"
  defines "go \<equiv> bf_processed st < limit_n \<and> \<not> bf_budget_exhausted st"
    and "n \<equiv> min ps (limit_n - bf_processed st)"
  defines "w1 \<equiv> log_call (C_Query u pos n) w"
  obtains (stopped) "\<not> go" and "r = Inr st" and "w' = w"
  | (failed) e where "r = Inl e" and "grows w w'"
  | (no_more) pg where "go" and "e_query (cc_env cfg) (hist w) u pos n = Inr pg"
      and "bp_messages pg = []" and "r = Inr st" and "w' = w1"
  | (final) pg st1 where "go" and "e_query (cc_env cfg) (hist w) u pos n = Inr pg"
      and "backfill_messages cfg limit_n (bp_messages pg) st w1 = (Inr st1, w')"
      and "\<not> bp_has_more pg" and "r = Inr st1"
  | (again) pg st1 w2 where "go" and "e_query (cc_env cfg) (hist w) u pos n = Inr pg"
      and "backfill_messages cfg limit_n (bp_messages pg) st w1 = (Inr st1, w2)"
      and "bf_processed st < bf_processed st1"
      and "backfill_loop cfg u limit_n ps (bp_next_position pg) st1 w2 = (r, w')"
proof (cases go)
  case False
  with assms(1) show thesis by (intro stopped) (auto simp: go_def backfill_loop.simps [of cfg u])
next
  case go: True
  show thesis
  proof (cases "e_query (cc_env cfg) (hist w) u pos n")
    case (Inl e)
    with assms(1) go show thesis
      by (intro failed [of e]) (auto simp: go_def n_def backfill_loop.simps [of cfg u] query_messages_eq)
  next
    case pg: (Inr pg)
    show thesis
    proof (cases "bp_messages pg = []")
      case True
      with assms(1) go pg show thesis
        by (intro no_more [of pg])
          (auto simp: go_def n_def w1_def backfill_loop.simps [of cfg u] query_messages_eq)
    next
      case some: False
      obtain r2 w2 where m: "backfill_messages cfg limit_n (bp_messages pg) st w1 = (r2, w2)"
        by (cases "backfill_messages cfg limit_n (bp_messages pg) st w1")
      have eq: "(r, w') = (case r2 of Inl e \<Rightarrow> (Inl e, w2)
         | Inr st1 \<Rightarrow> if \<not> bp_has_more pg then (Inr st1, w2)
             else backfill_loop cfg u limit_n ps (bp_next_position pg) st1 w2)"
        using assms(1) go pg some m
        by (simp add: go_def n_def w1_def backfill_loop.simps [of cfg u limit_n ps pos] query_messages_eq)
      show thesis
      proof (cases r2)
        case (Inl e)
        with eq backfill_messages_run [OF m] show thesis by (intro failed [of e]) (auto simp: w1_def)
      next
        case (Inr st1)
        with m go some have "bf_processed st < bf_processed st1"
          using backfill_messages_count [of cfg limit_n "bp_messages pg" st w1 st1 w2]
          by (auto simp: go_def)
        with eq Inr m go pg show thesis
          by (cases "bp_has_more pg") (auto intro: final [of pg st1] again [of pg st1 w2])
      qed
    qed
  qed
qed

lemma backfill_loop_keeps:
  "backfill_loop cfg u limit_n ps pos st w = (r, w') \<Longrightarrow> counts_ok limit_n st \<Longrightarrow>
   grows w w' \<and> (case r of Inl e \<Rightarrow> True | Inr st' \<Rightarrow> counts_ok limit_n st')"
proof (induction "nat (limit_n - bf_processed st)" arbitrary: pos st w rule: less_induct)
  case less
  from less.prems(1) show ?case
  proof (cases rule: backfill_round)
    case (final pg st1)
    with backfill_messages_run [OF final(3)] less.prems(2) show ?thesis
      by (auto dest: backfill_messages_counts_ok)
  next
    case (again pg st1 w2)
    have "counts_ok limit_n st1"
      using again(1) less.prems(2) by (auto intro: backfill_messages_counts_ok [OF again(3)])
    with less.hyps [OF _ again(5)] again(1,4)
    have "grows w2 w' \<and> (case r of Inl e \<Rightarrow> True | Inr st' \<Rightarrow> counts_ok limit_n st')" by auto
    with backfill_messages_run [OF again(3)] grows_trans [of w w2 w'] show ?thesis by auto
  qed (use less.prems(2) in auto)
qed

text \<open>The sweep of a windowed listing: the loop's position is the number of processed messages.\<close>

context windowed_listing begin

lemma sweep:
  assumes "backfill_loop cfg u limit_n ps (bf_processed st) st w = (Inr st', w')"
    and "\<And>h p n. e_query (cc_env cfg) h u p n = query p n"
    and "0 < ps" and "0 \<le> bf_processed st" and "\<not> bf_budget_exhausted st"
    and "\<forall>m \<in> set (take (nat (bf_processed st)) listing). has_processed (wdb w) (message_id m)"
  shows "0 \<le> bf_processed st' \<and>
    (\<forall>m \<in> set (take (nat (bf_processed st')) listing). has_processed (wdb w') (message_id m)) \<and>
    (bf_budget_exhausted st' \<or> limit_n \<le> bf_processed st' \<or>
       take (nat (bf_processed st')) listing = listing)"
  using assms(1,4-6)
proof (induction "nat (limit_n - bf_processed st)" arbitrary: st w rule: less_induct)
  case less
  let ?pos = "bf_processed st" let ?n = "min ps (limit_n - ?pos)"
  let ?w1 = "log_call (C_Query u ?pos ?n) w"
  have page: "(\<exists>k \<le> length (bp_messages pg). bf_processed st1 = ?pos + int k \<and>
        (\<forall>m \<in> set (take (nat (bf_processed st1)) listing). has_processed (wdb w2) (message_id m)) \<and>
        (\<not> bf_budget_exhausted st1 \<longrightarrow> bp_next_position pg = bf_processed st1))"
    if go: "?pos < limit_n" and q: "query ?pos ?n = Inr pg"
      and m: "backfill_messages cfg limit_n (bp_messages pg) st ?w1 = (Inr st1, w2)" for pg st1 w2
  proof -
    from go assms(3) have n: "0 < ?n" by simp
    from window [OF less.prems(2) n q]
    have msgs: "bp_messages pg = take (nat ?n) (drop (nat ?pos) listing)"
      and next_pos: "bp_next_position pg = ?pos + int (length (bp_messages pg))" by auto
    have "length (bp_messages pg) \<le> nat ?n" by (simp add: msgs)
    then have "?pos + int (length (bp_messages pg)) \<le> limit_n" using n by linarith
    with backfill_messages_run [OF m] less.prems(3) obtain k
      where g: "grows ?w1 w2" and k: "k \<le> length (bp_messages pg)" "bf_processed st1 = ?pos + int k"
        "\<forall>m \<in> set (take k (bp_messages pg)). has_processed (wdb w2) (message_id m)"
        "\<not> bf_budget_exhausted st1 \<longrightarrow> k = length (bp_messages pg)" by auto
    have "k \<le> nat ?n" using k(1) \<open>length (bp_messages pg) \<le> nat ?n\<close> by simp
    then have "take k (bp_messages pg) = take k (drop (nat ?pos) listing)"
      by (simp only: msgs take_take min_absorb1)
    then have "take (nat (bf_processed st1)) listing = take (nat ?pos) listing @ take k (bp_messages pg)"
      using k(2) less.prems(2) by (simp add: nat_add_distrib take_add)
    with k(3) less.prems(4) grows_processed [OF g]
    have "\<forall>m \<in> set (take (nat (bf_processed st1)) listing). has_processed (wdb w2) (message_id m)" by auto
    with k next_pos show ?thesis by auto
  qed
  from less.prems(1) show ?case
  proof (cases rule: backfill_round)
    case stopped
    with less.prems show ?thesis by auto
  next
    case (failed e)
    then show ?thesis by simp
  next
    case (no_more pg)
    with assms(2,3) have "query ?pos ?n = Inr pg" "0 < ?n" by auto
    from last_page [OF less.prems(2) this(2,1)] window [OF less.prems(2) this(2,1)] no_more less.prems
    show ?thesis by auto
  next
    case (final pg st1)
    with assms(2,3) have q: "query ?pos ?n = Inr pg" "0 < ?n" by auto
    from page [OF _ q(1) final(3)] final(1) obtain k where "bf_processed st1 = ?pos + int k"
      "\<forall>m \<in> set (take (nat (bf_processed st1)) listing). has_processed (wdb w') (message_id m)"
      "\<not> bf_budget_exhausted st1 \<longrightarrow> bp_next_position pg = bf_processed st1" by auto
    with last_page [OF less.prems(2) q(2,1)] final(4,5) less.prems(2) show ?thesis by auto
  next
    case (again pg st1 w2)
    with assms(2,3) have q: "query ?pos ?n = Inr pg" by auto
    from page [OF _ q again(3)] again(1) obtain k where k: "bf_processed st1 = ?pos + int k"
      "\<forall>m \<in> set (take (nat (bf_processed st1)) listing). has_processed (wdb w2) (message_id m)"
      "\<not> bf_budget_exhausted st1 \<longrightarrow> bp_next_position pg = bf_processed st1" by auto
    show ?thesis
    proof (cases "bf_budget_exhausted st1")
      case True
      with again(5) have "st' = st1" "w' = w2" by (auto simp: backfill_loop.simps [of cfg u])
      with True k less.prems(2) show ?thesis by auto
    next
      case False
      with k(3) again(5)
      have "backfill_loop cfg u limit_n ps (bf_processed st1) st1 w2 = (Inr st', w')" by simp
      from less.hyps [OF _ this _ False k(2)] again(1,4) less.prems(2) show ?thesis by auto
    qed
  qed
qed

end

text \<open>The forced run of a reclassification: Tier 1, and Tier 2 when it escalates.\<close>

lemma reclassify_forced:
  assumes run: "bind (process_message (cc_env cfg) Live msg (cc_rules cfg)
        (cc_default_unmatched_action cfg) (cc_classifier cfg) True None)
      (\<lambda>verdict. case verdict of
          None \<Rightarrow> ret (mid @ '': Tier 1 -> none'')
        | Some v \<Rightarrow>
            if a_type (rv_action v) \<noteq> Escalate
            then ret (mid @ '': Tier 1 -> '' @ action_type_name (a_type (rv_action v)))
            else bind (escalate_message_or_quarantine (cc_env cfg) Live (cc_tiering cfg) msg)
                   (\<lambda>r. ret (reclassify_text mid r))) w = (r, w')"
    and t: "t = a_type (rv_action (spec_evaluate msg (cc_rules cfg) (cc_default_unmatched_action cfg)
                  (category_of (cc_classifier cfg) msg)))"
  shows "grows w w' \<and>
    (\<forall>line. r = Inr line \<longrightarrow> has_processed (wdb w') (message_id msg) \<and> t \<noteq> Archive_Receipt \<and>
       (if t = Escalate then \<exists>x. line = reclassify_text mid x
        else line = mid @ '': Tier 1 -> '' @ action_type_name t))"
proof -
  let ?v = "spec_evaluate msg (cc_rules cfg) (cc_default_unmatched_action cfg)
      (category_of (cc_classifier cfg) msg)"
  obtain r2 w2 where p: "process_message (cc_env cfg) Live msg (cc_rules cfg)
      (cc_default_unmatched_action cfg) (cc_classifier cfg) True None w = (r2, w2)"
    by (cases "process_message (cc_env cfg) Live msg (cc_rules cfg)
      (cc_default_unmatched_action cfg) (cc_classifier cfg) True None w")
  note g1 = process_message_grows [OF p]
  show ?thesis
  proof (cases r2)
    case (Inl e)
    with run p have "r = Inl e" "w' = w2" by (auto simp: bind_def)
    with g1 show ?thesis by simp
  next
    case ok: (Inr verdict)
    from process_forced [OF p] ok have v: "verdict = Some ?v"
      and o: "tier1_outcome (e_now (cc_env cfg) (hist w)) msg ?v None w w2" by (simp_all add: Let_def)
    show ?thesis
    proof (cases "t = Escalate")
      case False
      with run p ok v t have "r = Inr (mid @ '': Tier 1 -> '' @ action_type_name t)" and "w' = w2"
        by (simp_all add: bind_def ret_def)
      moreover have "has_processed (wdb w2) (message_id msg) \<and> t \<noteq> Archive_Receipt"
        using o False unfolding t by (cases "a_type (rv_action ?v)")
          (auto simp: tier1_outcome_def handled_def has_processed_def mark_processed_def)
      ultimately show ?thesis using g1 False by simp
    next
      case esc: True
      obtain r3 w3 where e: "escalate_message_or_quarantine (cc_env cfg) Live (cc_tiering cfg) msg w2 = (r3, w3)"
        by (cases "escalate_message_or_quarantine (cc_env cfg) Live (cc_tiering cfg) msg w2")
      have fin: "w' = w3" "r = (case r3 of Inl x \<Rightarrow> Inl x | Inr x \<Rightarrow> Inr (reclassify_text mid x))"
        using run p ok v esc t e by (cases r3; simp add: bind_def ret_def)+
      have "has_processed (wdb w3) (message_id msg)" if "r3 = Inr x" for x
        using escalate_marks e that by blast
      with fin grows_trans [OF g1 escalate_grows [OF e]] esc show ?thesis by (cases r3) auto
    qed
  qed
qed

section \<open>Properties\<close>

text \<open>A backfill run stops by itself and stays within its limit: its counters obey
  verdicts + quarantined (+ 1 when the budget ran out) \<open>\<le>\<close> Tier 1 actions \<open>\<le>\<close> processed \<open>\<le>\<close> limit,
  its own audit entry comes before every other new one, and whatever it answers or raises, no
  processed message is forgotten and the store's invariant is kept.\<close>

theorem backfill_bounded:
  assumes "backfill cfg u limit_n ps w = (r, w')" and "0 \<le> limit_n"
  shows "(\<forall>j. has_processed (wdb w) j \<longrightarrow> has_processed (wdb w') j) \<and>
     (db_ok (wdb w) \<longrightarrow> db_ok (wdb w')) \<and>
     (\<exists>detail. prefix (db_audit_log (write_control_plane_audit_entry (e_now (cc_env cfg) (hist w))
        ''backfill_triggered'' detail (wdb w))) (db_audit_log (wdb w'))) \<and>
     (case r of Inl e \<Rightarrow> True
      | Inr st \<Rightarrow> 0 \<le> bf_tier2_verdicts st \<and> 0 \<le> bf_tier2_quarantined st \<and>
          bf_tier2_verdicts st + bf_tier2_quarantined st + (if bf_budget_exhausted st then 1 else 0)
            \<le> bf_tier1_actions st \<and>
          bf_tier1_actions st \<le> bf_processed st \<and> bf_processed st \<le> limit_n)"
proof -
  obtain detail where loop: "backfill_loop cfg u limit_n ps 0 backfill_start
      ((log_call C_Now w)\<lparr>wdb := write_control_plane_audit_entry (e_now (cc_env cfg) (hist w))
         ''backfill_triggered'' detail (wdb w)\<rparr>) = (r, w')"
    using assms(1) by (auto simp: backfill_def now_def call_def bind_def write_db_def log_call_def)
  have "counts_ok limit_n backfill_start" using assms(2) by (simp add: counts_ok_def backfill_start_def)
  from backfill_loop_keeps [OF loop this] assms(2)
    control_write_grows [of w "e_now (cc_env cfg) (hist w)" "''backfill_triggered''" detail]
  show ?thesis
    by (auto simp: grows_def frame_defs counts_ok_def split: sum.splits)
qed

text \<open>A backfill over a file of messages is complete: when it returns, exactly the first
  \<open>processed\<close> messages of the file were handled, each is marked processed, none was skipped at a
  page boundary, and it stopped because the limit or the daily budget was reached or because
  the whole file was swept.\<close>

theorem backfill_covers_file:
  assumes "backfill cfg u limit_n ps w = (Inr st, w')" and "0 < ps"
    and "\<forall>h p n. e_query (cc_env cfg) h u p n = file_query_messages (Inr msgs) u p n"
  shows "0 \<le> bf_processed st \<and>
     (\<forall>m \<in> set (take (nat (bf_processed st)) msgs). has_processed (wdb w') (message_id m)) \<and>
     (bf_budget_exhausted st \<or> limit_n \<le> bf_processed st \<or> length msgs \<le> nat (bf_processed st))"
proof -
  obtain w1 where "backfill_loop cfg u limit_n ps (bf_processed backfill_start) backfill_start w1 = (Inr st, w')"
    using assms(1) by (auto simp: backfill_def prog_simps backfill_start_def)
  from file_listing.sweep [OF this] assms(2,3) show ?thesis
    by (auto simp: backfill_start_def)
qed


text \<open>What \<open>spork logs\<close> selects: the entries of the message (or all), in id order, at or after
  \<open>--since\<close>; a positive \<open>--tail\<close> keeps the last that many, a tail of 0 keeps them all, and a
  negative one drops that many from the front.\<close>

theorem logs_spec:
  "logs db tail since mid =
     (let es = filter (\<lambda>e. \<forall>t. since = Some t \<longrightarrow> t \<le> ae_ts e) (get_audit_entries db mid)
      in case tail of
           None \<Rightarrow> es
         | Some n \<Rightarrow> drop (if 0 < n then length es - nat n else nat (- n)) es)"
proof -
  have tail: "py_tail n xs = drop (if 0 < n then length xs - nat n else nat (- n)) xs" for n and xs :: "audit_entry list"
    by (auto simp: py_tail_def py_slice_def slice_index_def Let_def min_def nat_diff_distrib')
  show ?thesis
    by (cases since; cases tail) (simp_all add: logs_def tail Let_def)
qed

section \<open>Witnesses\<close>

definition ex_command :: command_config where
  "ex_command =
     \<lparr>cc_env = ex_env\<lparr>e_query := (\<lambda>h u p n. file_query_messages (Inr [ex_message]) u p n)\<rparr>,
      cc_rules = ex_move_rules, cc_default_unmatched_action = action_of_type Escalate,
      cc_classifier = None, cc_tiering = ex_tiering\<rparr>"

lemma ex_backfill:
  "fst (backfill ex_command False 5 2 ex_marked) = Inr (backfill_start\<lparr>bf_processed := 1\<rparr>)"
proof -
  let ?d = "write_control_plane_audit_entry t e d (mark_processed ''m1'' (quarantined_row ex_message ''t'') empty_db)"
  have "has_processed (write_control_plane_audit_entry t e d (mark_processed ''m1'' r empty_db)) ''m1''"
    for t e d r
    by (simp add: write_control_plane_audit_entry_def write_audit_entry_def Let_def has_processed_def
        mark_processed_def)
  moreover have "message_id ex_message = ''m1''" by (simp add: ex_message_def)
  ultimately show ?thesis
    by (simp add: backfill_def now_def call_def bind_def write_db_def backfill_loop.simps
        query_messages_eq backfill_start_def ex_command_def file_query_messages_def py_slice_def
        slice_index_def Let_def backfill_message_def process_gate ex_marked_def ret_def)
qed

theorem backfill_bounded_witness:
  "\<exists>w'. backfill ex_command False 5 2 ex_marked = (Inr (backfill_start\<lparr>bf_processed := 1\<rparr>), w') \<and>
     has_processed (wdb w') ''m1''"
proof -
  obtain w' where b: "backfill ex_command False 5 2 ex_marked = (Inr (backfill_start\<lparr>bf_processed := 1\<rparr>), w')"
    using ex_backfill by (metis prod.collapse)
  have "has_processed (wdb ex_marked) ''m1''"
    by (simp add: ex_marked_def has_processed_def mark_processed_def)
  with b backfill_bounded [OF b] show ?thesis by simp
qed

theorem backfill_covers_file_witness:
  "\<exists>w'. backfill ex_command False 5 2 ex_marked = (Inr (backfill_start\<lparr>bf_processed := 1\<rparr>), w') \<and>
     (\<forall>m \<in> set (take 1 [ex_message]). has_processed (wdb w') (message_id m))"
proof -
  obtain w' where b: "backfill ex_command False 5 2 ex_marked = (Inr (backfill_start\<lparr>bf_processed := 1\<rparr>), w')"
    using ex_backfill by (metis prod.collapse)
  from backfill_covers_file [OF b, of "[ex_message]"] b show ?thesis
    by (simp add: ex_command_def)
qed

lemma ex_forced:
  "fst (process_message ex_env Live ex_message ex_move_rules (action_of_type Escalate) None True
       None w) = Inr (Some \<lparr>rv_action = ex_move, rv_matched_rule_id = Some ''shop''\<rparr>)"
  by (simp add: process_message_def build_default_pipeline_eq process_part_def run_eq
      wrapped_Cons stage_defs wrap_selector_def tracing_selector_def bind_def call_def ret_def
      now_def new_correlation_id_def trace_timed_def trace_def Let_def initial_meta_def
      evaluate_def condition_matches_def ex_move_rules_def ex_rule_defs default_routes_def
      tier1_branch_def ex_move_def terminal_route_def execute_def apply_action_def write_db_def
      ex_env_def log_call_def read_db_def)

lemma fst_bind: "fst (m w) = Inr x \<Longrightarrow> fst (bind m f w) = fst (f x (snd (m w)))"
  by (cases "m w") (simp add: bind_def)

lemma fst_now: "fst (now E w) = Inr (e_now E (hist w))"
  by (simp add: now_def call_def)

lemma fst_write_db: "fst (write_db f w) = Inr ()"
  by (simp add: write_db_def)


end
