(* ===== verification/Command_Wiring.thy ===== *)
theory Command_Wiring
  imports System_Commands Operator_Commands
begin

text \<open>
  The commands as they are started: the wiring of \<open>spork backfill\<close> and \<open>spork reclassify\<close>
  (\<open>cli/commands/backfill.py\<close>, \<open>reclassify.py\<close>) around the programs of \<open>Operator_Commands\<close>,
  \<open>spork config init\<close> and \<open>edit\<close> (\<open>cli/commands/config.py\<close>), the callback of \<open>cli/main.py\<close>, and the
  life of the control socket's file (\<open>core/ipc/server.py\<close>).
\<close>

section \<open>Starting backfill and reclassify\<close>

text \<open>The environment of a run is made of the backends that were built; Tier 1 needs the provider and
  the alerter only.\<close>

record 'a command_host =
  ch_importers :: "'a importers"
  ch_registry :: registry
  ch_resolver :: "unit \<Rightarrow> exn + secrets"
  ch_load_rules :: "string \<Rightarrow> exn + rule list"
  ch_lists :: "provider_handle \<Rightarrow> bool"
  ch_lookup :: "provider_handle \<Rightarrow> string \<Rightarrow> exn + message"
  ch_tier1_env :: "provider_handle \<Rightarrow> 'a \<Rightarrow> env"
  ch_env :: "provider_handle \<Rightarrow> 'a \<Rightarrow> verdict_client \<times> string option \<Rightarrow> context_handle \<Rightarrow> env"

definition not_supported :: "spork_config \<Rightarrow> exn" where
  "not_supported config =
     BackfillNotSupportedError (''provider '' @ py_repr (be_spec (sc_provider config)) @
       '' does not support backfill (no query_messages() capability)'')"

definition backfill_setup :: "'a command_host \<Rightarrow> spork_config \<Rightarrow> exn + command_config" where
  "backfill_setup H config =
     sum_bind (resolve_runtime_secrets config (ch_resolver H)) (\<lambda>vals.
     sum_bind (build_provider (ch_importers H) config vals) (\<lambda>provider.
     if \<not> ch_lists H provider then Inl (not_supported config) else
     sum_bind (build_alerter (ch_importers H) config vals) (\<lambda>alerter.
     sum_bind (ch_load_rules H (sc_rules_path config)) (\<lambda>rules.
     sum_bind (local_classifier (ch_registry H) (t_local_classifier (sc_tiering config))) (\<lambda>classifier.
     sum_bind (build_llm_client (ch_importers H) config vals) (\<lambda>llm.
     sum_bind (build_context_provider (ch_importers H) config vals) (\<lambda>cx.
     Inr \<lparr>cc_env = ch_env H provider alerter llm cx, cc_rules = rules,
          cc_default_unmatched_action = action_of_type (t_default_unmatched_action (sc_tiering config)),
          cc_classifier = classifier, cc_tiering = sc_tiering config\<rparr>)))))))"

text \<open>The load errors are the ones \<open>sporkd\<close> catches; each command adds one more class.\<close>

definition backfill_catches :: "exn \<Rightarrow> bool" where
  "backfill_catches e \<longleftrightarrow> clean_startup_error e \<or> (case e of BackfillNotSupportedError _ \<Rightarrow> True | _ \<Rightarrow> False)"

definition reclassify_catches :: "exn \<Rightarrow> bool" where
  "reclassify_catches e \<longleftrightarrow> clean_startup_error e \<or> (case e of MessageNotFoundError _ \<Rightarrow> True | _ \<Rightarrow> False)"

definition catching :: "(exn \<Rightarrow> bool) \<Rightarrow> (exn \<Rightarrow> string) \<Rightarrow> exn + cli_result \<Rightarrow> exn + cli_result" where
  "catching catches str r =
     (case r of Inl e \<Rightarrow> if catches e then Inr (exit_error (str e)) else Inl e | Inr x \<Rightarrow> Inr x)"

definition backfill_report :: "backfill_state \<Rightarrow> cli_result" where
  "backfill_report st =
     \<lparr>cr_exit = 0,
      cr_out = [''backfill: processed '' @ py_str_int (bf_processed st) @ '' messages ('' @
        py_str_int (bf_tier1_actions st) @ '' Tier 1 actions, '' @ py_str_int (bf_tier2_verdicts st) @
        '' Tier 2 verdicts, '' @ py_str_int (bf_tier2_quarantined st) @ '' quarantined)''],
      cr_err = (if bf_budget_exhausted st
        then [''backfill: stopped early - Tier 2's daily call budget is exhausted''] else [])\<rparr>"

definition backfill_command ::
  "'a command_host \<Rightarrow> exn + spork_config \<Rightarrow> bool \<Rightarrow> int \<Rightarrow> int \<Rightarrow> world \<Rightarrow> (exn + cli_result) \<times> world" where
  "backfill_command H loaded unread_only limit_n page_size w =
     (case loaded of
        Inl (ConfigLoadError why) \<Rightarrow> (Inr (exit_error why), w)
      | Inl e \<Rightarrow> (Inl e, w)
      | Inr config \<Rightarrow>
          (case (case backfill_setup H config of
                   Inl e \<Rightarrow> (Inl e, w)
                 | Inr cfg \<Rightarrow>
                     (case backfill cfg unread_only limit_n page_size w of
                        (Inl e, w') \<Rightarrow> (Inl e, w')
                      | (Inr st, w') \<Rightarrow> (Inr (backfill_report st), w'))) of
             (r, w') \<Rightarrow> (catching backfill_catches (im_str (ch_importers H)) r, w')))"

text \<open>\<open>_reclassify\<close>: the model and the context are built only when Tier 1 escalates, after it ran.\<close>

definition reclassify_run :: "'a command_host \<Rightarrow> spork_config \<Rightarrow> string \<Rightarrow> string prog" where
  "reclassify_run H config mid =
     bind (of_sum (resolve_runtime_secrets config (ch_resolver H))) (\<lambda>vals.
     bind (of_sum (build_provider (ch_importers H) config vals)) (\<lambda>provider.
     bind (of_sum (ch_lookup H provider mid)) (\<lambda>msg.
     bind (of_sum (build_alerter (ch_importers H) config vals)) (\<lambda>alerter.
     bind (of_sum (ch_load_rules H (sc_rules_path config))) (\<lambda>rules.
     bind (of_sum (local_classifier (ch_registry H) (t_local_classifier (sc_tiering config)))) (\<lambda>classifier.
     bind (now (ch_tier1_env H provider alerter)) (\<lambda>ts.
     bind (write_db (write_control_plane_audit_entry ts ''reclassify_triggered''
             (Some (json_object [(''message_id'', json_string mid)])))) (\<lambda>_.
     bind (process_message (ch_tier1_env H provider alerter) Live msg rules
             (action_of_type (t_default_unmatched_action (sc_tiering config))) classifier True None) (\<lambda>verdict.
     case verdict of
       None \<Rightarrow> ret (mid @ '': Tier 1 -> none'')
     | Some v \<Rightarrow>
         if a_type (rv_action v) \<noteq> Escalate
         then ret (mid @ '': Tier 1 -> '' @ action_type_name (a_type (rv_action v)))
         else bind (of_sum (build_llm_client (ch_importers H) config vals)) (\<lambda>llm.
              bind (of_sum (build_context_provider (ch_importers H) config vals)) (\<lambda>cx.
              bind (escalate_message_or_quarantine (ch_env H provider alerter llm cx) Live (sc_tiering config) msg) (\<lambda>r.
              ret (reclassify_text mid r)))))))))))))"

definition reclassify_command ::
  "'a command_host \<Rightarrow> exn + spork_config \<Rightarrow> string \<Rightarrow> world \<Rightarrow> (exn + cli_result) \<times> world" where
  "reclassify_command H loaded mid w =
     (case loaded of
        Inl (ConfigLoadError why) \<Rightarrow> (Inr (exit_error why), w)
      | Inl e \<Rightarrow> (Inl e, w)
      | Inr config \<Rightarrow>
          (case reclassify_run H config mid w of
             (r, w') \<Rightarrow>
               (catching reclassify_catches (im_str (ch_importers H))
                  (case r of Inl e \<Rightarrow> Inl e | Inr line \<Rightarrow> Inr (exit_ok [line])), w')))"

section \<open>spork config init (config.py)\<close>

text \<open>\<open>Path.parent\<close>, and \<open>path.parent / name\<close>.\<close>

definition path_parent :: "string \<Rightarrow> string" where
  "path_parent p =
     (let d = rev (dropWhile (\<lambda>c. c \<noteq> CHR ''/'') (rev p))
      in if d = [] then ''.'' else if d = ''/'' then ''/'' else butlast d)"

definition sibling :: "string \<Rightarrow> string \<Rightarrow> string" where
  "sibling p name = rev (dropWhile (\<lambda>c. c \<noteq> CHR ''/'') (rev p)) @ name"

definition unlines :: "string list \<Rightarrow> string" where
  "unlines ls = concat (map (\<lambda>l. l @ [newline]) ls)"

text \<open>A basic string of plain characters, for the literals of the templates.\<close>

definition dq :: "string \<Rightarrow> string" where
  "dq s = dquote # s @ [dquote]"

definition config_template :: "string \<Rightarrow> string \<Rightarrow> string \<Rightarrow> string" where
  "config_template rules_path db_path model = unlines
     [''rules_path = '' @ json_string rules_path,
      ''db_path = '' @ json_string db_path,
      [],
      ''[provider]'',
      ''spec = '' @ dq ''spork.core.providers.jmap.provider:JmapProvider'',
      ''[provider.kwargs]'',
      ''host = '' @ dq ''api.fastmail.com'',
      ''poll_interval_seconds = 30.0'',
      ''[provider.secret_kwargs]'',
      ''api_token = '' @ dq ''JMAP_API_TOKEN'',
      [],
      ''[llm]'',
      ''spec = '' @ dq ''spork.core.llm.clients.litellm:LiteLLMClient'',
      ''[llm.kwargs]'',
      ''model = '' @ json_string model,
      ''[llm.secret_kwargs]'',
      ''api_key = '' @ dq ''ANTHROPIC_API_KEY'',
      [],
      ''[alerts]'',
      ''spec = '' @ dq ''spork.core.alerts.log:LoggingAlerter'',
      [],
      ''[tiering]'']"

definition starter_rules_text :: string where
  "starter_rules_text = unlines
     [''[[rule]]'',
      ''id = '' @ dq ''starter-ignore'',
      ''description = '' @ dq ''Disabled starter rule; add explicit rules before enabling triage.'',
      ''enabled = false'',
      ''when = { always = true }'',
      ''action = { type = '' @ dq ''ignore'' @ '', reason = '' @ dq ''starter configuration'' @ '' }'']"

datatype init_step = Mkdir string | Write string string

text \<open>The steps in order, up to the first \<open>OSError\<close>.\<close>

fun init_steps :: "(init_step \<Rightarrow> string option) \<Rightarrow> init_step list \<Rightarrow> files \<Rightarrow> string option \<times> files" where
  "init_steps refuse [] fs = (None, fs)"
| "init_steps refuse (s # ss) fs =
     (case refuse s of
        Some why \<Rightarrow> (Some why, fs)
      | None \<Rightarrow> init_steps refuse ss (case s of Mkdir d \<Rightarrow> fs | Write p t \<Rightarrow> fs(p \<mapsto> t)))"

definition config_init ::
  "process_env \<Rightarrow> (init_step \<Rightarrow> string option) \<Rightarrow> bool \<Rightarrow> string \<Rightarrow> files \<Rightarrow> cli_result \<times> files" where
  "config_init env refuse force model fs =
     (let config_path = resolve_user_config_path env;
          rules_path = sibling config_path ''rules.toml'';
          data_dir = path_join (path_join (path_join (pv_home env) ''.local'') ''share'') ''spork''
      in if fs config_path \<noteq> None \<and> \<not> force
         then (exit_error (''config already exists at '' @ config_path @ ''; use --force to replace it.''), fs)
         else (case init_steps refuse
                       [Mkdir (path_parent config_path), Mkdir data_dir,
                        Write config_path (config_template rules_path (path_join data_dir ''state.sqlite3'') model),
                        Write rules_path starter_rules_text] fs of
                 (Some why, fs') \<Rightarrow> (exit_error (''could not write configuration: '' @ why), fs')
               | (None, fs') \<Rightarrow>
                   (exit_ok [''Created '' @ config_path, ''Created '' @ rules_path,
                             ''Edit rules.toml, then run spork doctor before starting sporkd.''], fs')))"

section \<open>spork config edit (config.py)\<close>

text \<open>\<open>split\<close> is \<open>shlex.split\<close>, \<open>launch\<close> what running the editor makes of the files, or the exception
  of a missing one; \<open>load\<close> is \<open>load_config\<close> on the files.\<close>

definition config_edit ::
  "process_env \<Rightarrow> (string \<Rightarrow> exn + string list) \<Rightarrow> (string list \<Rightarrow> 'f \<Rightarrow> exn + 'f) \<Rightarrow> ('f \<Rightarrow> exn + spork_config) \<Rightarrow>
   string \<Rightarrow> 'f \<Rightarrow> (string \<Rightarrow> state_db) \<Rightarrow> (exn + cli_result) \<times> 'f \<times> (string \<Rightarrow> state_db)" where
  "config_edit env split launch load ts fs dbs =
     (let load_or_exit = (\<lambda>fs. case load fs of
                Inl (ConfigLoadError why) \<Rightarrow> Inl (Inr (exit_error why))
              | Inl e \<Rightarrow> Inl (Inl e)
              | Inr config \<Rightarrow> Inr config);
          path = resolve_user_config_path env
      in case load_or_exit fs of
           Inl r \<Rightarrow> (r, fs, dbs)
         | Inr _ \<Rightarrow>
             (case split (case pv_environ env ''EDITOR'' of None \<Rightarrow> ''vi'' | Some e \<Rightarrow> e) of
                Inl e \<Rightarrow> (Inl e, fs, dbs)
              | Inr editor \<Rightarrow>
                  (case launch (editor @ [path]) fs of
                     Inl e \<Rightarrow> (Inl e, fs, dbs)
                   | Inr fs' \<Rightarrow>
                       (case load_or_exit fs' of
                          Inl r \<Rightarrow> (r, fs', dbs)
                        | Inr config \<Rightarrow>
                            (Inr (exit_ok [''Saved. Restart sporkd to apply.'']), fs',
                             dbs(sc_db_path config := write_control_plane_audit_entry ts ''config_edit''
                               (Some (json_object [(''path'', json_string path)])) (dbs (sc_db_path config))))))))"

section \<open>The callback (cli/main.py)\<close>

text \<open>\<open>expand\<close> is \<open>Path.expanduser\<close>; an empty option counts as none. \<open>None\<close>: go on to the command.\<close>

definition option_path :: "(string \<Rightarrow> string) \<Rightarrow> string option \<Rightarrow> string option" where
  "option_path expand p = (case p of None \<Rightarrow> None | Some s \<Rightarrow> if s = [] then None else Some (expand s))"

definition cli_main ::
  "(string \<Rightarrow> string) \<Rightarrow> string \<Rightarrow> 'h \<Rightarrow> bool \<Rightarrow> string \<Rightarrow> string option \<Rightarrow> string option \<Rightarrow> process_env \<Rightarrow> 'h logger \<Rightarrow>
   cli_result option \<times> process_env \<times> 'h logger" where
  "cli_main expand release handler version log_level config_path secretspec_path env lg =
     (let env' = configure_runtime_paths (option_path expand config_path) (option_path expand secretspec_path) env
      in if version then (Some (exit_ok [''spork '' @ release]), env', lg)
         else (case configure_logging handler log_level lg of
                 (Inl e, lg') \<Rightarrow> (Some (exit_error (''Unknown level: '' @ py_repr log_level)), env', lg')
               | (Inr _, lg') \<Rightarrow> (None, env', lg')))"

section \<open>The socket's file (server.py)\<close>

datatype socket_entry = No_Socket | Socket "12 word" | Socket_Is_Directory

record socket_host =
  so_dir :: path_entry
  so_entry :: socket_entry

definition socket_mode :: "12 word" where
  "socket_mode = 384"

definition unlink :: "socket_entry \<Rightarrow> exn + socket_entry" where
  "unlink s = (if s = Socket_Is_Directory then Inl (Other_Error ''OSError'' ''is a directory'') else Inr No_Socket)"

text \<open>\<open>bind\<close> answers the start of the server (an error, or the mode its file gets), \<open>body\<close> how the
  wait for the stop event ends and what the file is then; the \<open>finally\<close> clause runs either way.\<close>

definition serve ::
  "nat \<Rightarrow> 12 word \<Rightarrow> exn + 12 word \<Rightarrow> (socket_host \<Rightarrow> exn option \<times> socket_host) \<Rightarrow> socket_host \<Rightarrow>
   (exn + unit) \<times> socket_host list" where
  "serve uid umask start body h =
     (case ensure_private_dir uid umask (so_dir h) of
        Inl e \<Rightarrow> (Inl e, [h])
      | Inr d \<Rightarrow>
          (case unlink (so_entry h) of
             Inl e \<Rightarrow> (Inl e, [h\<lparr>so_dir := d\<rparr>])
           | Inr s \<Rightarrow>
               (case start of
                  Inl e \<Rightarrow> (Inl e, [h\<lparr>so_dir := d, so_entry := s\<rparr>])
                | Inr m \<Rightarrow>
                    (let h1 = h\<lparr>so_dir := d, so_entry := Socket m\<rparr>; h2 = h1\<lparr>so_entry := Socket socket_mode\<rparr>
                     in case body h2 of
                          (r, h3) \<Rightarrow>
                            (case unlink (so_entry h3) of
                               Inl e \<Rightarrow> (Inl e, [h1, h2, h3])
                             | Inr s' \<Rightarrow> (case r of None \<Rightarrow> Inr () | Some e \<Rightarrow> Inl e, [h1, h2, h3, h3\<lparr>so_entry := s'\<rparr>]))))))"

section \<open>The starter files\<close>

definition starter_entry :: toml where
  "starter_entry = T_Table
     [(''id'', T_Str ''starter-ignore''),
      (''description'', T_Str ''Disabled starter rule; add explicit rules before enabling triage.''),
      (''enabled'', T_Bool False),
      (''when'', T_Table [(''always'', T_Bool True)]),
      (''action'', T_Table [(''type'', T_Str ''ignore''), (''reason'', T_Str ''starter configuration'')])]"

definition starter_rule :: rule where
  "starter_rule =
     \<lparr>r_id = ''starter-ignore'', r_description = ''Disabled starter rule; add explicit rules before enabling triage.'',
      r_when = \<lparr>c_always = True, c_from_domain_in = None, c_from_in = None, c_local_classifier_category_in = None\<rparr>,
      r_action = \<lparr>a_type = Ignore, a_mailbox = None, a_reason = Some ''starter configuration'', a_alert_immediately = False\<rparr>,
      r_enabled = False\<rparr>"

lemma starter_text_reads: "toml_loads starter_rules_text = Some [(''rule'', T_Arr [starter_entry])]"
  by code_simp

lemma starter_entry_valid: "rule_of_table starter_entry = Some starter_rule"
  by code_simp

lemma starter_loads: "follows_schema validate \<Longrightarrow> load_rules validate path (Some starter_rules_text) = Inr [starter_rule]"
  using starter_entry_valid by (simp add: load_rules_def starter_text_reads follows_schema_def)

lemma init_steps_writes:
  "init_steps refuse ss fs = (None, fs') \<Longrightarrow>
   fs' = foldl (\<lambda>g s. case s of Mkdir d \<Rightarrow> g | Write p t \<Rightarrow> g(p \<mapsto> t)) fs ss"
  by (induction ss arbitrary: fs) (auto split: option.splits)

lemma init_steps_keeps:
  "init_steps refuse ss fs = (r, fs') \<Longrightarrow> (\<And>t. Write p t \<notin> set ss) \<Longrightarrow> fs' p = fs p"
proof (induction ss arbitrary: fs)
  case (Cons s ss)
  show ?case
  proof (cases "refuse s")
    case None
    with Cons.prems(1) have "init_steps refuse ss (case s of Mkdir d \<Rightarrow> fs | Write q t \<Rightarrow> fs(q \<mapsto> t)) = (r, fs')" by simp
    from Cons.IH [OF this] Cons.prems(2) show ?thesis by (cases s) auto
  next
    case (Some why)
    with Cons.prems(1) show ?thesis by simp
  qed
qed simp

lemma catching_Inl: "catching catches str r = Inl e \<longleftrightarrow> r = Inl e \<and> \<not> catches e"
  by (auto simp: catching_def split: sum.splits)

lemma exit_error_iff: "cr_exit (exit_error s) = 1" "cr_exit (exit_ok ls) = 0" "cr_exit (backfill_report st) = 0"
  by (simp_all add: exit_error_def exit_ok_def backfill_report_def)

lemma backfill_setup_parts:
  assumes "compose_daemon (ch_importers H) (ch_registry H) (ch_resolver H) (ch_load_rules H) observe config = Inr parts"
  shows "backfill_setup H config =
    (if ch_lists H (dp_provider parts)
     then Inr \<lparr>cc_env = ch_env H (dp_provider parts) (dp_alerter parts) (dp_llm parts) (dp_context parts),
            cc_rules = dp_rules parts,
            cc_default_unmatched_action = action_of_type (t_default_unmatched_action (sc_tiering config)),
            cc_classifier = dp_classifier parts, cc_tiering = sc_tiering config\<rparr>
     else Inl (not_supported config))"
  using assms by (auto simp: compose_daemon_def backfill_setup_def sum_bind_Inr_iff)

lemma private_dir_only: "ensure_private_dir uid umask p = Inr d \<Longrightarrow> d = Directory uid 448"
  using private_and_umask [of umask]
  by (cases p) (auto simp: ensure_private_dir_def Let_def dir_mode_private_def split: if_splits)

section \<open>Properties\<close>


text \<open>A reclassification whose message Tier 1 escalates builds the model only then: a model that
  cannot be built ends the command with 1, a context provider that cannot be built with a traceback,
  and either way Tier 1's run and the audit entry before it stay.\<close>

theorem reclassify_late_failure:
  assumes built: "resolve_runtime_secrets config (ch_resolver H) = Inr vals"
      "build_provider (ch_importers H) config vals = Inr provider" "ch_lookup H provider mid = Inr msg"
      "build_alerter (ch_importers H) config vals = Inr al" "ch_load_rules H (sc_rules_path config) = Inr rules"
      "local_classifier (ch_registry H) (t_local_classifier (sc_tiering config)) = Inr classifier"
    and env: "E = ch_tier1_env H provider al"
    and triggered: "w1 = (log_call C_Now w)\<lparr>wdb := write_control_plane_audit_entry (e_now E (hist w)) ''reclassify_triggered''
        (Some (json_object [(''message_id'', json_string mid)])) (wdb w)\<rparr>"
    and tier1: "process_message E Live msg rules (action_of_type (t_default_unmatched_action (sc_tiering config)))
        classifier True None w1 = (Inr (Some v), w2)" and escalates: "a_type (rv_action v) = Escalate"
  shows "(build_llm_client (ch_importers H) config vals = Inl e \<longrightarrow>
      reclassify_command H (Inr config) mid w =
        (if reclassify_catches e then Inr (exit_error (im_str (ch_importers H) e)) else Inl e, w2)) \<and>
    (build_llm_client (ch_importers H) config vals = Inr llm \<and>
      build_context_provider (ch_importers H) config vals = Inl (Other_Error ''ContextProviderLoadError'' why) \<longrightarrow>
      reclassify_command H (Inr config) mid w = (Inl (Other_Error ''ContextProviderLoadError'' why), w2)) \<and>
    grows w1 w2"
proof -
  have now: "now E w = (Inr (e_now E (hist w)), log_call C_Now w)"
    by (simp add: now_def call_def log_call_def)
  have "build_llm_client (ch_importers H) config vals = Inl e \<Longrightarrow> reclassify_run H config mid w = (Inl e, w2)"
    and "build_llm_client (ch_importers H) config vals = Inr llm \<Longrightarrow>
      build_context_provider (ch_importers H) config vals = Inl (Other_Error ''ContextProviderLoadError'' why) \<Longrightarrow>
      reclassify_run H config mid w = (Inl (Other_Error ''ContextProviderLoadError'' why), w2)"
    using built tier1 escalates now env triggered
    by (simp_all add: reclassify_run_def bind_def of_sum_def write_db_def log_call_def throw_def)
  then show ?thesis
    using process_message_grows [OF tier1]
    by (auto simp: reclassify_command_def catching_def reclassify_catches_def clean_startup_error_def)
qed

text \<open>C36: \<open>spork config init\<close>: an existing configuration is kept unless forced; otherwise a run that
  exits with 0 leaves the template as the configuration and, whatever the rules file held before,
  the starter rules in it, which load to one disabled rule, so every message is unmatched. No other
  file changes, and a failed run exits with 1.\<close>

theorem config_init_spec:
  assumes run: "config_init env refuse force model fs = (res, fs')"
    and path: "path = resolve_user_config_path env" and rules: "rules_path = sibling path ''rules.toml''"
    and apart: "rules_path \<noteq> path" and schema: "follows_schema validate"
  shows "(fs path \<noteq> None \<and> \<not> force \<longrightarrow> cr_exit res = 1 \<and> fs' = fs) \<and>
    (cr_exit res = 0 \<longrightarrow>
      fs' path = Some (config_template rules_path
        (path_join (path_join (path_join (path_join (pv_home env) ''.local'') ''share'') ''spork'') ''state.sqlite3'') model) \<and>
      fs' rules_path = Some starter_rules_text \<and>
      load_rules validate rules_path (fs' rules_path) = Inr [starter_rule] \<and>
      spec_evaluate msg [starter_rule] dflt cat = \<lparr>rv_action = dflt, rv_matched_rule_id = None\<rparr>) \<and>
    (p \<noteq> path \<and> p \<noteq> rules_path \<longrightarrow> fs' p = fs p) \<and> cr_exit res \<in> {0, 1}"
proof (cases "fs path \<noteq> None \<and> \<not> force")
  case True
  with run path show ?thesis by (auto simp: config_init_def Let_def exit_error_def)
next
  case False
  let ?ss = "[Mkdir (path_parent path), Mkdir (path_join (path_join (path_join (pv_home env) ''.local'') ''share'') ''spork''),
     Write path (config_template rules_path
       (path_join (path_join (path_join (path_join (pv_home env) ''.local'') ''share'') ''spork'') ''state.sqlite3'') model),
     Write rules_path starter_rules_text]"
  obtain r fs1 where s: "init_steps refuse ?ss fs = (r, fs1)" by (cases "init_steps refuse ?ss fs") blast
  have res: "fs' = fs1" "cr_exit res = (if r = None then 0 else 1)"
    using run False path rules s by (auto simp: config_init_def Let_def exit_error_def exit_ok_def split: option.splits)
  have written: "r = None \<Longrightarrow> fs1 path = Some (config_template rules_path
        (path_join (path_join (path_join (path_join (pv_home env) ''.local'') ''share'') ''spork'') ''state.sqlite3'') model) \<and>
      fs1 rules_path = Some starter_rules_text"
    using init_steps_writes [of refuse ?ss fs fs1] s apart by simp
  have kept: "p \<noteq> path \<Longrightarrow> p \<noteq> rules_path \<Longrightarrow> fs1 p = fs p"
    using init_steps_keeps [OF s, of p] by auto
  have disabled: "\<not> rule_hits msg cat starter_rule" by (simp add: rule_hits_def starter_rule_def)
  show ?thesis
    using False res written kept starter_loads [OF schema, of rules_path] disabled
    by (auto simp: spec_evaluate_def split: if_splits)
qed

text \<open>\<open>spork config edit\<close> writes one audit entry, to the store of the configuration it loads after
  the editor, exactly when it exits with 0; on every other end no store changes, and no files but
  the editor's changes are made.\<close>

theorem config_edit_spec:
  assumes run: "config_edit env split launch load ts fs dbs = (r, fs', dbs')"
  shows "((\<exists>out. r = Inr (exit_ok out)) \<longrightarrow>
      (\<exists>config detail. load fs' = Inr config \<and>
         dbs' = dbs(sc_db_path config := write_control_plane_audit_entry ts ''config_edit'' detail (dbs (sc_db_path config))))) \<and>
    ((\<nexists>out. r = Inr (exit_ok out)) \<longrightarrow> dbs' = dbs) \<and>
    (fs' = fs \<or> (\<exists>cmd. launch (cmd @ [resolve_user_config_path env]) fs = Inr fs'))"
proof -
  have ne: "exit_error why \<noteq> exit_ok out" for why out by (simp add: exit_error_def exit_ok_def)
  show ?thesis
    using run ne
    by (auto simp: config_edit_def Let_def split: sum.splits exn.splits)
qed

text \<open>The control socket's file: connections are served only in a directory that is this user's
  and closed to others, over a socket of mode 600, and whatever ends the wait nothing is left at
  the path. A server that does not start serves nothing.\<close>

theorem serve_lifecycle:
  assumes run: "serve uid umask start body h = (r, hs)" and quiet: "\<And>s. so_entry (snd (body s)) \<noteq> Socket_Is_Directory"
  shows "(\<exists>s. hs = [s]) \<and> (\<exists>e. r = Inl e) \<or>
    (\<exists>bound served ended closed. hs = [bound, served, ended, closed] \<and>
       so_dir served = Directory uid 448 \<and> so_entry served = Socket 384 \<and>
       ended = snd (body served) \<and> so_entry closed = No_Socket \<and>
       r = (case fst (body served) of None \<Rightarrow> Inr () | Some e \<Rightarrow> Inl e))"
proof (cases "ensure_private_dir uid umask (so_dir h)")
  case (Inl e)
  with run show ?thesis by (auto simp: serve_def)
next
  case (Inr d)
  note d = Inr
  then have priv: "d = Directory uid 448" using private_dir_only by blast
  show ?thesis
  proof (cases "unlink (so_entry h)")
    case (Inl e)
    with run d show ?thesis by (auto simp: serve_def)
  next
    case (Inr s)
    show ?thesis
    proof (cases start)
      case (Inl e)
      with run d Inr show ?thesis by (auto simp: serve_def)
    next
      case started: (Inr m)
      define served where "served = h\<lparr>so_dir := d, so_entry := Socket socket_mode\<rparr>"
      obtain r3 h3 where b: "body served = (r3, h3)" by fastforce
      with quiet [of served] have "unlink (so_entry h3) = Inr No_Socket" by (simp add: unlink_def)
      then have "hs = [h\<lparr>so_dir := d, so_entry := Socket m\<rparr>, served, h3, h3\<lparr>so_entry := No_Socket\<rparr>] \<and>
          r = (case r3 of None \<Rightarrow> Inr () | Some e \<Rightarrow> Inl e)"
        using run d Inr started b by (simp add: serve_def Let_def served_def)
      then show ?thesis
        using b priv
        by (intro disjI2 exI [of _ "h\<lparr>so_dir := d, so_entry := Socket m\<rparr>"] exI [of _ served] exI [of _ h3]
            exI [of _ "h3\<lparr>so_entry := No_Socket\<rparr>"]) (simp add: served_def socket_mode_def)
    qed
  qed
qed

section \<open>Witnesses\<close>

definition ex_command_host :: "unit command_host" where
  "ex_command_host =
     \<lparr>ch_importers = ex_importers, ch_registry = [], ch_resolver = (\<lambda>_. Inr []), ch_load_rules = (\<lambda>_. Inr ex_move_rules),
      ch_lists = (\<lambda>_. False), ch_lookup = (\<lambda>_ _. Inr ex_message), ch_tier1_env = (\<lambda>_ _. ex_env), ch_env = (\<lambda>_ _ _ _. ex_env)\<rparr>"


theorem config_init_spec_witness:
  "load_rules strict_validate ''/home/u/.config/spork/rules.toml''
     (snd (config_init ex_process_env (\<lambda>_. None) False ''m'' (\<lambda>_. None)) ''/home/u/.config/spork/rules.toml'') = Inr [starter_rule]"
proof -
  obtain res fs' where run: "config_init ex_process_env (\<lambda>_. None) False ''m'' (\<lambda>_. None) = (res, fs')"
    by (cases "config_init ex_process_env (\<lambda>_. None) False ''m'' (\<lambda>_. None)") blast
  have p: "resolve_user_config_path ex_process_env = ''/home/u/.config/spork/config.toml''"
    and s: "sibling ''/home/u/.config/spork/config.toml'' ''rules.toml'' = ''/home/u/.config/spork/rules.toml''"
    by code_simp+
  have "cr_exit res = 0" using run by (auto simp: config_init_def Let_def exit_ok_def)
  moreover have "sibling (resolve_user_config_path ex_process_env) ''rules.toml'' \<noteq> resolve_user_config_path ex_process_env"
    by (simp add: p s)
  ultimately have "load_rules strict_validate (sibling (resolve_user_config_path ex_process_env) ''rules.toml'')
      (fs' (sibling (resolve_user_config_path ex_process_env) ''rules.toml'')) = Inr [starter_rule]"
    using config_init_spec [OF run refl refl _ strict_validate_follows] by blast
  then show ?thesis by (simp add: p s run)
qed

theorem config_edit_spec_witness:
  "config_edit ex_process_env (\<lambda>e. Inr [e]) (\<lambda>_ fs. Inr (Suc fs)) (\<lambda>n. if n = 0 then Inr ex_config else Inl (ConfigLoadError ''bad''))
     ''now'' 0 (\<lambda>_. empty_db) = (Inr (exit_error ''bad''), 1, (\<lambda>_. empty_db))"
proof -
  obtain r fs' dbs' where run: "config_edit ex_process_env (\<lambda>e. Inr [e]) (\<lambda>_ fs. Inr (Suc fs))
      (\<lambda>n. if n = 0 then Inr ex_config else Inl (ConfigLoadError ''bad'')) ''now'' 0 (\<lambda>_. empty_db) = (r, fs', dbs')"
    using prod_cases3 by blast
  then have "r = Inr (exit_error ''bad'')" "fs' = 1" by (auto simp: config_edit_def split: option.splits)
  with config_edit_spec [OF run] run show ?thesis by (simp add: exit_error_def exit_ok_def)
qed

theorem serve_lifecycle_witness:
  "\<exists>bound served ended closed. snd (serve 7 18 (Inr 509) (\<lambda>s. (None, s\<lparr>so_entry := No_Socket\<rparr>))
       \<lparr>so_dir = No_Entry, so_entry = Socket 0\<rparr>) = [bound, served, ended, closed] \<and>
     so_dir served = Directory 7 448 \<and> so_entry closed = No_Socket"
proof -
  let ?body = "\<lambda>s. (None, s\<lparr>so_entry := No_Socket\<rparr>) :: exn option \<times> socket_host"
  obtain r hs where run: "serve 7 18 (Inr 509) ?body \<lparr>so_dir = No_Entry, so_entry = Socket 0\<rparr> = (r, hs)" by fastforce
  have "\<exists>d. ensure_private_dir 7 18 No_Entry = Inr d"
    using ensure_private_dir_spec [of 7 18 No_Entry] by blast
  with run have "r = Inr ()" by (auto simp: serve_def Let_def unlink_def)
  with serve_lifecycle [OF run] run show ?thesis by auto
qed

text \<open>No model client of the configured name, and a rule set that escalates.\<close>

definition ex_no_model :: "unit command_host" where
  "ex_no_model = ex_command_host\<lparr>ch_importers := ex_importers\<lparr>im_llm := (\<lambda>_. Inr (\<lambda>_. None))\<rparr>, ch_load_rules := (\<lambda>_. Inr [])\<rparr>"

lemma ex_escalates:
  "fst (process_message ex_env Live ex_message [] (action_of_type Escalate) None True None w) =
     Inr (Some \<lparr>rv_action = action_of_type Escalate, rv_matched_rule_id = None\<rparr>)"
  by (simp add: process_message_def build_default_pipeline_eq process_part_def run_eq
      wrapped_Cons stage_defs wrap_selector_def tracing_selector_def bind_def call_def ret_def
      now_def new_correlation_id_def trace_timed_def trace_def Let_def initial_meta_def
      evaluate_def default_routes_def tier1_branch_def action_of_type_def escalate_route_def write_db_def
      ex_env_def log_call_def read_db_def)

theorem reclassify_late_failure_witness:
  "\<exists>why w'. reclassify_command ex_no_model (Inr (ex_config\<lparr>sc_tiering := tiering_defaults\<rparr>)) ''m1'' ex_world =
     (Inr (exit_error why), w')"
proof -
  let ?config = "ex_config\<lparr>sc_tiering := tiering_defaults\<rparr>"
  let ?w1 = "(log_call C_Now ex_world)\<lparr>wdb := write_control_plane_audit_entry (e_now ex_env (hist ex_world)) ''reclassify_triggered''
        (Some (json_object [(''message_id'', json_string ''m1'')])) (wdb ex_world)\<rparr>"
  have sec: "resolve_runtime_secrets ?config (ch_resolver ex_no_model) = Inr []"
    by (simp add: resolve_runtime_secrets_def configured_specs_def ex_config_def ex_backend_def)
  have prov: "build_provider (ch_importers ex_no_model) ?config [] = Inr \<lparr>ph_account_id = None\<rparr>"
    and alert: "build_alerter (ch_importers ex_no_model) ?config [] = Inr ()"
    and look: "ch_lookup ex_no_model \<lparr>ph_account_id = None\<rparr> ''m1'' = Inr ex_message"
    and rules: "ch_load_rules ex_no_model (sc_rules_path ?config) = Inr []"
    and cls: "local_classifier (ch_registry ex_no_model) (t_local_classifier (sc_tiering ?config)) = Inr None"
    and env: "ex_env = ch_tier1_env ex_no_model \<lparr>ph_account_id = None\<rparr> ()"
    by (simp_all add: ex_no_model_def ex_command_host_def build_provider_def build_alerter_def load_provider_def load_alerter_def
        load_backend_def py_partition_def ex_importers_def ex_config_def ex_backend_def materialize_backend_kwargs_def
        dict_update_def local_classifier_def tiering_defaults_def)
  obtain e where llm: "build_llm_client (ch_importers ex_no_model) ?config [] = Inl e" and caught: "reclassify_catches e"
    by (simp add: ex_no_model_def ex_command_host_def build_llm_client_def load_llm_client_def load_backend_def py_partition_def
        ex_importers_def ex_config_def ex_backend_def materialize_backend_kwargs_def dict_update_def reclassify_catches_def
        clean_startup_error_def)
  have "t_default_unmatched_action (sc_tiering ?config) = Escalate" by (simp add: tiering_defaults_def)
  then obtain w2 where t1: "process_message ex_env Live ex_message []
      (action_of_type (t_default_unmatched_action (sc_tiering ?config))) None True None ?w1 =
      (Inr (Some \<lparr>rv_action = action_of_type Escalate, rv_matched_rule_id = None\<rparr>), w2)"
    using ex_escalates [of ?w1] by (metis prod.collapse)
  from reclassify_late_failure [OF sec prov look alert rules cls env refl t1, of e] llm caught
  show ?thesis by (auto simp: action_of_type_def)
qed

end
