(* ===== verification/Pipeline_Writes.thy ===== *)
theory Pipeline_Writes
  imports Tier2_Pipeline
begin

text \<open>
  What one run of either pipeline may write, whatever its collaborators do: the exact databases an
  escalation can end in, and the frame of a message, which is its own processed row, audit entries
  of its own id, the usage table and the known senders.
\<close>

section \<open>The databases of an escalation\<close>

text \<open>Before the outcome at most the usage table changes; the outcome is none (the run raised), the
  exhausted budget, a banded verdict of the model in a configured category, or a quarantine.\<close>

inductive escalation_db :: "env \<Rightarrow> tiering_config \<Rightarrow> message \<Rightarrow> state_db \<Rightarrow> state_db \<Rightarrow> bool"
  for E t msg where
  raised: "only_usage_written db db1 \<Longrightarrow> escalation_db E t msg db db1"
| exhausted: "escalation_db E t msg db (tier2_done E msg None ts ''tier2_budget_exhausted'' None db)"
| banded: "only_usage_written db db1 \<Longrightarrow> v_category v \<in> set (t_allowed_categories t) \<Longrightarrow>
    escalation_db E t msg db (tier2_done E msg (Some v) ts (band_event band) (Some (band_detail band v)) db1)"
| quarantined: "only_usage_written db db1 \<Longrightarrow> quarantinable e \<Longrightarrow>
    escalation_db E t msg db (quarantined_db E msg e ts db1)"

lemma only_usage_same [simp]: "only_usage_written db db"
  by (simp add: only_usage_written_def)

lemma process_tier2_db:
  assumes "process_tier2_message E b t msg to ctx boxes w = (r, w')"
  shows "(case r of Inl e \<Rightarrow> only_usage_written (wdb w) (wdb w') | Inr x \<Rightarrow> escalation_db E t msg (wdb w) (wdb w'))"
proof (cases "has_budget_remaining (get_llm_usage (wdb w) (take 10 (e_now E (hist w)))) (t_daily_call_budget t)")
  case False
  with tier2_cases [OF assms] show ?thesis by (cases r) (auto intro: exhausted)
next
  case True
  from tier2_cases [OF assms] True obtain w1 where w1: "wdb w1 = wdb w"
    and alt: "(\<exists>e. r = Inl e \<and> refused E t msg to ctx boxes (e_now E (hist w)) w1 e w') \<or>
      (\<exists>rv. r = map_sum id Some rv \<and> banded E b t msg to ctx boxes (e_now E (hist w)) w1 rv w')" by auto
  from alt show ?thesis
  proof (elim disjE exE conjE)
    fix e assume "r = Inl e" "refused E t msg to ctx boxes (e_now E (hist w)) w1 e w'"
    with w1 show ?thesis by (auto simp: refused_def dest: usage_recorded_only)
  next
    fix rv assume rv: "r = map_sum id Some rv" and bd: "banded E b t msg to ctx boxes (e_now E (hist w)) w1 rv w'"
    from bd obtain req res band db1 cs where us: "usage_recorded E req (e_now E (hist w)) (wdb w1) res db1"
      and acc: "verdict_accepted t boxes (lr_verdict res) band"
      and out: "case rv of Inl e \<Rightarrow> wdb w' = db1
         | Inr v \<Rightarrow> v = lr_verdict res \<and> cs = band_calls b band msg v \<and>
             wdb w' = tier2_done E msg (Some v) (e_now E (hist w)) (band_event band) (Some (band_detail band v)) db1"
      unfolding banded_def by blast
    from acc have cat: "v_category (lr_verdict res) \<in> set (t_allowed_categories t)"
      by (simp add: verdict_accepted_def)
    from usage_recorded_only [OF us] w1 have "only_usage_written (wdb w) db1" by simp
    with out cat rv show ?thesis by (cases rv) (auto intro: escalation_db.banded)
  qed
qed

lemma escalation_writes:
  assumes "escalate_message_or_quarantine E b t msg w = (r, w')"
  shows "escalation_db E t msg (wdb w) (wdb w')"
proof -
  obtain r1 w1 where e1: "escalate_message E b t msg w = (r1, w1)" by (cases "escalate_message E b t msg w")
  have first: "case r1 of Inl e \<Rightarrow> only_usage_written (wdb w) (wdb w1) | Inr x \<Rightarrow> escalation_db E t msg (wdb w) (wdb w1)"
    using e1 process_tier2_db by (cases r1) (fastforce simp: escalate_message_def prog_simps)+
  show ?thesis
  proof (cases "\<exists>e. r1 = Inl e \<and> quarantinable e")
    case True
    then obtain e where e: "r1 = Inl e" "quarantinable e" by blast
    with assms e1 have "quarantine_message E msg e w1 = (r, w')"
      by (simp add: escalate_message_or_quarantine_def try_except_def bind_def)
    from quarantine_run(1) [OF this] first e show ?thesis by (auto intro: quarantined)
  next
    case False
    with assms e1 have "w' = w1"
      by (cases r1) (auto simp: escalate_message_or_quarantine_def try_except_def bind_def ret_def)
    with first show ?thesis by (cases r1) (auto intro: raised)
  qed
qed

section \<open>The frame of a message\<close>

definition own_writes :: "string \<Rightarrow> state_db \<Rightarrow> state_db \<Rightarrow> bool" where
  "own_writes j db db' \<longleftrightarrow>
     (\<forall>k. k \<noteq> j \<longrightarrow> db_processed db' k = db_processed db k) \<and>
     (\<exists>new. db_audit_log db' = db_audit_log db @ new \<and> (\<forall>e \<in> set new. ae_jmap_id e = j)) \<and>
     db_push_cursor db' = db_push_cursor db"

lemma own_writes_refl [simp]: "own_writes j db db"
  by (simp add: own_writes_def)

lemma own_writes_trans: "own_writes j db1 db2 \<Longrightarrow> own_writes j db2 db3 \<Longrightarrow> own_writes j db1 db3"
  by (auto simp: own_writes_def)

lemma own_writes_marked [simp]:
  "own_writes j db (mark_processed j row db') \<longleftrightarrow> own_writes j db db'"
  by (auto simp: own_writes_def mark_processed_def)

lemma own_writes_audit: "own_writes j db db' \<Longrightarrow> own_writes j db (write_audit_entry ts j ev d db')"
  by (auto simp: own_writes_def write_audit_entry_def Let_def)

lemma own_writes_usage: "only_usage_written db db' \<Longrightarrow> own_writes j db db'"
  unfolding only_usage_written_def own_writes_def by (metis append_Nil2 empty_iff empty_set state_db.select_convs(1-3)
    state_db.surjective state_db.update_convs(5))

lemma own_writes_senders: "only_senders_written w w' \<Longrightarrow> own_writes j (wdb w) (wdb w')"
  by (simp add: only_senders_written_def own_writes_def)

lemma escalation_own_writes: "escalation_db E t msg db db' \<Longrightarrow> own_writes (message_id msg) db db'"
  by (induction rule: escalation_db.induct)
    (auto simp: tier2_done_def quarantined_db_def intro!: own_writes_audit intro: own_writes_usage)

lemma tier1_own_writes:
  assumes "tier1_outcome ts msg v ra w w'"
  shows "own_writes (message_id msg) (wdb w) (wdb w')"
  using assms own_writes_senders
  by (cases "a_type (rv_action v)") (auto simp: tier1_outcome_def handled_def intro!: own_writes_audit)

lemma process_message_own_writes:
  assumes "process_message E b msg rules d c force ra w = (r, w')"
  shows "own_writes (message_id msg) (wdb w) (wdb w')"
proof -
  have forced: "own_writes (message_id msg) (wdb w1) (wdb w')"
    if "process_message E b msg rules d c True ra w1 = (r, w')" for w1
    using process_forced [OF that] own_writes_senders tier1_own_writes by (cases r) (auto simp: Let_def)
  show ?thesis
  proof (cases force)
    case True
    with assms forced show ?thesis by simp
  next
    case False
    with assms show ?thesis
      by (auto simp: process_gate dest!: forced split: if_splits)
  qed
qed

lemma escalate_own_writes:
  "escalate_message_or_quarantine E b t msg w = (r, w') \<Longrightarrow> own_writes (message_id msg) (wdb w) (wdb w')"
  by (rule escalation_own_writes, rule escalation_writes)

end
