(* ===== verification/Daemon_Spec.thy ===== *)
theory Daemon_Spec
  imports Daemon_Loop Pipeline_Writes
begin

text \<open>
  What the daemon promises, as an abstract machine over the ids it has handled, the batch in
  flight, the cursors and the control-plane events, and the proof that \<open>run_daemon\<close>'s loop with its
  control socket (\<open>daemon/loop.py\<close>) refines it step by step.
\<close>

section \<open>Simulations\<close>

inductive runs :: "('s \<Rightarrow> 'l \<Rightarrow> 's \<Rightarrow> bool) \<Rightarrow> 's \<Rightarrow> 'l list \<Rightarrow> 's \<Rightarrow> bool" for step s where
  none: "runs step s [] s"
| more: "runs step s ls s1 \<Longrightarrow> step s1 l s2 \<Longrightarrow> runs step s (ls @ [l]) s2"

text \<open>A concrete machine with an invariant and an abstract one: every concrete step is an abstract step
  with a matching action.\<close>

locale simulation =
  fixes cstep :: "'s \<Rightarrow> 'l \<Rightarrow> 's \<Rightarrow> bool"
    and inv :: "'s \<Rightarrow> bool"
    and astep :: "'t \<Rightarrow> 'a \<Rightarrow> 't \<Rightarrow> bool"
    and abs :: "'s \<Rightarrow> 't"
    and matches :: "'l \<Rightarrow> 'a \<Rightarrow> bool"
  assumes keeps_inv: "inv s \<Longrightarrow> cstep s l s' \<Longrightarrow> inv s'"
    and simulates: "inv s \<Longrightarrow> cstep s l s' \<Longrightarrow> \<exists>a. astep (abs s) a (abs s') \<and> matches l a"
begin

lemma runs_inv: "runs cstep s ls s' \<Longrightarrow> inv s \<Longrightarrow> inv s'"
  by (induction rule: runs.induct) (auto intro: keeps_inv)

lemma runs_simulate:
  "runs cstep s ls s' \<Longrightarrow> inv s \<Longrightarrow> \<exists>tr. runs astep (abs s) tr (abs s') \<and> list_all2 matches ls tr"
proof (induction rule: runs.induct)
  case none
  show ?case by (rule exI [of _ "[]"]) (simp add: runs.none)
next
  case (more ls s1 l s2)
  then obtain tr where tr: "runs astep (abs s) tr (abs s1)" "list_all2 matches ls tr" by blast
  from simulates [OF runs_inv [OF more(1) more.prems] more(2)] obtain a
    where a: "astep (abs s1) a (abs s2)" "matches l a" by blast
  from tr a have "runs astep (abs s) (tr @ [a]) (abs s2)" "list_all2 matches (ls @ [l]) (tr @ [a])"
    by (auto intro: runs.more list_all2_appendI)
  then show ?case by blast
qed

end

section \<open>The abstract daemon\<close>

record spec_state =
  sp_handled :: "string set"
  sp_flight :: "(string list \<times> string option) option"
  sp_cursor :: "string \<rightharpoonup> string"
  sp_queue :: "pending_audit_event list"
  sp_log :: "pending_audit_event list"

datatype spec_action =
    Tau
  | Fetch "string list" "string option"
  | Handle string
  | Ack "string option"
  | Abandon
  | Accept "pending_audit_event list"
  | Record pending_audit_event

text \<open>A batch is fetched when none is in flight, handled message by message in its order, and
  acknowledged when nothing of it is left. Giving it up may leave the first message handled.
  Control-plane events are accepted at any time and recorded first come, first served.\<close>

inductive spec_step :: "string option \<Rightarrow> spec_state \<Rightarrow> spec_action \<Rightarrow> spec_state \<Rightarrow> bool" for account where
  tau: "spec_step account s Tau s"
| fetch: "sp_flight s = None \<Longrightarrow> spec_step account s (Fetch ids cp) (s\<lparr>sp_flight := Some (ids, cp)\<rparr>)"
| handle: "sp_flight s = Some (j # ids, cp) \<Longrightarrow>
    spec_step account s (Handle j) (s\<lparr>sp_handled := insert j (sp_handled s), sp_flight := Some (ids, cp)\<rparr>)"
| ack: "sp_flight s = Some ([], cp) \<Longrightarrow>
    spec_step account s (Ack cp) (s\<lparr>sp_flight := None,
      sp_cursor := (case (cp, account) of (Some c, Some a) \<Rightarrow> (sp_cursor s)(a \<mapsto> c) | _ \<Rightarrow> sp_cursor s)\<rparr>)"
| abandon: "sp_flight s = Some (ids, cp) \<Longrightarrow> part \<subseteq> set (take 1 ids) \<Longrightarrow>
    spec_step account s Abandon (s\<lparr>sp_flight := None, sp_handled := sp_handled s \<union> part\<rparr>)"
| accept: "spec_step account s (Accept es) (s\<lparr>sp_queue := sp_queue s @ es\<rparr>)"
| logged: "sp_queue s = e # es \<Longrightarrow>
    spec_step account s (Record e) (s\<lparr>sp_queue := es, sp_log := sp_log s @ [e]\<rparr>)"

abbreviation spec_runs :: "string option \<Rightarrow> spec_state \<Rightarrow> spec_action list \<Rightarrow> spec_state \<Rightarrow> bool" where
  "spec_runs account \<equiv> runs (spec_step account)"

inductive_cases spec_step_AckE [elim!]: "spec_step account s (Ack cp) s'"
inductive_cases spec_step_FetchE [elim!]: "spec_step account s (Fetch ids cp) s'"
inductive_cases spec_step_HandleE [elim!]: "spec_step account s (Handle j) s'"

section \<open>What holds of the abstract daemon\<close>

text \<open>The ids handled since the last fetch, and whether a trace changes the batch.\<close>

fun handled_ids :: "spec_action list \<Rightarrow> string list" where
  "handled_ids [] = []"
| "handled_ids (Handle j # tr) = j # handled_ids tr"
| "handled_ids (_ # tr) = handled_ids tr"

fun batch_action :: "spec_action \<Rightarrow> bool" where
  "batch_action (Fetch ids cp) = True"
| "batch_action (Ack cp) = True"
| "batch_action Abandon = True"
| "batch_action _ = False"

lemma handled_ids_append [simp]: "handled_ids (tr @ bs) = handled_ids tr @ handled_ids bs"
  by (induction tr rule: handled_ids.induct) auto

definition in_flight :: "spec_action list \<Rightarrow> string list \<Rightarrow> string option \<Rightarrow> bool" where
  "in_flight tr todo cp \<longleftrightarrow>
     (\<exists>pre mid ids. tr = pre @ Fetch ids cp # mid \<and> ids = handled_ids mid @ todo \<and> list_all (\<lambda>a. \<not> batch_action a) mid)"

text \<open>From a start without a batch, the batch in flight is what the trace's last fetch left to do.\<close>

lemma spec_flight:
  assumes "spec_runs account s tr s'" and "sp_flight s = None" and "sp_flight s' = Some (todo, cp)"
  shows "in_flight tr todo cp"
  using assms
proof (induction arbitrary: todo cp rule: runs.induct)
  case (more tr s1 a s2)
  have keep: "in_flight (tr @ [a]) todo cp"
    if "\<not> batch_action a" "handled_ids [a] = []" "sp_flight s1 = Some (todo, cp)"
  proof -
    from more.IH more.prems(1) that(3) obtain pre mid ids where "tr = pre @ Fetch ids cp # mid"
      "ids = handled_ids mid @ todo" "list_all (\<lambda>a. \<not> batch_action a) mid"
      unfolding in_flight_def by blast
    with that(1,2) show ?thesis
      unfolding in_flight_def by (intro exI [of _ pre] exI [of _ "mid @ [a]"] exI [of _ ids]) simp
  qed
  from more(2) show ?case
  proof cases
    case (fetch ids cp')
    with more.prems(2) show ?thesis
      unfolding in_flight_def by (intro exI [of _ tr] exI [of _ "[]"] exI [of _ todo]) simp
  next
    case (handle j ids cp')
    with more.prems(2) have "sp_flight s1 = Some (j # todo, cp)" by simp
    from more.IH [OF more.prems(1) this] obtain pre mid ids where "tr = pre @ Fetch ids cp # mid"
      "ids = handled_ids mid @ j # todo" "list_all (\<lambda>a. \<not> batch_action a) mid"
      unfolding in_flight_def by blast
    with handle show ?thesis
      unfolding in_flight_def by (intro exI [of _ pre] exI [of _ "mid @ [a]"] exI [of _ ids]) simp
  qed (use more.prems keep in auto)
qed simp

text \<open>So every acknowledgement follows a fetch of its checkpoint whose ids were all handled, in their
  order, with no other batch in between.\<close>

lemma spec_acks:
  assumes "spec_runs account s tr s'" and "sp_flight s = None"
  shows "tr = pre @ Ack cp # post \<Longrightarrow> in_flight pre [] cp"
  using assms
proof (induction arbitrary: post rule: runs.induct)
  case (more tr s1 a s2)
  show ?case
  proof (cases post rule: rev_cases)
    case Nil
    with more.prems(1) have "tr = pre" "a = Ack cp" by simp_all
    with more(2) have "sp_flight s1 = Some ([], cp)" by auto
    from spec_flight [OF more(1) more.prems(2) this] \<open>tr = pre\<close> show ?thesis by simp
  next
    case (snoc post' b)
    with more.prems(1) have "tr = pre @ Ack cp # post'" by simp
    from more.IH [OF this more.prems(2)] show ?thesis .
  qed
qed simp

lemma spec_handled:
  "spec_runs account s tr s' \<Longrightarrow> sp_handled s \<union> set (handled_ids tr) \<subseteq> sp_handled s'"
  by (induction rule: runs.induct) (auto elim!: spec_step.cases)

fun accepted :: "spec_action list \<Rightarrow> pending_audit_event list" where
  "accepted [] = []"
| "accepted (Accept es # tr) = es @ accepted tr"
| "accepted (_ # tr) = accepted tr"

lemma accepted_append [simp]: "accepted (tr @ bs) = accepted tr @ accepted bs"
  by (induction tr rule: accepted.induct) auto

lemma spec_control:
  "spec_runs account s tr s' \<Longrightarrow> sp_log s' @ sp_queue s' = sp_log s @ sp_queue s @ accepted tr"
  by (induction rule: runs.induct) (auto elim!: spec_step.cases)

section \<open>The daemon as an abstract state\<close>

definition handled_set :: "loop_config \<Rightarrow> state_db \<Rightarrow> string set" where
  "handled_set cfg db = {j. has_processed db j \<or> (lc_observe cfg \<and> pending_escalation db j)}"

fun flight_of :: "loop_pc \<Rightarrow> (string list \<times> string option) option" where
  "flight_of (In_Batch rules dm todo cp) = Some (map message_id todo, cp)"
| "flight_of (In_Tier2 rules dm m rest cp) = Some (message_id m # map message_id rest, cp)"
| "flight_of (Acking batch cp) = Some ([], cp)"
| "flight_of pc = None"

definition spec_of :: "loop_config \<Rightarrow> daemon \<Rightarrow> spec_state" where
  "spec_of cfg d =
     \<lparr>sp_handled = handled_set cfg (wdb (d_world d)), sp_flight = flight_of (d_pc d),
      sp_cursor = db_push_cursor (wdb (d_world d)),
      sp_queue = drain_rest (d_pc d) @ ds_pending (sh_daemon (d_shared d)),
      sp_log = control_log (wdb (d_world d))\<rparr>"

fun matches :: "event_label \<Rightarrow> spec_action \<Rightarrow> bool" where
  "matches (Ipc c) a = (a = Accept (queued_by c))"
| "matches Stop_Event a = (a = Tau)"
| "matches Loop a = (case a of Accept es \<Rightarrow> False | _ \<Rightarrow> True)"

lemma flight_after [simp]: "flight_of (after_message rules dm rest cp) = Some (map message_id rest, cp)"
  by (simp add: after_message_def)

lemma handled_set_message: "message_id m \<in> handled_set cfg db \<longleftrightarrow> handled_message cfg db m"
  by (simp add: handled_set_def handled_message_def)

lemma own_handled:
  assumes own: "own_writes j (wdb w) (wdb w')" and grow: "grows w w'"
  shows "handled_set cfg (wdb w) \<subseteq> handled_set cfg (wdb w')" "handled_set cfg (wdb w') \<subseteq> insert j (handled_set cfg (wdb w))"
proof -
  obtain new where new: "db_audit_log (wdb w') = db_audit_log (wdb w) @ new" "\<forall>e \<in> set new. ae_jmap_id e = j"
    and kept: "\<And>k. k \<noteq> j \<Longrightarrow> db_processed (wdb w') k = db_processed (wdb w) k"
    using own by (auto simp: own_writes_def)
  show "handled_set cfg (wdb w) \<subseteq> handled_set cfg (wdb w')"
    using grow new(1) by (auto simp: handled_set_def grows_def frame_defs pending_escalation_def)
  show "handled_set cfg (wdb w') \<subseteq> insert j (handled_set cfg (wdb w))"
    using kept new by (auto simp: handled_set_def has_processed_def pending_escalation_def)
qed

lemma handled_same_db: "wdb w' = wdb w \<Longrightarrow> handled_set cfg (wdb w') = handled_set cfg (wdb w)"
  by simp

text \<open>An escalation under \<open>live\<close> marks nothing before Tier 2 ran.\<close>

lemma escalate_unmarked:
  assumes "process_message E b msg rules d c False ra w = (Inr (Some v), w')" and "a_type (rv_action v) = Escalate"
  shows "db_processed (wdb w') = db_processed (wdb w)"
proof -
  from assms(1) obtain t where "process_message E b msg rules d c True ra (log_call t w) = (Inr (Some v), w')"
    by (auto simp: process_gate split: if_splits)
  from process_forced [OF this] assms(2) show ?thesis
    by (auto simp: Let_def tier1_outcome_def write_audit_entry_def)
qed

section \<open>The refinement\<close>

lemma step_message_refines:
  assumes pc: "d_pc d = In_Batch rules dm (m # rest) cp"
  shows "\<exists>a. spec_step account (spec_of cfg d) a (spec_of cfg (step_message cfg rules dm m rest cp d)) \<and> matches Loop a"
proof -
  let ?d' = "step_message cfg rules dm m rest cp d"
  obtain r w where pm: "process_message (lc_env cfg) (loop_backend cfg) m rules
      (lc_default_unmatched_action cfg) (lc_classifier cfg) False (lc_receipt_archive cfg) (d_world d) = (r, w)"
    by (cases "process_message (lc_env cfg) (loop_backend cfg) m rules
      (lc_default_unmatched_action cfg) (lc_classifier cfg) False (lc_receipt_archive cfg) (d_world d)")
  have own: "own_writes (message_id m) (wdb (d_world d)) (wdb w)" by (rule process_message_own_writes [OF pm])
  have grow: "grows (d_world d) w" by (rule advances_grows [OF keepsD [OF process_message_advances pm]])
  note sets = own_handled [OF own grow, of cfg]
  have same: "db_push_cursor (wdb w) = db_push_cursor (wdb (d_world d))" "control_log (wdb w) = control_log (wdb (d_world d))"
    using own process_message_control [OF pm] by (simp_all add: own_writes_def)
  have flight: "sp_flight (spec_of cfg d) = Some (message_id m # map message_id rest, cp)" by (simp add: spec_of_def pc)
  have giving_up: ?thesis if "?d' = move_to pc' (d\<lparr>d_world := w'\<rparr>)" "flight_of pc' = None" "drain_rest pc' = []"
    "handled_set cfg (wdb w') = handled_set cfg (wdb (d_world d)) \<union> part" "part \<subseteq> {message_id m}"
    "db_push_cursor (wdb w') = db_push_cursor (wdb (d_world d))" "control_log (wdb w') = control_log (wdb (d_world d))"
    for pc' w' part
    using spec_step.abandon [OF flight, of part account] that pc by (intro exI [of _ Abandon]) (simp add: spec_of_def)
  show ?thesis
  proof (cases "d_stop d")
    case True
    then show ?thesis by (intro giving_up [of Stopped "d_world d" "{}"]) (simp_all add: step_message_def)
  next
    case False
    show ?thesis
    proof (cases r)
      case (Inl e)
      with pm False sets same show ?thesis
        by (intro giving_up [of "Crashed e" w "handled_set cfg (wdb w) - handled_set cfg (wdb (d_world d))"])
          (auto simp: step_message_def)
    next
      case (Inr verdict)
      let ?esc = "case verdict of None \<Rightarrow> False | Some v \<Rightarrow> a_type (rv_action v) = Escalate"
      show ?thesis
      proof (cases "\<not> lc_observe cfg \<and> ?esc")
        case True
        then obtain v where v: "verdict = Some v" "a_type (rv_action v) = Escalate" by (cases verdict) auto
        from escalate_unmarked [OF pm [unfolded Inr v(1)] v(2)] True
        have "handled_set cfg (wdb w) = handled_set cfg (wdb (d_world d))"
          by (simp add: handled_set_def has_processed_def)
        with pm False Inr True same pc have "spec_of cfg ?d' = spec_of cfg d"
          by (simp add: spec_of_def step_message_def)
        then show ?thesis by (intro exI [of _ Tau]) (simp add: spec_step.tau)
      next
        case False
        have "handled_message cfg (wdb w) m"
          using process_message_marks [OF pm [unfolded Inr]] False by (auto simp: handled_message_def)
        then have "handled_set cfg (wdb w) = insert (message_id m) (handled_set cfg (wdb (d_world d)))"
          using sets by (auto simp flip: handled_set_message)
        with pm \<open>\<not> d_stop d\<close> Inr False same pc have "spec_of cfg ?d' = (spec_of cfg d)
            \<lparr>sp_handled := insert (message_id m) (sp_handled (spec_of cfg d)), sp_flight := Some (map message_id rest, cp)\<rparr>"
          by (simp add: spec_of_def step_message_def)
        with spec_step.handle [OF flight, of account] show ?thesis
          by (intro exI [of _ "Handle (message_id m)"]) simp
      qed
    qed
  qed
qed

lemma step_tier2_refines:
  assumes pc: "d_pc d = In_Tier2 rules dm m rest cp"
  shows "\<exists>a. spec_step account (spec_of cfg d) a (spec_of cfg (step_tier2 cfg rules dm m rest cp d)) \<and> matches Loop a"
proof -
  let ?d' = "step_tier2 cfg rules dm m rest cp d"
  obtain r w1 where e: "escalate_message_or_quarantine (lc_env cfg) (loop_backend cfg) (lc_tiering cfg) m
      (d_world d) = (r, w1)"
    by (cases "escalate_message_or_quarantine (lc_env cfg) (loop_backend cfg) (lc_tiering cfg) m (d_world d)")
  let ?day = "ds_budget_exhausted_alert_date (sh_daemon (d_shared d))"
  obtain r2 w2 where c: "check_daily_budget_alert (lc_env cfg) (lc_tiering cfg) ?day w1 = (r2, w2)"
    by (cases "check_daily_budget_alert (lc_env cfg) (lc_tiering cfg) ?day w1")
  have w2: "wdb w2 = wdb w1" using keepsD [OF check_alert_same_db c] by (simp add: same_db_def)
  have own: "own_writes (message_id m) (wdb (d_world d)) (wdb w1)" by (rule escalate_own_writes [OF e])
  note sets = own_handled [OF own advances_grows [OF keepsD [OF escalate_advances e]], of cfg]
  have same: "db_push_cursor (wdb w1) = db_push_cursor (wdb (d_world d))" "control_log (wdb w1) = control_log (wdb (d_world d))"
    using own escalate_control [OF e] by (simp_all add: own_writes_def)
  have flight: "sp_flight (spec_of cfg d) = Some (message_id m # map message_id rest, cp)" by (simp add: spec_of_def pc)
  have crash: ?thesis if "?d' = move_to (Crashed ex) (d\<lparr>d_world := w\<rparr>)" "wdb w = wdb w1" for ex w
    using spec_step.abandon [OF flight, of "handled_set cfg (wdb w1) - handled_set cfg (wdb (d_world d))" account]
      that sets same pc by (intro exI [of _ Abandon]) (auto simp: spec_of_def Un_absorb1)
  show ?thesis
  proof (cases r)
    case (Inl ex)
    with e show ?thesis by (intro crash [of ex w1]) (simp_all add: step_tier2_def)
  next
    case (Inr x)
    show ?thesis
    proof (cases r2)
      case (Inl ex)
      with e c Inr w2 show ?thesis by (intro crash [of ex w2]) (simp_all add: step_tier2_def)
    next
      case (Inr day)
      have "message_id m \<in> handled_set cfg (wdb w1)"
        using escalate_marks [OF e [unfolded \<open>r = Inr x\<close>]] by (simp add: handled_set_def)
      then have "handled_set cfg (wdb w1) = insert (message_id m) (handled_set cfg (wdb (d_world d)))"
        using sets by auto
      with e c \<open>r = Inr x\<close> Inr w2 same pc have "spec_of cfg ?d' = (spec_of cfg d)
          \<lparr>sp_handled := insert (message_id m) (sp_handled (spec_of cfg d)), sp_flight := Some (map message_id rest, cp)\<rparr>"
        by (simp add: spec_of_def step_tier2_def)
      with spec_step.handle [OF flight, of account] show ?thesis
        by (intro exI [of _ "Handle (message_id m)"]) simp
    qed
  qed
qed

lemma tau_refines: "spec_of cfg d' = spec_of cfg d \<Longrightarrow> \<exists>a. spec_step account (spec_of cfg d) a (spec_of cfg d') \<and> matches Loop a"
  by (intro exI [of _ Tau]) (simp add: spec_step.tau)

lemma step_drain_refines:
  assumes pc: "d_pc d = Draining evs" and "queue_ok d"
  shows "\<exists>a. spec_step account (spec_of cfg d) a (spec_of cfg (step_drain (lc_env cfg) evs d)) \<and> matches Loop a"
proof (cases evs)
  case Nil
  with pc show ?thesis by (intro tau_refines) (simp add: step_drain_def spec_of_def)
next
  case (Cons e es)
  let ?d' = "step_drain (lc_env cfg) evs d"
  from assms Cons have "is_control (pe_event e)" by (simp add: queue_ok_def)
  moreover have "is_control ev \<Longrightarrow> ev \<noteq> ''escalated_pending_tier2''" for ev by (auto simp: is_control_def)
  ultimately have "spec_of cfg ?d' = (spec_of cfg d)\<lparr>sp_queue := es @ ds_pending (sh_daemon (d_shared d)),
      sp_log := sp_log (spec_of cfg d) @ [e]\<rparr>"
    using pc Cons
    by (auto simp: step_drain_def spec_of_def Let_def write_control_plane_audit_entry_def handled_set_def
        has_processed_def pending_escalation_def write_audit_entry_def control_log_def)
  moreover have "sp_queue (spec_of cfg d) = e # es @ ds_pending (sh_daemon (d_shared d))"
    by (simp add: spec_of_def pc Cons)
  ultimately show ?thesis
    using spec_step.logged [of "spec_of cfg d" e "es @ ds_pending (sh_daemon (d_shared d))" account]
    by (intro exI [of _ "Record e"]) simp
qed

lemma loop_step_refines:
  assumes "queue_ok d"
  shows "\<exists>a. spec_step (lc_cursor_account_id cfg) (spec_of cfg d) a (spec_of cfg (loop_step cfg d)) \<and> matches Loop a"
proof (cases "d_pc d")
  case At_Top
  then show ?thesis
    by (intro tau_refines) (auto simp: loop_step.simps step_top_def Let_def spec_of_def)
next
  case (Draining evs)
  with step_drain_refines [OF this assms] show ?thesis by (simp add: loop_step.simps)
next
  case Polling
  show ?thesis
  proof (cases "e_poll (lc_env cfg) (hist (d_world d))")
    case (Inl e)
    with Polling show ?thesis by (intro tau_refines) (simp add: loop_step.simps step_poll_def Let_def spec_of_def)
  next
    case (Inr batch)
    let ?cp = "if lc_checkpointed cfg then mb_checkpoint batch else None"
    have "spec_of cfg (loop_step cfg d) = (spec_of cfg d)\<lparr>sp_flight := Some (map message_id (mb_messages batch), ?cp)\<rparr>"
      using Polling Inr by (simp add: loop_step.simps step_poll_def Let_def spec_of_def)
    moreover have "sp_flight (spec_of cfg d) = None" by (simp add: spec_of_def Polling)
    ultimately show ?thesis
      using spec_step.fetch [of "spec_of cfg d" "lc_cursor_account_id cfg" "map message_id (mb_messages batch)" ?cp]
      by (intro exI [of _ "Fetch (map message_id (mb_messages batch)) ?cp"]) simp
  qed
next
  case (In_Batch rules dm todo cp)
  show ?thesis
  proof (cases todo)
    case Nil
    with In_Batch show ?thesis by (intro tau_refines) (simp add: loop_step.simps spec_of_def)
  next
    case (Cons m rest)
    with In_Batch step_message_refines [of d rules dm m rest cp] show ?thesis by (simp add: loop_step.simps)
  qed
next
  case (In_Tier2 rules dm m rest cp)
  with step_tier2_refines [OF this] show ?thesis by (simp add: loop_step.simps)
next
  case (Acking batch cp)
  have "spec_of cfg (loop_step cfg d) = (spec_of cfg d)\<lparr>sp_flight := None,
      sp_cursor := (case (cp, lc_cursor_account_id cfg) of (Some c, Some a) \<Rightarrow> (sp_cursor (spec_of cfg d))(a \<mapsto> c)
        | _ \<Rightarrow> sp_cursor (spec_of cfg d))\<rparr>"
    using Acking by (auto simp: loop_step.simps step_ack_def spec_of_def set_cursor_def handled_set_def has_processed_def
        pending_escalation_def control_log_def split: option.splits)
  moreover have "sp_flight (spec_of cfg d) = Some ([], cp)" by (simp add: spec_of_def Acking)
  ultimately show ?thesis
    using spec_step.ack [of "spec_of cfg d" cp "lc_cursor_account_id cfg"] by (intro exI [of _ "Ack cp"]) simp
next
  case Stopped
  then show ?thesis by (intro tau_refines) (simp add: loop_step.simps)
next
  case (Crashed e)
  then show ?thesis by (intro tau_refines) (simp add: loop_step.simps)
qed

interpretation daemon: simulation "daemon_step cfg" queue_ok "spec_step (lc_cursor_account_id cfg)" "spec_of cfg" matches
proof unfold_locales
  fix d l d' assume q: "queue_ok d" and st: "daemon_step cfg d l d'"
  from daemon_step_control [OF st q] show "queue_ok d'" by simp
  from st show "\<exists>a. spec_step (lc_cursor_account_id cfg) (spec_of cfg d) a (spec_of cfg d') \<and> matches l a"
  proof cases
    case loop
    with loop_step_refines [OF q] show ?thesis by simp
  next
    case (ipc req)
    obtain resp s' where dp: "ipc_dispatch (e_str (lc_env cfg)) (e_load_rules (lc_env cfg) (hist (d_world d)))
        req (d_shared d) = (resp, s')" by fastforce
    have "spec_of cfg d' = (spec_of cfg d)\<lparr>sp_queue := sp_queue (spec_of cfg d) @ queued_by (iq_command req)\<rparr>"
      using ipc dp dispatch_pending [OF dp] by (simp add: ipc_step_def Let_def spec_of_def)
    with ipc spec_step.accept [of "lc_cursor_account_id cfg" "spec_of cfg d" "queued_by (iq_command req)"] show ?thesis
      by (intro exI [of _ "Accept (queued_by (iq_command req))"]) simp
  next
    case stop
    then show ?thesis by (intro exI [of _ Tau]) (simp add: spec_of_def spec_step.tau)
  qed
qed

lemma daemon_steps_runs: "daemon_steps cfg d ls d' \<Longrightarrow> runs (daemon_step cfg) d ls d'"
  by (induction rule: daemon_steps.induct) (auto intro: runs.intros)

section \<open>Properties\<close>

text \<open>C14: the daemon refines its specification: whatever the collaborators do and however requests and
  the stop event interleave with the loop, the steps of a run are the actions of a run of the
  abstract machine, one each, in which a request does nothing but queue its control-plane event and
  the stop event nothing at all. In that run every acknowledgement follows the fetch of its
  checkpoint, between the two every id of the batch was handled once and in order and no other batch
  was begun, what was handled is in the store, and the recorded and queued events are the accepted
  ones in order.\<close>

theorem daemon_refines_spec:
  assumes "daemon_steps cfg (start_daemon started rules w) ls d"
  shows "\<exists>tr. spec_runs (lc_cursor_account_id cfg) (spec_of cfg (start_daemon started rules w)) tr (spec_of cfg d) \<and>
     list_all2 matches ls tr \<and>
     (\<forall>pre cp post. tr = pre @ Ack cp # post \<longrightarrow> in_flight pre [] cp) \<and>
     set (handled_ids tr) \<subseteq> handled_set cfg (wdb (d_world d)) \<and>
     sp_log (spec_of cfg d) @ sp_queue (spec_of cfg d) = control_log (wdb w) @ accepted tr"
proof -
  let ?s = "spec_of cfg (start_daemon started rules w)"
  obtain tr where tr: "spec_runs (lc_cursor_account_id cfg) ?s tr (spec_of cfg d)" "list_all2 matches ls tr"
    using daemon.runs_simulate [OF daemon_steps_runs [OF assms] start_ok(2)] by blast
  have idle: "sp_flight ?s = None" "sp_queue ?s = []" "sp_log ?s = control_log (wdb w)"
    by (simp_all add: spec_of_def start_daemon_def fresh_daemon_state_def)
  have "in_flight pre [] cp" if "tr = pre @ Ack cp # post" for pre cp post
    using spec_acks [OF tr(1) idle(1) that] .
  with tr spec_handled [OF tr(1)] spec_control [OF tr(1)] idle show ?thesis
    by (intro exI [of _ tr]) (auto simp: spec_of_def)
qed

section \<open>Witnesses\<close>

theorem daemon_refines_spec_witness:
  "\<exists>tr. list_all2 matches [Loop, Loop, Loop] tr \<and> set (handled_ids tr) \<subseteq> handled_set ex_loop (wdb (d_world ex_acking))"
  using daemon_refines_spec [OF ex_steps [unfolded ex_start_def]] by blast

end
