(* ===== verification/Pipeline_Calls.thy ===== *)
theory Pipeline_Calls
  imports Daemon_Loop
begin

text \<open>
  Which collaborators a message's processing calls. Neither pipeline polls the source, pages through
  the mailbox or reads the rules file, and under \<open>--observe\<close> Tier 1 makes no call that changes mail;
  so what the loop itself asks of the source stays in the history undisturbed.
\<close>

section \<open>Calls\<close>

text \<open>The calls that change mail or the receipts directory, and those only the loop and the commands
  make.\<close>

fun changes_mail :: "call \<Rightarrow> bool" where
  "changes_mail (C_Apply m a) = True"
| "changes_mail (C_Draft m body) = True"
| "changes_mail (C_Keywords m ks) = True"
| "changes_mail (C_Write_File path content) = True"
| "changes_mail _ = False"

fun loop_call :: "call \<Rightarrow> bool" where
  "loop_call C_Poll = True"
| "loop_call C_Load_Rules = True"
| "loop_call (C_Query unread pos n) = True"
| "loop_call _ = False"

definition pipeline_call :: "bool \<Rightarrow> call \<Rightarrow> bool" where
  "pipeline_call quiet c \<longleftrightarrow> \<not> loop_call c \<and> (quiet \<longrightarrow> \<not> changes_mail c)"

abbreviation calling :: "bool \<Rightarrow> world \<Rightarrow> world \<Rightarrow> bool" where
  "calling quiet \<equiv> only_calls (pipeline_call quiet)"

definition observed_archive :: "receipt_archive_components option \<Rightarrow> bool" where
  "observed_archive ra \<longleftrightarrow> (\<forall>c. ra = Some c \<longrightarrow> rac_keyword_backend c = Observe \<and> rac_dry_run c)"

lemma only_calls_weaken: "only_calls P w w' \<Longrightarrow> (\<And>c. P c \<Longrightarrow> Q c) \<Longrightarrow> only_calls Q w w'"
  by (auto simp: only_calls_def)

lemma pipeline_call_simps [simp]:
  "pipeline_call quiet C_Now" "pipeline_call quiet C_New_Id" "pipeline_call quiet (C_Notify t b u ur)"
  "pipeline_call quiet (C_Trace cid ev fs)" "pipeline_call quiet (C_Classify m)"
  "pipeline_call quiet (C_Context m)" "pipeline_call quiet (C_Llm req)" "pipeline_call quiet (C_Thread m)"
  "pipeline_call quiet C_Mailboxes" "pipeline_call quiet (C_Attachments m)" "pipeline_call quiet (C_Extract rq)"
  "pipeline_call quiet (C_Build_Pdf m atts s1 s2)"
  "pipeline_call quiet (C_Apply m a) \<longleftrightarrow> \<not> quiet" "pipeline_call quiet (C_Draft m s) \<longleftrightarrow> \<not> quiet"
  "pipeline_call quiet (C_Keywords m ks) \<longleftrightarrow> \<not> quiet" "pipeline_call quiet (C_Write_File s1 s2) \<longleftrightarrow> \<not> quiet"
  by (simp_all add: pipeline_call_def)

lemma within_calls:
  "keeps (calling quiet) (trace cid ev fs)" "keeps (calling quiet) (trace_timed E cid ev f)"
  "keeps (calling quiet) (alert E cid t b u)" "keeps (calling quiet) (evaluate msg rules d c)"
  "keeps (calling quiet) (now E)" "keeps (calling quiet) (new_correlation_id E)"
  by (auto simp: now_def new_correlation_id_def
      intro!: trace_only trace_timed_only alert_only evaluate_only_classify keeps_call_only)

lemma execute_within: "quiet \<longrightarrow> b = Observe \<Longrightarrow> keeps (calling quiet) (execute E b msg a)"
  by (rule execute_only) auto

lemmas within_intros = only_calls.keeps_bind only_calls.keeps_ret only_calls.keeps_throw
  only_calls.keeps_read_db only_calls.keeps_of_sum only_calls.keeps_try_except keeps_call_only
  within_calls execute_within

section \<open>Tier 1\<close>

lemma tier1_within:
  "keeps (calling quiet) (stage_fun (timestamp_filter E) p)"
  "keeps (calling quiet) (stage_fun (correlation_id_filter E) p)"
  "quiet \<longrightarrow> b = Observe \<Longrightarrow> keeps (calling quiet) (stage_fun (apply_action_filter E b) p)"
  "keeps (calling quiet) (stage_fun (record_escalation_filter E) p)"
  "keeps (calling quiet) (stage_fun write_audit_entry_filter p)"
  "keeps (calling quiet) (stage_fun mark_processed_filter p)"
  "keeps (calling quiet) (selector_fun idempotency_gate_selector p)"
  "keeps (calling quiet) (selector_fun rule_evaluation_selector p)"
  by (auto simp: stage_defs Let_def split: option.splits intro!: within_intros)

lemma archive_within:
  "quiet \<longrightarrow> rac_keyword_backend c = Observe \<and> rac_dry_run c \<Longrightarrow>
   keeps (calling quiet) (stage_fun (archive_receipt_augment E c) p)"
  by (auto simp: archive_receipt_augment_def resolve_extraction_def apply_keywords_def archive_pdf_def
      build_receipt_pdf_def save_pdf_def Let_def
      split: option.splits backend.splits intro!: within_intros)

lemma process_message_within:
  assumes "quiet \<longrightarrow> b = Observe \<and> observed_archive ra"
  shows "keeps (calling quiet) (process_message E b msg rules d c force ra)"
  using assms
  by (intro only_calls.keeps_process_message)
    (auto simp: tier1_within observed_archive_def intro!: within_intros archive_within)

section \<open>Tier 2\<close>

lemma tier2_within:
  "keeps (calling False) (stage_fun (timestamp_filter2 E) p)"
  "keeps (calling False) (stage_fun (correlation_id_filter2 E) p)"
  "keeps (calling False) (stage_fun (fetch_context_augment E) p)"
  "keeps (calling False) (stage_fun (build_verdict_request_filter E cats n) p)"
  "keeps (calling False) (stage_fun (call_llm_augment E) p)"
  "keeps (calling False) (stage_fun record_llm_usage_filter p)"
  "keeps (calling False) (stage_fun (validate_verdict_filter cats) p)"
  "keeps (calling False) (stage_fun (apply_verdict_action_filter E b) p)"
  "keeps (calling False) (stage_fun (record_alert_only_filter E) p)"
  "keeps (calling False) (stage_fun (record_budget_exhausted_filter E) p)"
  "keeps (calling False) (stage_fun (create_draft_if_wanted_filter E b) p)"
  "keeps (calling False) (stage_fun write_audit_entry_filter2 p)"
  "keeps (calling False) (stage_fun (mark_processed_filter2 E) p)"
  "keeps (calling False) (selector_fun (budget_gate_selector n') p)"
  "keeps (calling False) (selector_fun (confidence_band_selector c1 c2) p)"
  by (auto simp: tier2_stage_defs tier2_selector_defs Let_def split: option.splits backend.splits
      intro!: within_intros)

lemma escalate_within: "keeps (calling False) (escalate_message_or_quarantine E b t msg)"
  by (intro only_calls.keeps_escalate)
    (auto simp: tier2_within quarantine_message_def Let_def intro!: within_intros)

lemma budget_alert_within: "keeps (calling quiet) (check_daily_budget_alert E t day)"
  by (auto simp: check_daily_budget_alert_def Let_def intro!: within_intros)

section \<open>The loop\<close>

text \<open>What one step of the loop asks: a poll where it polls, and otherwise nothing of the source.\<close>

definition asks :: "(call \<Rightarrow> bool) \<Rightarrow> daemon \<Rightarrow> daemon \<Rightarrow> bool" where
  "asks P d d' \<longleftrightarrow> only_calls P (d_world d) (d_world d')"

lemma step_tier2_asks: "asks (pipeline_call False) d (step_tier2 cfg rules dm m rest cp d)"
proof -
  obtain r w where e: "escalate_message_or_quarantine (lc_env cfg) (loop_backend cfg) (lc_tiering cfg) m (d_world d) = (r, w)"
    by force
  obtain r2 w2 where b: "check_daily_budget_alert (lc_env cfg) (lc_tiering cfg)
      (ds_budget_exhausted_alert_date (sh_daemon (d_shared d))) w = (r2, w2)" by force
  from keepsD [OF escalate_within e] keepsD [OF budget_alert_within b]
  have "calling False (d_world d) w" "calling False (d_world d) w2" by (auto intro: only_calls_trans)
  with e b show ?thesis by (auto simp: asks_def step_tier2_def split: sum.splits)
qed

lemma step_message_asks:
  assumes "quiet \<longrightarrow> lc_observe cfg \<and> observed_archive (lc_receipt_archive cfg)"
  shows "asks (pipeline_call quiet) d (step_message cfg rules dm m rest cp d)"
proof -
  obtain r w where p: "process_message (lc_env cfg) (loop_backend cfg) m rules (lc_default_unmatched_action cfg)
      (lc_classifier cfg) False (lc_receipt_archive cfg) (d_world d) = (r, w)" by force
  have "quiet \<longrightarrow> loop_backend cfg = Observe \<and> observed_archive (lc_receipt_archive cfg)"
    using assms by (simp add: loop_backend_def)
  from keepsD [OF process_message_within [OF this] p] p show ?thesis
    by (auto simp: asks_def step_message_def only_calls_refl split: sum.splits)
qed

end
