(* ===== verification/Daemon_Run.thy ===== *)
theory Daemon_Run
  imports Command_Wiring Daemon_Spec Pipeline_Calls
begin

text \<open>
  A run of \<open>sporkd\<close> from its start to the end of the process: the composition and the message loop
  put together as \<open>run_daemon\<close> (\<open>daemon/loop.py\<close>) and \<open>main\<close> (\<open>daemon/main.py\<close>) put them together.
  A schedule says in which order the loop's steps, the requests on the control socket and the
  signals come; the run is a function of it, and every run of it is a run of the transition system
  of \<open>Daemon_Loop\<close>.

  Lemmas: what a schedule of any length keeps, where the batch in hand came from, and what a second
  run finds in the store.
\<close>

section \<open>Opening the daemon (run_daemon)\<close>

text \<open>What \<open>build_source\<close>, or \<open>build_checkpointed_source\<close> on the stored cursor, hands out: how it
  answers a poll, and whether it is a \<open>CheckpointedSource\<close>.\<close>

record source_handle =
  sh_poll :: "call list \<Rightarrow> exn + message_batch"
  sh_checkpointed :: bool

text \<open>\<open>rh_source\<close> gets \<open>None\<close> from a plain provider and the cursor from a checkpointed one;
  \<open>rh_env\<close> is what the parts built from the provider and the other backends answer;
  \<open>rh_load_rules\<close> reads the rules file as it is when it is read.\<close>

record 'a run_host =
  rh_importers :: "'a importers"
  rh_registry :: registry
  rh_resolver :: "unit \<Rightarrow> exn + secrets"
  rh_load_rules :: "call list \<Rightarrow> string \<Rightarrow> exn + rule list"
  rh_started_at :: string
  rh_source :: "provider_handle \<Rightarrow> string option option \<Rightarrow> exn + source_handle"
  rh_env :: "'a daemon_parts \<Rightarrow> env"

definition daemon_cursor :: "'a daemon_parts \<Rightarrow> state_db \<Rightarrow> string option option" where
  "daemon_cursor parts db = map_option (get_cursor db) (dp_account_id parts)"

definition daemon_loop_config ::
  "'a run_host \<Rightarrow> bool \<Rightarrow> spork_config \<Rightarrow> 'a daemon_parts \<Rightarrow> source_handle \<Rightarrow> loop_config" where
  "daemon_loop_config H observe config parts src =
     \<lparr>lc_env = (rh_env H parts)\<lparr>e_poll := sh_poll src,
         e_load_rules := (\<lambda>h. rh_load_rules H h (sc_rules_path config))\<rparr>,
      lc_default_unmatched_action = action_of_type (t_default_unmatched_action (sc_tiering config)),
      lc_classifier = dp_classifier parts, lc_tiering = sc_tiering config, lc_observe = observe,
      lc_receipt_archive = map_option fst (dp_receipts parts),
      lc_cursor_account_id = dp_account_id parts, lc_checkpointed = sh_checkpointed src\<rparr>"

definition open_daemon ::
  "'a run_host \<Rightarrow> bool \<Rightarrow> spork_config \<Rightarrow> 'a daemon_parts \<Rightarrow> world \<Rightarrow> exn + (loop_config \<times> daemon)" where
  "open_daemon H observe config parts w =
     sum_bind (rh_source H (dp_provider parts) (daemon_cursor parts (wdb w))) (\<lambda>src.
     Inr (daemon_loop_config H observe config parts src,
          start_daemon (rh_started_at H) (dp_rules parts) w))"

section \<open>The task group\<close>

text \<open>What the event loop does next: a step of the message loop, a request's handler, or the handler
  of SIGTERM and SIGINT, which sets the stop event.\<close>

datatype loop_event = Run_Loop | Request ipc_request | Signalled

fun apply_event :: "loop_config \<Rightarrow> loop_event \<Rightarrow> daemon \<Rightarrow> daemon" where
  "apply_event cfg Run_Loop d = loop_step cfg d"
| "apply_event cfg (Request req) d = ipc_step cfg req d"
| "apply_event cfg Signalled d = d\<lparr>d_stop := True\<rparr>"

fun event_name :: "loop_event \<Rightarrow> event_label" where
  "event_name Run_Loop = Loop"
| "event_name (Request req) = Ipc (iq_command req)"
| "event_name Signalled = Stop_Event"

fun play :: "loop_config \<Rightarrow> loop_event list \<Rightarrow> daemon \<Rightarrow> daemon" where
  "play cfg [] d = d"
| "play cfg (e # es) d = (if running (d_pc d) then play cfg es (apply_event cfg e d) else d)"

text \<open>\<open>server\<close> is how the control server's task fails, if it does. The group waits for both tasks
  and raises what they raised as one exception group; a failing server cancels the loop, which then
  is where the schedule left it.\<close>

definition exception_group :: "exn list \<Rightarrow> exn" where
  "exception_group es =
     Other_Error ''ExceptionGroup'' (''unhandled errors in a TaskGroup ('' @ py_str_int (int (length es)) @
       '' sub-exception'' @ (if length es = 1 then '''' else ''s'') @ '')'')"

datatype run_end = Still_Running | Returned | Raised exn

definition task_group :: "exn option \<Rightarrow> daemon \<Rightarrow> run_end" where
  "task_group server d =
     (case d_pc d of
        Crashed e \<Rightarrow> Raised (exception_group (e # (case server of None \<Rightarrow> [] | Some e' \<Rightarrow> [e'])))
      | pc \<Rightarrow> (case server of
                 Some e \<Rightarrow> Raised (exception_group [e])
               | None \<Rightarrow> if running pc then Still_Running else Returned))"

text \<open>How it ends, the notifications sent to systemd, and the world it leaves.\<close>

definition serve_daemon ::
  "'a run_host \<Rightarrow> bool \<Rightarrow> exn option \<Rightarrow> loop_event list \<Rightarrow> spork_config \<Rightarrow> world \<Rightarrow> 'a daemon_parts \<Rightarrow>
   run_end \<times> string list \<times> world" where
  "serve_daemon H observe server events config w parts =
     (case open_daemon H observe config parts w of
        Inl e \<Rightarrow> (Raised e, [], w)
      | Inr (cfg, d) \<Rightarrow>
          (let d' = play cfg events d in (task_group server d', [''READY=1''], d_world d')))"

definition composed ::
  "'a run_host \<Rightarrow> bool \<Rightarrow> spork_config \<Rightarrow> world \<Rightarrow> exn + 'a daemon_parts" where
  "composed H observe config w =
     compose_daemon (rh_importers H) (rh_registry H) (rh_resolver H) (rh_load_rules H (hist w)) observe config"

definition run_daemon ::
  "'a run_host \<Rightarrow> bool \<Rightarrow> exn option \<Rightarrow> loop_event list \<Rightarrow> spork_config \<Rightarrow> world \<Rightarrow>
   run_end \<times> string list \<times> world" where
  "run_daemon H observe server events config w =
     (case composed H observe config w of
        Inl e \<Rightarrow> (Raised e, [], w)
      | Inr parts \<Rightarrow> serve_daemon H observe server events config w parts)"

section \<open>The process (main)\<close>

definition end_exn :: "run_end \<Rightarrow> exn option" where
  "end_exn r = (case r of Raised e \<Rightarrow> Some e | _ \<Rightarrow> None)"

text \<open>\<open>--version\<close> answers before anything is read. \<open>None\<close>: the process is still running.\<close>

definition sporkd ::
  "'a run_host \<Rightarrow> bool \<Rightarrow> exn + spork_config \<Rightarrow> string option \<Rightarrow> bool \<Rightarrow> exn option \<Rightarrow> loop_event list \<Rightarrow> world \<Rightarrow>
   main_outcome option" where
  "sporkd H version loaded log_level observe server events w =
     (if version then Some (Exited 0 (Some ''sporkd 0.1.0''))
      else
        let main = (\<lambda>serve. daemon_main (rh_importers H) (rh_registry H) (rh_resolver H)
                      (rh_load_rules H (hist w)) serve loaded log_level observe)
        in (case loaded of
              Inl e \<Rightarrow> Some (main (\<lambda>_. None))
            | Inr config \<Rightarrow>
                if effective_level log_level config \<in> set level_names \<and>
                   fst (run_daemon H observe server events config w) = Still_Running
                then None
                else Some (main (\<lambda>parts. end_exn (fst (serve_daemon H observe server events config w parts))))))"

section \<open>Schedules are runs of the transition system\<close>

lemma apply_event_step: "running (d_pc d) \<Longrightarrow> daemon_step cfg d (event_name e) (apply_event cfg e d)"
  by (cases e) (auto intro: daemon_step.intros)

lemma daemon_steps_trans:
  "daemon_steps cfg d1 ks d2 \<Longrightarrow> daemon_steps cfg d ls d1 \<Longrightarrow> daemon_steps cfg d (ls @ ks) d2"
proof (induction rule: daemon_steps.induct)
  case (more ks d1' l d2')
  from daemon_steps.more [OF more.IH [OF more.prems] more.hyps(2)] show ?case by simp
qed simp

lemma play_steps: "\<exists>ls. daemon_steps cfg d ls (play cfg es d)"
proof (induction es arbitrary: d)
  case (Cons e es)
  show ?case
  proof (cases "running (d_pc d)")
    case True
    from daemon_steps.more [OF daemon_steps.none apply_event_step [OF True]]
    have "daemon_steps cfg d [event_name e] (apply_event cfg e d)" by simp
    with Cons [of "apply_event cfg e d"] True daemon_steps_trans show ?thesis by fastforce
  qed (auto intro: daemon_steps.none)
qed (auto intro: daemon_steps.none)

lemma play_idle: "\<not> running (d_pc d) \<Longrightarrow> play cfg es d = d"
  by (cases es) auto

lemma play_append: "play cfg (es @ fs) d = play cfg fs (play cfg es d)"
  by (induction es arbitrary: d) (simp_all add: play_idle)

section \<open>Observe mode\<close>

abbreviation watches :: "world \<Rightarrow> world \<Rightarrow> bool" where
  "watches \<equiv> only_calls (\<lambda>c. \<not> changes_mail c)"

lemma calling_watches: "calling True w w' \<Longrightarrow> watches w w'"
  by (erule only_calls_weaken) (simp add: pipeline_call_def)

definition no_tier2 :: "loop_pc \<Rightarrow> bool" where
  "no_tier2 pc = (case pc of In_Tier2 _ _ _ _ _ \<Rightarrow> False | _ \<Rightarrow> True)"

lemma no_tier2_simps [simp]:
  "no_tier2 At_Top" "no_tier2 (Draining evs)" "no_tier2 Polling" "no_tier2 (In_Batch r dm td cp)"
  "no_tier2 (Acking b cp)" "no_tier2 Stopped" "no_tier2 (Crashed e)" "\<not> no_tier2 (In_Tier2 r dm m rest cp)"
  "no_tier2 (after_message r dm rest cp)"
  by (simp_all add: no_tier2_def after_message_def)

lemma watches_log [simp]: "watches w (log_call c w) \<longleftrightarrow> \<not> changes_mail c"
  by (auto simp: only_calls_def log_call_def)

lemma watches_db [simp]: "watches w (w'\<lparr>wdb := db\<rparr>) \<longleftrightarrow> watches w w'"
  by (simp add: only_calls_def)

lemma enter_cycle_no_tier2 [simp]: "no_tier2 (d_pc (enter_cycle d))" "d_world (enter_cycle d) = d_world d"
  by (simp_all add: enter_cycle_def move_to_def)

lemma observed_loop_step:
  assumes "lc_observe cfg" and "observed_archive (lc_receipt_archive cfg)" and "no_tier2 (d_pc d)"
  shows "watches (d_world d) (d_world (loop_step cfg d)) \<and> no_tier2 (d_pc (loop_step cfg d))"
proof (cases "d_pc d")
  case (In_Batch rules dm todo cp)
  show ?thesis
  proof (cases todo)
    case (Cons m rest)
    have "watches (d_world d) (d_world (step_message cfg rules dm m rest cp d))"
      using step_message_asks [of True cfg d rules dm m rest cp] assms(1,2) by (simp add: asks_def calling_watches)
    with Cons In_Batch assms(1) show ?thesis
      by (auto simp: loop_step.simps step_message_def split: prod.splits sum.splits)
  qed (use In_Batch in \<open>simp add: loop_step.simps only_calls_refl\<close>)
qed (use assms in \<open>auto simp: loop_step.simps step_top_def step_drain_def step_poll_def step_ack_def Let_def
      only_calls_refl split: sum.splits option.splits list.splits\<close>)

lemma observed_play:
  assumes "lc_observe cfg" and "observed_archive (lc_receipt_archive cfg)"
  shows "no_tier2 (d_pc d) \<Longrightarrow> watches (d_world d) (d_world (play cfg es d))"
proof (induction es arbitrary: d)
  case (Cons e es)
  have step: "watches (d_world d) (d_world (apply_event cfg e d)) \<and> no_tier2 (d_pc (apply_event cfg e d))"
  proof (cases e)
    case Run_Loop
    with observed_loop_step [OF assms Cons.prems] show ?thesis by simp
  next
    case (Request req)
    with Cons.prems show ?thesis by (simp add: ipc_step_def Let_def only_calls_refl)
  qed (use Cons.prems in \<open>simp add: only_calls_refl\<close>)
  with Cons.IH [of "apply_event cfg e d"] show ?case by (auto simp: only_calls_refl intro: only_calls_trans)
qed (simp add: only_calls_refl)

lemma composed_observed:
  assumes "composed H True config w = Inr parts"
  shows "observed_archive (map_option fst (dp_receipts parts))"
  using assms
  by (auto simp: composed_def compose_daemon_def sum_bind_Inr_iff observed_receipts_def observed_archive_def)

section \<open>The end of the process\<close>

definition loop_steps :: "loop_event list \<Rightarrow> nat" where
  "loop_steps es = length (filter (\<lambda>e. e = Run_Loop) es)"

lemma play_stopping:
  "d_stop d \<Longrightarrow> steps_to_stop (d_pc d) \<le> loop_steps es \<Longrightarrow> \<not> running (d_pc (play cfg es d))"
proof (induction es arbitrary: d)
  case (Cons e es)
  show ?case
  proof (cases "running (d_pc d)")
    case True
    have "d_stop (apply_event cfg e d) \<and> steps_to_stop (d_pc (apply_event cfg e d)) \<le> loop_steps es"
    proof (cases e)
      case Run_Loop
      with loop_step_stopping [OF Cons.prems(1) True, of cfg] Cons.prems(2)
      show ?thesis by (simp add: loop_steps_def)
    qed (use Cons.prems in \<open>simp_all add: loop_steps_def ipc_step_def Let_def\<close>)
    with Cons.IH [of "apply_event cfg e d"] True show ?thesis by simp
  qed simp
qed (simp add: loop_steps_def steps_to_stop_0 [symmetric])

lemma steps_to_stop_drain: "steps_to_stop pc \<le> max 1 (length (drain_rest pc)) + 3"
  by (cases pc) auto

definition group_errors :: "exn option \<Rightarrow> daemon \<Rightarrow> exn list" where
  "group_errors server d =
     (case d_pc d of Crashed e \<Rightarrow> [e] | _ \<Rightarrow> []) @ (case server of None \<Rightarrow> [] | Some e \<Rightarrow> [e])"

lemma task_group_ended:
  "\<not> running (d_pc d) \<Longrightarrow>
   task_group server d = (if group_errors server d = [] then Returned else Raised (exception_group (group_errors server d)))"
  by (cases "d_pc d") (auto simp: task_group_def group_errors_def split: option.splits)

lemma group_not_clean [simp]: "\<not> clean_startup_error (exception_group es)"
  by (simp add: exception_group_def clean_startup_error_def)

section \<open>Where the batch in hand came from, and the cursor a restart finds\<close>

fun batch_of :: "loop_pc \<Rightarrow> (message list \<times> string option) option" where
  "batch_of (In_Batch rules dm todo cp) = Some (dm @ todo, cp)"
| "batch_of (In_Tier2 rules dm m rest cp) = Some (dm @ m # rest, cp)"
| "batch_of (Acking b cp) = Some (b, cp)"
| "batch_of pc = None"

definition answers_poll :: "loop_config \<Rightarrow> daemon \<Rightarrow> message list \<Rightarrow> string option \<Rightarrow> bool" where
  "answers_poll cfg d b cp \<longleftrightarrow> d_pc d = Polling \<and>
     (\<exists>batch. e_poll (lc_env cfg) (hist (d_world d)) = Inr batch \<and> mb_messages batch = b \<and>
        cp = (if lc_checkpointed cfg then mb_checkpoint batch else None))"

text \<open>Some poll of the schedule was answered with this batch and this checkpoint.\<close>

definition polled :: "loop_config \<Rightarrow> daemon \<Rightarrow> loop_event list \<Rightarrow> message list \<Rightarrow> string option \<Rightarrow> bool" where
  "polled cfg d0 es b cp \<longleftrightarrow> (\<exists>es1 es2. es = es1 @ Run_Loop # es2 \<and> answers_poll cfg (play cfg es1 d0) b cp)"

lemma polled_snoc: "polled cfg d0 es b cp \<Longrightarrow> polled cfg d0 (es @ [e]) b cp"
  by (fastforce simp: polled_def)

lemma polled_now: "answers_poll cfg (play cfg es d0) b cp \<Longrightarrow> polled cfg d0 (es @ [Run_Loop]) b cp"
  by (auto simp: polled_def)

lemma batch_after [simp]: "batch_of (after_message rules dm rest cp) = Some (dm @ rest, cp)"
  by (simp add: after_message_def)

lemma enter_cycle_batch [simp]: "batch_of (d_pc (enter_cycle d)) = None"
  by (simp add: enter_cycle_def move_to_def)

lemma loop_step_origin:
  assumes "batch_of (d_pc (loop_step cfg d)) = Some (b, cp)"
  shows "batch_of (d_pc d) = Some (b, cp) \<or> answers_poll cfg d b cp"
proof (cases "d_pc d")
  case (In_Batch rules dm todo cp')
  with assms show ?thesis
    by (cases todo) (auto simp: loop_step.simps step_message_def split: if_splits prod.splits sum.splits)
next
  case (In_Tier2 rules dm m rest cp')
  with assms show ?thesis by (auto simp: loop_step.simps step_tier2_def split: prod.splits sum.splits)
qed (use assms in \<open>auto simp: loop_step.simps step_top_def step_drain_def step_poll_def step_ack_def
      answers_poll_def Let_def split: if_splits sum.splits option.splits list.splits\<close>)

lemma play_snoc: "play cfg (es @ [e]) d = (if running (d_pc (play cfg es d)) then apply_event cfg e (play cfg es d) else play cfg es d)"
  by (simp add: play_append)

lemma batch_polled:
  assumes "batch_of (d_pc d0) = None"
  shows "batch_of (d_pc (play cfg es d0)) = Some (b, cp) \<Longrightarrow> polled cfg d0 es b cp"
proof (induction es rule: rev_induct)
  case (snoc e es)
  let ?d = "play cfg es d0"
  have "batch_of (d_pc ?d) = Some (b, cp) \<or> (e = Run_Loop \<and> answers_poll cfg ?d b cp)"
    using snoc.prems loop_step_origin [of cfg ?d b cp]
    by (cases e) (auto simp: play_snoc ipc_step_def Let_def split: if_splits)
  with snoc.IH show ?case by (auto intro: polled_snoc polled_now)
qed (use assms in simp)

text \<open>The stored cursor is the one the run began with, or one whose whole batch is handled.\<close>

definition resumable :: "loop_config \<Rightarrow> daemon \<Rightarrow> loop_event list \<Rightarrow> string \<Rightarrow> bool" where
  "resumable cfg d0 es a \<longleftrightarrow>
     (let db = wdb (d_world (play cfg es d0)) in
      get_cursor db a = get_cursor (wdb (d_world d0)) a \<or>
      (\<exists>b c. get_cursor db a = Some c \<and> polled cfg d0 es b (Some c) \<and> (\<forall>m \<in> set b. handled_message cfg db m)))"

lemma play_resumable:
  assumes start: "batch_of (d_pc d0) = None" "batch_ok cfg d0"
  shows "resumable cfg d0 es a"
proof (induction es rule: rev_induct)
  case Nil
  show ?case by (simp add: resumable_def)
next
  case (snoc e es)
  let ?d = "play cfg es d0"
  let ?d' = "play cfg (es @ [e]) d0"
  show ?case
  proof (cases "running (d_pc ?d)")
    case False
    then have same: "?d' = ?d" by (simp add: play_snoc)
    from snoc.IH show ?thesis unfolding resumable_def same Let_def by (blast intro: polled_snoc)
  next
    case True
    then have step: "daemon_step cfg ?d (event_name e) ?d'" by (simp add: play_snoc apply_event_step)
    note keeps = handled_grows [OF daemon_step_grows [OF step]]
    show ?thesis
    proof (cases "get_cursor (wdb (d_world ?d')) a = get_cursor (wdb (d_world ?d)) a")
      case same: True
      from snoc.IH keeps show ?thesis
        unfolding resumable_def same Let_def by (blast intro: polled_snoc)
    next
      case False
      then have "db_push_cursor (wdb (d_world ?d')) \<noteq> db_push_cursor (wdb (d_world ?d))"
        by (auto simp: get_cursor_def)
      from step_cursor [OF step this] obtain b c account where pc: "d_pc ?d = Acking b (Some c)"
        and db: "wdb (d_world ?d') = set_cursor account c (wdb (d_world ?d))" by blast
      with False have "get_cursor (wdb (d_world ?d')) a = Some c"
        by (auto simp: get_cursor_def set_cursor_def split: if_splits)
      moreover from pc have "polled cfg d0 es b (Some c)" by (intro batch_polled [OF start(1)]) simp
      moreover obtain ls where "daemon_steps cfg d0 ls ?d" using play_steps by blast
      from daemon_steps_batch [OF this start(2)] pc
      have "\<forall>m \<in> set b. handled_message cfg (wdb (d_world ?d)) m" by (simp add: batch_ok_def)
      ultimately show ?thesis
        using keeps unfolding resumable_def Let_def by (blast intro: polled_snoc)
    qed
  qed
qed

section \<open>Properties\<close>

text \<open>C9: \<open>sporkd --observe\<close> changes no mail: whatever the configuration, the rules, the model's answers
  and the requests on the socket, and whenever it is stopped, a run makes no call that applies an
  action, creates a draft, tags a message or writes a receipt.\<close>

theorem observe_changes_no_mail:
  "\<exists>calls. hist (snd (snd (run_daemon H True server events config w))) = hist w @ calls \<and>
     filter changes_mail calls = []"
proof -
  have "watches w (snd (snd (run_daemon H True server events config w)))"
  proof (cases "composed H True config w")
    case (Inl e)
    then show ?thesis by (simp add: run_daemon_def only_calls_refl)
  next
    case (Inr parts)
    note obs = composed_observed [OF Inr]
    have "watches w (d_world (play cfg events d))"
      if "open_daemon H True config parts w = Inr (cfg, d)" for cfg d
      using that obs observed_play [of cfg d events]
      by (auto simp: open_daemon_def sum_bind_Inr_iff daemon_loop_config_def start_daemon_def)
    with Inr show ?thesis
      by (auto simp: run_daemon_def serve_daemon_def Let_def only_calls_refl split: sum.splits)
  qed
  then show ?thesis by (auto simp: only_calls_def filter_empty_conv)
qed


text \<open>C13: a restart resumes after handled mail. However a run went, and wherever it was cut off, the
  cursor it leaves for its account is the one it began with or the checkpoint of a batch it polled
  whose every message it handled: marked processed or, under observe, recorded as an escalation. The
  next run builds its source on that cursor. And \<open>READY=1\<close> is sent exactly when the source is built.\<close>

theorem restart_resumes:
  assumes "composed H observe config w = Inr parts" and "dp_account_id parts = Some a"
    and "open_daemon H observe config parts w = Inr (cfg, d0)"
    and "run_daemon H observe server events config w = (r, sent, w')"
  shows "sent = [''READY=1''] \<and>
    (get_cursor (wdb w') a = get_cursor (wdb w) a \<or>
     (\<exists>b c. get_cursor (wdb w') a = Some c \<and> polled cfg d0 events b (Some c) \<and>
        (\<forall>m \<in> set b. has_processed (wdb w') (message_id m) \<or>
           (observe \<and> pending_escalation (wdb w') (message_id m))))) \<and>
    (dp_account_id parts' = Some a \<and> open_daemon H observe' config parts' w' = Inr (cfg', d') \<longrightarrow>
     (\<exists>src. rh_source H (dp_provider parts') (Some (get_cursor (wdb w') a)) = Inr src \<and>
        e_poll (lc_env cfg') = sh_poll src \<and> wdb (d_world d') = wdb w'))"
proof -
  from assms(3) have cfg: "lc_observe cfg = observe" and d0: "d0 = start_daemon (rh_started_at H) (dp_rules parts) w"
    by (auto simp: open_daemon_def sum_bind_Inr_iff daemon_loop_config_def)
  have w': "w' = d_world (play cfg events d0)" and sent: "sent = [''READY=1'']"
    using assms(1,3,4) by (simp_all add: run_daemon_def serve_daemon_def Let_def)
  have "resumable cfg d0 events a"
    by (rule play_resumable) (simp_all add: d0 start_ok(1), simp add: start_daemon_def)
  then have "get_cursor (wdb w') a = get_cursor (wdb w) a \<or>
     (\<exists>b c. get_cursor (wdb w') a = Some c \<and> polled cfg d0 events b (Some c) \<and>
        (\<forall>m \<in> set b. has_processed (wdb w') (message_id m) \<or>
           (observe \<and> pending_escalation (wdb w') (message_id m))))"
    unfolding resumable_def w' [symmetric] Let_def handled_message_def cfg
    by (simp add: d0 start_ok(4))
  with sent show ?thesis
    by (auto simp: open_daemon_def sum_bind_Inr_iff daemon_cursor_def daemon_loop_config_def start_ok(4))
qed

section \<open>Witnesses\<close>

definition ex_run_host :: "unit run_host" where
  "ex_run_host =
     \<lparr>rh_importers = ex_importers\<lparr>im_provider := (\<lambda>_. Inr (\<lambda>_. Some (\<lambda>_. Inr \<lparr>ph_account_id = Some (Inr ''acc'')\<rparr>)))\<rparr>,
      rh_registry = [], rh_resolver = (\<lambda>_. Inr []), rh_load_rules = (\<lambda>_ _. Inr []), rh_started_at = ''t0'',
      rh_source = (\<lambda>_ _. Inr \<lparr>sh_poll = (\<lambda>_. Inr \<lparr>mb_messages = [ex_message], mb_checkpoint = Some ''s2''\<rparr>),
                             sh_checkpointed = True\<rparr>),
      rh_env = (\<lambda>_. ex_env)\<rparr>"

definition ex_run_parts :: "unit daemon_parts" where
  "ex_run_parts =
     \<lparr>dp_provider = \<lparr>ph_account_id = Some (Inr ''acc'')\<rparr>, dp_rules = [], dp_llm = (ex_answer, None),
      dp_context = null_context_provider, dp_receipts = None, dp_alerter = (), dp_classifier = None,
      dp_account_id = Some ''acc''\<rparr>"

lemma ex_run_composed: "composed ex_run_host observe ex_config w = Inr ex_run_parts"
  by (simp add: composed_def compose_daemon_def ex_run_host_def ex_run_parts_def ex_importers_def ex_config_def
      ex_backend_def resolve_runtime_secrets_def configured_specs_def build_provider_def build_llm_client_def
      build_alerter_def build_context_provider_def build_receipt_archive_components_def load_provider_def
      load_llm_client_def load_alerter_def load_backend_def py_partition_def materialize_backend_kwargs_def
      observed_receipts_def local_classifier_def tiering_defaults_def checkpoint_account_def)

definition ex_run_config :: loop_config where
  "ex_run_config =
     daemon_loop_config ex_run_host False ex_config ex_run_parts
       \<lparr>sh_poll = (\<lambda>_. Inr \<lparr>mb_messages = [ex_message], mb_checkpoint = Some ''s2''\<rparr>), sh_checkpointed = True\<rparr>"

lemma ex_run_open:
  "open_daemon ex_run_host False ex_config ex_run_parts ex_marked =
     Inr (ex_run_config, start_daemon ''t0'' [] ex_marked)"
  by (simp add: open_daemon_def ex_run_host_def ex_run_config_def ex_run_parts_def)

abbreviation ex_run_played :: "loop_event list \<Rightarrow> daemon" where
  "ex_run_played es \<equiv> play ex_run_config es (start_daemon ''t0'' [] ex_marked)"

lemmas ex_run_defs = ex_run_config_def daemon_loop_config_def ex_run_host_def ex_run_parts_def start_daemon_def
  fresh_daemon_state_def loop_step.simps step_top_def step_poll_def step_message_def step_ack_def process_gate
  ex_marked_def has_processed_def mark_processed_def set_cursor_def ex_message_def after_message_def ex_world_def
  enter_cycle_def

text \<open>One batch of one message is handled and acknowledged, then the signal comes.\<close>

lemma ex_run_cursor:
  "d_pc (ex_run_played [Run_Loop, Run_Loop, Run_Loop, Run_Loop]) = At_Top"
  "get_cursor (wdb (d_world (ex_run_played [Run_Loop, Run_Loop, Run_Loop, Run_Loop]))) ''acc'' = Some ''s2''"
  by (simp_all add: ex_run_defs get_cursor_def)

lemma ex_run_stopped:
  "d_pc (ex_run_played ([Run_Loop, Run_Loop] @ Signalled # [Run_Loop, Run_Loop, Run_Loop, Run_Loop])) = Stopped"
  by (simp add: ex_run_defs)


theorem restart_resumes_witness:
  "get_cursor (wdb (snd (snd (run_daemon ex_run_host False None [Run_Loop, Run_Loop, Run_Loop, Run_Loop] ex_config ex_marked)))) ''acc'' =
     Some ''s2'' \<and>
   (\<exists>b. polled ex_run_config (start_daemon ''t0'' [] ex_marked) [Run_Loop, Run_Loop, Run_Loop, Run_Loop] b (Some ''s2''))"
proof -
  let ?es = "[Run_Loop, Run_Loop, Run_Loop, Run_Loop]"
  obtain r sent w' where run: "run_daemon ex_run_host False None ?es ex_config ex_marked = (r, sent, w')"
    by (cases "run_daemon ex_run_host False None ?es ex_config ex_marked") blast
  then have w': "w' = d_world (ex_run_played ?es)"
    by (simp add: run_daemon_def serve_daemon_def ex_run_composed ex_run_open Let_def)
  have account: "dp_account_id ex_run_parts = Some ''acc''" by (simp add: ex_run_parts_def)
  have before: "get_cursor (wdb ex_marked) ''acc'' = None"
    by (simp add: get_cursor_def ex_marked_def ex_world_def mark_processed_def empty_db_def)
  have now: "get_cursor (wdb w') ''acc'' = Some ''s2''" unfolding w' by (rule ex_run_cursor(2))
  with restart_resumes [OF ex_run_composed account ex_run_open run, where parts' = ex_run_parts and observe' = False
      and cfg' = ex_run_config and d' = "start_daemon ''t0'' [] ex_marked"] before
  obtain b where "polled ex_run_config (start_daemon ''t0'' [] ex_marked) ?es b (Some ''s2'')" by auto
  with now run show ?thesis by auto
qed

end
