(* ===== verification/Jmap_Client.thy ===== *)
theory Jmap_Client
  imports Mail_Sources
begin

text \<open>
  \<open>core/providers/jmap/client.py\<close> and \<open>mailboxes.py\<close>: the session, the cursor-safe fetch,
  paging, thread context, lookup and role resolution. The JMAP server (reached through jmapc)
  is a parameter: what it answers is a function of the calls made so far. Its answers are typed
  as the client inspects them: \<open>None\<close> stands for a value of another type than the checked one.

  Lemmas: the fetch loop against a server that serves a history of created messages.
\<close>

section \<open>Steps with a state\<close>

definition step_ret :: "'a \<Rightarrow> ('s, 'a) step" where
  "step_ret x s = (Inr x, s)"

definition step_fail :: "exn \<Rightarrow> ('s, 'a) step" where
  "step_fail e s = (Inl e, s)"

definition step_bind :: "('s, 'a) step \<Rightarrow> ('a \<Rightarrow> ('s, 'b) step) \<Rightarrow> ('s, 'b) step" where
  "step_bind m f s = (case m s of (Inl e, s') \<Rightarrow> (Inl e, s') | (Inr x, s') \<Rightarrow> f x s')"

lemmas step_defs = step_ret_def step_fail_def step_bind_def

section \<open>Server answers\<close>

record jmap_mailbox =
  jb_id :: "string option"
  jb_name :: string
  jb_role :: "string option"

text \<open>An email: the addresses of its senders, its text parts and their values, and the headers.
  An absent list of senders, parts or values is the empty one, as the client reads it.\<close>

record jmap_email =
  je_id :: "string option"
  je_thread_id :: "string option"
  je_mail_from :: "string option list"
  je_to :: "string option list option"
  je_cc :: "string option list option"
  je_subject :: "string option"
  je_text_body :: "string option list"
  je_body_values :: "(string, string option) dict"
  je_message_id :: "string list option"
  je_in_reply_to :: "string list option"
  je_references :: "string list option"
  je_mailbox_ids :: "(string, bool) dict option"

record email_get_response =
  eg_state :: "string option"
  eg_data :: "jmap_email list option"

record email_changes_response =
  ec_created :: "string list option"
  ec_new_state :: "string option"
  ec_has_more_changes :: "bool option"

record email_query_response =
  eq_ids :: "string list option"
  eq_position :: "int option"
  eq_total :: "int option"

datatype jmap_call =
    J_Session | J_Mailbox_Get | J_Email_Get "string list" | J_Email_Changes string
  | J_Email_Query string bool int int | J_Thread_Get string

text \<open>\<open>js_thread_get\<close>: the first thread's email ids, if there is a thread.\<close>

record jmap_server =
  js_session :: "jmap_call list \<Rightarrow> exn + string"
  js_mailbox_get :: "jmap_call list \<Rightarrow> exn + jmap_mailbox list option"
  js_email_get :: "jmap_call list \<Rightarrow> string list \<Rightarrow> exn + email_get_response"
  js_email_changes :: "jmap_call list \<Rightarrow> string \<Rightarrow> exn + email_changes_response"
  js_email_query :: "jmap_call list \<Rightarrow> string \<Rightarrow> bool \<Rightarrow> int \<Rightarrow> int \<Rightarrow> exn + email_query_response"
  js_thread_get :: "jmap_call list \<Rightarrow> string \<Rightarrow> exn + string list option option"
  js_str :: "exn \<Rightarrow> string"

record jmap_client =
  jc_connected :: bool
  jc_account_id :: string
  jc_inbox_id :: string
  jc_mailboxes :: "(string, string \<times> string option) dict"
  jc_calls :: "jmap_call list"

definition jmap_client_init :: jmap_client where
  "jmap_client_init =
     \<lparr>jc_connected = False, jc_account_id = [], jc_inbox_id = [], jc_mailboxes = [], jc_calls = []\<rparr>"

type_synonym 'a jmap = "(jmap_client, 'a) step"

definition jmap_call :: "jmap_call \<Rightarrow> (jmap_call list \<Rightarrow> exn + 'a) \<Rightarrow> 'a jmap" where
  "jmap_call c f cl = (f (jc_calls cl), cl\<lparr>jc_calls := jc_calls cl @ [c]\<rparr>)"

text \<open>\<open>_request\<close>: every exception becomes one \<open>JmapError\<close>.\<close>

definition jmap_request :: "jmap_server \<Rightarrow> jmap_call \<Rightarrow> (jmap_call list \<Rightarrow> exn + 'a) \<Rightarrow> 'a jmap" where
  "jmap_request S c f cl =
     (case jmap_call c f cl of
        (Inl e, cl') \<Rightarrow> (Inl (JmapError (''JMAP request failed: '' @ js_str S e)), cl')
      | (Inr x, cl') \<Rightarrow> (Inr x, cl'))"

section \<open>Session\<close>

definition session_error :: "jmap_server \<Rightarrow> exn \<Rightarrow> exn" where
  "session_error S e =
     (case e of JmapError why \<Rightarrow> JmapError why
      | _ \<Rightarrow> JmapError (''could not establish JMAP session: '' @ js_str S e))"

definition inbox_ids :: "jmap_mailbox list \<Rightarrow> string option list" where
  "inbox_ids mailboxes = map jb_id (filter (\<lambda>m. jb_role m = Some ''inbox'') mailboxes)"

fun mailbox_table :: "jmap_mailbox list \<Rightarrow> (string, string \<times> string option) dict \<Rightarrow>
    (string, string \<times> string option) dict" where
  "mailbox_table [] d = d"
| "mailbox_table (m # ms) d =
     mailbox_table ms (case jb_id m of None \<Rightarrow> d | Some i \<Rightarrow> dict_set d i (jb_name m, jb_role m))"

text \<open>The checks of \<open>connect\<close> on what the session and \<open>Mailbox/get\<close> answered; the account id
  is the session's.\<close>

definition check_session :: "string \<Rightarrow> jmap_mailbox list option \<Rightarrow> exn + string \<times> jmap_mailbox list" where
  "check_session account_id response =
     (case response of
        None \<Rightarrow> Inl (JmapError ''Mailbox/get returned no mailbox list'')
      | Some mailboxes \<Rightarrow>
          (case inbox_ids mailboxes of
             [Some inbox] \<Rightarrow>
               if account_id = [] then Inl (JmapError ''JMAP session has no primary mail account'')
               else Inr (inbox, mailboxes)
           | ids \<Rightarrow> Inl (JmapError (''expected exactly one Inbox-role mailbox; found '' @
                        py_str_int (int (length ids))))))"

definition connect :: "jmap_server \<Rightarrow> unit jmap" where
  "connect S cl =
     (if jc_connected cl then (Inr (), cl)
      else case jmap_call J_Session (js_session S) cl of
        (Inl e, c1) \<Rightarrow> (Inl (session_error S e), c1)
      | (Inr account_id, c1) \<Rightarrow>
          (case jmap_call J_Mailbox_Get (js_mailbox_get S) c1 of
             (Inl e, c2) \<Rightarrow> (Inl (session_error S e), c2)
           | (Inr response, c2) \<Rightarrow>
               (case check_session account_id response of
                  Inl e \<Rightarrow> (Inl e, c2)
                | Inr (inbox, mailboxes) \<Rightarrow>
                    (Inr (), c2\<lparr>jc_connected := True, jc_account_id := account_id, jc_inbox_id := inbox,
                               jc_mailboxes := mailbox_table mailboxes []\<rparr>))))"

definition account_id :: "jmap_server \<Rightarrow> string jmap" where
  "account_id S = step_bind (connect S) (\<lambda>_ cl. (Inr (jc_account_id cl), cl))"

section \<open>Normalising an email\<close>

definition py_after_last :: "char \<Rightarrow> string \<Rightarrow> string option" where
  "py_after_last d s = (if d \<in> set s then Some (rev (takeWhile (\<lambda>c. c \<noteq> d) (rev s))) else None)"

definition add_address_header ::
  "(string, string) dict \<Rightarrow> string \<Rightarrow> string option list option \<Rightarrow> (string, string) dict" where
  "add_address_header hs name addresses =
     (case addresses of
        None \<Rightarrow> hs
      | Some vs \<Rightarrow>
          let rendered = py_join '', '' (map the (filter (\<lambda>v. v \<noteq> None) vs))
          in if rendered = [] then hs else dict_set hs name rendered)"

definition add_list_header ::
  "(string, string) dict \<Rightarrow> string \<Rightarrow> string \<Rightarrow> string list option \<Rightarrow> (string, string) dict" where
  "add_list_header hs name joiner vs =
     (case vs of
        None \<Rightarrow> hs
      | Some xs \<Rightarrow> let rendered = py_join joiner xs in if rendered = [] then hs else dict_set hs name rendered)"

definition email_headers :: "jmap_email \<Rightarrow> (string, string) dict" where
  "email_headers e =
     (let h1 = add_address_header [] ''To'' (je_to e);
          h2 = add_address_header h1 ''Cc'' (je_cc e);
          h3 = add_list_header h2 ''Message-ID'' '', '' (je_message_id e);
          h4 = add_list_header h3 ''In-Reply-To'' '', '' (je_in_reply_to e)
      in add_list_header h4 ''References'' '' '' (je_references e))"

definition email_body :: "jmap_email \<Rightarrow> string" where
  "email_body e =
     py_join [newline, newline]
       (concat (map (\<lambda>part. case part of
            None \<Rightarrow> []
          | Some pid \<Rightarrow> (case dict_get (je_body_values e) pid of Some (Some v) \<Rightarrow> [v] | _ \<Rightarrow> []))
        (je_text_body e)))"

definition normalize_email :: "jmap_email \<Rightarrow> exn + message" where
  "normalize_email e =
     (case (je_id e, je_thread_id e) of
        (Some i, Some t) \<Rightarrow>
          let from_addr = (case je_mail_from e of Some a # _ \<Rightarrow> a | _ \<Rightarrow> []) in
          Inr \<lparr>message_id = i, thread_id = t, from_address = from_addr,
               from_domain = (case py_after_last CHR ''@'' from_addr of Some d \<Rightarrow> d | None \<Rightarrow> []),
               subject = (case je_subject e of Some s \<Rightarrow> s | None \<Rightarrow> []),
               body_text = email_body e, headers = email_headers e,
               mailbox_ids = (case je_mailbox_ids e of
                   None \<Rightarrow> [] | Some ids \<Rightarrow> map fst (filter snd ids))\<rparr>
      | _ \<Rightarrow> Inl (JmapError ''Email/get returned a message without id/threadId''))"

definition is_inbox_message :: "string \<Rightarrow> jmap_email \<Rightarrow> bool" where
  "is_inbox_message inbox e =
     (case je_mailbox_ids e of None \<Rightarrow> False | Some ids \<Rightarrow> dict_get ids inbox = Some True)"

fun normalize_all :: "jmap_email list \<Rightarrow> exn + message list" where
  "normalize_all [] = Inr []"
| "normalize_all (e # es) =
     (case normalize_email e of
        Inl x \<Rightarrow> Inl x
      | Inr m \<Rightarrow> (case normalize_all es of Inl x \<Rightarrow> Inl x | Inr ms \<Rightarrow> Inr (m # ms)))"

section \<open>Fetching new messages\<close>

record jmap_fetch_result =
  jf_messages :: "message list"
  jf_cursor :: string

text \<open>One round of the loop: the page's Inbox messages, the new state, and whether more
  changes are left.\<close>

definition changes_page :: "jmap_server \<Rightarrow> string \<Rightarrow> (message list \<times> string \<times> bool) jmap" where
  "changes_page S cursor =
     step_bind (jmap_request S (J_Email_Changes cursor) (\<lambda>h. js_email_changes S h cursor))
       (\<lambda>changes. case ec_created changes of
          None \<Rightarrow> step_fail (JmapError ''Email/changes returned invalid created IDs'')
        | Some created \<Rightarrow>
            (case (ec_new_state changes, ec_has_more_changes changes) of
               (Some new_state, Some has_more) \<Rightarrow>
                 if created = [] then step_ret ([], new_state, has_more)
                 else step_bind (jmap_request S (J_Email_Get created) (\<lambda>h. js_email_get S h created))
                        (\<lambda>response. case eg_data response of
                           None \<Rightarrow> step_fail (JmapError ''Email/get returned no message list'')
                         | Some emails \<Rightarrow>
                             (\<lambda>cl. case normalize_all (filter (is_inbox_message (jc_inbox_id cl)) emails) of
                                Inl e \<Rightarrow> (Inl e, cl)
                              | Inr ms \<Rightarrow> (Inr (ms, new_state, has_more), cl)))
             | _ \<Rightarrow> step_fail (JmapError ''Email/changes returned invalid state metadata'')))"

text \<open>The loop may run for as long as the server reports more changes: \<open>None\<close> means it does
  not return.\<close>

partial_function (option) fetch_changes ::
  "jmap_server \<Rightarrow> string \<Rightarrow> message list \<Rightarrow> jmap_client \<Rightarrow> ((exn + jmap_fetch_result) \<times> jmap_client) option" where
  "fetch_changes S cursor acc cl =
     (case changes_page S cursor cl of
        (Inl e, c1) \<Rightarrow> Some (Inl e, c1)
      | (Inr (ms, new_state, has_more), c1) \<Rightarrow>
          if \<not> has_more then Some (Inr \<lparr>jf_messages = acc @ ms, jf_cursor = new_state\<rparr>, c1)
          else fetch_changes S new_state (acc @ ms) c1)"

definition fetch_baseline :: "jmap_server \<Rightarrow> jmap_fetch_result jmap" where
  "fetch_baseline S =
     step_bind (jmap_request S (J_Email_Get []) (\<lambda>h. js_email_get S h []))
       (\<lambda>response. case eg_state response of
          None \<Rightarrow> step_fail (JmapError ''Email/get baseline returned no state'')
        | Some state \<Rightarrow>
            if state = [] then step_fail (JmapError ''Email/get baseline returned no state'')
            else step_ret \<lparr>jf_messages = [], jf_cursor = state\<rparr>)"

definition fetch_new_messages ::
  "jmap_server \<Rightarrow> string option \<Rightarrow> jmap_client \<Rightarrow> ((exn + jmap_fetch_result) \<times> jmap_client) option" where
  "fetch_new_messages S since_cursor cl =
     (case connect S cl of
        (Inl e, c1) \<Rightarrow> Some (Inl e, c1)
      | (Inr _, c1) \<Rightarrow>
          (case since_cursor of
             None \<Rightarrow> Some (fetch_baseline S c1)
           | Some cursor \<Rightarrow> fetch_changes S cursor [] c1))"

section \<open>Paging, threads, lookup\<close>

definition get_emails :: "jmap_server \<Rightarrow> string list \<Rightarrow> string \<Rightarrow> jmap_email list jmap" where
  "get_emails S ids none_error =
     step_bind (jmap_request S (J_Email_Get ids) (\<lambda>h. js_email_get S h ids))
       (\<lambda>response. case eg_data response of
          None \<Rightarrow> step_fail (JmapError none_error) | Some emails \<Rightarrow> step_ret emails)"

definition jmap_query_messages :: "jmap_server \<Rightarrow> bool \<Rightarrow> int \<Rightarrow> int \<Rightarrow> backfill_page jmap" where
  "jmap_query_messages S unread_only position limit_n =
     step_bind (connect S) (\<lambda>_ cl.
       step_bind (jmap_request S (J_Email_Query (jc_inbox_id cl) unread_only position limit_n)
                    (\<lambda>h. js_email_query S h (jc_inbox_id cl) unread_only position limit_n))
         (\<lambda>q. case eq_ids q of
            None \<Rightarrow> step_fail (JmapError ''Email/query returned invalid ids'')
          | Some ids \<Rightarrow>
              (case eq_position q of
                 None \<Rightarrow> step_fail (JmapError ''Email/query returned invalid position'')
               | Some pos \<Rightarrow>
                   step_bind
                     (if ids = [] then step_ret []
                      else step_bind (get_emails S ids ''Email/get returned no message list'')
                             (\<lambda>emails c. (normalize_all emails, c)))
                     (\<lambda>msgs. let next = pos + int (length ids) in
                        step_ret \<lparr>bp_messages = msgs, bp_position = pos, bp_next_position = next,
                          bp_total = eq_total q,
                          bp_has_more = (case eq_total q of None \<Rightarrow> False | Some t \<Rightarrow> next < t)\<rparr>))) cl)"

definition no_context :: thread_context where
  "no_context = \<lparr>tc_prior_subject = None, tc_user_has_replied = False\<rparr>"

definition sent_ids :: "jmap_client \<Rightarrow> string list" where
  "sent_ids cl = map fst (filter (\<lambda>kv. snd (snd kv) = Some ''sent'') (jc_mailboxes cl))"

definition thread_context_of :: "string list \<Rightarrow> jmap_email list \<Rightarrow> thread_context" where
  "thread_context_of sent emails =
     \<lparr>tc_prior_subject = (case emails of [] \<Rightarrow> None | e # _ \<Rightarrow> je_subject e),
      tc_user_has_replied = list_ex (\<lambda>e. case je_mailbox_ids e of
          None \<Rightarrow> False | Some ids \<Rightarrow> list_ex (\<lambda>kv. fst kv \<in> set sent) ids) emails\<rparr>"

definition jmap_get_thread_context :: "jmap_server \<Rightarrow> message \<Rightarrow> thread_context jmap" where
  "jmap_get_thread_context S msg =
     step_bind (connect S) (\<lambda>_.
       step_bind (jmap_request S (J_Thread_Get (thread_id msg)) (\<lambda>h. js_thread_get S h (thread_id msg)))
         (\<lambda>thread. case thread of
            None \<Rightarrow> step_ret no_context
          | Some None \<Rightarrow> step_fail (JmapError ''Thread/get returned invalid email IDs'')
          | Some (Some email_ids) \<Rightarrow>
              (let others = filter (\<lambda>i. i \<noteq> message_id msg) email_ids in
               if others = [] then step_ret no_context
               else step_bind (get_emails S others ''Email/get returned no thread message list'')
                      (\<lambda>emails cl. (Inr (thread_context_of (sent_ids cl) emails), cl)))))"

definition jmap_list_mailboxes :: "jmap_server \<Rightarrow> string list jmap" where
  "jmap_list_mailboxes S =
     step_bind (connect S) (\<lambda>_ cl. (Inr (map (\<lambda>kv. fst (snd kv)) (jc_mailboxes cl)), cl))"

text \<open>An unknown id is a \<open>JmapError\<close>, unlike the file provider's \<open>MessageNotFoundError\<close>.\<close>

definition jmap_get_message :: "jmap_server \<Rightarrow> string \<Rightarrow> message jmap" where
  "jmap_get_message S mid =
     step_bind (connect S) (\<lambda>_.
       step_bind (jmap_request S (J_Email_Get [mid]) (\<lambda>h. js_email_get S h [mid]))
         (\<lambda>response cl. case eg_data response of
            Some (e # _) \<Rightarrow> (normalize_email e, cl)
          | _ \<Rightarrow> (Inl (JmapError (''Email/get returned no message for '' @ py_repr mid)), cl)))"

text \<open>The write side and the attachments are not implemented.\<close>

definition jmap_apply_action :: "message \<Rightarrow> action \<Rightarrow> unit jmap" where
  "jmap_apply_action msg a = step_fail (NotImplementedError ''JmapClient.apply_action()'')"

definition jmap_create_draft :: "message \<Rightarrow> string \<Rightarrow> unit jmap" where
  "jmap_create_draft msg body = step_fail (NotImplementedError ''JmapClient.create_draft()'')"

definition jmap_fetch_attachments :: "message \<Rightarrow> attachment list jmap" where
  "jmap_fetch_attachments msg = step_fail (NotImplementedError ''JmapClient.fetch_attachments()'')"

definition jmap_apply_keywords :: "message \<Rightarrow> string list \<Rightarrow> unit jmap" where
  "jmap_apply_keywords msg kws = step_fail (NotImplementedError ''JmapClient.apply_keywords()'')"

section \<open>Mailbox roles (mailboxes.py)\<close>

record mailbox_info =
  mb_id :: string
  mb_name :: string
  mb_role :: "string option"

fun build_role_map :: "mailbox_info list \<Rightarrow> (string, string) dict \<Rightarrow> exn + (string, string) dict" where
  "build_role_map [] by_role = Inr by_role"
| "build_role_map (m # ms) by_role =
     (case mb_role m of
        None \<Rightarrow> build_role_map ms by_role
      | Some role \<Rightarrow>
          (case dict_get by_role role of
             Some other \<Rightarrow> Inl (AmbiguousMailboxRoleError role other (mb_id m))
           | None \<Rightarrow> build_role_map ms (dict_set by_role role (mb_id m))))"

text \<open>The resolver's state is its cache; \<open>fetch\<close> is the injected callable with its own state.\<close>

definition resolve ::
  "('s, mailbox_info list) step \<Rightarrow> string \<Rightarrow> ((string, string) dict option \<times> 's, string) step" where
  "resolve fetch role st =
     (let lookup = (\<lambda>by_role st'. (case dict_get by_role role of
                Some i \<Rightarrow> Inr i | None \<Rightarrow> Inl (UnknownMailboxRoleError role), st'))
      in case st of
           (Some by_role, s) \<Rightarrow> lookup by_role st
         | (None, s) \<Rightarrow>
             (case fetch s of
                (Inl e, s') \<Rightarrow> (Inl e, (None, s'))
              | (Inr mailboxes, s') \<Rightarrow>
                  (case build_role_map mailboxes [] of
                     Inl e \<Rightarrow> (Inl e, (None, s'))
                   | Inr by_role \<Rightarrow> lookup by_role (Some by_role, s'))))"

definition refresh :: "(string, string) dict option \<times> 's \<Rightarrow> (string, string) dict option \<times> 's" where
  "refresh st = (None, snd st)"

section \<open>Role map lemmas\<close>

lemma build_role_map_spec:
  assumes "build_role_map ms d = Inr d'"
  shows "(dict_get d' role = Some i \<longleftrightarrow>
      dict_get d role = Some i \<or> (\<exists>m \<in> set ms. mb_role m = Some role \<and> mb_id m = i)) \<and>
    (\<forall>r j. dict_get d r = Some j \<longrightarrow> (\<forall>m \<in> set ms. mb_role m \<noteq> Some r)) \<and>
    distinct (filter (\<lambda>r. r \<noteq> None) (map mb_role ms))"
  using assms
proof (induction ms arbitrary: d)
  case Nil
  then show ?case by simp
next
  case (Cons m ms)
  show ?case
  proof (cases "mb_role m")
    case None
    with Cons.prems Cons.IH [of d] show ?thesis by simp
  next
    case (Some r)
    with Cons.prems have n: "dict_get d r = None" and rest: "build_role_map ms (dict_set d r (mb_id m)) = Inr d'"
      by (auto split: option.splits)
    note ih = Cons.IH [OF rest]
    have fresh: "\<forall>m' \<in> set ms. mb_role m' \<noteq> Some r" using ih by auto
    have old: "dict_get d r' = Some j \<Longrightarrow> \<forall>m' \<in> set ms. mb_role m' \<noteq> Some r'" for r' j
      using ih n by (cases "r' = r") auto
    have "dict_get d' role = Some i \<longleftrightarrow>
        dict_get d role = Some i \<or> (\<exists>m' \<in> set (m # ms). mb_role m' = Some role \<and> mb_id m' = i)"
      using ih n Some fresh by (cases "role = r") auto
    moreover have "\<forall>r' j. dict_get d r' = Some j \<longrightarrow> (\<forall>m' \<in> set (m # ms). mb_role m' \<noteq> Some r')"
      using old n Some by auto
    moreover have "Some r \<notin> set (map mb_role ms)" using fresh by auto
    then have "distinct (filter (\<lambda>r. r \<noteq> None) (map mb_role (m # ms)))"
      using ih Some by simp
    ultimately show ?thesis by blast
  qed
qed

lemma build_role_map_error:
  "build_role_map ms d = Inl e \<Longrightarrow> \<exists>r a b. e = AmbiguousMailboxRoleError r a b \<and>
     (dict_get d r = Some a \<or> (\<exists>m \<in> set ms. mb_role m = Some r \<and> mb_id m = a)) \<and>
     (\<exists>m \<in> set ms. mb_role m = Some r \<and> mb_id m = b)"
proof (induction ms arbitrary: d)
  case Nil
  then show ?case by simp
next
  case (Cons m ms)
  show ?case
  proof (cases "mb_role m")
    case None
    with Cons.prems have "build_role_map ms d = Inl e" by simp
    from Cons.IH [OF this] show ?thesis by auto
  next
    case (Some r)
    show ?thesis
    proof (cases "dict_get d r")
      case (Some a)
      with Cons.prems \<open>mb_role m = Some r\<close> show ?thesis by auto
    next
      case None
      with Cons.prems \<open>mb_role m = Some r\<close>
      have "build_role_map ms (dict_set d r (mb_id m)) = Inl e" by simp
      from Cons.IH [OF this] obtain r' a b where e: "e = AmbiguousMailboxRoleError r' a b"
        and a: "dict_get (dict_set d r (mb_id m)) r' = Some a \<or>
          (\<exists>m' \<in> set ms. mb_role m' = Some r' \<and> mb_id m' = a)"
        and b: "\<exists>m' \<in> set ms. mb_role m' = Some r' \<and> mb_id m' = b" by blast
      from a \<open>mb_role m = Some r\<close>
      have "dict_get d r' = Some a \<or> (\<exists>m' \<in> set (m # ms). mb_role m' = Some r' \<and> mb_id m' = a)"
        by (auto split: if_splits)
      with e b show ?thesis by auto
    qed
  qed
qed

section \<open>Fetching from a history of created messages\<close>

text \<open>
  Documented behaviour of the server (RFC 8620, section 5.2): the account went through states
  \<open>st 0\<close> to \<open>st last\<close>; by state \<open>st i\<close> the emails \<open>created 0\<close> up to \<open>created (pos i - 1)\<close> had been created.
  \<open>Email/changes\<close> since a state reports those created up to a later state, which is strictly
  later when more changes are left. \<open>Email/get\<close> answers those of the emails asked for that are still
  there, in any order; the \<open>present\<close> ones are there whenever asked for. Any request may fail instead.
  A server that serves the history never fails, keeps the order and has lost no email.
\<close>

definition answers_history ::
  "jmap_server \<Rightarrow> (string \<Rightarrow> jmap_email) \<Rightarrow> (string \<Rightarrow> bool) \<Rightarrow> (nat \<Rightarrow> string) \<Rightarrow> (nat \<Rightarrow> nat) \<Rightarrow> (nat \<Rightarrow> string) \<Rightarrow>
   nat \<Rightarrow> bool" where
  "answers_history S email present created pos st last_state \<longleftrightarrow>
     mono pos \<and>
     (\<forall>h i r. i \<le> last_state \<longrightarrow> js_email_changes S h (st i) = Inr r \<longrightarrow>
        (\<exists>j more. i \<le> j \<and> j \<le> last_state \<and> (more \<longrightarrow> i < j) \<and>
           r = \<lparr>ec_created = Some (map created [pos i..<pos j]),
             ec_new_state = Some (st j), ec_has_more_changes = Some more\<rparr>)) \<and>
     (\<forall>h i j r. i \<le> j \<longrightarrow> j \<le> last_state \<longrightarrow> js_email_get S h (map created [pos i..<pos j]) = Inr r \<longrightarrow>
        (\<exists>ys. {x \<in> set (map created [pos i..<pos j]). present x} \<subseteq> set ys \<and>
           set ys \<subseteq> set (map created [pos i..<pos j]) \<and> eg_data r = Some (map email ys))) \<and>
     (\<forall>n < pos last_state. \<exists>m. normalize_email (email (created n)) = Inr m)"

definition never_fails :: "jmap_server \<Rightarrow> (nat \<Rightarrow> string) \<Rightarrow> (nat \<Rightarrow> nat) \<Rightarrow> (nat \<Rightarrow> string) \<Rightarrow> nat \<Rightarrow> bool" where
  "never_fails S created pos st last_state \<longleftrightarrow>
     (\<forall>h i. i \<le> last_state \<longrightarrow> (\<exists>r. js_email_changes S h (st i) = Inr r)) \<and>
     (\<forall>h i j. i \<le> j \<longrightarrow> j \<le> last_state \<longrightarrow> (\<exists>r. js_email_get S h (map created [pos i..<pos j]) = Inr r))"

definition keeps_order ::
  "jmap_server \<Rightarrow> (string \<Rightarrow> jmap_email) \<Rightarrow> (nat \<Rightarrow> string) \<Rightarrow> (nat \<Rightarrow> nat) \<Rightarrow> nat \<Rightarrow> bool" where
  "keeps_order S email created pos last_state \<longleftrightarrow>
     (\<forall>h i j r. i \<le> j \<longrightarrow> j \<le> last_state \<longrightarrow> js_email_get S h (map created [pos i..<pos j]) = Inr r \<longrightarrow>
        eg_data r = Some (map email (map created [pos i..<pos j])))"

definition serves_history ::
  "jmap_server \<Rightarrow> (string \<Rightarrow> jmap_email) \<Rightarrow> (nat \<Rightarrow> string) \<Rightarrow> (nat \<Rightarrow> nat) \<Rightarrow> (nat \<Rightarrow> string) \<Rightarrow> nat \<Rightarrow> bool" where
  "serves_history S email created pos st last_state \<longleftrightarrow>
     answers_history S email (\<lambda>_. True) created pos st last_state \<and> never_fails S created pos st last_state \<and>
     keeps_order S email created pos last_state"

definition inbox_history ::
  "string \<Rightarrow> (string \<Rightarrow> jmap_email) \<Rightarrow> (nat \<Rightarrow> string) \<Rightarrow> nat \<Rightarrow> nat \<Rightarrow> message list" where
  "inbox_history inbox email created a b =
     concat (map (\<lambda>e. case normalize_email e of Inr m \<Rightarrow> [m] | Inl _ \<Rightarrow> [])
       (filter (is_inbox_message inbox) (map email (map created [a..<b]))))"

text \<open>The messages of the emails that are still there, and what a fetch may deliver of a stretch of the history.\<close>

definition inbox_remaining ::
  "string \<Rightarrow> (string \<Rightarrow> jmap_email) \<Rightarrow> (string \<Rightarrow> bool) \<Rightarrow> (nat \<Rightarrow> string) \<Rightarrow> nat \<Rightarrow> nat \<Rightarrow> message set" where
  "inbox_remaining inbox email present created a b =
     {m. \<exists>k. a \<le> k \<and> k < b \<and> present (created k) \<and> is_inbox_message inbox (email (created k)) \<and>
        normalize_email (email (created k)) = Inr m}"

definition delivered ::
  "string \<Rightarrow> (string \<Rightarrow> jmap_email) \<Rightarrow> (string \<Rightarrow> bool) \<Rightarrow> (nat \<Rightarrow> string) \<Rightarrow> bool \<Rightarrow> nat \<Rightarrow> nat \<Rightarrow> message list \<Rightarrow> bool" where
  "delivered inbox email present created ordered a b ms \<longleftrightarrow>
     inbox_remaining inbox email present created a b \<subseteq> set ms \<and>
     (ordered \<longrightarrow> ms = inbox_history inbox email created a b)"

lemma inbox_remaining_append:
  "a \<le> b \<Longrightarrow> b \<le> c \<Longrightarrow> inbox_remaining inbox email present created a c =
     inbox_remaining inbox email present created a b \<union> inbox_remaining inbox email present created b c"
proof -
  assume "a \<le> b" "b \<le> c"
  then have "a \<le> k \<and> k < c \<longleftrightarrow> a \<le> k \<and> k < b \<or> b \<le> k \<and> k < c" for k by linarith
  then show ?thesis unfolding inbox_remaining_def by blast
qed

lemma inbox_remaining_empty [simp]: "b \<le> a \<Longrightarrow> inbox_remaining inbox email present created a b = {}"
  by (auto simp: inbox_remaining_def)

lemma inbox_history_append:
  "a \<le> b \<Longrightarrow> b \<le> c \<Longrightarrow>
   inbox_history inbox email created a b @ inbox_history inbox email created b c = inbox_history inbox email created a c"
proof -
  assume "a \<le> b" "b \<le> c"
  then have "[a..<c] = [a..<b] @ [b..<c]" by (metis le_add_diff_inverse upt_add_eq_append)
  then show ?thesis by (simp add: inbox_history_def)
qed

lemma delivered_append:
  "delivered inbox email present created ordered a b ms \<Longrightarrow> delivered inbox email present created ordered b c ms' \<Longrightarrow>
   a \<le> b \<Longrightarrow> b \<le> c \<Longrightarrow> delivered inbox email present created ordered a c (ms @ ms')"
  by (auto simp: delivered_def inbox_remaining_append [of a b c] inbox_history_append)

lemma inbox_history_empty [simp]: "inbox_history inbox email created a a = []"
  by (simp add: inbox_history_def)

lemma normalize_all_ok:
  "(\<And>e. e \<in> set es \<Longrightarrow> \<exists>m. normalize_email e = Inr m) \<Longrightarrow>
   normalize_all es = Inr (concat (map (\<lambda>e. case normalize_email e of Inr m \<Rightarrow> [m] | Inl _ \<Rightarrow> []) es))"
proof (induction es)
  case Nil
  show ?case by simp
next
  case (Cons e es)
  then obtain m where "normalize_email e = Inr m" by force
  with Cons show ?case by simp
qed

definition same_session :: "jmap_client \<Rightarrow> jmap_client \<Rightarrow> bool" where
  "same_session c c' \<longleftrightarrow> jc_connected c' = jc_connected c \<and> jc_inbox_id c' = jc_inbox_id c \<and>
     jc_account_id c' = jc_account_id c \<and> jc_mailboxes c' = jc_mailboxes c"

lemma same_session_refl [simp]: "same_session c c"
  by (simp add: same_session_def)

lemma same_session_trans: "same_session a b \<Longrightarrow> same_session b c \<Longrightarrow> same_session a c"
  by (simp add: same_session_def)

lemma same_session_calls [simp]: "same_session c (c\<lparr>jc_calls := h\<rparr>)"
  by (simp add: same_session_def)

lemma request_failed:
  "f (jc_calls cl) = Inl e \<Longrightarrow>
   jmap_request S c f cl = (Inl (JmapError (''JMAP request failed: '' @ js_str S e)), cl\<lparr>jc_calls := jc_calls cl @ [c]\<rparr>)"
  by (simp add: jmap_request_def jmap_call_def)

text \<open>A page, or the failure of a request, which is a \<open>JmapError\<close>.\<close>

lemma inbox_of_page:
  assumes "\<And>x. x \<in> set xs \<Longrightarrow> \<exists>m. normalize_email (email x) = Inr m" and "set ys \<subseteq> set xs"
    and "ms = concat (map (\<lambda>e. case normalize_email e of Inr m \<Rightarrow> [m] | Inl _ \<Rightarrow> []) (filter (is_inbox_message inbox) (map email ys)))"
  shows "normalize_all (filter (is_inbox_message inbox) (map email ys)) = Inr ms"
    and "x \<in> set ys \<Longrightarrow> is_inbox_message inbox (email x) \<Longrightarrow> normalize_email (email x) = Inr m \<Longrightarrow> m \<in> set ms"
proof -
  show "normalize_all (filter (is_inbox_message inbox) (map email ys)) = Inr ms"
    unfolding assms(3) by (rule normalize_all_ok) (use assms(1,2) in auto)
qed (force simp: assms(3) split: sum.split)

lemma changes_page_history:
  assumes "answers_history S email present created pos st n" and "i \<le> n"
  obtains (page) j more ms cl' where "i \<le> j" and "j \<le> n" and "more \<longrightarrow> i < j" and "same_session cl cl'"
    and "delivered (jc_inbox_id cl) email present created (keeps_order S email created pos n) (pos i) (pos j) ms"
    and "changes_page S (st i) cl = (Inr (ms, st j, more), cl')"
  | (failed) why cl' where "changes_page S (st i) cl = (Inl (JmapError why), cl')" and "same_session cl cl'"
      and "\<not> never_fails S created pos st n"
proof (cases "js_email_changes S (jc_calls cl) (st i)")
  case (Inl e)
  with assms(2) have "\<not> never_fails S created pos st n" unfolding never_fails_def by (metis Inl_Inr_False)
  with Inl show thesis
    by (intro failed [of _ "cl\<lparr>jc_calls := jc_calls cl @ [J_Email_Changes (st i)]\<rparr>"])
      (auto simp: changes_page_def step_bind_def request_failed)
next
  case (Inr r)
  from assms(1) have "js_email_changes S h (st i) = Inr r \<Longrightarrow> \<exists>j more. i \<le> j \<and> j \<le> n \<and> (more \<longrightarrow> i < j) \<and>
      r = \<lparr>ec_created = Some (map created [pos i..<pos j]), ec_new_state = Some (st j),
        ec_has_more_changes = Some more\<rparr>" for h
    unfolding answers_history_def using assms(2) by blast
  from this [OF Inr] Inr obtain j more where j: "i \<le> j" "j \<le> n" "more \<longrightarrow> i < j"
    and ch: "js_email_changes S (jc_calls cl) (st i) = Inr \<lparr>ec_created = Some (map created [pos i..<pos j]),
             ec_new_state = Some (st j), ec_has_more_changes = Some more\<rparr>"
    by auto
  let ?ids = "map created [pos i..<pos j]"
  let ?c1 = "cl\<lparr>jc_calls := jc_calls cl @ [J_Email_Changes (st i)]\<rparr>"
  let ?c2 = "?c1\<lparr>jc_calls := jc_calls ?c1 @ [J_Email_Get ?ids]\<rparr>"
  have "pos j \<le> pos n" using assms(1) j(2) by (simp add: answers_history_def mono_def)
  then have norm: "\<exists>m. normalize_email (email x) = Inr m" if "x \<in> set ?ids" for x
    using that assms(1) by (auto simp: answers_history_def)
  show thesis
  proof (cases "?ids = []")
    case True
    then have "inbox_history (jc_inbox_id cl) email created (pos i) (pos j) = []"
      unfolding inbox_history_def by (simp only: True list.map filter.simps concat.simps)
    moreover from True have "pos j \<le> pos i" by auto
    ultimately show thesis
      using ch True by (intro page [OF j, of ?c1 "[]"])
        (simp_all add: changes_page_def jmap_request_def jmap_call_def step_defs delivered_def)
  next
    case False
    show thesis
    proof (cases "js_email_get S (jc_calls ?c1) ?ids")
      case (Inl e)
      with j have "\<not> never_fails S created pos st n" unfolding never_fails_def by (metis Inl_Inr_False)
      with Inl False ch show thesis
        by (intro failed [of _ ?c2])
          (auto simp: changes_page_def jmap_request_def jmap_call_def step_defs same_session_def)
    next
      case (Inr g)
      with assms(1) j obtain ys where ys: "{x \<in> set ?ids. present x} \<subseteq> set ys" "set ys \<subseteq> set ?ids"
        "eg_data g = Some (map email ys)" unfolding answers_history_def by blast
      define ms where "ms = concat (map (\<lambda>e. case normalize_email e of Inr m \<Rightarrow> [m] | Inl _ \<Rightarrow> [])
           (filter (is_inbox_message (jc_inbox_id cl)) (map email ys)))"
      note ms = inbox_of_page [OF norm ys(2) ms_def]
      have "ms = inbox_history (jc_inbox_id cl) email created (pos i) (pos j)" if "keeps_order S email created pos n"
      proof -
        have "map email ys = map email ?ids" using that Inr j ys(3) unfolding keeps_order_def by (metis option.inject)
        then show ?thesis by (simp only: ms_def inbox_history_def)
      qed
      moreover have "inbox_remaining (jc_inbox_id cl) email present created (pos i) (pos j) \<subseteq> set ms"
        using ys(1) ms(2) by (fastforce simp: inbox_remaining_def)
      ultimately have del: "delivered (jc_inbox_id cl) email present created (keeps_order S email created pos n) (pos i) (pos j) ms"
        by (simp add: delivered_def)
      have "changes_page S (st i) cl = (Inr (ms, st j, more), ?c2)"
        using False Inr ys(3) by (simp add: changes_page_def jmap_request_def jmap_call_def step_defs ch ms(1) [simplified])
      with del show thesis by (intro page [OF j, of ?c2 ms]) (simp_all add: same_session_def)
    qed
  qed
qed

text \<open>What a fetch may give: the messages up to a later state, or, unless the server is sure, a failure.\<close>

definition fetched ::
  "(nat \<Rightarrow> message list \<Rightarrow> bool) \<Rightarrow> (nat \<Rightarrow> string) \<Rightarrow> bool \<Rightarrow> nat \<Rightarrow> nat \<Rightarrow> jmap_client \<Rightarrow>
   ((exn + jmap_fetch_result) \<times> jmap_client) option \<Rightarrow> bool" where
  "fetched good st sure i n cl x \<longleftrightarrow>
     (\<exists>cl'. same_session cl cl' \<and>
        ((\<exists>j ms. i \<le> j \<and> j \<le> n \<and> good j ms \<and> x = Some (Inr \<lparr>jf_messages = ms, jf_cursor = st j\<rparr>, cl')) \<or>
         (\<not> sure \<and> (\<exists>why. x = Some (Inl (JmapError why), cl')))))"

lemma fetched_later:
  assumes "fetched good st sure j n c1 x" and "i \<le> j" and "same_session cl c1"
    and "\<And>k ms. j \<le> k \<Longrightarrow> good k ms \<Longrightarrow> good' k ms"
  shows "fetched good' st sure i n cl x"
proof -
  from assms(1) obtain cl' where s: "same_session c1 cl'"
    and x: "(\<exists>k ms. j \<le> k \<and> k \<le> n \<and> good k ms \<and> x = Some (Inr \<lparr>jf_messages = ms, jf_cursor = st k\<rparr>, cl')) \<or>
      (\<not> sure \<and> (\<exists>why. x = Some (Inl (JmapError why), cl')))" unfolding fetched_def by blast
  show ?thesis
    unfolding fetched_def
  proof (intro exI [of _ cl'] conjI)
    show "same_session cl cl'" by (rule same_session_trans [OF assms(3) s])
    have "i \<le> k \<and> good' k ms" if "j \<le> k" "good k ms" for k ms
      using assms(2,4) that order_trans by blast
    with x show "(\<exists>k ms. i \<le> k \<and> k \<le> n \<and> good' k ms \<and> x = Some (Inr \<lparr>jf_messages = ms, jf_cursor = st k\<rparr>, cl')) \<or>
      (\<not> sure \<and> (\<exists>why. x = Some (Inl (JmapError why), cl')))" by blast
  qed
qed

lemma fetch_changes_history:
  assumes "answers_history S email present created pos st n"
  shows "i \<le> n \<Longrightarrow>
    fetched (\<lambda>j ms. \<exists>ms'. ms = acc @ ms' \<and>
        delivered (jc_inbox_id cl) email present created (keeps_order S email created pos n) (pos i) (pos j) ms') st
      (never_fails S created pos st n) i n cl (fetch_changes S (st i) acc cl)"
proof (induction "n - i" arbitrary: i acc cl rule: less_induct)
  case less
  from assms less.prems show ?case
  proof (cases rule: changes_page_history [where cl = cl])
    case (failed why cl')
    then show ?thesis
      unfolding fetched_def by (intro exI [of _ cl']) (simp add: fetch_changes.simps [of S "st i"])
  next
    case (page j more ms c1)
    show ?thesis
    proof (cases more)
      case False
      with page show ?thesis
        unfolding fetched_def by (intro exI [of _ c1]) (auto simp add: fetch_changes.simps [of S "st i"])
    next
      case True
      with page less.prems have "n - j < n - i" by simp
      from less.hyps [OF this page(2), of "acc @ ms" c1]
      have rest: "fetched (\<lambda>k ms2. \<exists>ms'. ms2 = (acc @ ms) @ ms' \<and>
            delivered (jc_inbox_id c1) email present created (keeps_order S email created pos n) (pos j) (pos k) ms') st
          (never_fails S created pos st n) j n c1 (fetch_changes S (st i) acc cl)"
        using page True by (simp add: fetch_changes.simps [of S "st i"])
      have mono: "pos i \<le> pos j" "j \<le> k \<Longrightarrow> pos j \<le> pos k" for k
        using page(1) assms by (simp_all add: answers_history_def mono_def)
      have inbox: "jc_inbox_id c1 = jc_inbox_id cl" using page(4) by (simp add: same_session_def)
      show ?thesis
        by (rule fetched_later [OF rest page(1,4)])
          (use delivered_append [OF page(5) _ mono(1)] mono(2) in \<open>force simp: inbox\<close>)
    qed
  qed
qed

lemma build_role_map_ok:
  "distinct (filter (\<lambda>r. r \<noteq> None) (map mb_role ms)) \<Longrightarrow>
   (\<forall>m \<in> set ms. \<forall>r. mb_role m = Some r \<longrightarrow> dict_get d r = None) \<Longrightarrow>
   \<exists>d'. build_role_map ms d = Inr d'"
proof (induction ms arbitrary: d)
  case Nil
  then show ?case by simp
next
  case (Cons m ms)
  show ?case
  proof (cases "mb_role m")
    case None
    with Cons show ?thesis by simp
  next
    case (Some r)
    have "Some r \<notin> mb_role ` set ms" using Cons.prems(1) Some by simp
    then have "\<forall>m' \<in> set ms. \<forall>r'. mb_role m' = Some r' \<longrightarrow> dict_get (dict_set d r (mb_id m)) r' = None"
      using Cons.prems(2) by (auto simp: image_iff)
    with Cons.IH [of "dict_set d r (mb_id m)"] Cons.prems Some show ?thesis by simp
  qed
qed

section \<open>Properties\<close>

text \<open>C27: fetching is complete and cannot run on: against a server that serves a history of
  created messages, in pages of any sizes, the fetch from an acknowledged state returns, with
  exactly the Inbox messages created between that state and the state it returns as the next
  cursor, each once and in order.\<close>

theorem jmap_fetch_complete:
  assumes "serves_history S email created pos st n" and "i \<le> n" and "jc_connected cl"
  shows "\<exists>j cl'. i \<le> j \<and> j \<le> n \<and>
     fetch_new_messages S (Some (st i)) cl =
       Some (Inr \<lparr>jf_messages = inbox_history (jc_inbox_id cl) email created (pos i) (pos j),
                  jf_cursor = st j\<rparr>, cl')"
  using fetch_changes_history [of S email "\<lambda>_. True" created pos st n i "[]" cl] assms
  by (auto simp: serves_history_def fetched_def delivered_def fetch_new_messages_def connect_def)

text \<open>Role resolution fetches at most once and never guesses: when every role is held by one
  mailbox, the role map is cached, a role resolves to exactly the mailbox that holds it, an
  unheld role is an unknown-role error, and no later resolution fetches again; when two
  mailboxes share a role every resolution refuses and nothing is cached.\<close>

theorem resolve_spec:
  "case fetch s of
     (Inl e, s') \<Rightarrow> resolve fetch role (None, s) = (Inl e, None, s')
   | (Inr ms, s') \<Rightarrow>
       if distinct (filter (\<lambda>r. r \<noteq> None) (map mb_role ms))
       then \<exists>by_role. snd (resolve fetch role (None, s)) = (Some by_role, s') \<and>
         fst (resolve fetch role (None, s)) = fst (resolve fetch role (Some by_role, s')) \<and>
         (\<forall>r. snd (resolve fetch r (Some by_role, s')) = (Some by_role, s') \<and>
           (case fst (resolve fetch r (Some by_role, s')) of
              Inr i \<Rightarrow> (\<exists>m \<in> set ms. mb_role m = Some r \<and> mb_id m = i)
            | Inl e \<Rightarrow> e = UnknownMailboxRoleError r \<and> (\<forall>m \<in> set ms. mb_role m \<noteq> Some r)))
       else \<exists>r a b. resolve fetch role (None, s) = (Inl (AmbiguousMailboxRoleError r a b), None, s')"
proof (cases "fetch s")
  case (Pair res s')
  show ?thesis
  proof (cases res)
    case (Inl e)
    with Pair show ?thesis by (simp add: resolve_def Let_def)
  next
    case (Inr ms)
    show ?thesis
    proof (cases "build_role_map ms []")
      case (Inl e)
      from build_role_map_error [OF this] obtain r a b where e: "e = AmbiguousMailboxRoleError r a b" by blast
      have "\<not> distinct (filter (\<lambda>r. r \<noteq> None) (map mb_role ms))"
        using build_role_map_ok [of ms "[]"] Inl by auto
      with Pair Inr Inl e show ?thesis by (simp add: resolve_def Let_def)
    next
      case map: (Inr by_role)
      note spec = build_role_map_spec [OF map]
      have d: "distinct (filter (\<lambda>r. r \<noteq> None) (map mb_role ms))" using spec by blast
      have get: "dict_get by_role r = Some i \<longleftrightarrow> (\<exists>m \<in> set ms. mb_role m = Some r \<and> mb_id m = i)" for r i
        using build_role_map_spec [OF map, of r i] by simp
      then have none: "dict_get by_role r = None \<Longrightarrow> \<forall>m \<in> set ms. mb_role m \<noteq> Some r" for r
        by (metis option.distinct(1))
      have "snd (resolve fetch r (Some by_role, s')) = (Some by_role, s') \<and>
           (case fst (resolve fetch r (Some by_role, s')) of
              Inr i \<Rightarrow> (\<exists>m \<in> set ms. mb_role m = Some r \<and> mb_id m = i)
            | Inl e \<Rightarrow> e = UnknownMailboxRoleError r \<and> (\<forall>m \<in> set ms. mb_role m \<noteq> Some r))" for r
      proof (cases "dict_get by_role r")
        case None
        from none [OF this] show ?thesis by (simp add: resolve_def Let_def None)
      next
        case (Some i)
        with get have "\<exists>m \<in> set ms. mb_role m = Some r \<and> mb_id m = i" by blast
        then show ?thesis by (simp add: resolve_def Let_def Some)
      qed
      moreover have "resolve fetch role (None, s) = resolve fetch role (Some by_role, s')"
        using Pair Inr map by (simp add: resolve_def Let_def)
      ultimately show ?thesis using Pair Inr d by (auto intro!: exI [of _ by_role])
    qed
  qed
qed

section \<open>Witnesses\<close>

definition ex_email :: jmap_email where
  "ex_email =
     \<lparr>je_id = Some ''e'', je_thread_id = Some ''t'', je_mail_from = [Some ''a@b.example''],
      je_to = None, je_cc = None, je_subject = Some ''Hi'', je_text_body = [Some ''1''],
      je_body_values = [(''1'', Some ''text'')], je_message_id = None, je_in_reply_to = None,
      je_references = None, je_mailbox_ids = Some [(''inbox'', True)]\<rparr>"

text \<open>A server with two states, one email created between them.\<close>

definition ex_server :: jmap_server where
  "ex_server =
     \<lparr>js_session = (\<lambda>_. Inr ''acc''),
      js_mailbox_get = (\<lambda>_. Inr (Some [\<lparr>jb_id = Some ''inbox'', jb_name = ''Inbox'', jb_role = Some ''inbox''\<rparr>])),
      js_email_get = (\<lambda>_ ids. Inr \<lparr>eg_state = Some ''s1'', eg_data = Some (map (\<lambda>_. ex_email) ids)\<rparr>),
      js_email_changes = (\<lambda>_ since. Inr \<lparr>ec_created = Some (if since = ''s0'' then [''e''] else []),
        ec_new_state = Some ''s1'', ec_has_more_changes = Some False\<rparr>),
      js_email_query = (\<lambda>_ _ _ _ _. Inl (Other_Error ''E'' '''')),
      js_thread_get = (\<lambda>_ _. Inr None), js_str = (\<lambda>_. '''')\<rparr>"

definition ex_state :: "nat \<Rightarrow> string" where
  "ex_state i = (if i = 0 then ''s0'' else ''s1'')"

definition ex_pos :: "nat \<Rightarrow> nat" where
  "ex_pos i = min i 1"

definition ex_client :: jmap_client where
  "ex_client = snd (connect ex_server jmap_client_init)"

lemma ex_client_connected: "jc_connected ex_client" "jc_inbox_id ex_client = ''inbox''"
  by (simp_all add: ex_client_def connect_def jmap_client_init_def jmap_call_def ex_server_def
      check_session_def inbox_ids_def)

lemma ex_normalize: "\<exists>m. normalize_email ex_email = Inr m"
  by (simp add: normalize_email_def ex_email_def Let_def)

lemma ex_serves: "serves_history ex_server (\<lambda>_. ex_email) (\<lambda>_. ''e'') ex_pos ex_state 1"
  unfolding serves_history_def answers_history_def never_fails_def keeps_order_def
proof (intro conjI allI impI)
  show "mono ex_pos" by (auto simp: mono_def ex_pos_def min_def)
next
  fix h r and i :: nat
  assume "i \<le> 1" and "js_email_changes ex_server h (ex_state i) = Inr r"
  then have "i = 0 \<or> i = 1" by auto
  with \<open>js_email_changes ex_server h (ex_state i) = Inr r\<close>
  show "\<exists>j more. i \<le> j \<and> j \<le> 1 \<and> (more \<longrightarrow> i < j) \<and>
      r = \<lparr>ec_created = Some (map (\<lambda>_. ''e'') [ex_pos i..<ex_pos j]),
             ec_new_state = Some (ex_state j), ec_has_more_changes = Some more\<rparr>"
    by (intro exI [of _ 1] exI [of _ False]) (auto simp: ex_server_def ex_state_def ex_pos_def)
next
  fix h i j r
  assume "js_email_get ex_server h (map (\<lambda>_. ''e'') [ex_pos i..<ex_pos j]) = Inr r"
  then show "\<exists>ys. {x \<in> set (map (\<lambda>_. ''e'') [ex_pos i..<ex_pos j]). True} \<subseteq> set ys \<and>
      set ys \<subseteq> set (map (\<lambda>_. ''e'') [ex_pos i..<ex_pos j]) \<and> eg_data r = Some (map (\<lambda>_. ex_email) ys)"
    by (intro exI [of _ "map (\<lambda>_. ''e'') [ex_pos i..<ex_pos j]"]) (auto simp: ex_server_def)
qed (use ex_normalize in \<open>auto simp: ex_server_def comp_def\<close>)

theorem jmap_fetch_complete_witness:
  "\<exists>j cl'. j \<le> 1 \<and> fetch_new_messages ex_server (Some ''s0'') ex_client =
     Some (Inr \<lparr>jf_messages = inbox_history ''inbox'' (\<lambda>_. ex_email) (\<lambda>_. ''e'') 0 (ex_pos j),
                jf_cursor = ex_state j\<rparr>, cl')"
  using jmap_fetch_complete [OF ex_serves, of 0 ex_client] ex_client_connected
  by (auto simp: ex_state_def ex_pos_def)

theorem resolve_spec_witness:
  "\<exists>by_role. snd (resolve (\<lambda>s. (Inr [\<lparr>mb_id = ''m1'', mb_name = ''Inbox'', mb_role = Some ''inbox''\<rparr>], s))
     ''drafts'' (None, ())) = (Some by_role, ())"
  using resolve_spec [where fetch = "\<lambda>s. (Inr [\<lparr>mb_id = ''m1'', mb_name = ''Inbox'',
      mb_role = Some ''inbox''\<rparr>], s)" and role = "''drafts''" and s = "()"] by auto

end
