(* ===== verification/Jmap_Provider.thy ===== *)
theory Jmap_Provider
  imports Jmap_Client
begin

text \<open>
  \<open>core/providers/jmap/backoff.py\<close>, \<open>push.py\<close> and \<open>provider.py\<close>: the reconnect schedule, the
  push trigger, and the checkpointed source that falls back to an interval timer. Both
  sources share the client and the cursor. A push stream is a parameter: the events it
  delivers before it ends or raises (a stream that stays silent is a wait not yet returned).
\<close>

section \<open>Backoff (backoff.py)\<close>

definition next_delay :: "rat list \<Rightarrow> int \<Rightarrow> exn + rat" where
  "next_delay schedule attempt =
     (if schedule = [] then Inl (ValueError ''reconnect backoff schedule must not be empty'')
      else if attempt < 0 then Inl (ValueError (''attempt must be >= 0, got '' @ py_str_int attempt))
      else Inr (schedule ! nat (min attempt (int (length schedule) - 1))))"

section \<open>Push trigger (push.py)\<close>

text \<open>An event's \<open>data.changed\<close>, if it is a dict: per account whether its \<open>email\<close> and its
  \<open>email_delivery\<close> states are set.\<close>

record push_event =
  pv_changed :: "(string, bool \<times> bool) dict option"

datatype stream_end = Stream_Ended | Stream_Raised exn

definition is_relevant :: "string \<Rightarrow> push_event \<Rightarrow> bool" where
  "is_relevant account ev =
     (case pv_changed ev of
        None \<Rightarrow> False
      | Some changed \<Rightarrow>
          (case dict_get changed account of None \<Rightarrow> False | Some (email, delivery) \<Rightarrow> email \<or> delivery))"

text \<open>The state the two sources share, with the delays slept and the streams opened so far.\<close>

record jmap_source =
  sj_client :: jmap_client
  sj_cursor :: "string option"
  sj_attempt :: int
  sj_slept :: "rat list"
  sj_streams :: nat

record push_config =
  pc_server :: jmap_server
  pc_account_id :: "string option"
  pc_backoff :: "rat list"
  pc_events :: "nat \<Rightarrow> push_event list \<times> stream_end"

definition sleep_for :: "rat \<Rightarrow> (jmap_source, unit) step" where
  "sleep_for d s = (Inr (), s\<lparr>sj_slept := sj_slept s @ [d]\<rparr>)"

definition push_disconnect :: "push_config \<Rightarrow> string \<Rightarrow> (jmap_source, unit) step" where
  "push_disconnect cfg reason s =
     (case next_delay (pc_backoff cfg) (sj_attempt s) of
        Inl e \<Rightarrow> (Inl (JmapPushDisconnectedError (js_str (pc_server cfg) e)), s)
      | Inr d \<Rightarrow>
          (Inl (JmapPushDisconnectedError reason),
           (snd (sleep_for d s))\<lparr>sj_attempt := sj_attempt s + 1\<rparr>))"

definition push_wait :: "push_config \<Rightarrow> (jmap_source, unit) step" where
  "push_wait cfg s =
     (case connect (pc_server cfg) (sj_client s) of
        (Inl e, cl) \<Rightarrow> push_disconnect cfg (js_str (pc_server cfg) e) (s\<lparr>sj_client := cl\<rparr>)
      | (Inr _, cl) \<Rightarrow>
          (let s1 = s\<lparr>sj_client := cl, sj_streams := sj_streams s + 1\<rparr>;
               account = (case pc_account_id cfg of Some a \<Rightarrow> a | None \<Rightarrow> jc_account_id cl)
           in case pc_events cfg (sj_streams s) of
                (events, ending) \<Rightarrow>
                  if list_ex (is_relevant account) events then (Inr (), s1\<lparr>sj_attempt := 0\<rparr>)
                  else push_disconnect cfg
                         (case ending of Stream_Ended \<Rightarrow> ''EventSource ended''
                          | Stream_Raised e \<Rightarrow> js_str (pc_server cfg) e) s1))"

section \<open>Sources (provider.py)\<close>

type_synonym fetcher = "string option \<Rightarrow> jmap_fetch_result jmap"

text \<open>\<open>_JmapContentFetcher\<close>: the cursor it was built with, on every fetch.\<close>

definition jmap_content_fetch :: "fetcher \<Rightarrow> string option \<Rightarrow> message list jmap" where
  "jmap_content_fetch fetch cursor cl =
     (case fetch cursor cl of (Inl e, c) \<Rightarrow> (Inl e, c) | (Inr res, c) \<Rightarrow> (Inr (jf_messages res), c))"

definition jmap_poll_batch ::
  "(jmap_source, unit) step \<Rightarrow> fetcher \<Rightarrow> (jmap_source, message_batch) step" where
  "jmap_poll_batch wait fetch =
     step_bind wait (\<lambda>_ s.
       case fetch (sj_cursor s) (sj_client s) of
         (Inl e, cl) \<Rightarrow> (Inl e, s\<lparr>sj_client := cl\<rparr>)
       | (Inr res, cl) \<Rightarrow>
           (Inr \<lparr>mb_messages = jf_messages res, mb_checkpoint = Some (jf_cursor res)\<rparr>,
            s\<lparr>sj_client := cl, sj_cursor := Some (jf_cursor res)\<rparr>))"

fun is_push_disconnected :: "exn \<Rightarrow> bool" where
  "is_push_disconnected (JmapPushDisconnectedError why) = True"
| "is_push_disconnected e = False"

record jmap_provider =
  jv_poll_interval :: rat
  jv_backoff :: "rat list"

definition jmap_provider_defaults :: jmap_provider where
  "jmap_provider_defaults = \<lparr>jv_poll_interval = 300, jv_backoff = [2, 5, 15, 60, 300]\<rparr>"

text \<open>The account is resolved first; a non-positive interval is a \<open>ValueError\<close>. The value is
  the push trigger's configuration and the shared state.\<close>

definition build_checkpointed_source ::
  "jmap_server \<Rightarrow> (nat \<Rightarrow> push_event list \<times> stream_end) \<Rightarrow> jmap_provider \<Rightarrow> string option \<Rightarrow>
   (push_config \<times> jmap_source) jmap" where
  "build_checkpointed_source S events P cursor =
     step_bind (account_id S) (\<lambda>account cl.
       case interval_timer (jv_poll_interval P) of
         Inl e \<Rightarrow> (Inl e, cl)
       | Inr _ \<Rightarrow>
           (Inr (\<lparr>pc_server = S, pc_account_id = Some account, pc_backoff = jv_backoff P, pc_events = events\<rparr>,
                 \<lparr>sj_client = cl, sj_cursor = cursor, sj_attempt = 0, sj_slept = [], sj_streams = 0\<rparr>), cl))"

definition primary_batch :: "push_config \<Rightarrow> fetcher \<Rightarrow> (jmap_source, message_batch) step" where
  "primary_batch cfg fetch = jmap_poll_batch (push_wait cfg) fetch"

definition secondary_batch :: "rat \<Rightarrow> fetcher \<Rightarrow> (jmap_source, message_batch) step" where
  "secondary_batch interval fetch = jmap_poll_batch (interval_wait sleep_for interval) fetch"

text \<open>\<open>CheckpointedFallbackSource\<close>: \<open>poll_batch\<close>, which the daemon uses, and \<open>poll\<close>.\<close>

definition jmap_batch :: "push_config \<Rightarrow> rat \<Rightarrow> fetcher \<Rightarrow> (jmap_source, message_batch) step" where
  "jmap_batch cfg interval fetch =
     fallback_poll (primary_batch cfg fetch) (secondary_batch interval fetch) is_push_disconnected"

definition jmap_poll :: "push_config \<Rightarrow> rat \<Rightarrow> fetcher \<Rightarrow> (jmap_source, message list) step" where
  "jmap_poll cfg interval fetch =
     checkpointed_fallback (primary_batch cfg fetch) (secondary_batch interval fetch) is_push_disconnected"

text \<open>\<open>build_source\<close>: the push trigger with its own defaults, and the fetcher, whose cursor no fetch moves.\<close>

definition jmap_plain_poll ::
  "jmap_server \<Rightarrow> (nat \<Rightarrow> push_event list \<times> stream_end) \<Rightarrow> fetcher \<Rightarrow> string option \<Rightarrow>
   (jmap_source, message list) step" where
  "jmap_plain_poll S events fetch cursor =
     triggered_poll
       (push_wait \<lparr>pc_server = S, pc_account_id = None, pc_backoff = [2, 5, 15, 60, 300], pc_events = events\<rparr>)
       (\<lambda>s. case jmap_content_fetch fetch cursor (sj_client s) of (r, cl) \<Rightarrow> (r, s\<lparr>sj_client := cl\<rparr>))"

section \<open>Lemmas\<close>

lemma push_wait_connected:
  assumes "jc_connected (sj_client s)"
  obtains "push_wait cfg s = (Inr (), s\<lparr>sj_streams := sj_streams s + 1, sj_attempt := 0\<rparr>)"
  | why s' where "push_wait cfg s = (Inl (JmapPushDisconnectedError why), s')"
      and "sj_client s' = sj_client s" and "sj_cursor s' = sj_cursor s"
proof -
  obtain events ending where ev: "pc_events cfg (sj_streams s) = (events, ending)"
    by (cases "pc_events cfg (sj_streams s)")
  let ?account = "case pc_account_id cfg of Some a \<Rightarrow> a | None \<Rightarrow> jc_account_id (sj_client s)"
  have upd: "s\<lparr>sj_client := sj_client s\<rparr> = s" by simp
  show thesis
  proof (cases "list_ex (is_relevant ?account) events")
    case True
    with assms ev that(1) show thesis by (simp add: push_wait_def connect_def upd Let_def)
  next
    case False
    with assms ev have "\<exists>why s'. push_wait cfg s = (Inl (JmapPushDisconnectedError why), s') \<and>
        sj_client s' = sj_client s \<and> sj_cursor s' = sj_cursor s"
      by (simp add: push_wait_def connect_def upd Let_def push_disconnect_def sleep_for_def
          split: sum.split)
    with that(2) show thesis by blast
  qed
qed

text \<open>A fetcher that returns on the states it can meet.\<close>

definition history_fetcher :: "jmap_server \<Rightarrow> fetcher" where
  "history_fetcher S cursor cl = the (fetch_new_messages S cursor cl)"

lemma fetch_history:
  assumes "answers_history S email present created pos st n" and "i \<le> n" and "jc_connected cl"
  shows "fetched (\<lambda>j. delivered (jc_inbox_id cl) email present created (keeps_order S email created pos n) (pos i) (pos j)) st
    (never_fails S created pos st n) i n cl (fetch_new_messages S (Some (st i)) cl)"
  using fetch_changes_history [OF assms(1,2), of "[]" cl] assms(3)
  by (simp add: fetch_new_messages_def connect_def)

text \<open>What a poll may give: a batch and its checkpoint, or a failed request, which moves nothing.\<close>

definition batch_outcome ::
  "(nat \<Rightarrow> message list \<Rightarrow> bool) \<Rightarrow> (nat \<Rightarrow> string) \<Rightarrow> bool \<Rightarrow> nat \<Rightarrow> nat \<Rightarrow> jmap_source \<Rightarrow>
   (exn + message_batch) \<times> jmap_source \<Rightarrow> bool" where
  "batch_outcome good st sure i n s x \<longleftrightarrow>
     same_session (sj_client s) (sj_client (snd x)) \<and>
     ((\<exists>j ms. i \<le> j \<and> j \<le> n \<and> good j ms \<and> sj_cursor (snd x) = Some (st j) \<and>
         fst x = Inr \<lparr>mb_messages = ms, mb_checkpoint = Some (st j)\<rparr>) \<or>
      (\<not> sure \<and> sj_cursor (snd x) = sj_cursor s \<and> (\<exists>why. fst x = Inl (JmapError why))))"

lemma batch_outcome_same:
  "sj_client s' = sj_client s \<Longrightarrow> sj_cursor s' = sj_cursor s \<Longrightarrow>
   batch_outcome good st sure i n s' x = batch_outcome good st sure i n s x"
  by (simp add: batch_outcome_def)

lemma poll_batch_history:
  assumes "answers_history S email present created pos st n" and "i \<le> n" and "jc_connected (sj_client s)"
    and "sj_cursor s = Some (st i)" and "wait s = (Inr (), s1)"
    and "sj_client s1 = sj_client s" and "sj_cursor s1 = sj_cursor s"
  shows "batch_outcome (\<lambda>j. delivered (jc_inbox_id (sj_client s)) email present created (keeps_order S email created pos n) (pos i) (pos j)) st
    (never_fails S created pos st n) i n s (jmap_poll_batch wait (history_fetcher S) s)"
  using fetch_history [OF assms(1-3)] assms(4-7)
  by (auto simp: fetched_def batch_outcome_def jmap_poll_batch_def step_bind_def history_fetcher_def)

lemma jmap_batch_history:
  assumes "answers_history S email present created pos st n" and "i \<le> n" and "jc_connected (sj_client s)"
    and "sj_cursor s = Some (st i)"
  shows "batch_outcome (\<lambda>j. delivered (jc_inbox_id (sj_client s)) email present created (keeps_order S email created pos n) (pos i) (pos j)) st
    (never_fails S created pos st n) i n s (jmap_batch cfg interval (history_fetcher S) s)"
proof -
  let ?fetch = "history_fetcher S" and ?inbox = "jc_inbox_id (sj_client s)"
  show ?thesis
  proof (rule push_wait_connected [OF assms(3), of cfg])
    let ?s1 = "s\<lparr>sj_streams := sj_streams s + 1, sj_attempt := 0\<rparr>"
    assume w: "push_wait cfg s = (Inr (), ?s1)"
    have "sj_client ?s1 = sj_client s" "sj_cursor ?s1 = sj_cursor s" by simp_all
    from poll_batch_history [where wait = "push_wait cfg" and s = s and ?s1.0 = ?s1, OF assms w this]
    show ?thesis
      by (cases "jmap_poll_batch (push_wait cfg) ?fetch s")
        (auto simp: batch_outcome_def jmap_batch_def fallback_poll_def primary_batch_def)
  next
    fix why s1
    assume w: "push_wait cfg s = (Inl (JmapPushDisconnectedError why), s1)"
      and s1: "sj_client s1 = sj_client s" "sj_cursor s1 = sj_cursor s"
    let ?s2 = "s1\<lparr>sj_slept := sj_slept s1 @ [interval]\<rparr>"
    have t: "interval_wait sleep_for interval s1 = (Inr (), ?s2)" by (simp add: interval_wait_def sleep_for_def)
    have c: "jc_connected (sj_client s1)" "sj_cursor s1 = Some (st i)" using assms(3,4) s1 by simp_all
    have "sj_client ?s2 = sj_client s1" "sj_cursor ?s2 = sj_cursor s1" by simp_all
    from poll_batch_history [where wait = "interval_wait sleep_for interval" and s = s1 and ?s1.0 = ?s2,
        OF assms(1,2) c t this]
    have b: "batch_outcome (\<lambda>j. delivered ?inbox email present created (keeps_order S email created pos n) (pos i) (pos j)) st
        (never_fails S created pos st n) i n s1 (secondary_batch interval ?fetch s1)"
      by (simp add: secondary_batch_def s1(1))
    have "primary_batch cfg ?fetch s = (Inl (JmapPushDisconnectedError why), s1)"
      using w by (simp add: primary_batch_def jmap_poll_batch_def step_bind_def)
    then have "jmap_batch cfg interval ?fetch s = secondary_batch interval ?fetch s1"
      by (simp add: jmap_batch_def fallback_poll_def)
    with b batch_outcome_same [OF s1] show ?thesis by simp
  qed
qed

lemma jmap_poll_eq: "jmap_poll cfg interval fetch = poll_of_batch (jmap_batch cfg interval fetch)"
  by (simp add: jmap_poll_def jmap_batch_def checkpointed_fallback_def)

lemma jmap_poll_history:
  assumes "serves_history S email created pos st n" and "i \<le> n" and "jc_connected (sj_client s)"
    and "sj_cursor s = Some (st i)"
  obtains j s2 where "i \<le> j" and "j \<le> n" and "same_session (sj_client s) (sj_client s2)"
    and "sj_cursor s2 = Some (st j)"
    and "jmap_poll cfg interval (history_fetcher S) s =
      (Inr (inbox_history (jc_inbox_id (sj_client s)) email created (pos i) (pos j)), s2)"
proof -
  from assms(1) have "answers_history S email (\<lambda>_. True) created pos st n" "never_fails S created pos st n"
    "keeps_order S email created pos n" by (simp_all add: serves_history_def)
  with jmap_batch_history [OF this(1) assms(2-4), of cfg interval] that show thesis
    by (cases "jmap_batch cfg interval (history_fetcher S) s")
      (auto simp: batch_outcome_def delivered_def jmap_poll_eq poll_of_batch_def)
qed

lemma jmap_polls_history:
  assumes "serves_history S email created pos st n"
  shows "i \<le> n \<Longrightarrow> jc_connected (sj_client s) \<Longrightarrow> sj_cursor s = Some (st i) \<Longrightarrow>
    \<exists>bs s' j. polls (jmap_poll cfg interval (history_fetcher S)) k s = (Inr bs, s') \<and> i \<le> j \<and> j \<le> n \<and>
      sj_cursor s' = Some (st j) \<and>
      concat bs = inbox_history (jc_inbox_id (sj_client s)) email created (pos i) (pos j)"
proof (induction k arbitrary: i s)
  case 0
  then show ?case by (intro exI [of _ "[]"] exI [of _ s] exI [of _ i]) simp
next
  case (Suc k)
  from jmap_poll_history [OF assms Suc.prems, of cfg interval] obtain j s1
    where j: "i \<le> j" "j \<le> n" "same_session (sj_client s) (sj_client s1)" "sj_cursor s1 = Some (st j)"
      and b: "jmap_poll cfg interval (history_fetcher S) s =
        (Inr (inbox_history (jc_inbox_id (sj_client s)) email created (pos i) (pos j)), s1)" by blast
  have "jc_connected (sj_client s1)" using j(3) Suc.prems(2) by (simp add: same_session_def)
  from Suc.IH [OF j(2) this j(4)] obtain bs s' m
    where m: "polls (jmap_poll cfg interval (history_fetcher S)) k s1 = (Inr bs, s')" "j \<le> m" "m \<le> n"
      "sj_cursor s' = Some (st m)"
      "concat bs = inbox_history (jc_inbox_id (sj_client s1)) email created (pos j) (pos m)" by blast
  have "pos i \<le> pos j" "pos j \<le> pos m"
    using assms j(1) m(2) by (simp_all add: serves_history_def answers_history_def mono_def)
  from inbox_history_append [OF this] j b m show ?case
    by (intro exI [of _ "inbox_history (jc_inbox_id (sj_client s)) email created (pos i) (pos j) # bs"]
        exI [of _ s'] exI [of _ m]) (simp add: same_session_def)
qed

text \<open>Without a cursor the plain source never hands out a message: every fetch is a new baseline.\<close>

lemma plain_poll_baseline: "fst (jmap_plain_poll S events (history_fetcher S) None s) = Inr ms \<Longrightarrow> ms = []"
  by (auto simp: jmap_plain_poll_def triggered_poll_def jmap_content_fetch_def history_fetcher_def
      fetch_new_messages_def fetch_baseline_def step_bind_def step_ret_def step_fail_def
      split: prod.splits sum.splits option.splits if_splits)

text \<open>Consecutive disconnects.\<close>

definition silent :: "push_config \<Rightarrow> jmap_client \<Rightarrow> nat \<Rightarrow> bool" where
  "silent cfg cl k \<longleftrightarrow>
     (let account = (case pc_account_id cfg of Some a \<Rightarrow> a | None \<Rightarrow> jc_account_id cl)
      in \<not> list_ex (is_relevant account) (fst (pc_events cfg k)))"

fun push_waits :: "push_config \<Rightarrow> nat \<Rightarrow> jmap_source \<Rightarrow> (exn + unit) list \<times> jmap_source" where
  "push_waits cfg 0 s = ([], s)"
| "push_waits cfg (Suc k) s =
     (case push_wait cfg s of (r, s1) \<Rightarrow> (case push_waits cfg k s1 of (rs, s2) \<Rightarrow> (r # rs, s2)))"

definition delay_at :: "rat list \<Rightarrow> nat \<Rightarrow> rat" where
  "delay_at schedule i = schedule ! min i (length schedule - 1)"

lemma push_wait_silent:
  assumes "jc_connected (sj_client s)" and "silent cfg (sj_client s) (sj_streams s)"
    and "pc_backoff cfg \<noteq> []" and "sj_attempt s = int a"
  shows "\<exists>why. push_wait cfg s = (Inl (JmapPushDisconnectedError why),
    s\<lparr>sj_streams := sj_streams s + 1, sj_slept := sj_slept s @ [delay_at (pc_backoff cfg) a],
      sj_attempt := int (Suc a)\<rparr>)"
proof -
  obtain events ending where ev: "pc_events cfg (sj_streams s) = (events, ending)"
    by (cases "pc_events cfg (sj_streams s)")
  have "nat (min (int a) (int (length (pc_backoff cfg)) - 1)) = min a (length (pc_backoff cfg) - 1)"
    using assms(3) by (cases "pc_backoff cfg") (auto simp: min_def)
  then have "next_delay (pc_backoff cfg) (sj_attempt s) = Inr (delay_at (pc_backoff cfg) a)"
    using assms(3,4) by (simp add: next_delay_def delay_at_def)
  with assms(1,2,4) ev show ?thesis
    by (simp add: push_wait_def connect_def silent_def Let_def push_disconnect_def sleep_for_def)
qed

lemma push_waits_silent:
  assumes "pc_backoff cfg \<noteq> []"
  shows "jc_connected (sj_client s) \<Longrightarrow> sj_attempt s = int a \<Longrightarrow>
    (\<forall>i < k. silent cfg (sj_client s) (sj_streams s + i)) \<Longrightarrow>
    \<exists>rs. push_waits cfg k s = (rs, s\<lparr>sj_streams := sj_streams s + k,
       sj_slept := sj_slept s @ map (delay_at (pc_backoff cfg)) [a..<a + k], sj_attempt := int (a + k)\<rparr>) \<and>
     length rs = k \<and> (\<forall>r \<in> set rs. \<exists>why. r = Inl (JmapPushDisconnectedError why))"
proof (induction k arbitrary: s a)
  case 0
  then show ?case by simp
next
  case (Suc k)
  from Suc.prems(3) have now: "silent cfg (sj_client s) (sj_streams s)" by force
  from push_wait_silent [OF Suc.prems(1) now assms Suc.prems(2)] obtain why
    where w: "push_wait cfg s = (Inl (JmapPushDisconnectedError why),
      s\<lparr>sj_streams := sj_streams s + 1, sj_slept := sj_slept s @ [delay_at (pc_backoff cfg) a],
        sj_attempt := int (Suc a)\<rparr>)" (is "_ = (_, ?s1)") by blast
  have "\<exists>rs. push_waits cfg k ?s1 = (rs, ?s1\<lparr>sj_streams := sj_streams ?s1 + k,
       sj_slept := sj_slept ?s1 @ map (delay_at (pc_backoff cfg)) [Suc a..<Suc a + k],
       sj_attempt := int (Suc a + k)\<rparr>) \<and>
     length rs = k \<and> (\<forall>r \<in> set rs. \<exists>why. r = Inl (JmapPushDisconnectedError why))"
    by (rule Suc.IH) (use Suc.prems in \<open>auto simp: add.assoc\<close>)
  moreover have "[a..<a + Suc k] = a # [Suc a..<Suc a + k]" by (simp add: upt_conv_Cons)
  ultimately show ?case using w by (auto simp: add.assoc)
qed

section \<open>Properties\<close>

text \<open>C15: polling is exactly-once over the source's lifetime, whatever the push stream does: with a
  server that serves a history of created messages, every poll of the checkpointed source
  succeeds (a disconnected stream or an exhausted or empty backoff schedule falls back to the
  timer), and any number of polls hands out exactly the Inbox messages created between the
  starting cursor and the source's current one, each once and in order.\<close>

theorem jmap_polls_exactly_once:
  assumes "serves_history S email created pos st n" and "i \<le> n" and "jc_connected (sj_client s)"
    and "sj_cursor s = Some (st i)"
  shows "\<exists>bs s' j. polls (jmap_poll cfg interval (history_fetcher S)) k s = (Inr bs, s') \<and>
     i \<le> j \<and> j \<le> n \<and> sj_cursor s' = Some (st j) \<and>
     concat bs = inbox_history (jc_inbox_id (sj_client s)) email created (pos i) (pos j)"
  by (rule jmap_polls_history [OF assms])

text \<open>Reconnecting follows the schedule: k waits in a row that see no relevant event each
  report a disconnect, and sleep exactly the schedule's entries from the current attempt on,
  staying at the last one; a wait that sees a relevant event starts the schedule afresh.\<close>

theorem push_backoff_schedule:
  assumes "pc_backoff cfg \<noteq> []" and "jc_connected (sj_client s)" and "sj_attempt s = 0"
    and "\<forall>i < k. silent cfg (sj_client s) (sj_streams s + i)"
    and "\<not> silent cfg (sj_client s) (sj_streams s + k)"
  shows "case push_waits cfg k s of (rs, s1) \<Rightarrow>
     length rs = k \<and> (\<forall>r \<in> set rs. \<exists>why. r = Inl (JmapPushDisconnectedError why)) \<and>
     sj_slept s1 = sj_slept s @ map (delay_at (pc_backoff cfg)) [0..<k] \<and>
     (case push_wait cfg s1 of (r, s2) \<Rightarrow> r = Inr () \<and> sj_attempt s2 = 0 \<and> sj_slept s2 = sj_slept s1)"
proof -
  from push_waits_silent [OF assms(1,2), of 0 k] assms(3,4) obtain rs
    where w: "push_waits cfg k s = (rs, s\<lparr>sj_streams := sj_streams s + k,
       sj_slept := sj_slept s @ map (delay_at (pc_backoff cfg)) [0..<k], sj_attempt := int k\<rparr>)"
      (is "_ = (_, ?s1)")
    and rs: "length rs = k" "\<forall>r \<in> set rs. \<exists>why. r = Inl (JmapPushDisconnectedError why)" by auto
  have "push_wait cfg ?s1 = (Inr (), ?s1\<lparr>sj_streams := sj_streams ?s1 + 1, sj_attempt := 0\<rparr>)"
    using assms(2,5) by (cases "pc_events cfg (sj_streams s + k)")
      (simp add: push_wait_def connect_def silent_def Let_def)
  with w rs show ?thesis by simp
qed

section \<open>Witnesses\<close>

definition ex_push :: push_config where
  "ex_push = \<lparr>pc_server = ex_server, pc_account_id = Some ''acc'', pc_backoff = [2, 5],
     pc_events = (\<lambda>k. (if k < 3 then [] else [\<lparr>pv_changed = Some [(''acc'', True, False)]\<rparr>], Stream_Ended))\<rparr>"

definition ex_source :: jmap_source where
  "ex_source = \<lparr>sj_client = ex_client, sj_cursor = Some ''s0'', sj_attempt = 0, sj_slept = [], sj_streams = 0\<rparr>"

theorem jmap_polls_exactly_once_witness:
  "\<exists>bs s' j. polls (jmap_poll ex_push 300 (history_fetcher ex_server)) 2 ex_source = (Inr bs, s') \<and>
     j \<le> 1 \<and> sj_cursor s' = Some (ex_state j) \<and>
     concat bs = inbox_history ''inbox'' (\<lambda>_. ex_email) (\<lambda>_. ''e'') 0 (ex_pos j)"
proof -
  have s: "jc_connected (sj_client ex_source)" "sj_cursor ex_source = Some (ex_state 0)"
    "jc_inbox_id (sj_client ex_source) = ''inbox''" "ex_pos 0 = 0"
    by (simp_all add: ex_source_def ex_client_connected ex_state_def ex_pos_def)
  from jmap_polls_exactly_once [OF ex_serves _ s(1,2), of ex_push 300 2] s(3,4) show ?thesis by auto
qed

theorem push_backoff_schedule_witness:
  "sj_slept (snd (push_waits ex_push 3 ex_source)) = [2, 5, 5]"
proof -
  have "pc_backoff ex_push \<noteq> []" "jc_connected (sj_client ex_source)" "sj_attempt ex_source = 0"
    by (simp_all add: ex_push_def ex_source_def ex_client_connected)
  moreover have "\<forall>i < 3. silent ex_push (sj_client ex_source) (sj_streams ex_source + i)"
    "\<not> silent ex_push (sj_client ex_source) (sj_streams ex_source + 3)"
    by (simp_all add: silent_def ex_push_def ex_source_def is_relevant_def Let_def)
  ultimately have "sj_slept (snd (push_waits ex_push 3 ex_source)) =
      sj_slept ex_source @ map (delay_at (pc_backoff ex_push)) [0..<3]"
    using push_backoff_schedule [of ex_push ex_source 3] by (auto split: prod.splits)
  then show ?thesis by (simp add: ex_source_def ex_push_def delay_at_def numeral_3_eq_3)
qed

end
