(* ===== verification/Jmap_Adapters.thy ===== *)
theory Jmap_Adapters
  imports Composition Jmap_Provider
begin

text \<open>
  \<open>JmapProvider\<close> as a provider of the program (\<open>core/providers/jmap/provider.py\<close>): the class the loader
  constructs, and the adapters that share its one client. What a call leaves of the client is a function
  of the call, so the client's state is what replaying a history gives.

  Lemmas: no call ends a session or moves it to another Inbox.
\<close>

section \<open>The class and its adapters\<close>

text \<open>An account: the server, its push streams, and the interval and schedule the provider was
  constructed with.\<close>

record jmap_setup =
  ju_server :: jmap_server
  ju_events :: "nat \<Rightarrow> push_event list \<times> stream_end"
  ju_provider :: jmap_provider

definition jmap_arguments :: "string list" where
  "jmap_arguments = [''host'', ''api_token'', ''cursor'', ''poll_interval_seconds'', ''reconnect_backoff_seconds'']"

text \<open>The class the loader constructs: an unknown or a missing argument is a \<open>TypeError\<close>; connecting
  waits for \<open>account_id()\<close>.\<close>

definition jmap_class :: "jmap_setup \<Rightarrow> provider_handle constructor" where
  "jmap_class U kwargs =
     (if list_all (\<lambda>kv. fst kv \<in> set jmap_arguments) kwargs \<and>
         list_all (\<lambda>k. dict_get kwargs k \<noteq> None) (take 2 jmap_arguments)
      then Inr \<lparr>ph_account_id = Some (fst (account_id (ju_server U) jmap_client_init))\<rparr>
      else Inl (Other_Error ''TypeError'' ''JmapProvider.__init__()''))"

text \<open>What each call leaves of the shared client; the write side and the attachments raise before they
  reach it.\<close>

definition jmap_client_effect :: "jmap_server \<Rightarrow> jmap_client \<Rightarrow> call \<Rightarrow> jmap_client" where
  "jmap_client_effect S cl c =
     (case c of
        C_Thread m \<Rightarrow> snd (jmap_get_thread_context S m cl)
      | C_Mailboxes \<Rightarrow> snd (jmap_list_mailboxes S cl)
      | C_Query u p n \<Rightarrow> snd (jmap_query_messages S u p n cl)
      | _ \<Rightarrow> cl)"

text \<open>The adapters delegate to the client; \<open>client\<close> is its state after a history.\<close>

definition jmap_writers :: "(call list \<Rightarrow> jmap_client) \<Rightarrow> env \<Rightarrow> env" where
  "jmap_writers client E =
     E\<lparr>e_apply := (\<lambda>h m act. fst (jmap_apply_action m act (client h))),
       e_draft := (\<lambda>h m body. fst (jmap_create_draft m body (client h)))\<rparr>"

definition jmap_readers :: "jmap_server \<Rightarrow> (call list \<Rightarrow> jmap_client) \<Rightarrow> env \<Rightarrow> env" where
  "jmap_readers S client E =
     E\<lparr>e_thread := (\<lambda>h m. fst (jmap_get_thread_context S m (client h))),
       e_mailboxes := (\<lambda>h. fst (jmap_list_mailboxes S (client h)))\<rparr>"

definition jmap_lookup :: "jmap_server \<Rightarrow> jmap_client \<Rightarrow> string \<Rightarrow> exn + message" where
  "jmap_lookup S cl mid = fst (jmap_get_message S mid cl)"

definition jmap_receipt_tools :: "(call list \<Rightarrow> jmap_client) \<Rightarrow> env \<Rightarrow> env" where
  "jmap_receipt_tools client E =
     E\<lparr>e_attachments := (\<lambda>h m. fst (jmap_fetch_attachments m (client h))),
       e_keywords := (\<lambda>h m ks. fst (jmap_apply_keywords m ks (client h)))\<rparr>"

text \<open>What \<open>JmapProvider\<close> builds of them, with \<open>query_messages\<close>.\<close>

definition jmap_env :: "env \<Rightarrow> jmap_server \<Rightarrow> (call list \<Rightarrow> jmap_client) \<Rightarrow> env" where
  "jmap_env E S client =
     (jmap_receipt_tools client (jmap_readers S client (jmap_writers client E)))
       \<lparr>e_query := (\<lambda>h u p n. fst (jmap_query_messages S u p n (client h)))\<rparr>"

section \<open>Sessions\<close>

lemma connect_again: "jc_connected cl \<Longrightarrow> connect S cl = (Inr (), cl)"
  by (simp add: connect_def)

lemma request_session: "same_session cl (snd (jmap_request S c f cl))"
  by (auto simp: jmap_request_def jmap_call_def split: sum.splits)

lemma step_bind_session:
  "same_session cl (snd (m cl)) \<Longrightarrow> (\<And>x cl'. same_session cl' (snd (f x cl'))) \<Longrightarrow> same_session cl (snd (step_bind m f cl))"
  by (auto simp: step_bind_def split: prod.splits sum.splits intro: same_session_trans)

lemma thread_session: "jc_connected cl \<Longrightarrow> same_session cl (snd (jmap_get_thread_context S m cl))"
  unfolding jmap_get_thread_context_def get_emails_def Let_def
  by (intro step_bind_session request_session)
    (auto simp: connect_again step_ret_def step_fail_def split: option.splits
      intro!: step_bind_session request_session)

lemma query_session: "jc_connected cl \<Longrightarrow> same_session cl (snd (jmap_query_messages S u p n cl))"
  unfolding jmap_query_messages_def get_emails_def Let_def
  by (subst step_bind_def, simp add: connect_again)
    (auto intro!: step_bind_session request_session split: option.splits simp: step_ret_def step_fail_def)

lemma client_effect_session: "jc_connected cl \<Longrightarrow> same_session cl (jmap_client_effect S cl c)"
  by (cases c) (simp_all add: jmap_client_effect_def thread_session query_session jmap_list_mailboxes_def
      step_bind_def connect_again)

end
