(* ===== verification/Jmap_Daemon.thy ===== *)
theory Jmap_Daemon
  imports Daemon_Run Jmap_Adapters
begin

text \<open>
  The daemon on a JMAP account, end to end: \<open>JmapProvider\<close>'s adapters (\<open>core/providers/jmap/provider.py\<close>)
  as the daemon's collaborators, and any number of lives of the process one after the other. The
  adapters share one client; its state, with the source's cursor and backoff, is what replaying the
  calls of this life's history on the freshly built source gives.

  Interface: \<open>checkpointed_history\<close>, what a checkpointed source owes the loop. From any position of an
  append-only history it hands out at least the window to a later one, with that position's mark; a
  failed poll or another call does not move it. The daemon's lemmas are proved over it; the JMAP source
  provides it.
\<close>

section \<open>The contract of a checkpointed source\<close>

locale checkpointed_history =
  fixes answer :: "'s \<Rightarrow> exn + message_batch" and effect :: "'s \<Rightarrow> call \<Rightarrow> 's"
    and stands :: "'s \<Rightarrow> nat \<Rightarrow> bool" and window :: "nat \<Rightarrow> nat \<Rightarrow> message set" and mark :: "nat \<Rightarrow> string"
  assumes poll_window: "stands s i \<Longrightarrow> answer s = Inr batch \<Longrightarrow>
        \<exists>j. i \<le> j \<and> window i j \<subseteq> set (mb_messages batch) \<and> mb_checkpoint batch = Some (mark j) \<and>
          stands (effect s C_Poll) j"
    and poll_failed: "stands s i \<Longrightarrow> answer s = Inl e \<Longrightarrow> stands (effect s C_Poll) i"
    and other_calls: "stands s i \<Longrightarrow> c \<noteq> C_Poll \<Longrightarrow> stands (effect s c) i"
    and window_join: "stands s k \<Longrightarrow> i \<le> j \<Longrightarrow> j \<le> k \<Longrightarrow> window i k = window i j \<union> window j k"
    and window_none: "window i i = {}"
begin

lemma replay_other:
  "stands s i \<Longrightarrow> C_Poll \<notin> set cs \<Longrightarrow> stands (foldl effect s cs) i"
proof (induction cs arbitrary: s)
  case (Cons c cs)
  from Cons.prems have "stands (effect s c) i" by (intro other_calls) auto
  with Cons.IH Cons.prems(2) show ?case by simp
qed simp

text \<open>The loop is in step with its source: the stored cursor marks a position behind which everything
  is handled; the source stands at the end of the batch in hand, or at the cursor when there is none.\<close>

definition in_step :: "loop_config \<Rightarrow> string \<Rightarrow> 's \<Rightarrow> nat \<Rightarrow> nat \<Rightarrow> daemon \<Rightarrow> bool" where
  "in_step cfg a s0 n0 i0 d \<longleftrightarrow> n0 \<le> length (hist (d_world d)) \<and>
     (\<exists>k j. i0 \<le> k \<and> k \<le> j \<and> get_cursor (wdb (d_world d)) a = Some (mark k) \<and>
        (\<forall>m \<in> window i0 k. handled_message cfg (wdb (d_world d)) m) \<and>
        stands (foldl effect s0 (drop n0 (hist (d_world d)))) j \<and>
        (case batch_of (d_pc d) of
           None \<Rightarrow> running (d_pc d) \<longrightarrow> k = j
         | Some (b, cp) \<Rightarrow> window k j \<subseteq> set b \<and> cp = Some (mark j)))"

lemma in_step_quiet:
  assumes "in_step cfg a s0 n0 i0 d" and "grows (d_world d) (d_world d')"
    and "get_cursor (wdb (d_world d')) a = get_cursor (wdb (d_world d)) a"
    and "only_calls (\<lambda>c. c \<noteq> C_Poll) (d_world d) (d_world d')"
    and "\<not> running (d_pc d') \<or> (running (d_pc d) \<and> batch_of (d_pc d') = batch_of (d_pc d))"
  shows "in_step cfg a s0 n0 i0 d'"
proof -
  from assms(1) obtain k j where k: "n0 \<le> length (hist (d_world d))" "i0 \<le> k" "k \<le> j"
      "get_cursor (wdb (d_world d)) a = Some (mark k)" "\<forall>m \<in> window i0 k. handled_message cfg (wdb (d_world d)) m"
      "stands (foldl effect s0 (drop n0 (hist (d_world d)))) j"
    and pc: "case batch_of (d_pc d) of None \<Rightarrow> running (d_pc d) \<longrightarrow> k = j
         | Some (b, cp) \<Rightarrow> window k j \<subseteq> set b \<and> cp = Some (mark j)"
    unfolding in_step_def by blast
  from assms(4) obtain cs where cs: "hist (d_world d') = hist (d_world d) @ cs" "C_Poll \<notin> set cs"
    by (auto simp: only_calls_def)
  have "stands (foldl effect s0 (drop n0 (hist (d_world d')))) j"
    using replay_other [OF k(6) cs(2)] k(1) by (simp add: cs(1))
  moreover have "case batch_of (d_pc d') of None \<Rightarrow> running (d_pc d') \<longrightarrow> k = j
         | Some (b, cp) \<Rightarrow> window k j \<subseteq> set b \<and> cp = Some (mark j)"
  proof (cases "running (d_pc d')")
    case True
    with assms(5) pc show ?thesis by (auto split: option.splits)
  next
    case False
    then have "batch_of (d_pc d') = None" by (cases "d_pc d'") auto
    with False show ?thesis by simp
  qed
  moreover have "\<forall>m \<in> window i0 k. handled_message cfg (wdb (d_world d')) m"
    using k(5) handled_grows [OF assms(2)] by blast
  ultimately show ?thesis
    unfolding in_step_def using k(1-4) cs(1) assms(3)
    by (intro conjI exI [of _ k] exI [of _ j]) auto
qed

end

section \<open>What a step asks of the source\<close>

lemma only_calls_log: "only_calls P w (log_call c w) \<longleftrightarrow> P c"
  by (auto simp: only_calls_def log_call_def)

lemma only_calls_db [simp]: "only_calls P w (w'\<lparr>wdb := db\<rparr>) \<longleftrightarrow> only_calls P w w'"
  by (simp add: only_calls_def)

lemma asks_no_poll: "asks (pipeline_call False) d d' \<Longrightarrow> only_calls (\<lambda>c. c \<noteq> C_Poll) (d_world d) (d_world d')"
  unfolding asks_def by (erule only_calls_weaken) (auto simp: pipeline_call_def)

lemma loop_step_no_poll:
  assumes "d_pc d \<noteq> Polling"
  shows "only_calls (\<lambda>c. c \<noteq> C_Poll) (d_world d) (d_world (loop_step cfg d))"
proof (cases "d_pc d")
  case (In_Batch rules dm todo cp)
  with asks_no_poll [OF step_message_asks] show ?thesis
    by (cases todo) (simp_all add: loop_step.simps only_calls_refl)
next
  case (In_Tier2 rules dm m rest cp)
  with asks_no_poll [OF step_tier2_asks] show ?thesis by (simp add: loop_step.simps)
qed (use assms in \<open>auto simp: loop_step.simps step_top_def step_drain_def step_ack_def Let_def only_calls_refl
      only_calls_log split: option.splits list.splits\<close>)

lemma loop_step_batch_kept:
  assumes "running (d_pc d)" and "d_pc d \<noteq> Polling" and "\<forall>b cp. d_pc d \<noteq> Acking b cp"
  shows "\<not> running (d_pc (loop_step cfg d)) \<or> batch_of (d_pc (loop_step cfg d)) = batch_of (d_pc d)"
proof (cases "d_pc d")
  case (In_Batch rules dm todo cp)
  then show ?thesis
    by (cases todo) (auto simp: loop_step.simps step_message_def split: prod.splits sum.splits)
next
  case (In_Tier2 rules dm m rest cp)
  then show ?thesis by (auto simp: loop_step.simps step_tier2_def split: prod.splits sum.splits)
qed (use assms in \<open>auto simp: loop_step.simps step_top_def step_drain_def Let_def split: list.splits\<close>)

lemma ipc_step_frame:
  "only_calls (\<lambda>c. c \<noteq> C_Poll) (d_world d) (d_world (ipc_step cfg req d))"
  "wdb (d_world (ipc_step cfg req d)) = wdb (d_world d)" "d_pc (ipc_step cfg req d) = d_pc d"
proof -
  show "only_calls (\<lambda>c. c \<noteq> C_Poll) (d_world d) (d_world (ipc_step cfg req d))"
    by (simp add: ipc_step_def Let_def only_calls_refl only_calls_log)
qed (simp_all add: ipc_step_def Let_def log_call_def)

section \<open>The loop over a checkpointed source\<close>

context checkpointed_history begin

lemma loop_step_in_step:
  assumes poll: "\<And>h. e_poll (lc_env cfg) h = answer (foldl effect s0 (drop n0 h))"
    and cfg: "lc_checkpointed cfg" "lc_cursor_account_id cfg = Some a"
    and run: "running (d_pc d)" and ok: "batch_ok cfg d" and inv: "in_step cfg a s0 n0 i0 d"
  shows "in_step cfg a s0 n0 i0 (loop_step cfg d)"
proof -
  let ?d' = "loop_step cfg d"
  have step: "daemon_step cfg d Loop ?d'" using run by (rule daemon_step.loop)
  from inv obtain k j where k: "n0 \<le> length (hist (d_world d))" "i0 \<le> k" "k \<le> j"
      "get_cursor (wdb (d_world d)) a = Some (mark k)" "\<forall>m \<in> window i0 k. handled_message cfg (wdb (d_world d)) m"
      "stands (foldl effect s0 (drop n0 (hist (d_world d)))) j"
    and pc: "case batch_of (d_pc d) of None \<Rightarrow> running (d_pc d) \<longrightarrow> k = j
         | Some (b, cp) \<Rightarrow> window k j \<subseteq> set b \<and> cp = Some (mark j)"
    unfolding in_step_def by blast
  consider (polling) "d_pc d = Polling" | (acking) b cp where "d_pc d = Acking b cp"
    | (other) "d_pc d \<noteq> Polling" "\<forall>b cp. d_pc d \<noteq> Acking b cp" by blast
  then show ?thesis
  proof cases
    case polling
    with pc have "k = j" by simp
    let ?s = "foldl effect s0 (drop n0 (hist (d_world d)))"
    have world: "d_world ?d' = log_call C_Poll (d_world d)"
      using polling by (auto simp: loop_step.simps step_poll_def Let_def split: sum.splits)
    have after: "foldl effect s0 (drop n0 (hist (d_world ?d'))) = effect ?s C_Poll"
      using k(1) by (simp add: world log_call_def)
    show ?thesis
    proof (cases "answer ?s")
      case (Inl e)
      then have "\<not> running (d_pc ?d')" "batch_of (d_pc ?d') = None"
        using polling poll by (simp_all add: loop_step.simps step_poll_def Let_def)
      with k poll_failed [OF k(6) Inl] show ?thesis
        unfolding in_step_def after by (intro conjI exI [of _ k] exI [of _ j]) (auto simp: world log_call_def)
    next
      case (Inr b)
      from poll_window [OF k(6) Inr] obtain j' where j': "j \<le> j'"
        "window j j' \<subseteq> set (mb_messages b)" "mb_checkpoint b = Some (mark j')" "stands (effect ?s C_Poll) j'" by blast
      have "batch_of (d_pc ?d') = Some (mb_messages b, Some (mark j'))"
        using polling poll Inr j'(3) cfg(1) by (auto simp: loop_step.simps step_poll_def Let_def)
      with k j' \<open>k = j\<close> show ?thesis
        unfolding in_step_def after by (intro conjI exI [of _ k] exI [of _ j']) (auto simp: world log_call_def)
    qed
  next
    case (acking b cp)
    with pc have b: "window k j \<subseteq> set b" "cp = Some (mark j)" by simp_all
    have "\<forall>m \<in> set b. handled_message cfg (wdb (d_world d)) m" using ok acking by (simp add: batch_ok_def)
    with k(5) b(1) have "\<forall>m \<in> window i0 j. handled_message cfg (wdb (d_world d)) m"
      unfolding window_join [OF k(6) k(2,3)] by blast
    then have all: "\<forall>m \<in> window i0 j. handled_message cfg (wdb (d_world ?d')) m"
      using handled_grows [OF daemon_step_grows [OF step]] by blast
    have after: "d_pc ?d' = At_Top" "hist (d_world ?d') = hist (d_world d)"
      "get_cursor (wdb (d_world ?d')) a = Some (mark j)"
      using acking b(2) cfg(2) by (simp_all add: loop_step.simps step_ack_def get_cursor_def set_cursor_def)
    with all k show ?thesis
      unfolding in_step_def by (intro conjI exI [of _ j]) auto
  next
    case other
    have "db_push_cursor (wdb (d_world ?d')) = db_push_cursor (wdb (d_world d))"
      using step_cursor [OF step] other(2) by blast
    then show ?thesis
      by (intro in_step_quiet [OF inv daemon_step_grows [OF step]])
        (use other run loop_step_no_poll [OF other(1)] loop_step_batch_kept [OF run other] in \<open>auto simp: get_cursor_def\<close>)
  qed
qed

lemma play_in_step:
  assumes poll: "\<And>h. e_poll (lc_env cfg) h = answer (foldl effect s0 (drop n0 h))"
    and cfg: "lc_checkpointed cfg" "lc_cursor_account_id cfg = Some a"
  shows "batch_ok cfg d \<Longrightarrow> in_step cfg a s0 n0 i0 d \<Longrightarrow> in_step cfg a s0 n0 i0 (play cfg es d)"
proof (induction es arbitrary: d)
  case (Cons e es)
  show ?case
  proof (cases "running (d_pc d)")
    case True
    note step = apply_event_step [OF True, of cfg e]
    have "in_step cfg a s0 n0 i0 (apply_event cfg e d)"
    proof (cases e)
      case Run_Loop
      with loop_step_in_step [OF poll cfg True Cons.prems] show ?thesis by simp
    qed (use True daemon_step_grows [OF step] in
      \<open>auto intro!: in_step_quiet [OF Cons.prems(2)] simp: ipc_step_frame only_calls_refl\<close>)
    with Cons.IH [OF daemon_step_batch [OF step Cons.prems(1)]] True show ?thesis by simp
  qed (use Cons.prems in simp)
qed simp

text \<open>Wherever a run is cut off, the cursor it leaves marks a position behind which everything the source
  handed out is handled.\<close>

lemma run_in_step:
  assumes poll: "\<And>h. e_poll (lc_env cfg) h = answer (foldl effect s0 (drop (length (hist w)) h))"
    and cfg: "lc_checkpointed cfg" "lc_cursor_account_id cfg = Some a"
    and start: "stands s0 i0" "get_cursor (wdb w) a = Some (mark i0)"
  obtains k j s where "i0 \<le> k" and "k \<le> j" and "stands s j"
    and "get_cursor (wdb (d_world (play cfg es (start_daemon t rules w)))) a = Some (mark k)"
    and "\<forall>m \<in> window i0 k. handled_message cfg (wdb (d_world (play cfg es (start_daemon t rules w)))) m"
proof -
  have "in_step cfg a s0 (length (hist w)) i0 (start_daemon t rules w)"
    unfolding in_step_def using start
    by (intro conjI exI [of _ i0]) (simp_all add: start_daemon_def window_none)
  from play_in_step [OF poll cfg start_ok(1) this] show thesis
    unfolding in_step_def using that by blast
qed

end

section \<open>JmapProvider as the daemon's source\<close>

text \<open>\<open>account_id()\<close> has connected the client the source is then built on.\<close>

definition jmap_open :: "jmap_setup \<Rightarrow> string option \<Rightarrow> exn + (push_config \<times> jmap_source)" where
  "jmap_open U cursor =
     (case account_id (ju_server U) jmap_client_init of
        (Inl e, cl) \<Rightarrow> Inl e
      | (Inr account, cl) \<Rightarrow> fst (build_checkpointed_source (ju_server U) (ju_events U) (ju_provider U) cursor cl))"

definition jmap_answer :: "push_config \<Rightarrow> rat \<Rightarrow> jmap_source \<Rightarrow> exn + message_batch" where
  "jmap_answer cfg interval s = fst (jmap_batch cfg interval (history_fetcher (pc_server cfg)) s)"

text \<open>What each call leaves of the source and the shared client.\<close>

definition jmap_effect :: "push_config \<Rightarrow> rat \<Rightarrow> jmap_source \<Rightarrow> call \<Rightarrow> jmap_source" where
  "jmap_effect cfg interval s c =
     (case c of
        C_Poll \<Rightarrow> snd (jmap_batch cfg interval (history_fetcher (pc_server cfg)) s)
      | _ \<Rightarrow> s\<lparr>sj_client := jmap_client_effect (pc_server cfg) (sj_client s) c\<rparr>)"

text \<open>The host of one life of the daemon, which begins in the world \<open>w\<close>.\<close>

definition jmap_replay :: "jmap_setup \<Rightarrow> nat \<Rightarrow> push_config \<Rightarrow> jmap_source \<Rightarrow> call list \<Rightarrow> jmap_source" where
  "jmap_replay U n0 cfg s h = foldl (jmap_effect cfg (jv_poll_interval (ju_provider U))) s (drop n0 h)"

definition jmap_source_handle :: "jmap_setup \<Rightarrow> nat \<Rightarrow> string option \<Rightarrow> exn + source_handle" where
  "jmap_source_handle U n0 cursor =
     sum_bind (jmap_open U cursor) (\<lambda>(cfg, s).
       Inr \<lparr>sh_poll = (\<lambda>h. jmap_answer cfg (jv_poll_interval (ju_provider U)) (jmap_replay U n0 cfg s h)),
            sh_checkpointed = True\<rparr>)"

definition jmap_run_host :: "'a run_host \<Rightarrow> jmap_setup \<Rightarrow> world \<Rightarrow> 'a run_host" where
  "jmap_run_host H U w =
     H\<lparr>rh_importers := (rh_importers H)\<lparr>im_provider := (\<lambda>_. Inr (\<lambda>_. Some (jmap_class U)))\<rparr>,
       rh_source := (\<lambda>_ cursor. jmap_source_handle U (length (hist w)) (Option.bind cursor id)),
       rh_env := (\<lambda>parts.
          case jmap_open U (Option.bind (daemon_cursor parts (wdb w)) id) of
            Inl e \<Rightarrow> rh_env H parts
          | Inr (cfg, s) \<Rightarrow> jmap_env (rh_env H parts) (ju_server U)
                              (\<lambda>h. sj_client (jmap_replay U (length (hist w)) cfg s h)))\<rparr>"

section \<open>The source keeps the contract\<close>

definition jmap_stands ::
  "jmap_server \<Rightarrow> string \<Rightarrow> (string \<Rightarrow> jmap_email) \<Rightarrow> (string \<Rightarrow> bool) \<Rightarrow> (nat \<Rightarrow> string) \<Rightarrow> (nat \<Rightarrow> nat) \<Rightarrow>
   (nat \<Rightarrow> string) \<Rightarrow> nat \<Rightarrow> jmap_source \<Rightarrow> nat \<Rightarrow> bool" where
  "jmap_stands S inbox email present created pos st n s i \<longleftrightarrow>
     answers_history S email present created pos st n \<and> i \<le> n \<and> jc_connected (sj_client s) \<and>
     jc_inbox_id (sj_client s) = inbox \<and> sj_cursor s = Some (st i)"

lemma jmap_stands_session:
  "jmap_stands S inbox email present created pos st n s i \<Longrightarrow> same_session (sj_client s) cl \<Longrightarrow>
   jmap_stands S inbox email present created pos st n (s\<lparr>sj_client := cl\<rparr>) i"
  by (simp add: jmap_stands_def same_session_def)

lemma jmap_poll_outcome:
  assumes "jmap_stands (pc_server cfg) inbox email present created pos st n s i"
  shows "batch_outcome
    (\<lambda>j. delivered inbox email present created (keeps_order (pc_server cfg) email created pos n) (pos i) (pos j)) st
    (never_fails (pc_server cfg) created pos st n) i n s (jmap_batch cfg interval (history_fetcher (pc_server cfg)) s)"
  using assms jmap_batch_history [of "pc_server cfg" email present created pos st n i s cfg interval]
  by (auto simp: jmap_stands_def)

lemma jmap_poll_window:
  assumes "jmap_stands (pc_server cfg) inbox email present created pos st n s i" and "jmap_answer cfg interval s = Inr batch"
  shows "\<exists>j. i \<le> j \<and> inbox_remaining inbox email present created (pos i) (pos j) \<subseteq> set (mb_messages batch) \<and>
     mb_checkpoint batch = Some (st j) \<and>
     jmap_stands (pc_server cfg) inbox email present created pos st n (jmap_effect cfg interval s C_Poll) j"
proof -
  from jmap_poll_outcome [OF assms(1), of interval] assms(2) obtain j ms
    where j: "i \<le> j" "j \<le> n" "inbox_remaining inbox email present created (pos i) (pos j) \<subseteq> set ms"
      "batch = \<lparr>mb_messages = ms, mb_checkpoint = Some (st j)\<rparr>"
      "sj_cursor (jmap_effect cfg interval s C_Poll) = Some (st j)"
      "same_session (sj_client s) (sj_client (jmap_effect cfg interval s C_Poll))"
    by (auto simp: batch_outcome_def delivered_def jmap_answer_def jmap_effect_def)
  with assms(1) show ?thesis by (intro exI [of _ j]) (simp add: jmap_stands_def same_session_def)
qed

lemma jmap_poll_failed:
  assumes "jmap_stands (pc_server cfg) inbox email present created pos st n s i" and "jmap_answer cfg interval s = Inl e"
  shows "jmap_stands (pc_server cfg) inbox email present created pos st n (jmap_effect cfg interval s C_Poll) i"
  using jmap_poll_outcome [OF assms(1), of interval] assms
  by (auto simp: batch_outcome_def jmap_answer_def jmap_effect_def jmap_stands_def same_session_def)

lemma jmap_other_calls:
  assumes "jmap_stands (pc_server cfg) inbox email present created pos st n s i" and "c \<noteq> C_Poll"
  shows "jmap_stands (pc_server cfg) inbox email present created pos st n (jmap_effect cfg interval s c) i"
proof -
  have "jc_connected (sj_client s)" using assms(1) by (simp add: jmap_stands_def)
  from assms(2) jmap_stands_session [OF assms(1) client_effect_session [OF this]] show ?thesis
    by (cases c) (simp_all add: jmap_effect_def)
qed

interpretation jmap: checkpointed_history "jmap_answer cfg interval" "jmap_effect cfg interval"
    "jmap_stands (pc_server cfg) inbox email present created pos st n"
    "\<lambda>i j. inbox_remaining inbox email present created (pos i) (pos j)" st
  for cfg interval inbox email present created pos st n
proof
  fix s i j k
  assume "jmap_stands (pc_server cfg) inbox email present created pos st n s k" and "i \<le> j" and "j \<le> k"
  then have "pos i \<le> pos j" "pos j \<le> pos k" by (simp_all add: jmap_stands_def answers_history_def mono_def)
  then show "inbox_remaining inbox email present created (pos i) (pos k) =
      inbox_remaining inbox email present created (pos i) (pos j) \<union>
      inbox_remaining inbox email present created (pos j) (pos k)" by (rule inbox_remaining_append)
qed (auto intro: jmap_poll_window jmap_poll_failed jmap_other_calls)

section \<open>Lives\<close>

text \<open>One life of the process: who it meets, its flags, its schedule, and where the schedule breaks off.\<close>

record 'a life =
  lf_host :: "'a run_host"
  lf_account :: jmap_setup
  lf_observe :: bool
  lf_failure :: "exn option"
  lf_events :: "loop_event list"
  lf_config :: spork_config

definition live :: "'a life \<Rightarrow> world \<Rightarrow> world" where
  "live L w = snd (snd (run_daemon (jmap_run_host (lf_host L) (lf_account L) w) (lf_observe L)
     (lf_failure L) (lf_events L) (lf_config L) w))"

text \<open>The servers the lives meet: one account with one Inbox, whose history of created messages grows
  from life to life. Any connection and any request may fail.\<close>

fun served ::
  "(string \<Rightarrow> jmap_email) \<Rightarrow> (string \<Rightarrow> bool) \<Rightarrow> (nat \<Rightarrow> string) \<Rightarrow> (nat \<Rightarrow> nat) \<Rightarrow> (nat \<Rightarrow> string) \<Rightarrow> string \<Rightarrow>
   string \<Rightarrow> nat \<Rightarrow> 'a life list \<Rightarrow> bool" where
  "served email present created pos st a inbox n [] = True"
| "served email present created pos st a inbox n (L # Ls) =
     (\<exists>n'. n \<le> n' \<and> answers_history (ju_server (lf_account L)) email present created pos st n' \<and>
        (\<forall>a' cl. account_id (ju_server (lf_account L)) jmap_client_init = (Inr a', cl) \<longrightarrow>
           a' = a \<and> jc_inbox_id cl = inbox) \<and>
        served email present created pos st a inbox n' Ls)"

lemma account_connected: "account_id S cl = (Inr a, cl') \<Longrightarrow> jc_connected cl' \<and> jc_account_id cl' = a"
  by (auto simp: account_id_def step_bind_def connect_def split: prod.splits sum.splits if_splits)

lemma composed_account:
  assumes "composed (jmap_run_host H U w) observe config w' = Inr parts"
  obtains a cl where "account_id (ju_server U) jmap_client_init = (Inr a, cl)" and "dp_account_id parts = Some a"
  using assms that
  by (cases "account_id (ju_server U) jmap_client_init")
    (auto simp: composed_def compose_daemon_def sum_bind_Inr_iff build_provider_def load_provider_def load_backend_def
      jmap_run_host_def jmap_class_def checkpoint_account_def split: option.splits if_splits)

lemma open_stands:
  assumes "jmap_open U (Some (st i)) = Inr (cfg, s)"
    and "account_id (ju_server U) jmap_client_init = (Inr a, cl)" and "jc_inbox_id cl = inbox"
    and "answers_history (ju_server U) email present created pos st n" and "i \<le> n"
  shows "pc_server cfg = ju_server U" and "jmap_stands (pc_server cfg) inbox email present created pos st n s i"
  using assms account_connected [OF assms(2)]
  by (auto simp: jmap_open_def build_checkpointed_source_def account_id_def step_bind_def connect_again
      jmap_stands_def split: sum.splits)

lemma run_grows: "grows w (snd (snd (run_daemon H observe server events config w)))"
proof -
  have "grows w (d_world (play cfg events (start_daemon t rules w)))" for cfg t rules
    using play_steps [of cfg "start_daemon t rules w" events] daemon_steps_grows start_ok(4) by metis
  then show ?thesis
    by (auto simp: run_daemon_def serve_daemon_def open_daemon_def sum_bind_def Let_def split: sum.splits)
qed

lemma lives_grow: "grows w (foldl (\<lambda>w L. live L w) w Ls)"
proof (induction Ls arbitrary: w)
  case (Cons L Ls)
  have "grows w (live L w)" unfolding live_def by (rule run_grows)
  with Cons [of "live L w"] show ?case by (auto intro: grows_trans)
qed simp

text \<open>Handled, at least for an observing daemon.\<close>

definition accounted :: "bool \<Rightarrow> state_db \<Rightarrow> message \<Rightarrow> bool" where
  "accounted observe db m \<longleftrightarrow>
     has_processed db (message_id m) \<or> (observe \<and> pending_escalation db (message_id m))"

lemma accounted_grows: "grows w w' \<Longrightarrow> accounted b (wdb w) m \<Longrightarrow> accounted b (wdb w') m"
  using handled_grows [where cfg = "ex_loop\<lparr>lc_observe := b\<rparr>"] by (simp add: accounted_def handled_message_def)

lemma accounted_mono: "accounted b db m \<Longrightarrow> (b \<Longrightarrow> b') \<Longrightarrow> accounted b' db m"
  by (auto simp: accounted_def)

lemma one_life:
  assumes serves: "answers_history (ju_server (lf_account L)) email present created pos st n" "i \<le> n"
    and account: "\<forall>a' cl. account_id (ju_server (lf_account L)) jmap_client_init = (Inr a', cl) \<longrightarrow>
      a' = a \<and> jc_inbox_id cl = inbox"
    and cursor: "get_cursor (wdb w) a = Some (st i)"
  obtains k where "i \<le> k" and "k \<le> n" and "get_cursor (wdb (live L w)) a = Some (st k)"
    and "\<forall>m \<in> inbox_remaining inbox email present created (pos i) (pos k). accounted (lf_observe L) (wdb (live L w)) m"
proof -
  let ?U = "lf_account L"
  let ?H = "jmap_run_host (lf_host L) ?U w"
  show thesis
  proof (cases "\<exists>parts cfg d. composed ?H (lf_observe L) (lf_config L) w = Inr parts \<and>
      open_daemon ?H (lf_observe L) (lf_config L) parts w = Inr (cfg, d)")
    case False
    then have "live L w = w"
      by (auto simp: live_def run_daemon_def serve_daemon_def split: sum.splits)
    with serves(2) cursor that [of i] show thesis by simp
  next
    case True
    then obtain parts cfg d where parts: "composed ?H (lf_observe L) (lf_config L) w = Inr parts"
      and opened: "open_daemon ?H (lf_observe L) (lf_config L) parts w = Inr (cfg, d)" by blast
    from composed_account [OF parts] account obtain cl
      where con: "account_id (ju_server ?U) jmap_client_init = (Inr a, cl)" "jc_inbox_id cl = inbox"
        and a: "dp_account_id parts = Some a" by metis
    have from_cursor: "Option.bind (daemon_cursor parts (wdb w)) id = Some (st i)"
      by (simp add: daemon_cursor_def a cursor)
    obtain pc s where src: "jmap_open ?U (Some (st i)) = Inr (pc, s)"
      and cfg: "cfg = daemon_loop_config ?H (lf_observe L) (lf_config L) parts
          \<lparr>sh_poll = (\<lambda>h. jmap_answer pc (jv_poll_interval (ju_provider ?U)) (jmap_replay ?U (length (hist w)) pc s h)),
           sh_checkpointed = True\<rparr>"
      and d: "d = start_daemon (rh_started_at ?H) (dp_rules parts) w"
      using opened from_cursor
      by (auto simp: open_daemon_def sum_bind_Inr_iff jmap_source_handle_def jmap_run_host_def split: prod.splits)
    note stands = open_stands [OF src con serves]
    have poll: "e_poll (lc_env cfg) h =
        jmap_answer pc (jv_poll_interval (ju_provider ?U))
          (foldl (jmap_effect pc (jv_poll_interval (ju_provider ?U))) s (drop (length (hist w)) h))" for h
      by (simp add: cfg daemon_loop_config_def jmap_replay_def)
    have checked: "lc_checkpointed cfg" "lc_cursor_account_id cfg = Some a" "lc_observe cfg = lf_observe L"
      by (simp_all add: cfg daemon_loop_config_def a)
    from jmap.run_in_step [OF poll checked(1,2) stands(2) cursor, of "lf_events L" "rh_started_at ?H" "dp_rules parts"]
    obtain k j s' where k: "i \<le> k" "k \<le> j" "jmap_stands (pc_server pc) inbox email present created pos st n s' j"
      "get_cursor (wdb (d_world (play cfg (lf_events L) d))) a = Some (st k)"
      "\<forall>m \<in> inbox_remaining inbox email present created (pos i) (pos k).
         handled_message cfg (wdb (d_world (play cfg (lf_events L) d))) m" unfolding d by blast
    have "live L w = d_world (play cfg (lf_events L) d)"
      by (simp add: live_def run_daemon_def serve_daemon_def parts opened Let_def)
    with k checked(3) that [of k] show thesis
      by (simp add: jmap_stands_def handled_message_def accounted_def)
  qed
qed

section \<open>Property\<close>

text \<open>C3: no mail is lost. Over any number of lives of the daemon on a JMAP account, each under any
  schedule of loop steps, requests and signals, cut off anywhere, crashed or never started, with any
  rules, model and configuration, and with the connection and the requests to the server failing at any
  time, the stored cursor is at every end a state of the account such that each message the account's
  Inbox received between the first cursor and it, unless it was gone when asked for, in whatever pages
  and order and after whatever push stream, is marked processed, or, when a life only observed, has its
  escalation in the audit log.\<close>

theorem mail_never_lost:
  assumes "served email present created pos st a inbox i Ls" and "get_cursor (wdb w) a = Some (st i)"
  shows "\<exists>j \<ge> i. get_cursor (wdb (foldl (\<lambda>w L. live L w) w Ls)) a = Some (st j) \<and>
     (\<forall>m \<in> inbox_remaining inbox email present created (pos i) (pos j).
        has_processed (wdb (foldl (\<lambda>w L. live L w) w Ls)) (message_id m) \<or>
        ((\<exists>L \<in> set Ls. lf_observe L) \<and> pending_escalation (wdb (foldl (\<lambda>w L. live L w) w Ls)) (message_id m)))"
proof -
  have "\<exists>j \<ge> i. get_cursor (wdb (foldl (\<lambda>w L. live L w) w Ls)) a = Some (st j) \<and>
     (\<forall>m \<in> inbox_remaining inbox email present created (pos i) (pos j).
        accounted (\<exists>L \<in> set Ls. lf_observe L) (wdb (foldl (\<lambda>w L. live L w) w Ls)) m)"
    if "served email present created pos st a inbox n Ls" "i \<le> n" "get_cursor (wdb w) a = Some (st i)" for n
    using that
  proof (induction Ls arbitrary: w i n)
    case Nil
    then show ?case by auto
  next
    case (Cons L Ls)
    from Cons.prems(1) obtain n' where L: "n \<le> n'" "answers_history (ju_server (lf_account L)) email present created pos st n'"
      "\<forall>a' cl. account_id (ju_server (lf_account L)) jmap_client_init = (Inr a', cl) \<longrightarrow> a' = a \<and> jc_inbox_id cl = inbox"
      and rest: "served email present created pos st a inbox n' Ls" by auto
    let ?w = "live L w"
    let ?last = "foldl (\<lambda>w L. live L w) ?w Ls"
    from one_life [OF L(2) le_trans [OF Cons.prems(2) L(1)] L(3) Cons.prems(3)] obtain k where k: "i \<le> k" "k \<le> n'"
      "get_cursor (wdb ?w) a = Some (st k)"
      "\<forall>m \<in> inbox_remaining inbox email present created (pos i) (pos k). accounted (lf_observe L) (wdb ?w) m" by blast
    from Cons.IH [OF rest k(2,3)] obtain j where j: "k \<le> j" "get_cursor (wdb ?last) a = Some (st j)"
      "\<forall>m \<in> inbox_remaining inbox email present created (pos k) (pos j).
         accounted (\<exists>L \<in> set Ls. lf_observe L) (wdb ?last) m" by blast
    have first: "accounted (\<exists>L' \<in> set (L # Ls). lf_observe L') (wdb ?last) m"
      if "m \<in> inbox_remaining inbox email present created (pos i) (pos k)" for m
      using accounted_grows [OF lives_grow, of _ ?w m Ls] k(4) that by (auto intro: accounted_mono)
    have "pos i \<le> pos k" "pos k \<le> pos j"
      using L(2) k(1) j(1) by (simp_all add: answers_history_def mono_def)
    note whole = inbox_remaining_append [OF this, of inbox email present created]
    with first j(3) have "\<forall>m \<in> inbox_remaining inbox email present created (pos i) (pos j).
        accounted (\<exists>L' \<in> set (L # Ls). lf_observe L') (wdb ?last) m"
      unfolding whole by (auto intro: accounted_mono)
    with k(1) j(1,2) show ?case by (intro exI [of _ j]) auto
  qed
  from this [OF assms(1) order_refl assms(2)] show ?thesis by (simp add: accounted_def)
qed

section \<open>Witness\<close>

text \<open>Two lives of four loop steps each, on the account of \<open>ex_server\<close>.\<close>

definition ex_life :: "unit life" where
  "ex_life =
     \<lparr>lf_host = ex_run_host,
      lf_account = \<lparr>ju_server = ex_server, ju_events = pc_events ex_push, ju_provider = jmap_provider_defaults\<rparr>,
      lf_observe = False, lf_failure = None, lf_events = [Run_Loop, Run_Loop, Run_Loop, Run_Loop],
      lf_config = ex_config\<lparr>sc_provider :=
        \<lparr>be_spec = ''m:C'', be_kwargs = [(''host'', T_Str ''h''), (''api_token'', T_Str ''t'')], be_secret_kwargs = []\<rparr>\<rparr>\<rparr>"

definition ex_account :: world where
  "ex_account = ex_world\<lparr>wdb := set_cursor ''acc'' ''s0'' empty_db\<rparr>"

lemma ex_served:
  "served (\<lambda>_. ex_email) (\<lambda>_. True) (\<lambda>_. ''e'') ex_pos ex_state ''acc'' ''inbox'' 0 [ex_life, ex_life]"
  "get_cursor (wdb ex_account) ''acc'' = Some (ex_state 0)"
proof -
  have account: "account_id ex_server jmap_client_init = (Inr ''acc'', ex_client)"
    by (simp add: account_id_def step_bind_def ex_client_def connect_def jmap_client_init_def jmap_call_def
        ex_server_def check_session_def inbox_ids_def)
  show "served (\<lambda>_. ex_email) (\<lambda>_. True) (\<lambda>_. ''e'') ex_pos ex_state ''acc'' ''inbox'' 0 [ex_life, ex_life]"
    using ex_serves account ex_client_connected(2)
    by (auto simp: serves_history_def ex_life_def intro!: exI [of _ 1])
  show "get_cursor (wdb ex_account) ''acc'' = Some (ex_state 0)"
    by (simp add: ex_account_def ex_state_def get_cursor_def set_cursor_def)
qed

theorem mail_never_lost_witness:
  "\<exists>j. get_cursor (wdb (live ex_life (live ex_life ex_account))) ''acc'' = Some (ex_state j) \<and>
     (\<forall>m \<in> inbox_remaining ''inbox'' (\<lambda>_. ex_email) (\<lambda>_. True) (\<lambda>_. ''e'') 0 (ex_pos j).
        has_processed (wdb (live ex_life (live ex_life ex_account))) (message_id m))"
proof -
  have "\<not> lf_observe ex_life" "ex_pos 0 = 0" by (simp_all add: ex_life_def ex_pos_def)
  with mail_never_lost [OF ex_served] show ?thesis by auto
qed

end
