(* ===== verification/Jmap_Backfill.thy ===== *)
theory Jmap_Backfill
  imports Command_Wiring Jmap_Adapters "HOL-Library.Multiset"
begin

text \<open>
  \<open>spork backfill\<close> and \<open>spork reclassify\<close> on a JMAP account: the commands' host built on
  \<open>JmapProvider\<close>'s adapters, and what a sweep of the account covers when requests fail, when the server
  answers a page in another order, and when emails vanish between \<open>Email/query\<close> and \<open>Email/get\<close>.

  Interface: \<open>paged_listing\<close>, a listing of items of which some have no message any more. The sweep is
  proved over it; the JMAP client's \<open>query_messages\<close> provides it.
\<close>

section \<open>A listing with gaps\<close>

locale paged_listing =
  fixes answer :: "'s \<Rightarrow> int \<Rightarrow> int \<Rightarrow> exn + backfill_page" and reads :: "'s \<Rightarrow> bool"
    and listing :: "'i list" and content :: "'i \<Rightarrow> message list"
  assumes page: "reads s \<Longrightarrow> 0 \<le> position \<Longrightarrow> 0 < limit_n \<Longrightarrow> answer s position limit_n = Inr pg \<Longrightarrow>
      mset (bp_messages pg) = mset (concat (map content (take (nat limit_n) (drop (nat position) listing)))) \<and>
      bp_next_position pg = position + int (length (take (nat limit_n) (drop (nat position) listing))) \<and>
      (bp_has_more pg \<longleftrightarrow> bp_next_position pg < int (length listing))"
    and single: "length (content x) \<le> 1"
begin

definition contents :: "nat \<Rightarrow> message list" where
  "contents i = concat (map content (take i listing))"

lemma contents_later: "i \<le> j \<Longrightarrow> contents j = contents i @ concat (map content (take (j - i) (drop i listing)))"
  unfolding contents_def by (metis concat_append le_add_diff_inverse map_append take_add)

lemma concat_single: "length (concat (map content xs)) \<le> length xs"
proof (induction xs)
  case (Cons x xs)
  with single [of x] show ?case by simp
qed simp

text \<open>A page from position \<open>i\<close> reaches the position \<open>j\<close> the loop goes on from.\<close>

lemma page_to:
  assumes "reads s" and "0 < limit_n" and "i \<le> length listing" and "answer s (int i) limit_n = Inr pg"
  obtains j where "i \<le> j" and "j \<le> length listing" and "bp_next_position pg = int j"
    and "mset (contents j) = mset (contents i @ bp_messages pg)" and "int (length (bp_messages pg)) \<le> limit_n"
    and "\<not> bp_has_more pg \<longrightarrow> j = length listing" and "i < length listing \<longrightarrow> i < j"
proof -
  let ?win = "take (nat limit_n) (drop i listing)"
  from page [OF assms(1) _ assms(2,4)]
  have p: "mset (bp_messages pg) = mset (concat (map content ?win))" "bp_next_position pg = int (i + length ?win)"
    "bp_has_more pg \<longleftrightarrow> bp_next_position pg < int (length listing)" by simp_all
  have len: "length (bp_messages pg) = length (concat (map content ?win))"
    using p(1) by (metis size_mset)
  have "?win = take (i + length ?win - i) (drop i listing)" by (auto simp: min_def)
  then have "contents (i + length ?win) = contents i @ concat (map content ?win)"
    by (subst contents_later [of i]) simp_all
  moreover have "int (length (bp_messages pg)) \<le> limit_n"
    using len concat_single [of ?win] assms(2) by (simp add: min_def split: if_splits)
  ultimately show thesis
    using p assms(2,3)
    by (intro that [of "i + length ?win"]) auto
qed

text \<open>The sweep: the loop's position is one behind which everything that is left has been handled; it
  ends for a named reason, of which a page of vanished emails is one.\<close>

lemma sweep:
  assumes "backfill_loop cfg u limit_n ps (int i) st w = (Inr st', w')"
    and "\<And>h p n. e_query (cc_env cfg) h u p n = answer (state h) p n" and "\<And>h. reads (state h)" and "0 < ps"
    and "i \<le> length listing" and "bf_processed st = int (length (contents i))" and "\<not> bf_budget_exhausted st"
    and "\<forall>m \<in> set (contents i). has_processed (wdb w) (message_id m)"
  shows "\<exists>j \<le> length listing. (\<forall>m \<in> set (contents j). has_processed (wdb w') (message_id m)) \<and>
    (if bf_budget_exhausted st'
     then int (length (contents j)) \<le> bf_processed st' \<and> bf_processed st' \<le> int (length (contents j)) + ps
     else bf_processed st' = int (length (contents j)) \<and>
       (limit_n \<le> bf_processed st' \<or> j = length listing \<or> (\<exists>k > j. k \<le> length listing \<and> contents k = contents j)))"
  using assms(1,5-8)
proof (induction "nat (limit_n - bf_processed st)" arbitrary: i st w rule: less_induct)
  case less
  let ?n = "min ps (limit_n - bf_processed st)"
  let ?w1 = "log_call (C_Query u (int i) ?n) w"
  have messages: "grows w w2 \<and>
      (if bf_budget_exhausted st1
       then bf_processed st \<le> bf_processed st1 \<and> bf_processed st1 \<le> bf_processed st + ps
       else bf_processed st1 = int (length (contents j)) \<and>
         (\<forall>m \<in> set (contents j). has_processed (wdb w2) (message_id m)))"
    if m: "backfill_messages cfg limit_n (bp_messages pg) st ?w1 = (Inr st1, w2)"
      and j: "mset (contents j) = mset (contents i @ bp_messages pg)" "int (length (bp_messages pg)) \<le> ?n"
    for pg st1 w2 j
  proof -
    have "bf_processed st + int (length (bp_messages pg)) \<le> limit_n" using j(2) by simp
    with backfill_messages_run [OF m] less.prems(4) have g: "grows ?w1 w2"
      and k: "\<exists>k \<le> length (bp_messages pg). bf_processed st1 = bf_processed st + int k \<and>
        (\<forall>m \<in> set (take k (bp_messages pg)). has_processed (wdb w2) (message_id m)) \<and>
        (\<not> bf_budget_exhausted st1 \<longrightarrow> k = length (bp_messages pg))" by auto
    have "length (contents j) = length (contents i) + length (bp_messages pg)"
      using arg_cong [OF j(1), of size] by simp
    moreover have "set (contents j) = set (contents i) \<union> set (bp_messages pg)"
      using arg_cong [OF j(1), of set_mset] by simp
    ultimately show ?thesis using g k j(2) less.prems(3,5) grows_processed [OF g] by auto
  qed
  have handled: "\<forall>m \<in> set (contents i). has_processed (wdb v) (message_id m)" if "grows w v" for v
    using less.prems(5) grows_processed [OF that] by auto
  from less.prems(1) show ?case
  proof (cases rule: backfill_round)
    case stopped
    with less.prems show ?thesis by auto
  next
    case (failed e)
    then show ?thesis by simp
  next
    case (no_more pg)
    with assms(2,4) have q: "answer (state (hist w)) (int i) ?n = Inr pg" "0 < ?n" by auto
    from page_to [OF assms(3) q(2) less.prems(2) q(1)] obtain j
      where j: "i \<le> j" "j \<le> length listing" "mset (contents j) = mset (contents i @ bp_messages pg)"
        "i < length listing \<longrightarrow> i < j" by metis
    have "mset (contents j) = mset (contents i)" using j(3) no_more(3) by simp
    then have "contents j = contents i" by (simp add: contents_later [OF j(1)])
    with j no_more less.prems show ?thesis by (intro exI [of _ i]) auto
  next
    case (final pg st1)
    with assms(2,4) have q: "answer (state (hist w)) (int i) ?n = Inr pg" "0 < ?n" by auto
    from page_to [OF assms(3) q(2) less.prems(2) q(1)] final(4) obtain j
      where j: "j = length listing" "mset (contents j) = mset (contents i @ bp_messages pg)"
        "int (length (bp_messages pg)) \<le> ?n" by metis
    note m = messages [OF final(3) j(2,3)]
    show ?thesis
    proof (cases "bf_budget_exhausted st1")
      case True
      with m final(5) less.prems(2,3) handled [of w'] show ?thesis by (intro exI [of _ i]) auto
    next
      case False
      with m final(5) j(1) show ?thesis by (intro exI [of _ j]) auto
    qed
  next
    case (again pg st1 w2)
    with assms(2,4) have q: "answer (state (hist w)) (int i) ?n = Inr pg" "0 < ?n" by auto
    from page_to [OF assms(3) q(2) less.prems(2) q(1)] obtain j
      where j: "j \<le> length listing" "bp_next_position pg = int j" "mset (contents j) = mset (contents i @ bp_messages pg)"
        "int (length (bp_messages pg)) \<le> ?n" by metis
    note m = messages [OF again(3) j(3,4)]
    show ?thesis
    proof (cases "bf_budget_exhausted st1")
      case True
      with again(5) have "st' = st1" "w' = w2" by (auto simp: backfill_loop.simps [of cfg u])
      with True m less.prems(2,3) handled [of w'] show ?thesis by (intro exI [of _ i]) auto
    next
      case False
      with m have "bf_processed st1 = int (length (contents j))"
        "\<forall>m \<in> set (contents j). has_processed (wdb w2) (message_id m)" by simp_all
      with less.hyps [OF _ again(5) [unfolded j(2)] j(1) _ False] again(1,4) show ?thesis by auto
    qed
  qed
qed

end

section \<open>The commands on a JMAP account\<close>

text \<open>The host of a command that begins in the world \<open>w\<close> with the client \<open>cl\<close>.\<close>

definition jmap_command_client :: "jmap_server \<Rightarrow> jmap_client \<Rightarrow> world \<Rightarrow> call list \<Rightarrow> jmap_client" where
  "jmap_command_client S cl w h = foldl (jmap_client_effect S) cl (drop (length (hist w)) h)"

definition jmap_command_host :: "'a command_host \<Rightarrow> jmap_setup \<Rightarrow> jmap_client \<Rightarrow> world \<Rightarrow> 'a command_host" where
  "jmap_command_host H U cl w =
     (let S = ju_server U; client = jmap_command_client S cl w in
      H\<lparr>ch_importers := (ch_importers H)\<lparr>im_provider := (\<lambda>_. Inr (\<lambda>_. Some (jmap_class U)))\<rparr>,
        ch_lists := (\<lambda>_. True),
        ch_lookup := (\<lambda>_. jmap_lookup S jmap_client_init),
        ch_tier1_env := (\<lambda>p a. jmap_env (ch_tier1_env H p a) S client),
        ch_env := (\<lambda>p a l c. jmap_env (ch_env H p a l c) S client)\<rparr>)"

definition jmap_backfill ::
  "'a command_host \<Rightarrow> jmap_setup \<Rightarrow> exn + spork_config \<Rightarrow> bool \<Rightarrow> int \<Rightarrow> int \<Rightarrow> world \<Rightarrow> (exn + cli_result) \<times> world" where
  "jmap_backfill H U loaded unread_only limit_n page_size w =
     backfill_command (jmap_command_host H U jmap_client_init w) loaded unread_only limit_n page_size w"

text \<open>The lookup has used the client before the pipelines do.\<close>

definition jmap_reclassify ::
  "'a command_host \<Rightarrow> jmap_setup \<Rightarrow> exn + spork_config \<Rightarrow> string \<Rightarrow> world \<Rightarrow> (exn + cli_result) \<times> world" where
  "jmap_reclassify H U loaded mid w =
     reclassify_command (jmap_command_host H U (snd (jmap_get_message (ju_server U) mid jmap_client_init)) w) loaded mid w"

section \<open>The server's listing\<close>

text \<open>
  Documented behaviour of the server (RFC 8620, sections 5.1 and 5.5), for an Inbox that lists the emails
  \<open>ids\<close> while the command runs: when \<open>Email/query\<close> answers, it gives the window asked for and the total;
  when \<open>Email/get\<close> answers, it gives, in any order, those of the emails asked for that are still there.
\<close>

definition serves_listing ::
  "jmap_server \<Rightarrow> string \<Rightarrow> bool \<Rightarrow> string list \<Rightarrow> (string \<Rightarrow> jmap_email) \<Rightarrow> (string \<Rightarrow> bool) \<Rightarrow> bool" where
  "serves_listing S inbox u ids email present \<longleftrightarrow>
     (\<forall>h b i. js_mailbox_get S h = Inr (Some b) \<longrightarrow> inbox_ids b = [Some i] \<longrightarrow> i = inbox) \<and>
     (\<forall>h p n q. 0 \<le> p \<longrightarrow> 0 < n \<longrightarrow> js_email_query S h inbox u p n = Inr q \<longrightarrow>
        q = \<lparr>eq_ids = Some (take (nat n) (drop (nat p) ids)), eq_position = Some p, eq_total = Some (int (length ids))\<rparr>) \<and>
     (\<forall>h xs r. js_email_get S h xs = Inr r \<longrightarrow>
        (\<exists>ys. mset ys = mset (filter present xs) \<and> eg_data r = Some (map email ys)))"

text \<open>The message of an email that is still there.\<close>

definition jmap_content :: "(string \<Rightarrow> jmap_email) \<Rightarrow> (string \<Rightarrow> bool) \<Rightarrow> string \<Rightarrow> message list" where
  "jmap_content email present i =
     (if present i then case normalize_email (email i) of Inr m \<Rightarrow> [m] | Inl _ \<Rightarrow> [] else [])"

definition jmap_contents :: "(string \<Rightarrow> jmap_email) \<Rightarrow> (string \<Rightarrow> bool) \<Rightarrow> string list \<Rightarrow> message list" where
  "jmap_contents email present ids = concat (map (jmap_content email present) ids)"

definition jmap_reads ::
  "jmap_server \<Rightarrow> string \<Rightarrow> bool \<Rightarrow> string list \<Rightarrow> (string \<Rightarrow> jmap_email) \<Rightarrow> (string \<Rightarrow> bool) \<Rightarrow> jmap_client \<Rightarrow> bool" where
  "jmap_reads S inbox u ids email present cl \<longleftrightarrow>
     serves_listing S inbox u ids email present \<and> (jc_connected cl \<longrightarrow> jc_inbox_id cl = inbox)"

lemma normalize_all_Inr:
  "normalize_all es = Inr ms \<Longrightarrow> ms = concat (map (\<lambda>e. case normalize_email e of Inr m \<Rightarrow> [m] | Inl _ \<Rightarrow> []) es)"
  by (induction es arbitrary: ms) (auto split: sum.splits)

lemma mset_concat_map: "mset xs = mset ys \<Longrightarrow> mset (concat (map f xs)) = mset (concat (map f ys))"
proof -
  have "mset (concat (map f zs)) = (\<Sum>z \<in># mset zs. mset (f z))" for zs by (induction zs) simp_all
  then show "mset xs = mset ys \<Longrightarrow> mset (concat (map f xs)) = mset (concat (map f ys))" by simp
qed

lemma content_filter:
  "concat (map (jmap_content email present) ids) =
   concat (map (\<lambda>e. case normalize_email e of Inr m \<Rightarrow> [m] | Inl _ \<Rightarrow> []) (map email (filter present ids)))"
  by (induction ids) (simp_all add: jmap_content_def)

text \<open>Whatever connects, connects to that Inbox.\<close>

lemma connect_reads:
  assumes "jmap_reads S inbox u ids email present cl" and "connect S cl = (r, cl')"
  shows "jmap_reads S inbox u ids email present cl'" and "r = Inr x \<Longrightarrow> jc_connected cl' \<and> jc_inbox_id cl' = inbox"
  using assms
  by (auto simp: jmap_reads_def serves_listing_def connect_def check_session_def jmap_call_def
      split: if_splits sum.splits option.splits list.splits prod.splits)

lemma reads_session: "jmap_reads S inbox u ids email present cl \<Longrightarrow> same_session cl cl' \<Longrightarrow> jmap_reads S inbox u ids email present cl'"
  by (simp add: jmap_reads_def same_session_def)

lemma reads_after_connect:
  assumes "jmap_reads S inbox u ids email present cl"
    and "\<And>cl'. jc_connected cl' \<Longrightarrow> same_session cl' (snd (f cl'))"
  shows "jmap_reads S inbox u ids email present (snd (step_bind (connect S) (\<lambda>_. f) cl))"
proof (cases "connect S cl")
  case (Pair r cl')
  show ?thesis
  proof (cases r)
    case (Inl e)
    with connect_reads(1) [OF assms(1) Pair] Pair show ?thesis by (simp add: step_bind_def)
  next
    case (Inr x)
    with connect_reads [OF assms(1) Pair] have "jmap_reads S inbox u ids email present (snd (f cl'))"
      by (blast intro: reads_session assms(2))
    with Inr Pair show ?thesis by (simp add: step_bind_def)
  qed
qed

lemma bind_connect: "jc_connected cl \<Longrightarrow> step_bind (connect S) f cl = f () cl"
  by (simp add: step_bind_def connect_again)

lemma effect_reads:
  assumes "jmap_reads S inbox u ids email present cl"
  shows "jmap_reads S inbox u ids email present (jmap_client_effect S cl c)"
proof -
  have "jmap_reads S inbox u ids email present (snd (jmap_get_thread_context S m cl))" for m
    unfolding jmap_get_thread_context_def
    by (rule reads_after_connect [OF assms])
      (use thread_session in \<open>auto simp: jmap_get_thread_context_def bind_connect\<close>)
  moreover have "jmap_reads S inbox u ids email present (snd (jmap_list_mailboxes S cl))"
    unfolding jmap_list_mailboxes_def by (rule reads_after_connect [OF assms]) simp
  moreover have "jmap_reads S inbox u ids email present (snd (jmap_query_messages S u' p n cl))" for u' p n
    unfolding jmap_query_messages_def
    by (rule reads_after_connect [OF assms])
      (use query_session in \<open>auto simp: jmap_query_messages_def bind_connect\<close>)
  ultimately show ?thesis using assms by (cases c) (simp_all add: jmap_client_effect_def)
qed

lemma jmap_page:
  assumes "jmap_reads S inbox u ids email present cl" and "0 \<le> position" and "0 < limit_n"
    and "fst (jmap_query_messages S u position limit_n cl) = Inr pg"
  shows "mset (bp_messages pg) = mset (concat (map (jmap_content email present) (take (nat limit_n) (drop (nat position) ids)))) \<and>
      bp_next_position pg = position + int (length (take (nat limit_n) (drop (nat position) ids))) \<and>
      (bp_has_more pg \<longleftrightarrow> bp_next_position pg < int (length ids))"
proof -
  let ?win = "take (nat limit_n) (drop (nat position) ids)"
  obtain r cl1 where con: "connect S cl = (r, cl1)" by (cases "connect S cl")
  from assms(4) con obtain x where "r = Inr x"
    by (cases r) (auto simp: jmap_query_messages_def step_bind_def)
  with connect_reads(2) [OF assms(1) con] have inbox: "jc_inbox_id cl1 = inbox" by simp
  from assms(1) have law: "serves_listing S inbox u ids email present" by (simp add: jmap_reads_def)
  from assms(4) con \<open>r = Inr x\<close> inbox obtain q where q: "js_email_query S (jc_calls cl1) inbox u position limit_n = Inr q"
    by (auto simp: jmap_query_messages_def step_bind_def jmap_request_def jmap_call_def split: sum.splits)
  with law assms(2,3) have q': "q = \<lparr>eq_ids = Some ?win, eq_position = Some position, eq_total = Some (int (length ids))\<rparr>"
    by (simp add: serves_listing_def)
  show ?thesis
  proof (cases "?win = []")
    case True
    with assms(4) con \<open>r = Inr x\<close> inbox q q' show ?thesis
      by (auto simp: jmap_query_messages_def step_bind_def jmap_request_def jmap_call_def step_ret_def Let_def)
  next
    case False
    from assms(4) con \<open>r = Inr x\<close> inbox q q' False obtain h g es ms where g: "js_email_get S h ?win = Inr g"
      "eg_data g = Some es" "normalize_all es = Inr ms" and pg: "pg = \<lparr>bp_messages = ms, bp_position = position,
        bp_next_position = position + int (length ?win), bp_total = Some (int (length ids)),
        bp_has_more = position + int (length ?win) < int (length ids)\<rparr>"
      by (auto simp: jmap_query_messages_def get_emails_def step_bind_def jmap_request_def jmap_call_def step_ret_def
          step_fail_def Let_def split: sum.splits option.splits)
    from law g(1) obtain ys where "mset ys = mset (filter present ?win)" "eg_data g = Some (map email ys)"
      unfolding serves_listing_def by blast
    with g(2) have ys: "mset ys = mset (filter present ?win)" "es = map email ys" by simp_all
    from ys(1) have "mset (map email ys) = mset (map email (filter present ?win))" by (simp only: mset_map)
    from mset_concat_map [OF this] have "mset ms = mset (concat (map (jmap_content email present) ?win))"
      by (simp only: content_filter normalize_all_Inr [OF g(3)] ys(2))
    with pg show ?thesis by simp
  qed
qed

interpretation jmap_listing: paged_listing "\<lambda>cl p n. fst (jmap_query_messages S u p n cl)"
    "jmap_reads S inbox u ids email present" ids "jmap_content email present"
  for S inbox u ids email present
  by unfold_locales (simp_all add: jmap_page jmap_content_def split: sum.split)

lemma listing_contents: "jmap_listing.contents ids email present i = jmap_contents email present (take i ids)"
  by (simp add: jmap_listing.contents_def jmap_contents_def)

lemma command_client_reads:
  assumes "serves_listing S inbox u ids email present"
  shows "jmap_reads S inbox u ids email present (jmap_command_client S jmap_client_init w h)"
proof -
  have "jmap_reads S inbox u ids email present cl \<Longrightarrow>
      jmap_reads S inbox u ids email present (foldl (jmap_client_effect S) cl cs)" for cs cl
    by (induction cs arbitrary: cl) (simp_all add: effect_reads)
  moreover have "jmap_reads S inbox u ids email present jmap_client_init"
    using assms by (simp add: jmap_reads_def jmap_client_init_def)
  ultimately show ?thesis by (simp add: jmap_command_client_def)
qed

lemma setup_query:
  "backfill_setup (jmap_command_host H U cl w) config = Inr cfg \<Longrightarrow>
   e_query (cc_env cfg) h u p n = fst (jmap_query_messages (ju_server U) u p n (jmap_command_client (ju_server U) cl w h))"
  by (auto simp: backfill_setup_def sum_bind_Inr_iff jmap_command_host_def Let_def jmap_env_def split: if_splits)

section \<open>Properties\<close>


text \<open>An id the server does not know ends \<open>spork reclassify\<close> with an exception nothing catches, where
  the file provider's error is reported; the store is left as it was.\<close>

theorem jmap_reclassify_unknown:
  assumes "jmap_lookup (ju_server U) jmap_client_init mid = Inl (JmapError why)"
    and "resolve_runtime_secrets config (ch_resolver H) = Inr vals"
    and "build_provider (ch_importers (jmap_command_host H U cl w)) config vals = Inr provider"
  shows "jmap_reclassify H U (Inr config) mid w = (Inl (JmapError why), w)"
  using assms
  by (simp add: jmap_reclassify_def reclassify_command_def reclassify_run_def jmap_command_host_def Let_def
      bind_def of_sum_def catching_def reclassify_catches_def clean_startup_error_def ret_def throw_def)

section \<open>Witness\<close>

text \<open>One email in the Inbox, which is marked processed.\<close>

definition ex_listing :: jmap_setup where
  "ex_listing =
     \<lparr>ju_server = ex_server\<lparr>js_email_query := (\<lambda>h inbox u p n. Inr \<lparr>eq_ids = Some (take (nat n) (drop (nat p) [''e''])),
        eq_position = Some p, eq_total = Some 1\<rparr>)\<rparr>,
      ju_events = (\<lambda>_. ([], Stream_Ended)), ju_provider = jmap_provider_defaults\<rparr>"

definition ex_jmap_config :: spork_config where
  "ex_jmap_config = ex_config\<lparr>sc_provider :=
     \<lparr>be_spec = ''m:C'', be_kwargs = [(''host'', T_Str ''h''), (''api_token'', T_Str ''t'')], be_secret_kwargs = []\<rparr>\<rparr>"

definition ex_inbox :: world where
  "ex_inbox = ex_world\<lparr>wdb := mark_processed ''e'' (quarantined_row ex_message ''t'') empty_db\<rparr>"

definition ex_jmap_command :: command_config where
  "ex_jmap_command =
     \<lparr>cc_env = jmap_env ex_env (ju_server ex_listing) (jmap_command_client (ju_server ex_listing) jmap_client_init ex_inbox),
      cc_rules = ex_move_rules, cc_default_unmatched_action = action_of_type Escalate,
      cc_classifier = None, cc_tiering = tiering_defaults\<rparr>"

lemma ex_listing_serves: "serves_listing (ju_server ex_listing) ''inbox'' u [''e''] (\<lambda>_. ex_email) (\<lambda>_. True)"
  by (auto simp: serves_listing_def ex_listing_def ex_server_def inbox_ids_def comp_def)

lemma ex_jmap_setup:
  "backfill_setup (jmap_command_host ex_command_host ex_listing jmap_client_init ex_inbox) ex_jmap_config = Inr ex_jmap_command"
  by (simp add: backfill_setup_def jmap_command_host_def ex_command_host_def ex_importers_def ex_jmap_config_def ex_config_def
      ex_backend_def resolve_runtime_secrets_def configured_specs_def build_provider_def build_llm_client_def
      build_alerter_def build_context_provider_def load_provider_def load_llm_client_def load_alerter_def load_backend_def
      py_partition_def materialize_backend_kwargs_def local_classifier_def tiering_defaults_def jmap_class_def
      jmap_arguments_def ex_jmap_command_def dict_update_def Let_def)

lemma ex_jmap_backfill:
  "fst (backfill ex_jmap_command False 5 2 ex_inbox) = Inr (backfill_start\<lparr>bf_processed := 1\<rparr>)"
  by code_simp


end
