(* ===== verification/Json_Text.thy ===== *)
theory Json_Text
  imports Prompt_Recording
begin

text \<open>
  \<open>json.loads\<close> of the standard library, which the loaders of fixture files, the LiteLLM client and
  every reader of the files spork writes rest on, and the proof that it inverts \<open>json.dumps\<close>. The
  value of a float literal (\<open>fl\<close>, Python's \<open>float\<close>) and the character of a code point above 255
  (\<open>wide\<close>) are parameters; the interpreter's limits on nesting and on the digits of an integer are
  not modelled. A text that raises reads as \<open>None\<close>.
\<close>

section \<open>The reader\<close>

definition json_ws :: "char \<Rightarrow> bool" where
  "json_ws c \<longleftrightarrow> (of_char c :: nat) \<in> {9, 10, 13, 32}"

abbreviation skip_ws :: "string \<Rightarrow> string" where
  "skip_ws \<equiv> dropWhile json_ws"

definition json_digit :: "char \<Rightarrow> bool" where
  "json_digit c \<longleftrightarrow> (let n = (of_char c :: nat) in 48 \<le> n \<and> n \<le> 57)"

definition hex_value :: "char \<Rightarrow> nat option" where
  "hex_value c =
     (let n = (of_char c :: nat)
      in if 48 \<le> n \<and> n \<le> 57 then Some (n - 48) else if 97 \<le> n \<and> n \<le> 102 then Some (n - 87)
         else if 65 \<le> n \<and> n \<le> 70 then Some (n - 55) else None)"

text \<open>Four hexadecimal digits: a UTF-16 code unit.\<close>

fun code_unit :: "string \<Rightarrow> nat option" where
  "code_unit (a # b # c # d # _) =
     (case (hex_value a, hex_value b, hex_value c, hex_value d) of
        (Some w, Some x, Some y, Some z) \<Rightarrow> Some (((w * 16 + x) * 16 + y) * 16 + z)
      | _ \<Rightarrow> None)"
| "code_unit _ = None"

text \<open>The low half of a surrogate pair, when one follows.\<close>

definition low_surrogate :: "string \<Rightarrow> nat option" where
  "low_surrogate s =
     (if take 2 s = backslash # ''u''
      then (case code_unit (drop 2 s) of
              Some n \<Rightarrow> if 56320 \<le> n \<and> n \<le> 57343 then Some n else None
            | None \<Rightarrow> None)
      else None)"

definition code_point :: "(nat \<Rightarrow> char) \<Rightarrow> nat \<Rightarrow> char" where
  "code_point wide n = (if n < 256 then char_of n else wide n)"

definition simple_escape :: "char \<Rightarrow> char option" where
  "simple_escape e =
     (if e \<in> {dquote, backslash, CHR ''/''} then Some e
      else if e = CHR ''b'' then Some (char_of (8 :: nat)) else if e = CHR ''f'' then Some (char_of (12 :: nat))
      else if e = CHR ''n'' then Some newline else if e = CHR ''r'' then Some (char_of (13 :: nat))
      else if e = CHR ''t'' then Some (char_of (9 :: nat)) else None)"

text \<open>The character of an escape, from what follows its backslash, and the rest.\<close>

definition scan_unicode :: "(nat \<Rightarrow> char) \<Rightarrow> string \<Rightarrow> (char \<times> string) option" where
  "scan_unicode wide t =
     (case code_unit t of
        None \<Rightarrow> None
      | Some n \<Rightarrow>
          (case (if 55296 \<le> n \<and> n \<le> 56319 then low_surrogate (drop 4 t) else None) of
             Some m \<Rightarrow> Some (code_point wide (65536 + (n - 55296) * 1024 + (m - 56320)), drop 10 t)
           | None \<Rightarrow> Some (code_point wide n, drop 4 t)))"

definition scan_escape :: "(nat \<Rightarrow> char) \<Rightarrow> string \<Rightarrow> (char \<times> string) option" where
  "scan_escape wide s =
     (case s of
        [] \<Rightarrow> None
      | e # t \<Rightarrow>
          if e = CHR ''u'' then scan_unicode wide t
          else map_option (\<lambda>x. (x, t)) (simple_escape e))"

lemma scan_escape_shorter: "scan_escape wide s = Some (x, r) \<Longrightarrow> length r < length s"
  by (auto simp: scan_escape_def scan_unicode_def split: list.splits option.splits if_splits)

text \<open>The characters up to the closing quote, and what follows it.\<close>

function scan_string :: "(nat \<Rightarrow> char) \<Rightarrow> string \<Rightarrow> (string \<times> string) option" where
  "scan_string wide [] = None"
| "scan_string wide (c # s) =
     (if c = dquote then Some ([], s)
      else if c = backslash
      then (case scan_escape wide s of
              None \<Rightarrow> None
            | Some (x, t) \<Rightarrow> map_option (apfst ((#) x)) (scan_string wide t))
      else if (of_char c :: nat) < 32 then None
      else map_option (apfst ((#) c)) (scan_string wide s))"
  by pat_completeness auto

termination
  by (relation "measure (length \<circ> snd)") (auto dest!: scan_escape_shorter)

definition digits_value :: "string \<Rightarrow> nat" where
  "digits_value ds = foldl (\<lambda>n c. 10 * n + (of_char c - 48)) 0 ds"

text \<open>The parts of a number: sign, integer digits, fraction, exponent.\<close>

definition int_part :: "string \<Rightarrow> string" where
  "int_part s = (if take 1 s = ''0'' then ''0'' else takeWhile json_digit s)"

definition frac_part :: "string \<Rightarrow> string" where
  "frac_part s =
     (let ds = takeWhile json_digit (drop 1 s)
      in if take 1 s = ''.'' \<and> ds \<noteq> [] then CHR ''.'' # ds else [])"

definition exp_part :: "string \<Rightarrow> string" where
  "exp_part s =
     (let sign = (if take 1 (drop 1 s) \<in> {''+'', ''-''} then take 1 (drop 1 s) else []);
          ds = takeWhile json_digit (drop (1 + length sign) s)
      in if take 1 s \<in> {''e'', ''E''} \<and> ds \<noteq> [] then take 1 s @ sign @ ds else [])"

definition scan_number :: "(string \<Rightarrow> pyfloat) \<Rightarrow> string \<Rightarrow> (json \<times> string) option" where
  "scan_number fl s =
     (let sign = (if take 1 s = ''-'' then ''-'' else []); s1 = drop (length sign) s;
          ip = int_part s1; s2 = drop (length ip) s1;
          fp = frac_part s2; s3 = drop (length fp) s2;
          ep = exp_part s3
      in if ip = [] then None
         else Some (if fp = [] \<and> ep = []
                    then J_Int (if sign = [] then int (digits_value ip) else - int (digits_value ip))
                    else J_Float (fl (sign @ ip @ fp @ ep)),
                    drop (length ep) s3))"

definition literals :: "(string \<times> json) list" where
  "literals = [(''null'', J_Null), (''true'', J_Bool True), (''false'', J_Bool False), (''NaN'', J_Float NaN),
     (''Infinity'', J_Float PosInf), (''-Infinity'', J_Float NegInf)]"

fun scan_literal :: "(string \<times> json) list \<Rightarrow> string \<Rightarrow> (json \<times> string) option" where
  "scan_literal [] s = None"
| "scan_literal ((k, v) # ls) s =
     (if take (length k) s = k then Some (v, drop (length k) s) else scan_literal ls s)"

definition scan_atom :: "(string \<Rightarrow> pyfloat) \<Rightarrow> string \<Rightarrow> (json \<times> string) option" where
  "scan_atom fl s = (case scan_literal literals s of Some r \<Rightarrow> Some r | None \<Rightarrow> scan_number fl s)"

text \<open>A key, its colon and the white space after it.\<close>

definition scan_key :: "(nat \<Rightarrow> char) \<Rightarrow> string \<Rightarrow> (string \<times> string) option" where
  "scan_key wide s =
     (if take 1 s \<noteq> [dquote] then None
      else (case scan_string wide (drop 1 s) of
              None \<Rightarrow> None
            | Some (k, r) \<Rightarrow>
                if take 1 (skip_ws r) = '':'' then Some (k, skip_ws (drop 1 (skip_ws r))) else None))"

text \<open>Values, the rest of an array after a value's start, and of an object at a key; the fuel is
  twice the length of the text and one.\<close>

fun scan_value :: "(string \<Rightarrow> pyfloat) \<Rightarrow> (nat \<Rightarrow> char) \<Rightarrow> nat \<Rightarrow> string \<Rightarrow> (json \<times> string) option"
  and scan_items :: "(string \<Rightarrow> pyfloat) \<Rightarrow> (nat \<Rightarrow> char) \<Rightarrow> nat \<Rightarrow> json list \<Rightarrow> string \<Rightarrow> (json \<times> string) option"
  and scan_pairs ::
    "(string \<Rightarrow> pyfloat) \<Rightarrow> (nat \<Rightarrow> char) \<Rightarrow> nat \<Rightarrow> (string, json) dict \<Rightarrow> string \<Rightarrow> (json \<times> string) option" where
  "scan_value fl wide 0 s = None"
| "scan_value fl wide (Suc n) s =
     (case s of
        [] \<Rightarrow> None
      | c # t \<Rightarrow>
          if c = dquote then map_option (apfst J_Str) (scan_string wide t)
          else if c = CHR ''['' then
            (if take 1 (skip_ws t) = '']'' then Some (J_Arr [], drop 1 (skip_ws t)) else scan_items fl wide n [] (skip_ws t))
          else if c = CHR ''{'' then
            (if take 1 (skip_ws t) = ''}'' then Some (J_Obj [], drop 1 (skip_ws t)) else scan_pairs fl wide n [] (skip_ws t))
          else scan_atom fl s)"
| "scan_items fl wide 0 vs s = None"
| "scan_items fl wide (Suc n) vs s =
     (case scan_value fl wide n s of
        None \<Rightarrow> None
      | Some (v, r) \<Rightarrow>
          (case skip_ws r of
             [] \<Rightarrow> None
           | c # t \<Rightarrow>
               if c = CHR '']'' then Some (J_Arr (vs @ [v]), t)
               else if c = CHR '','' then scan_items fl wide n (vs @ [v]) (skip_ws t) else None))"
| "scan_pairs fl wide 0 d s = None"
| "scan_pairs fl wide (Suc n) d s =
     (case scan_key wide s of
        None \<Rightarrow> None
      | Some (k, q) \<Rightarrow>
          (case scan_value fl wide n q of
             None \<Rightarrow> None
           | Some (v, r) \<Rightarrow>
               (case skip_ws r of
                  [] \<Rightarrow> None
                | c # t \<Rightarrow>
                    if c = CHR ''}'' then Some (J_Obj (dict_set d k v), t)
                    else if c = CHR '','' then scan_pairs fl wide n (dict_set d k v) (skip_ws t)
                    else None)))"

definition json_loads :: "(string \<Rightarrow> pyfloat) \<Rightarrow> (nat \<Rightarrow> char) \<Rightarrow> string \<Rightarrow> json option" where
  "json_loads fl wide s =
     (case scan_value fl wide (2 * length s + 1) (skip_ws s) of
        None \<Rightarrow> None
      | Some (v, r) \<Rightarrow> if skip_ws r = [] then Some v else None)"

declare digits_of.simps [simp del]

section \<open>The fuel is enough\<close>

lemma map_option_apfst_Some: "map_option (apfst f) x = Some (v, r) \<longleftrightarrow> (\<exists>u. x = Some (u, r) \<and> v = f u)"
  by (cases x) auto

lemma scan_string_shorter: "scan_string wide s = Some (x, r) \<Longrightarrow> length r < length s"
proof (induction wide s arbitrary: x rule: scan_string.induct)
  case (2 wide c s)
  show ?case
  proof (cases "c \<noteq> dquote \<and> c = backslash")
    case True
    with "2.prems" obtain y t u where t: "scan_escape wide s = Some (y, t)" "scan_string wide t = Some (u, r)"
      by (auto simp: map_option_apfst_Some split: option.splits if_splits)
    from True have c: "c \<noteq> dquote" "c = backslash" by blast+
    from "2.IH"(1) [OF c t(1) refl t(2)] scan_escape_shorter [OF t(1)] show ?thesis by simp
  next
    case False
    with "2.prems" "2.IH"(2) show ?thesis by (fastforce simp: map_option_apfst_Some split: if_splits)
  qed
qed simp

lemma scan_literal_shorter:
  "scan_literal ls s = Some (v, r) \<Longrightarrow> \<forall>(k, _) \<in> set ls. k \<noteq> [] \<Longrightarrow> length r < length s"
proof (induction ls s rule: scan_literal.induct)
  case (2 k v' ls s)
  show ?case
  proof (cases "take (length k) s = k")
    case True
    with "2.prems" have "r = drop (length k) s" "k \<noteq> []" by auto
    moreover from calculation True have "s \<noteq> []" by auto
    then have "0 < length s" by simp
    ultimately show ?thesis by (cases k) auto
  next
    case False
    with 2 show ?thesis by auto
  qed
qed simp

lemma int_part_Nil: "int_part [] = []"
  by (simp add: int_part_def)

lemma scan_number_shorter:
  assumes "scan_number fl s = Some (v, r)"
  shows "length r < length s"
proof -
  define sign where "sign = (if take 1 s = ''-'' then ''-'' else [])"
  define t where "t = drop (length sign) s"
  define u where "u = drop (length (int_part t)) t"
  define w where "w = drop (length (frac_part u)) u"
  have ne: "int_part t \<noteq> []" and r: "r = drop (length (exp_part w)) w"
    using assms by (auto simp: scan_number_def Let_def sign_def t_def u_def w_def split: if_splits)
  then have "t \<noteq> []" by (auto simp: int_part_Nil)
  then have "0 < length t" "0 < length (int_part t)" "length t \<le> length s" using ne by (simp_all add: t_def)
  moreover have "length r \<le> length t - length (int_part t)" by (simp add: r w_def u_def)
  ultimately show ?thesis by linarith
qed

lemma scan_atom_shorter: "scan_atom fl s = Some (v, r) \<Longrightarrow> length r < length s"
  using scan_literal_shorter [of literals s v r] scan_number_shorter [of fl s v r]
  by (auto simp: scan_atom_def literals_def split: option.splits)

lemma length_skip_ws: "length (skip_ws s) \<le> length s"
  by (rule length_dropWhile_le)

lemma scan_key_shorter: "scan_key wide s = Some (k, r) \<Longrightarrow> length r < length s"
proof -
  assume "scan_key wide s = Some (k, r)"
  then obtain q where q: "scan_string wide (drop 1 s) = Some (k, q)" "r = skip_ws (drop 1 (skip_ws q))"
    by (auto simp: scan_key_def split: if_splits option.splits)
  with scan_string_shorter [OF q(1)] length_skip_ws [of q] length_skip_ws [of "drop 1 (skip_ws q)"] show ?thesis
    by simp
qed

lemma scan_shorter:
  "scan_value fl wide n s = Some (v, r) \<Longrightarrow> length r < length s"
  "scan_items fl wide n vs s = Some (v, r) \<Longrightarrow> length r < length s"
  "scan_pairs fl wide n d s = Some (v, r) \<Longrightarrow> length r < length s"
proof (induction fl wide n s and fl wide n vs s and fl wide n d s arbitrary: v r and v r and v r
    rule: scan_value_scan_items_scan_pairs.induct)
  case (2 fl wide n s)
  then obtain c t where s: "s = c # t" by (cases s) auto
  have skipped: "length (drop 1 (skip_ws t)) < length s" "length (skip_ws t) < length s"
    using length_skip_ws [of t] by (simp_all add: s)
  have more: "length r < length (skip_ws t) \<or> r = drop 1 (skip_ws t)" if "c \<in> {CHR ''['', CHR ''{''}"
  proof (cases "c = CHR ''[''")
    case True
    note c = True
    have "c \<noteq> dquote" by (simp add: c quote_chars)
    show ?thesis
    proof (cases "take 1 (skip_ws t) = '']''")
      case False
      with "2.prems" s c \<open>c \<noteq> dquote\<close> have "scan_items fl wide n [] (skip_ws t) = Some (v, r)" by simp
      from "2.IH"(1) [OF s \<open>c \<noteq> dquote\<close> c False this] show ?thesis ..
    qed (use "2.prems" s c \<open>c \<noteq> dquote\<close> in simp)
  next
    case False
    with that have c: "c = CHR ''{''" by blast
    have "c \<noteq> dquote" by (simp add: c quote_chars)
    show ?thesis
    proof (cases "take 1 (skip_ws t) = ''}''")
      assume ne: "take 1 (skip_ws t) \<noteq> ''}''"
      with "2.prems" s c \<open>c \<noteq> dquote\<close> have "scan_pairs fl wide n [] (skip_ws t) = Some (v, r)" by simp
      from "2.IH"(2) [OF s \<open>c \<noteq> dquote\<close> False c ne this] show ?thesis ..
    qed (use "2.prems" s c \<open>c \<noteq> dquote\<close> in simp)
  qed
  show ?case
  proof (cases "c \<in> {CHR ''['', CHR ''{''}")
    case True
    from more [OF this] skipped show ?thesis by auto
  next
    case False
    show ?thesis
    proof (cases "c = dquote")
      case True
      with "2.prems" s show ?thesis by (auto simp: map_option_apfst_Some dest!: scan_string_shorter)
    next
      case False
      with "2.prems" s \<open>c \<notin> {CHR ''['', CHR ''{''}\<close> have "scan_atom fl s = Some (v, r)" by simp
      then show ?thesis by (rule scan_atom_shorter)
    qed
  qed
next
  case (4 fl wide n vs s)
  then obtain u q where u: "scan_value fl wide n s = Some (u, q)" by (auto split: option.splits)
  with 4 obtain c t where c: "skip_ws q = c # t" by (auto split: list.splits)
  have "length q < length s" using "4.IH"(1) u by blast
  moreover have "length (skip_ws t) < length q" using length_skip_ws [of q] length_skip_ws [of t] c by simp
  moreover have "length t < length q" using length_skip_ws [of q] c by simp
  moreover have "length r < length (skip_ws t) \<or> r = t"
  proof (cases "c = CHR '']''")
    case False
    with "4.prems" u c have comma: "c = CHR '',''" and more: "scan_items fl wide n (vs @ [u]) (skip_ws t) = Some (v, r)"
      by (simp_all split: if_splits)
    from "4.IH"(2) [OF u refl c False comma more] show ?thesis ..
  qed (use "4.prems" u c in simp)
  ultimately show ?case by auto
next
  case (6 fl wide n d s)
  then obtain k q where k: "scan_key wide s = Some (k, q)" by (auto split: option.splits)
  with "6.prems" obtain u r2 where u: "scan_value fl wide n q = Some (u, r2)" by (auto split: option.splits)
  with "6.prems" k obtain c t where c: "skip_ws r2 = c # t" by (auto split: list.splits)
  have "length q < length s" by (rule scan_key_shorter [OF k])
  moreover have "length r2 < length q" by (rule "6.IH"(1) [OF k refl u])
  moreover have "length t < length r2" using length_skip_ws [of r2] c by simp
  moreover have "length (skip_ws t) \<le> length t" by (rule length_skip_ws)
  moreover have "length r < length (skip_ws t) \<or> r = t"
  proof (cases "c = CHR ''}''")
    case False
    with "6.prems" k u c have comma: "c = CHR '',''"
      and more: "scan_pairs fl wide n (dict_set d k u) (skip_ws t) = Some (v, r)"
      by (simp_all split: if_splits)
    from "6.IH"(2) [OF k refl u refl c False comma more] show ?thesis ..
  qed (use "6.prems" k u c in simp)
  ultimately show ?case by auto
qed simp_all

text \<open>More fuel than twice the length changes nothing.\<close>

lemma scan_enough:
  "2 * length s + 1 \<le> n \<Longrightarrow> 2 * length s + 1 \<le> m \<Longrightarrow> scan_value fl wide n s = scan_value fl wide m s"
  "2 * length s + 2 \<le> n \<Longrightarrow> 2 * length s + 2 \<le> m \<Longrightarrow> scan_items fl wide n vs s = scan_items fl wide m vs s"
  "2 * length s + 2 \<le> n \<Longrightarrow> 2 * length s + 2 \<le> m \<Longrightarrow> scan_pairs fl wide n d s = scan_pairs fl wide m d s"
proof (induction fl wide n s and fl wide n vs s and fl wide n d s arbitrary: m and m and m
    rule: scan_value_scan_items_scan_pairs.induct)
  case (2 fl wide n s)
  from "2.prems"(2) obtain k where m: "m = Suc k" by (cases m) simp_all
  show ?case
  proof (cases s)
    case (Cons c t)
    have len: "2 * length (skip_ws t) + 2 \<le> n" "2 * length (skip_ws t) + 2 \<le> k"
      using "2.prems" m Cons length_skip_ws [of t] by simp_all
    have "scan_items fl wide n [] (skip_ws t) = scan_items fl wide k [] (skip_ws t)"
      if "c = CHR ''[''" "take 1 (skip_ws t) \<noteq> '']''"
      using "2.IH"(1) [OF Cons _ that(1,2) len] that by (simp add: quote_chars)
    moreover have "scan_pairs fl wide n [] (skip_ws t) = scan_pairs fl wide k [] (skip_ws t)"
      if "c = CHR ''{''" "take 1 (skip_ws t) \<noteq> ''}''"
      using "2.IH"(2) [OF Cons _ _ that(1,2) len] that by (simp add: quote_chars)
    ultimately show ?thesis using Cons by (simp add: m)
  qed (simp add: m)
next
  case (4 fl wide n vs s)
  from "4.prems"(2) obtain k where m: "m = Suc k" by (cases m) simp_all
  have same: "scan_value fl wide n s = scan_value fl wide k s"
    by (rule "4.IH"(1)) (use "4.prems" m in simp_all)
  have "scan_items fl wide n ws (skip_ws t) = scan_items fl wide k ws (skip_ws t)"
    if v: "scan_value fl wide n s = Some (v, r)" and r: "skip_ws r = CHR '','' # t" and ws: "ws = vs @ [v]" for v r t ws
  proof -
    have "length (skip_ws t) \<le> length t" "Suc (length t) \<le> length r" "length r < length s"
      using length_skip_ws [of t] length_skip_ws [of r] r scan_shorter(1) [OF v] by simp_all
    then have "2 * length (skip_ws t) + 2 \<le> n" "2 * length (skip_ws t) + 2 \<le> k" using "4.prems" m by simp_all
    from "4.IH"(2) [OF v refl r _ refl this] show ?thesis by (simp add: ws)
  qed
  then have next_item: "scan_items fl wide n (vs @ [v]) (skip_ws t) = scan_items fl wide k (vs @ [v]) (skip_ws t)"
    if "scan_value fl wide n s = Some (v, r)" "skip_ws r = CHR '','' # t" for v r t
    using that by blast
  show ?case
  proof (cases "scan_value fl wide n s")
    case (Some vr)
    obtain v r where vr: "vr = (v, r)" by (cases vr)
    show ?thesis
    proof (cases "skip_ws r")
      case (Cons c t)
      show ?thesis using next_item [of v r t] Some Cons by (simp add: m vr flip: same)
    qed (use Some vr in \<open>simp add: m del: dropWhile_eq_Nil_conv flip: same\<close>)
  qed (simp add: m flip: same)
next
  case (6 fl wide n d s)
  from "6.prems"(2) obtain k where m: "m = Suc k" by (cases m) simp_all
  show ?case
  proof (cases "scan_key wide s")
    case (Some kq)
    obtain key q where kq: "kq = (key, q)" by (cases kq)
    note q = Some [unfolded kq]
    have same: "scan_value fl wide n q = scan_value fl wide k q"
      by (rule "6.IH"(1) [OF q refl]) (use "6.prems" m scan_key_shorter [OF q] in simp_all)
    have next_pair: "scan_pairs fl wide n (dict_set d key v) (skip_ws t) = scan_pairs fl wide k (dict_set d key v) (skip_ws t)"
      if v: "scan_value fl wide n q = Some (v, r)" and r: "skip_ws r = CHR '','' # t" for v r t
    proof -
      have "length (skip_ws t) \<le> length t" "Suc (length t) \<le> length r" "length r < length q"
        using length_skip_ws [of t] length_skip_ws [of r] r scan_shorter(1) [OF v] by simp_all
      then have "2 * length (skip_ws t) + 2 \<le> n" "2 * length (skip_ws t) + 2 \<le> k"
        using "6.prems" m scan_key_shorter [OF q] by simp_all
      from "6.IH"(2) [OF q refl v refl r _ refl this] show ?thesis by simp
    qed
    show ?thesis
    proof (cases "scan_value fl wide n q")
      case (Some vr)
      obtain v r where vr: "vr = (v, r)" by (cases vr)
      show ?thesis
      proof (cases "skip_ws r")
        case (Cons c t)
        show ?thesis using next_pair [of v r t] Some Cons q by (simp add: m vr flip: same)
      qed (use Some vr q in \<open>simp add: m del: dropWhile_eq_Nil_conv flip: same\<close>)
    qed (use q in \<open>simp add: m flip: same\<close>)
  qed (simp add: m)
qed simp_all

declare scan_value.simps(2) [simp del]

section \<open>Texts that read as a value\<close>

text \<open>What may follow a value: nothing a number could continue with.\<close>

definition ends_value :: "string \<Rightarrow> bool" where
  "ends_value rest \<longleftrightarrow>
     (case rest of [] \<Rightarrow> True | c # _ \<Rightarrow> \<not> json_digit c \<and> c \<notin> {CHR ''.'', CHR ''e'', CHR ''E''})"

definition reads_to :: "(string \<Rightarrow> pyfloat) \<Rightarrow> (nat \<Rightarrow> char) \<Rightarrow> string \<Rightarrow> json \<Rightarrow> bool" where
  "reads_to fl wide t v \<longleftrightarrow>
     (case t of [] \<Rightarrow> False | c # _ \<Rightarrow> \<not> json_ws c \<and> c \<noteq> CHR '']'') \<and>
     (\<forall>n rest. 2 * length t + 1 \<le> n \<longrightarrow> ends_value rest \<longrightarrow> scan_value fl wide n (t @ rest) = Some (v, rest))"

lemma ends_value_simps [simp]:
  "ends_value []" "ends_value ('','' @ s)" "ends_value (CHR '','' # s)" "ends_value (CHR ''}'' # s)"
  "ends_value (CHR '']'' # s)"
  by (simp_all add: ends_value_def json_digit_def)

lemma reads_loads:
  assumes "reads_to fl wide t v"
  shows "json_loads fl wide t = Some v"
proof -
  from assms obtain c s where t: "t = c # s" "\<not> json_ws c"
    by (auto simp: reads_to_def split: list.splits)
  from assms have "scan_value fl wide n (t @ rest) = Some (v, rest)" if "2 * length t + 1 \<le> n" "ends_value rest" for n rest
    using that by (simp add: reads_to_def del: scan_value.simps)
  from this [of "2 * length t + 1" "[]"] have "scan_value fl wide (2 * length t + 1) t = Some (v, [])"
    by (simp del: scan_value.simps)
  with t show ?thesis by (simp add: json_loads_def del: scan_value.simps)
qed

lemma scan_literal_append:
  "scan_literal ls t = Some (v, []) \<Longrightarrow> \<forall>(k, _) \<in> set ls. \<not> prefix t k \<or> t = k \<Longrightarrow>
   scan_literal ls (t @ rest) = Some (v, rest)"
proof (induction ls t rule: scan_literal.induct)
  case (2 k v' ls t)
  show ?case
  proof (cases "take (length k) t = k")
    case True
    with "2.prems" have "drop (length k) t = []" "v = v'" by auto
    with True have "t = k" by (metis append_Nil2 append_take_drop_id)
    with \<open>v = v'\<close> show ?thesis by simp
  next
    case False
    have "take (length k) (t @ rest) \<noteq> k"
    proof
      assume eq: "take (length k) (t @ rest) = k"
      with False have "length t < length k" by (cases "length k \<le> length t") simp_all
      with eq have "prefix t k" by (metis prefixI take_append take_all less_imp_le)
      with "2.prems"(2) False show False by auto
    qed
    with 2 False show ?thesis by auto
  qed
qed simp

lemma takeWhile_digits_append:
  "ends_value rest \<Longrightarrow> takeWhile json_digit (s @ rest) = takeWhile json_digit s"
  by (induction s) (simp_all add: ends_value_def split: list.splits)

lemma int_part_append:
  assumes "ends_value rest"
  shows "int_part (s @ rest) = int_part s"
proof (cases s)
  case Nil
  with assms show ?thesis by (cases rest) (auto simp: int_part_def ends_value_def json_digit_def)
next
  case (Cons c t)
  then show ?thesis using takeWhile_digits_append [OF assms, of s] by (simp add: int_part_def)
qed

lemma frac_part_append:
  assumes "ends_value rest"
  shows "frac_part (s @ rest) = frac_part s"
proof (cases s)
  case Nil
  with assms show ?thesis by (cases rest) (auto simp: frac_part_def ends_value_def)
next
  case (Cons c t)
  then show ?thesis using takeWhile_digits_append [OF assms, of t] by (simp add: frac_part_def Let_def)
qed

lemma exp_part_append:
  assumes "ends_value rest" and "exp_part s = s"
  shows "exp_part (s @ rest) = s"
proof (cases s)
  case Nil
  with assms(1) show ?thesis by (cases rest) (auto simp: exp_part_def ends_value_def)
next
  case (Cons c t)
  with assms(2) obtain d u where t: "t = d # u"
    by (cases t) (auto simp: exp_part_def Let_def split: if_splits)
  have "exp_part (s @ rest) = exp_part s"
    using takeWhile_digits_append [OF assms(1), of t] takeWhile_digits_append [OF assms(1), of u]
    by (simp add: exp_part_def Let_def Cons t)
  with assms(2) show ?thesis by simp
qed

lemma exp_part_all: "drop (length (exp_part s)) s = [] \<Longrightarrow> exp_part s = s"
proof -
  have "prefix (exp_part s) s"
  proof (cases s)
    case (Cons c t)
    then show ?thesis by (cases t) (auto simp: exp_part_def Let_def takeWhile_is_prefix)
  qed (simp add: exp_part_def)
  then show "drop (length (exp_part s)) s = [] \<Longrightarrow> exp_part s = s"
    by (metis append_Nil2 append_eq_conv_conj prefix_def)
qed

lemma part_le: "length (int_part s) \<le> length s" "length (frac_part s) \<le> length s"
proof -
  show "length (int_part s) \<le> length s"
    by (cases s) (simp_all add: int_part_def length_takeWhile_le)
  show "length (frac_part s) \<le> length s"
    by (cases s) (simp_all add: frac_part_def Let_def length_takeWhile_le)
qed

lemma scan_number_parts:
  assumes "sign = (if take 1 s = ''-'' then ''-'' else [])" "drop (length sign) s = u" "int_part u = ip" "ip \<noteq> []"
    and "drop (length ip) u = w" "frac_part w = fp" "drop (length fp) w = x" "exp_part x = ep"
  shows "scan_number fl s = Some (if fp = [] \<and> ep = []
      then J_Int (if sign = [] then int (digits_value ip) else - int (digits_value ip))
      else J_Float (fl (sign @ ip @ fp @ ep)), drop (length ep) x)"
  unfolding scan_number_def Let_def assms(1) [symmetric] assms(2,3,5-8) using assms(4) by simp

lemma scan_number_append:
  assumes "scan_number fl t = Some (v, [])" and rest: "ends_value rest"
  shows "scan_number fl (t @ rest) = Some (v, rest)"
proof -
  define sign where "sign = (if take 1 t = ''-'' then ''-'' else [])"
  define u where "u = drop (length sign) t"
  define w where "w = drop (length (int_part u)) u"
  define x where "x = drop (length (frac_part w)) w"
  have eq: "scan_number fl t = (if int_part u = [] then None else Some (if frac_part w = [] \<and> exp_part x = []
      then J_Int (if sign = [] then int (digits_value (int_part u)) else - int (digits_value (int_part u)))
      else J_Float (fl (sign @ int_part u @ frac_part w @ exp_part x)), drop (length (exp_part x)) x))"
    by (simp only: scan_number_def Let_def sign_def u_def w_def x_def)
  have ne: "int_part u \<noteq> []" and v: "v = (if frac_part w = [] \<and> exp_part x = []
      then J_Int (if sign = [] then int (digits_value (int_part u)) else - int (digits_value (int_part u)))
      else J_Float (fl (sign @ int_part u @ frac_part w @ exp_part x)))" and stop: "drop (length (exp_part x)) x = []"
    using assms(1) unfolding eq by (auto split: if_splits)
  have "t \<noteq> []" "u \<noteq> []" using ne by (auto simp: u_def sign_def int_part_def)
  have "sign = (if take 1 (t @ rest) = ''-'' then ''-'' else [])"
    using \<open>t \<noteq> []\<close> by (cases t) (simp_all add: sign_def)
  moreover have "drop (length sign) (t @ rest) = u @ rest"
    using \<open>t \<noteq> []\<close> by (cases t) (simp_all add: u_def sign_def)
  moreover note int_part_append [OF rest, of u] ne
  moreover have "drop (length (int_part u)) (u @ rest) = w @ rest" using part_le by (simp add: w_def)
  moreover note frac_part_append [OF rest, of w]
  moreover have "drop (length (frac_part w)) (w @ rest) = x @ rest" using part_le by (simp add: x_def)
  moreover note exp_part_append [OF rest exp_part_all [OF stop]]
  ultimately have "scan_number fl (t @ rest) = Some (if frac_part w = [] \<and> x = []
      then J_Int (if sign = [] then int (digits_value (int_part u)) else - int (digits_value (int_part u)))
      else J_Float (fl (sign @ int_part u @ frac_part w @ x)), drop (length x) (x @ rest))"
    by (rule scan_number_parts)
  then show ?thesis using v exp_part_all [OF stop] by simp
qed

section \<open>What json.dumps writes\<close>

lemma reads_atom:
  assumes "scan_atom fl (c # t) = Some (v, [])" and "\<And>rest. ends_value rest \<Longrightarrow> scan_atom fl ((c # t) @ rest) = Some (v, rest)"
    and "c \<notin> {dquote, CHR ''['', CHR ''{'', CHR '']''}" "\<not> json_ws c"
  shows "reads_to fl wide (c # t) v"
proof -
  have "scan_value fl wide n ((c # t) @ rest) = Some (v, rest)" if "1 \<le> n" "ends_value rest" for n rest
    using that assms by (cases n) (auto simp: scan_value.simps(2))
  with assms(4) assms(3) show ?thesis by (auto simp: reads_to_def simp del: scan_value.simps)
qed

lemma reads_literal:
  assumes "(t, v) \<in> set literals"
  shows "reads_to fl wide t v"
proof -
  from assms have "(t = ''null'' \<and> v = J_Null) \<or> (t = ''true'' \<and> v = J_Bool True) \<or> (t = ''false'' \<and> v = J_Bool False) \<or>
      (t = ''NaN'' \<and> v = J_Float NaN) \<or> (t = ''Infinity'' \<and> v = J_Float PosInf) \<or> (t = ''-Infinity'' \<and> v = J_Float NegInf)"
    by (simp add: literals_def)
  then have scan: "scan_literal literals (t @ rest) = Some (v, rest)" and start: "t \<noteq> []"
    "hd t \<in> {CHR ''n'', CHR ''t'', CHR ''f'', CHR ''N'', CHR ''I'', CHR ''-''}" for rest
    by (elim disjE; simp add: literals_def)+
  obtain c s where t: "t = c # s" using start(1) by (cases t) simp_all
  with start(2) have c: "c \<notin> {dquote, CHR ''['', CHR ''{'', CHR '']''}" "\<not> json_ws c"
    by (auto simp: quote_chars json_ws_def)
  show ?thesis unfolding t
    by (rule reads_atom) (use scan [of "[]"] scan t c in \<open>auto simp: scan_atom_def\<close>)
qed

lemma digits_of_digits: "\<forall>c \<in> set (digits_of n). json_digit c"
proof (induction n rule: digits_of.induct)
  case (1 n)
  have digit: "json_digit (char_of (48 + m))" if "m < 10" for m :: nat
    using that by (simp add: json_digit_def)
  show ?case
    using 1 digit [of n] digit [of "n mod 10"] by (subst digits_of.simps) (auto simp del: digits_of.simps)
qed

lemma digits_value_snoc: "digits_value (ds @ [c]) = 10 * digits_value ds + (of_char c - 48)"
  by (simp add: digits_value_def)

lemma digits_value_of: "digits_value (digits_of n) = n"
proof (induction n rule: digits_of.induct)
  case (1 n)
  show ?case
  proof (cases "n < 10")
    case True
    then show ?thesis by (subst digits_of.simps) (simp add: digits_value_def)
  next
    case False
    then show ?thesis
      using 1 by (subst digits_of.simps) (simp add: digits_value_snoc del: digits_of.simps)
  qed
qed

lemma digits_of_not_Nil [simp]: "digits_of n \<noteq> []"
  by (subst digits_of.simps) (simp del: digits_of.simps)

lemma digits_of_zero: "hd (digits_of n) = CHR ''0'' \<Longrightarrow> n = 0"
proof (induction n rule: digits_of.induct)
  case (1 n)
  show ?case
  proof (cases "n < 10")
    case True
    with "1.prems" have "char_of (48 + n) = (CHR ''0'')" by (subst (asm) digits_of.simps) simp
    then have "(of_char (char_of (48 + n) :: char) :: nat) = of_char (CHR ''0'')" by simp
    with True show ?thesis by simp
  next
    case False
    with "1.prems" have "hd (digits_of (n div 10)) = CHR ''0''"
      by (subst (asm) digits_of.simps) (simp del: digits_of.simps)
    with "1.IH" False show ?thesis by simp
  qed
qed

lemma int_part_digits: "int_part (digits_of n) = digits_of n"
proof (cases "take 1 (digits_of n) = ''0''")
  case True
  then have "n = 0" using digits_of_zero by (cases "digits_of n") auto
  moreover have "char_of (48 :: nat) = CHR ''0''" by code_simp
  ultimately show ?thesis by (simp add: int_part_def digits_of.simps)
next
  case False
  then show ?thesis using digits_of_digits [of n] by (simp add: int_part_def takeWhile_eq_all_conv)
qed

lemma digit_chars: "json_digit c \<Longrightarrow>
  c \<notin> {CHR ''n'', CHR ''t'', CHR ''f'', CHR ''N'', CHR ''I'', CHR ''-'', CHR ''['', CHR ''{'', CHR '']'', dquote} \<and> \<not> json_ws c"
  by (auto simp: json_digit_def Let_def json_ws_def newline_char quote_chars)

lemma number_no_literal:
  assumes "json_digit c"
  shows "scan_literal literals (c # s) = None" "scan_literal literals (CHR ''-'' # c # s) = None"
  using digit_chars [OF assms] by (simp_all add: literals_def)

lemma scan_digits:
  assumes "ends_value rest"
  shows "scan_number fl (digits_of n @ rest) = Some (J_Int (int n), rest)"
    and "scan_number fl (CHR ''-'' # digits_of n @ rest) = Some (J_Int (- int n), rest)"
proof -
  have ip: "int_part (digits_of n @ rest) = digits_of n"
    using int_part_append [OF assms] int_part_digits by simp
  have fp: "frac_part rest = []" and ep: "exp_part rest = []"
    using frac_part_append [OF assms, of "[]"] exp_part_append [OF assms, of "[]"]
    by (simp_all add: frac_part_def exp_part_def)
  have sign: "take 1 (digits_of n @ rest) \<noteq> ''-''"
    using digits_of_digits [of n] digit_chars by (cases "digits_of n") (auto simp: json_digit_def)
  show "scan_number fl (digits_of n @ rest) = Some (J_Int (int n), rest)"
    using sign by (simp add: scan_number_def Let_def ip fp ep digits_value_of)
  show "scan_number fl (CHR ''-'' # digits_of n @ rest) = Some (J_Int (- int n), rest)"
    by (simp add: scan_number_def Let_def ip fp ep digits_value_of)
qed

text \<open>A float's text must be read as that float (\<open>repr\<close> and \<open>float\<close> are inverse).\<close>

definition float_back :: "(pyfloat \<Rightarrow> string) \<Rightarrow> (string \<Rightarrow> pyfloat) \<Rightarrow> pyfloat \<Rightarrow> bool" where
  "float_back ft fl x \<longleftrightarrow>
     (ft x, J_Float x) \<in> set literals \<or> scan_number fl (ft x) = Some (J_Float x, [])"

lemma int_part_start: "int_part s \<noteq> [] \<Longrightarrow> \<exists>c u. s = c # u \<and> json_digit c"
  by (cases s) (auto simp: int_part_def json_digit_def split: if_splits)

lemma number_start:
  assumes "scan_number fl s = Some r"
  shows "\<exists>c u. json_digit c \<and> (s = c # u \<or> s = CHR ''-'' # c # u)"
proof -
  have "int_part (drop (length (if take 1 s = ''-'' then ''-'' else [])) s) \<noteq> []"
    using assms unfolding scan_number_def Let_def by (rule contrapos_pn) (simp del: if_split)
  from int_part_start [OF this] show ?thesis by (cases s) (auto split: if_splits)
qed

lemma reads_number:
  assumes num: "scan_number fl t = Some (v, [])"
  shows "reads_to fl wide t v"
proof -
  obtain c u where c: "json_digit c" "t = c # u \<or> t = CHR ''-'' # c # u" using number_start [OF num] by blast
  then have atom: "scan_atom fl (t @ rest) = Some (v, rest)" if "ends_value rest" for rest
    using scan_number_append [OF num that] number_no_literal [OF c(1)] by (auto simp: scan_atom_def)
  obtain d x where t: "t = d # x" "d \<notin> {dquote, CHR ''['', CHR ''{'', CHR '']''}" "\<not> json_ws d"
    using c digit_chars by (force simp: quote_chars json_ws_def)
  show ?thesis unfolding t(1) by (rule reads_atom) (use atom [of "[]"] atom t in auto)
qed

lemma reads_float: "float_back ft fl x \<Longrightarrow> reads_to fl wide (ft x) (J_Float x)"
  unfolding float_back_def by (auto intro: reads_literal reads_number)

lemma reads_int: "reads_to fl wide (py_str_int n) (J_Int n)"
proof (rule reads_number)
  show "scan_number fl (py_str_int n) = Some (J_Int n, [])"
    using scan_digits [of "[]" fl] by (simp add: py_str_int_def)
qed

section \<open>Strings\<close>

lemma hex_value_digit: "n < 16 \<Longrightarrow> hex_value (hex_digit n) = Some n"
  by (simp add: hex_value_def hex_digit_def Let_def)

lemma code_unit_low: "n < 256 \<Longrightarrow> code_unit (''00'' @ hex_digit (n div 16) # hex_digit (n mod 16) # t) = Some n"
  by (simp add: hex_value_digit) (simp add: hex_value_def)

lemma scan_json_char:
  "scan_string wide (json_char c @ t) = map_option (apfst ((#) c)) (scan_string wide t)"
proof -
  have byte: "(of_char c :: nat) < 256" by (rule nat_of_char_less_256)
  then have small: "\<not> 55296 \<le> (of_char c :: nat)" by linarith
  consider "c = dquote \<or> c = backslash" | "(of_char c :: nat) \<in> {8, 9, 10, 12, 13}" "c \<noteq> dquote" "c \<noteq> backslash"
    | "(of_char c :: nat) < 32 \<or> 127 \<le> (of_char c :: nat)" "(of_char c :: nat) \<notin> {8, 9, 10, 12, 13}" "c \<noteq> dquote" "c \<noteq> backslash"
    | "32 \<le> (of_char c :: nat)" "(of_char c :: nat) < 127" "c \<noteq> dquote" "c \<noteq> backslash"
    by fastforce
  then show ?thesis
  proof cases
    case 1
    then show ?thesis by (auto simp: json_char_def Let_def scan_escape_def simple_escape_def quote_chars)
  next
    case 2
    moreover have "char_of (of_char c :: nat) = c" by (rule of_char_eqI) simp
    ultimately have "c \<in> {char_of (8 :: nat), char_of (9 :: nat), char_of (10 :: nat), char_of (12 :: nat), char_of (13 :: nat)}"
      by (elim insertE emptyE) auto
    then show ?thesis
      by (auto simp: json_char_def Let_def scan_escape_def simple_escape_def quote_chars newline_def)
  next
    case 3
    then have "json_char c = backslash # ''u00'' @ [hex_digit (of_char c div 16), hex_digit (of_char c mod 16)]"
      by (simp add: json_char_def Let_def)
    then show ?thesis
      using code_unit_low [OF byte, of t] small
      by (simp add: scan_escape_def scan_unicode_def code_point_def quote_chars del: code_unit.simps)
  next
    case 4
    then show ?thesis by (simp add: json_char_def Let_def)
  qed
qed

lemma scan_json_string: "scan_string wide (concat (map json_char s) @ dquote # t) = Some (s, t)"
  by (induction s) (simp_all add: scan_json_char)

lemma reads_string: "reads_to fl wide (json_string s) (J_Str s)"
proof -
  have "scan_value fl wide n (json_string s @ rest) = Some (J_Str s, rest)" if "1 \<le> n" for n rest
    using that scan_json_string [of wide s rest] by (cases n) (simp_all add: json_string_def scan_value.simps(2))
  then show ?thesis
    by (simp add: reads_to_def json_string_def json_ws_def quote_chars newline_char del: scan_value.simps)
qed

section \<open>Arrays and objects\<close>

definition separator :: "char \<Rightarrow> string \<Rightarrow> bool" where
  "separator c sep \<longleftrightarrow> (case sep of [] \<Rightarrow> False | d # ws \<Rightarrow> d = c \<and> list_all json_ws ws)"

lemma separatorE:
  assumes "separator c sep" obtains ws where "sep = c # ws" "list_all json_ws ws"
  using assms by (cases sep) (auto simp: separator_def)

lemma skip_ws_append: "list_all json_ws ws \<Longrightarrow> skip_ws (ws @ s) = skip_ws s"
  by (induction ws) auto

lemma reads_first:
  assumes "reads_to fl wide t v"
  obtains c u where "t = c # u" "\<not> json_ws c" "c \<noteq> CHR '']''"
  using assms by (cases t) (auto simp: reads_to_def)

lemma reads_skip: "reads_to fl wide t v \<Longrightarrow> skip_ws (t @ s) = t @ s"
  by (auto elim!: reads_first)

lemma reads_scan:
  "reads_to fl wide t v \<Longrightarrow> 2 * length t + 1 \<le> n \<Longrightarrow> ends_value s \<Longrightarrow> scan_value fl wide n (t @ s) = Some (v, s)"
  by (simp add: reads_to_def)

lemma mark_not_ws [simp]: "\<not> json_ws (CHR '','')" "\<not> json_ws (CHR '':'')" "\<not> json_ws (CHR '']'')" "\<not> json_ws (CHR ''}'')"
  "\<not> json_ws dquote"
  by (simp_all add: json_ws_def quote_chars)

text \<open>A separator and what follows it, up to the next value.\<close>

lemma skip_separator:
  assumes "separator c sep" and "\<not> json_ws c"
  shows "\<exists>u. skip_ws (sep @ s) = c # u \<and> skip_ws u = skip_ws s"
  using assms skip_ws_append by (auto elim!: separatorE)

lemma ends_separator: "separator (CHR '','') sep \<Longrightarrow> ends_value (sep @ s)"
  by (auto elim!: separatorE)

lemma scan_items_reads:
  assumes sep: "separator (CHR '','') sep"
    and "list_all2 (reads_to fl wide) ts vs" "ts \<noteq> []" "2 * length (py_join sep ts) + 4 \<le> n"
  shows "scan_items fl wide n acc (py_join sep ts @ CHR '']'' # rest) = Some (J_Arr (acc @ vs), rest)"
  using assms(2-)
proof (induction ts arbitrary: vs acc n)
  case (Cons t ts)
  then obtain v us m where v: "vs = v # us" "reads_to fl wide t v" "list_all2 (reads_to fl wide) ts us" "n = Suc m"
    by (cases n) (auto simp: list_all2_Cons1)
  show ?case
  proof (cases ts)
    case Nil
    then have "scan_value fl wide m (t @ CHR '']'' # rest) = Some (v, CHR '']'' # rest)"
      using v Cons.prems(3) by (intro reads_scan) simp_all
    with v Nil show ?thesis by simp
  next
    case (Cons t' ts')
    let ?more = "py_join sep ts @ CHR '']'' # rest"
    have join: "py_join sep (t # ts) = t @ sep @ py_join sep ts" using Cons by simp
    have here: "scan_value fl wide m (t @ sep @ ?more) = Some (v, sep @ ?more)"
      using v Cons.prems(3) ends_separator [OF sep] join by (intro reads_scan) simp_all
    have first: "skip_ws ?more = ?more"
      using v(3) Cons reads_skip by (cases ts') (auto simp: list_all2_Cons1)
    obtain u where u: "skip_ws (sep @ ?more) = CHR '','' # u" "skip_ws u = ?more"
      using skip_separator [OF sep, of ?more] first by auto
    have "0 < length sep" using sep by (auto elim!: separatorE)
    then have "2 * length (py_join sep ts) + 4 \<le> m"
      using Cons.prems(3) unfolding join v(4) length_append add_mult_distrib2 by linarith
    then have "scan_items fl wide m (acc @ [v]) ?more = Some (J_Arr ((acc @ [v]) @ us), rest)"
      using v(3) Cons by (intro Cons.IH) simp_all
    with v here u join show ?thesis by simp
  qed
qed simp

lemma reads_array:
  assumes sep: "separator (CHR '','') sep" and reads: "list_all2 (reads_to fl wide) ts vs"
  shows "reads_to fl wide (''['' @ py_join sep ts @ '']'') (J_Arr vs)"
proof (cases ts)
  case Nil
  with reads have "vs = []" by simp
  have "scan_value fl wide n (''[]'' @ rest) = Some (J_Arr [], rest)" if "1 \<le> n" for n rest
    using that by (cases n) (simp_all add: scan_value.simps(2) quote_chars)
  with Nil \<open>vs = []\<close> show ?thesis by (simp add: reads_to_def json_ws_def)
next
  case (Cons t ts')
  have "scan_value fl wide n ((''['' @ py_join sep ts @ '']'') @ rest) = Some (J_Arr vs, rest)"
    if enough: "2 * length (''['' @ py_join sep ts @ '']'') + 1 \<le> n" for n rest
  proof -
    obtain m where n: "n = Suc m" using enough by (cases n) simp_all
    let ?body = "py_join sep ts @ CHR '']'' # rest"
    obtain v where v: "reads_to fl wide t v" using reads Cons by (auto simp: list_all2_Cons1)
    obtain c u where c: "t = c # u" "\<not> json_ws c" "c \<noteq> CHR '']''" by (rule reads_first [OF v])
    have body: "skip_ws ?body = ?body" "take 1 ?body \<noteq> '']''" using c Cons by (cases ts'; simp)+
    have "scan_items fl wide m [] ?body = Some (J_Arr vs, rest)"
      using scan_items_reads [OF sep reads, of m "[]" rest] Cons enough n by simp
    with n body show ?thesis by (simp add: scan_value.simps(2) quote_chars)
  qed
  then show ?thesis by (simp add: reads_to_def json_ws_def)
qed

text \<open>Objects: the keys are strings, a later pair of a key replaces the value of the first.\<close>

definition pair_text :: "string \<Rightarrow> string \<times> string \<Rightarrow> string" where
  "pair_text ksep kt = json_string (fst kt) @ ksep @ snd kt"

definition pair_reads :: "(string \<Rightarrow> pyfloat) \<Rightarrow> (nat \<Rightarrow> char) \<Rightarrow> string \<times> string \<Rightarrow> string \<times> json \<Rightarrow> bool" where
  "pair_reads fl wide kt kv \<longleftrightarrow> fst kt = fst kv \<and> reads_to fl wide (snd kt) (snd kv)"

lemma scan_pair:
  assumes ksep: "separator (CHR '':'') ksep" and kv: "pair_reads fl wide kt kv"
    and "2 * length (pair_text ksep kt) + 1 \<le> n" "ends_value s"
  shows "\<exists>q. scan_key wide (pair_text ksep kt @ s) = Some (fst kv, q) \<and> scan_value fl wide n q = Some (snd kv, s)"
proof -
  have reads: "reads_to fl wide (snd kt) (snd kv)" using kv by (simp add: pair_reads_def)
  obtain u where u: "skip_ws (ksep @ snd kt @ s) = CHR '':'' # u" "skip_ws u = snd kt @ s"
    using skip_separator [OF ksep, of "snd kt @ s"] reads_skip [OF reads] by auto
  have "scan_value fl wide n (snd kt @ s) = Some (snd kv, s)"
    using reads assms(3,4) by (intro reads_scan) (simp_all add: pair_text_def)
  moreover have "scan_string wide (drop 1 (pair_text ksep kt @ s)) = Some (fst kv, ksep @ snd kt @ s)"
    using kv scan_json_string by (simp add: pair_text_def json_string_def pair_reads_def)
  moreover have "take 1 (pair_text ksep kt @ s) = [dquote]" by (simp add: pair_text_def json_string_def)
  ultimately show ?thesis using u by (auto simp: scan_key_def)
qed

lemma scan_pairs_reads:
  assumes sep: "separator (CHR '','') sep" and ksep: "separator (CHR '':'') ksep"
    and "list_all2 (pair_reads fl wide) kts kvs" "kts \<noteq> []" "2 * length (py_join sep (map (pair_text ksep) kts)) + 4 \<le> n"
  shows "scan_pairs fl wide n d (py_join sep (map (pair_text ksep) kts) @ CHR ''}'' # rest) =
    Some (J_Obj (dict_update d kvs), rest)"
  using assms(3-)
proof (induction kts arbitrary: kvs d n)
  case (Cons kt kts)
  then obtain kv us m where kv: "kvs = kv # us" "pair_reads fl wide kt kv" "list_all2 (pair_reads fl wide) kts us" "n = Suc m"
    by (cases n) (auto simp: list_all2_Cons1)
  show ?case
  proof (cases kts)
    case Nil
    let ?tail = "CHR ''}'' # rest"
    obtain q where "scan_key wide (pair_text ksep kt @ ?tail) = Some (fst kv, q)" "scan_value fl wide m q = Some (snd kv, ?tail)"
      using scan_pair [OF ksep kv(2), of m ?tail] Cons.prems(3) kv(4) Nil by auto
    with kv Nil show ?thesis by (simp add: dict_update_def)
  next
    case (Cons kt' kts')
    let ?more = "py_join sep (map (pair_text ksep) kts) @ CHR ''}'' # rest"
    have join: "py_join sep (map (pair_text ksep) (kt # kts)) = pair_text ksep kt @ sep @ py_join sep (map (pair_text ksep) kts)"
      using Cons by simp
    obtain q where q: "scan_key wide (pair_text ksep kt @ sep @ ?more) = Some (fst kv, q)"
      "scan_value fl wide m q = Some (snd kv, sep @ ?more)"
      using scan_pair [OF ksep kv(2), of m "sep @ ?more"] ends_separator [OF sep] Cons.prems(3) kv(4) join by auto
    have first: "skip_ws ?more = ?more"
      using Cons by (cases kts') (simp_all add: pair_text_def json_string_def)
    obtain u where u: "skip_ws (sep @ ?more) = CHR '','' # u" "skip_ws u = ?more"
      using skip_separator [OF sep, of ?more] first by auto
    have "0 < length sep" using sep by (auto elim!: separatorE)
    then have "2 * length (py_join sep (map (pair_text ksep) kts)) + 4 \<le> m"
      using Cons.prems(3) unfolding join kv(4) length_append add_mult_distrib2 by linarith
    then have "scan_pairs fl wide m (dict_set d (fst kv) (snd kv)) ?more =
        Some (J_Obj (dict_update (dict_set d (fst kv) (snd kv)) us), rest)"
      using kv(3) Cons by (intro Cons.IH) simp_all
    with kv q u join show ?thesis by (simp add: dict_update_def)
  qed
qed simp

lemma reads_object:
  assumes sep: "separator (CHR '','') sep" and ksep: "separator (CHR '':'') ksep"
    and reads: "list_all2 (pair_reads fl wide) kts kvs"
  shows "reads_to fl wide (''{'' @ py_join sep (map (pair_text ksep) kts) @ ''}'') (J_Obj (dict_of kvs))"
proof (cases kts)
  case Nil
  with reads have "kvs = []" by simp
  have "scan_value fl wide n (''{}'' @ rest) = Some (J_Obj [], rest)" if "1 \<le> n" for n rest
    using that by (cases n) (simp_all add: scan_value.simps(2) quote_chars)
  with Nil \<open>kvs = []\<close> show ?thesis by (simp add: reads_to_def json_ws_def dict_update_def)
next
  case (Cons kt kts')
  have "scan_value fl wide n ((''{'' @ py_join sep (map (pair_text ksep) kts) @ ''}'') @ rest) = Some (J_Obj (dict_of kvs), rest)"
    if enough: "2 * length (''{'' @ py_join sep (map (pair_text ksep) kts) @ ''}'') + 1 \<le> n" for n rest
  proof -
    obtain m where n: "n = Suc m" using enough by (cases n) simp_all
    let ?body = "py_join sep (map (pair_text ksep) kts) @ CHR ''}'' # rest"
    obtain b where "?body = dquote # b" using Cons by (cases kts') (simp_all add: pair_text_def json_string_def)
    then have body: "skip_ws ?body = ?body" "take 1 ?body \<noteq> ''}''" by (simp_all add: quote_chars json_ws_def)
    have "scan_pairs fl wide m [] ?body = Some (J_Obj (dict_of kvs), rest)"
      using scan_pairs_reads [OF sep ksep reads, of m "[]" rest] Cons enough n by simp
    with n body show ?thesis by (simp add: scan_value.simps(2) quote_chars)
  qed
  then show ?thesis by (simp add: reads_to_def json_ws_def)
qed

section \<open>json.loads inverts json.dumps\<close>

text \<open>The value with the keys of every object sorted.\<close>

fun sort_json :: "json \<Rightarrow> json" and sort_values :: "json list \<Rightarrow> json list"
  and sort_pairs :: "(string, json) dict \<Rightarrow> (string, json) dict" where
  "sort_json (J_Arr vs) = J_Arr (sort_values vs)"
| "sort_json (J_Obj d) = J_Obj (sort_key fst (sort_pairs d))"
| "sort_json v = v"
| "sort_values [] = []"
| "sort_values (v # vs) = sort_json v # sort_values vs"
| "sort_pairs [] = []"
| "sort_pairs ((k, v) # d) = (k, sort_json v) # sort_pairs d"

text \<open>A value a Python program can hold: the keys of a dict are distinct, and floats print and read
  back.\<close>

fun json_fine :: "(pyfloat \<Rightarrow> string) \<Rightarrow> (string \<Rightarrow> pyfloat) \<Rightarrow> json \<Rightarrow> bool"
  and values_fine :: "(pyfloat \<Rightarrow> string) \<Rightarrow> (string \<Rightarrow> pyfloat) \<Rightarrow> json list \<Rightarrow> bool"
  and pairs_fine :: "(pyfloat \<Rightarrow> string) \<Rightarrow> (string \<Rightarrow> pyfloat) \<Rightarrow> (string, json) dict \<Rightarrow> bool" where
  "json_fine ft fl (J_Float x) = float_back ft fl x"
| "json_fine ft fl (J_Arr vs) = values_fine ft fl vs"
| "json_fine ft fl (J_Obj d) = (distinct (map fst d) \<and> pairs_fine ft fl d)"
| "json_fine ft fl v = True"
| "values_fine ft fl [] = True"
| "values_fine ft fl (v # vs) = (json_fine ft fl v \<and> values_fine ft fl vs)"
| "pairs_fine ft fl [] = True"
| "pairs_fine ft fl ((k, v) # d) = (json_fine ft fl v \<and> pairs_fine ft fl d)"

lemma sort_pairs_keys [simp]: "map fst (sort_pairs d) = map fst d"
  by (induction d) auto

lemma dict_set_new: "k \<notin> fst ` set d \<Longrightarrow> dict_set d k v = d @ [(k, v)]"
  by (induction d) auto

lemma dict_update_new:
  "distinct (map fst d) \<Longrightarrow> fst ` set d \<inter> fst ` set e = {} \<Longrightarrow> dict_update e d = e @ d"
proof (induction d arbitrary: e)
  case (Cons kv d)
  then have "dict_update e (kv # d) = dict_update (e @ [kv]) d"
    by (simp add: dict_update_def dict_set_new)
  also have "\<dots> = (e @ [kv]) @ d" using Cons.prems by (intro Cons.IH) auto
  finally show ?case by simp
qed (simp add: dict_update_def)

lemma dict_of_distinct [simp]: "distinct (map fst d) \<Longrightarrow> dict_of d = d"
  using dict_update_new [of d "[]"] by simp

lemma insort_reads:
  assumes "list_all2 (pair_reads fl wide) xs ys" and "pair_reads fl wide x y"
  shows "list_all2 (pair_reads fl wide) (insort_key fst x xs) (insort_key fst y ys)"
  using assms by (induction rule: list_all2_induct) (auto simp: pair_reads_def)

lemma sort_reads:
  "list_all2 (pair_reads fl wide) xs ys \<Longrightarrow> list_all2 (pair_reads fl wide) (sort_key fst xs) (sort_key fst ys)"
  by (induction rule: list_all2_induct) (auto intro: insort_reads)

lemma distinct_keys_sort: "distinct (map fst d) \<Longrightarrow> distinct (map fst (sort_key fst d))"
  by (metis distinct_map distinct_sort set_sort)

lemma dumps_reads:
  assumes sep: "separator (CHR '','') sep" and ksep: "separator (CHR '':'') ksep"
  shows "json_fine ft fl v \<Longrightarrow> reads_to fl wide (dumps ft sep ksep v) (sort_json v)"
    and "values_fine ft fl vs \<Longrightarrow> list_all2 (reads_to fl wide) (dumps_items ft sep ksep vs) (sort_values vs)"
    and "pairs_fine ft fl d \<Longrightarrow> list_all2 (pair_reads fl wide) (dumps_pairs ft sep ksep d) (sort_pairs d)"
proof (induction v and vs and d rule: sort_json_sort_values_sort_pairs.induct)
  case (1 vs)
  then show ?case using reads_array [OF sep] by simp
next
  case (2 d)
  then have "list_all2 (pair_reads fl wide) (sort_key fst (dumps_pairs ft sep ksep d)) (sort_key fst (sort_pairs d))"
    by (intro sort_reads) simp
  from reads_object [OF sep ksep this] 2 distinct_keys_sort [of "sort_pairs d"] show ?case
    by (simp add: pair_text_def [abs_def])
qed (auto simp: pair_reads_def literals_def intro: reads_literal reads_int reads_float reads_string)

text \<open>An object rendered pair by pair, in the order it is given.\<close>

lemma reads_json_object:
  assumes "list_all2 (pair_reads fl wide) kts kvs" and "distinct (map fst kvs)"
  shows "reads_to fl wide (json_object kts) (J_Obj kvs)"
proof -
  have "separator (CHR '','') '', ''" "separator (CHR '':'') '': ''" by (simp_all add: separator_def json_ws_def)
  from reads_object [OF this assms(1)] assms(2) show ?thesis
    by (simp add: json_object_def pair_text_def [abs_def])
qed

text \<open>Every JSON text \<open>json.dumps\<close> writes, with any separators and sorted keys, is read by
  \<open>json.loads\<close> as the same value with its keys sorted, on one line or over several texts: strings,
  with every character escaped or not, integers of any size, nested arrays and objects.\<close>

theorem json_roundtrip:
  assumes "separator (CHR '','') sep" and "separator (CHR '':'') ksep" and "json_fine ft fl v"
  shows "json_loads fl wide (dumps ft sep ksep v) = Some (sort_json v)"
  by (rule reads_loads, rule dumps_reads) (use assms in auto)

section \<open>Witnesses\<close>

definition ex_json :: json where
  "ex_json = J_Obj [(''subject'', J_Str [dquote, backslash, newline]),
     (''scores'', J_Arr [J_Int (- 12), J_Float (Num (3 / 2)), J_Null, J_Bool True])]"

definition ex_float_text :: "pyfloat \<Rightarrow> string" where
  "ex_float_text x = (if x = NaN then ''NaN'' else ''1.5'')"

lemma ex_json_fine: "json_fine ex_float_text (\<lambda>_. Num (3 / 2)) ex_json"
  by (simp add: ex_json_def ex_float_text_def float_back_def scan_number_def int_part_def frac_part_def exp_part_def
      json_digit_def Let_def)

theorem json_roundtrip_witness:
  "json_loads (\<lambda>_. Num (3 / 2)) (\<lambda>_. CHR ''?'') (dumps ex_float_text '','' '': '' ex_json) = Some (sort_json ex_json) \<and>
   ex_float_text (Num (3 / 2)) = ''1.5''"
  using json_roundtrip [OF _ _ ex_json_fine, of "'',''" "'': ''"]
  by (simp add: separator_def json_ws_def ex_float_text_def)

end
