(* ===== verification/Json_Records.thy ===== *)
theory Json_Records
  imports Json_Text Pipeline_Writes
begin

text \<open>
  The JSON spork writes, read back with \<open>json.loads\<close>: the prompt sent to the model
  (\<open>core/llm/prompt.py\<close>), the corpus of recorded calls (\<open>core/llm/recording.py\<close>), the file provider's
  logs (\<open>core/providers/file/provider.py\<close>) and the details of the audit log (\<open>core/pipeline\<close>,
  \<open>core/receipts/pipeline.py\<close>).
\<close>

section \<open>The prompt\<close>

lemma sort_values_strs [simp]: "sort_values (map J_Str ss) = map J_Str ss"
  by (induction ss) auto

lemma sort_json_strs [simp]: "sort_json (J_Strs ss) = J_Strs ss"
  by (simp add: J_Strs_def)

lemma sort_json_opt_str [simp]: "sort_json (J_opt_str v) = J_opt_str v"
  by (cases v) (simp_all add: J_opt_str_def)

lemma values_fine_strs [simp]: "values_fine ft fl (map J_Str ss)"
  by (induction ss) auto

lemma fine_strs [simp]: "json_fine ft fl (J_Strs ss)" "json_fine ft fl (J_opt_str v)"
  by (simp_all add: J_Strs_def) (cases v; simp add: J_opt_str_def)

definition user_keys :: "string list" where
  "user_keys = [''available_categories'', ''available_mailboxes'', ''cleaned_body'', ''context_snippets'', ''from_address'',
     ''subject'', ''thread_prior_subject'', ''thread_user_has_replied'', ''to_addresses'']"

lemma user_keys_sorted: "sorted user_keys" "distinct user_keys"
  by code_simp+

lemma user_fields_fine: "json_fine ft fl (user_fields req)"
  using user_keys_sorted(2) by (simp add: user_fields_def user_keys_def)

lemma sort_key_sorted: "sorted (map f xs) \<Longrightarrow> sort_key f xs = xs"
  by (rule sort_key_id_if_sorted)

lemma user_fields_sorted: "sort_json (user_fields req) = user_fields req"
proof -
  obtain d where d: "user_fields req = J_Obj d" "map fst d = user_keys" "sort_pairs d = d"
    by (simp add: user_fields_def user_keys_def)
  with user_keys_sorted(1) sort_key_sorted [of fst d] show ?thesis by simp
qed

text \<open>The fields determine the request.\<close>

lemma strs_inject [simp]: "J_Strs xs = J_Strs ys \<longleftrightarrow> xs = ys"
  by (simp add: J_Strs_def) (metis inj_map_eq_map injI json.inject(4))

lemma opt_str_inject [simp]: "J_opt_str v = J_opt_str u \<longleftrightarrow> v = u"
  by (cases v; cases u) (auto simp: J_opt_str_def)

lemma user_fields_inject: "user_fields req = user_fields req' \<longleftrightarrow> req = (req' :: verdict_request)"
  by (cases req; cases req') (auto simp: user_fields_def)

text \<open>C7: the message to the model carries the request exactly, whatever the mail holds: its content is
  JSON that reads as the nine fields of the request, each in its own key, so no text of a mail can
  end its field or add another, and equal prompts come from equal requests.\<close>

theorem prompt_carries_request:
  assumes "build_prompt ft schema req = Inr p"
  shows "(\<exists>content. cp_messages p ! 1 = J_Obj [(''role'', J_Str ''user''), (''content'', J_Str content)] \<and>
      length (cp_messages p) = 2 \<and> json_loads fl wide content = Some (user_fields req)) \<and>
    (build_prompt ft' schema' req' = Inr p \<longrightarrow> req' = req)"
proof -
  let ?text = "\<lambda>ft req. json_dumps ft (user_fields req)"
  have layout: "separator (CHR '','') '', ''" "separator (CHR '':'') '': ''"
    by (simp_all add: separator_def json_ws_def)
  have reads: "json_loads fl wide (?text ft req) = Some (user_fields req)" for fl wide ft req
    using reads_loads [OF dumps_reads(1) [OF layout user_fields_fine]] user_fields_sorted by simp
  have message: "cp_messages q ! 1 = J_Obj [(''role'', J_Str ''user''), (''content'', J_Str (?text ft req))]"
    "length (cp_messages q) = 2" if "build_prompt ft schema req = Inr q" for ft schema req q
    using that by (auto simp: build_prompt_def split: sum.splits)
  have "req' = req" if "build_prompt ft' schema' req' = Inr p"
  proof -
    from message(1) [OF that] message(1) [OF assms] have "?text ft' req' = ?text ft req" by simp
    with reads [of fl wide ft' req'] reads [of fl wide ft req] show ?thesis by (simp add: user_fields_inject)
  qed
  with message [OF assms] reads show ?thesis by blast
qed

section \<open>The corpus of recorded calls\<close>

text \<open>What reading the line of a call gives: the entry with its keys sorted.\<close>

definition corpus_values :: "recorder \<Rightarrow> (verdict_request \<Rightarrow> exn + llm_result) \<Rightarrow> string \<times> verdict_request \<Rightarrow> json list" where
  "corpus_values rd client c =
     (case (client (snd c), build_prompt (rd_float_text rd) (rd_schema rd) (snd c)) of
        (Inr res, Inr p) \<Rightarrow> [sort_json (corpus_entry rd (fst c) (snd c) p res)]
      | _ \<Rightarrow> [])"

lemma prompt_payload_fine:
  assumes "verdict_tool_schema schema = Inr s" and "json_fine ft fl s" and "build_prompt ft' schema req = Inr p"
  shows "json_fine ft fl (prompt_payload p)"
  using assms by (auto simp: build_prompt_def prompt_payload_def)

lemma corpus_line_reads:
  assumes schema: "verdict_tool_schema (rd_schema rd) = Inr s" and fine: "json_fine (rd_float_text rd) fl s"
    and verdicts: "\<And>v. json_fine (rd_float_text rd) fl (rd_verdict_json rd v)"
  shows "map (json_loads fl wide) (corpus_line rd client c) = map Some (corpus_values rd client c)"
proof (cases "client (snd c)")
  case (Inr res)
  obtain p where p: "build_prompt (rd_float_text rd) (rd_schema rd) (snd c) = Inr p"
    using build_prompt_ok [OF schema] by blast
  have "json_fine (rd_float_text rd) fl (corpus_entry rd (fst c) (snd c) p res)"
    using prompt_payload_fine [OF schema fine p] verdicts by (simp add: corpus_entry_def)
  then have "json_loads fl wide (json_dumps (rd_float_text rd) (corpus_entry rd (fst c) (snd c) p res)) =
      Some (sort_json (corpus_entry rd (fst c) (snd c) p res))"
    by (intro reads_loads dumps_reads) (simp_all add: separator_def json_ws_def)
  with Inr p show ?thesis by (simp add: corpus_line_def corpus_values_def)
qed (simp add: corpus_line_def corpus_values_def)


section \<open>The logs of the file provider\<close>

fun write_value :: "file_write \<Rightarrow> json" where
  "write_value (W_Action m a) = J_Obj [(''message_id'', J_Str (message_id m)),
     (''action_type'', J_Str (action_type_name (a_type a))), (''mailbox'', J_opt_str (a_mailbox a))]"
| "write_value (W_Keywords m kws) = J_Obj [(''message_id'', J_Str (message_id m)), (''keywords'', J_Strs kws)]"
| "write_value (W_Draft m body) = J_Obj [(''in_reply_to_message_id'', J_Str (message_id m)), (''body'', J_Str body)]"

lemma reads_optional: "reads_to fl wide (json_optional v) (J_opt_str v)"
  by (cases v) (auto simp: json_optional_def J_opt_str_def literals_def intro: reads_string reads_literal)

lemma reads_strs: "reads_to fl wide (json_array (map json_string ss)) (J_Strs ss)"
  unfolding json_array_def J_Strs_def
  by (rule reads_array) (auto simp: separator_def json_ws_def list_all2_conv_all_nth reads_string)

lemma write_line_reads: "reads_to fl wide (write_line wr) (write_value wr)"
  by (cases wr) (auto simp: action_line_def keywords_line_def draft_line_def pair_reads_def
      intro!: reads_json_object reads_string reads_optional reads_strs)

text \<open>The file provider's logs read back: whatever is written in whatever order, each log splits into
  one line per write to it, and \<open>json.loads\<close> reads them as those writes, in order.\<close>

theorem file_logs_read_back:
  "\<exists>ls. py_split newline (file_text (fold (log_write fp) ws (\<lambda>_. None)) path) = ls @ [[]] \<and>
     map (json_loads fl wide) ls = map (Some \<circ> write_value) (filter (\<lambda>wr. write_path fp wr = path) ws)"
proof -
  let ?ws = "filter (\<lambda>wr. write_path fp wr = path) ws"
  have "py_split newline (concat (map (\<lambda>l. l @ [newline]) (map write_line ?ws))) = map write_line ?ws @ [[]]"
    by (rule py_split_lines) (auto simp: write_line_no_newline)
  then have "py_split newline (file_text (fold (log_write fp) ws (\<lambda>_. None)) path) = map write_line ?ws @ [[]]"
    by (simp add: file_writes_text comp_def) (simp add: file_text_def)
  moreover have "json_loads fl wide (write_line wr) = Some (write_value wr)" for wr
    by (rule reads_loads [OF write_line_reads])
  ultimately show ?thesis by (intro exI [of _ "map write_line ?ws"]) simp
qed

section \<open>The details of the audit log\<close>

text \<open>Text that is its own JSON escape: what an f-string may put between quotes.\<close>

definition plain_text :: "string \<Rightarrow> bool" where
  "plain_text s \<longleftrightarrow> list_all (\<lambda>c. c \<noteq> dquote \<and> c \<noteq> backslash \<and> 32 \<le> (of_char c :: nat)) s"

lemma scan_plain: "plain_text s \<Longrightarrow> scan_string wide (s @ dquote # t) = Some (s, t)"
  by (induction s) (auto simp: plain_text_def)

lemma reads_quoted:
  assumes "plain_text s"
  shows "reads_to fl wide (quoted s) (J_Str s)"
proof -
  have "scan_value fl wide n (quoted s @ rest) = Some (J_Str s, rest)" if "1 \<le> n" for n rest
    using that scan_plain [OF assms, of wide rest] by (cases n) (simp_all add: quoted_def scan_value.simps(2))
  then show ?thesis by (simp add: reads_to_def quoted_def quote_chars json_ws_def)
qed

lemma plain_names [simp]:
  "plain_text (action_type_name a)" "plain_text (band_text b)" "plain_text ''category''" "plain_text ''band''"
  "plain_text ''action_type''"
proof -
  show "plain_text (action_type_name a)" by (cases a) (simp_all add: plain_text_def quote_chars)
  show "plain_text (band_text b)"
    by (cases b; (cases "the b")?) (simp_all add: plain_text_def quote_chars band_text_def)
qed (simp_all add: plain_text_def quote_chars)

text \<open>A key of plain text is written as \<open>json.dumps\<close> writes it.\<close>

lemma quoted_key: "quoted ''category'' = json_string ''category''" "quoted ''band'' = json_string ''band''"
  "quoted ''action_type'' = json_string ''action_type''"
  by (simp_all add: quoted_def json_string_def json_char_def Let_def quote_chars)

definition tier2_detail_value :: "verdict \<Rightarrow> confidence_band option \<Rightarrow> (string, json) dict" where
  "tier2_detail_value v b = [(''category'', J_Str (v_category v)), (''band'', J_Str (band_text b))]"

lemma tier2_details_read:
  assumes "plain_text (v_category v)"
  shows "reads_to fl wide (alert_detail_json v b) (J_Obj (tier2_detail_value v b))"
    and "reads_to fl wide (action_detail_json v b)
      (J_Obj ((''action_type'', J_Str (action_type_name (a_type (v_suggested_action v)))) # tier2_detail_value v b))"
proof -
  let ?cb = "[(''category'', quoted (v_category v)), (''band'', quoted (band_text b))]"
  let ?at = "(''action_type'', quoted (action_type_name (a_type (v_suggested_action v))))"
  have rendered: "alert_detail_json v b = json_object ?cb" "action_detail_json v b = json_object (?at # ?cb)"
    by (simp_all add: alert_detail_json_def action_detail_json_def json_object_def quoted_key)
  show "reads_to fl wide (alert_detail_json v b) (J_Obj (tier2_detail_value v b))"
    unfolding rendered tier2_detail_value_def
    by (rule reads_json_object) (use assms in \<open>auto simp: pair_reads_def intro: reads_quoted\<close>)
  show "reads_to fl wide (action_detail_json v b)
      (J_Obj ((''action_type'', J_Str (action_type_name (a_type (v_suggested_action v)))) # tier2_detail_value v b))"
    unfolding rendered tier2_detail_value_def
    by (rule reads_json_object) (use assms in \<open>auto simp: pair_reads_def intro: reads_quoted\<close>)
qed

lemma quarantine_detail_read:
  "reads_to fl wide (quarantine_detail_json e reason)
     (J_Obj [(''error_type'', J_Str (error_type_name e)), (''reason'', J_Str reason)])"
proof -
  have "quarantine_detail_json e reason =
      json_object [(''error_type'', json_string (error_type_name e)), (''reason'', json_string reason)]"
    by (simp add: quarantine_detail_json_def json_object_def)
  then show ?thesis
    by (auto simp: pair_reads_def intro!: reads_json_object reads_string)
qed

text \<open>A category that is a quotation mark ends its string early.\<close>

lemma broken_pair:
  "scan_pairs fl wide (Suc (Suc n)) d (quoted ''category'' @ '': '' @ dquote # dquote # dquote # s) = None"
  using scan_plain [OF plain_names(3), of wide "'': '' @ dquote # dquote # dquote # s"]
  by (simp add: scan_key_def quoted_def scan_value.simps(2) json_ws_def quote_chars)

lemma broken_alert: "v_category v = [dquote] \<Longrightarrow> json_loads fl wide (alert_detail_json v b) = None"
  using broken_pair [of fl wide _ "[]"]
  by (simp add: json_loads_def alert_detail_json_def scan_value.simps(2) json_ws_def quoted_def quote_chars numeral_eq_Suc)

lemma broken_action:
  assumes "v_category v = [dquote]"
  shows "json_loads fl wide (action_detail_json v b) = None"
proof -
  let ?kt = "(''action_type'', quoted (action_type_name (a_type (v_suggested_action v))))"
  let ?kv = "(''action_type'', J_Str (action_type_name (a_type (v_suggested_action v))))"
  define rest where "rest = '', '' @ quoted ''band'' @ '': '' @ quoted (band_text b) @ ''}''"
  define broken where "broken = quoted ''category'' @ '': '' @ dquote # dquote # dquote # rest"
  have eq: "action_detail_json v b = CHR ''{'' # pair_text '': '' ?kt @ '', '' @ broken"
    using assms by (simp add: action_detail_json_def pair_text_def rest_def broken_def quoted_def json_string_def
        json_char_def Let_def quote_chars)
  define n where "n = 2 * length (pair_text '': '' ?kt) + 2 * length ('', '' @ broken)"
  have first: "\<exists>q. scan_key wide (pair_text '': '' ?kt @ '', '' @ broken) = Some (fst ?kv, q) \<and>
      scan_value fl wide (Suc n) q = Some (snd ?kv, '', '' @ broken)"
    by (rule scan_pair) (auto simp: separator_def json_ws_def pair_reads_def n_def reads_quoted)
  have "scan_pairs fl wide (Suc (Suc n)) [] (pair_text '': '' ?kt @ '', '' @ broken) =
      scan_pairs fl wide (Suc n) (dict_set [] (fst ?kv) (snd ?kv)) broken"
    using first by (auto simp: json_ws_def broken_def quoted_def quote_chars)
  moreover have "scan_pairs fl wide (Suc n) d broken = None" for d
    using broken_pair [of fl wide "n - 1" d rest] by (simp add: broken_def n_def pair_text_def)
  moreover have "skip_ws (pair_text '': '' ?kt @ '', '' @ broken) = pair_text '': '' ?kt @ '', '' @ broken"
    by (simp add: pair_text_def json_string_def json_ws_def quote_chars)
  moreover have "2 * length (action_detail_json v b) + 1 = Suc (Suc (Suc n))" by (simp add: eq n_def)
  ultimately show ?thesis
    by (simp add: json_loads_def eq scan_value.simps(2) json_ws_def pair_text_def json_string_def quote_chars)
qed

text \<open>The entry of an escalation reads as an object whose category is a configured one.\<close>

definition readable_entry :: "(string \<Rightarrow> pyfloat) \<Rightarrow> (nat \<Rightarrow> char) \<Rightarrow> string list \<Rightarrow> audit_entry \<Rightarrow> bool" where
  "readable_entry fl wide categories e \<longleftrightarrow>
     (case ae_detail_json e of
        None \<Rightarrow> True
      | Some d \<Rightarrow>
          (case json_loads fl wide d of
             Some (J_Obj d') \<Rightarrow>
               (case map_of d' ''category'' of None \<Rightarrow> True | Some c \<Rightarrow> c \<in> J_Str ` set categories)
           | _ \<Rightarrow> False))"

lemma band_detail_readable:
  assumes "v_category v \<in> set categories" and "plain_text (v_category v)"
  shows "readable_entry fl wide categories
    \<lparr>ae_id = i, ae_ts = ts, ae_jmap_id = j, ae_event = ev, ae_detail_json = Some (band_detail band v)\<rparr>"
  using tier2_details_read [OF assms(2), THEN reads_loads, of fl wide] assms(1)
  by (auto simp: readable_entry_def band_detail_def tier2_detail_value_def)

text \<open>C12: the audit log stays readable: an escalation, however it ends, appends at most one entry, of its
  own message, whose detail is absent or JSON that \<open>json.loads\<close> reads as an object, with a configured
  category where it has one, provided every configured category is plain text; a quarantine's reason
  may be any text. A category that is a quotation mark makes the entry of every band unreadable.\<close>

theorem escalation_audit_readable:
  assumes run: "escalate_message_or_quarantine E b t msg w = (r, w')"
  shows "((\<forall>c \<in> set (t_allowed_categories t). plain_text c) \<longrightarrow>
      (\<exists>new. db_audit_log (wdb w') = db_audit_log (wdb w) @ new \<and> length new \<le> 1 \<and>
         (\<forall>e \<in> set new. ae_jmap_id e = message_id msg \<and> readable_entry fl wide (t_allowed_categories t) e))) \<and>
    (v_category v = [dquote] \<longrightarrow> json_loads fl wide (band_detail band v) = None)"
proof (intro conjI impI)
  assume plain: "\<forall>c \<in> set (t_allowed_categories t). plain_text c"
  have quarantine: "readable_entry fl wide cats
      \<lparr>ae_id = i, ae_ts = ts, ae_jmap_id = j, ae_event = ev, ae_detail_json = Some (quarantine_detail_json e reason)\<rparr>"
    for cats i ts j ev e reason
    using reads_loads [OF quarantine_detail_read] by (simp add: readable_entry_def)
  have usage: "db_audit_log db' = db_audit_log db" if "only_usage_written db db'" for db db'
    using own_writes_usage [OF that] that by (metis only_usage_written_def state_db.select_convs(3)
        state_db.surjective state_db.update_convs(5))
  from escalation_writes [OF run] show "\<exists>new. db_audit_log (wdb w') = db_audit_log (wdb w) @ new \<and> length new \<le> 1 \<and>
      (\<forall>e \<in> set new. ae_jmap_id e = message_id msg \<and> readable_entry fl wide (t_allowed_categories t) e)"
  proof cases
    case raised
    with usage show ?thesis by simp
  next
    case (exhausted ts)
    then show ?thesis
      by (simp add: tier2_done_def mark_processed_def write_audit_entry_def Let_def readable_entry_def)
  next
    case (banded db1 v ts band)
    with plain band_detail_readable usage show ?thesis
      by (simp add: tier2_done_def mark_processed_def write_audit_entry_def Let_def)
  next
    case (quarantined db1 e ts)
    with quarantine usage show ?thesis
      by (simp add: quarantined_db_def mark_processed_def write_audit_entry_def Let_def)
  qed
next
  assume "v_category v = [dquote]"
  then show "json_loads fl wide (band_detail band v) = None"
    by (simp add: band_detail_def broken_alert broken_action)
qed

section \<open>Witnesses\<close>

definition ex_narrowed :: json where
  "ex_narrowed = (case verdict_tool_schema ex_schema of Inr s \<Rightarrow> s | Inl _ \<Rightarrow> J_Null)"

lemma ex_narrowed_schema: "verdict_tool_schema ex_schema = Inr ex_narrowed"
  using update_at_ok [where f = narrow_enum, OF ex_schema_at narrowed_names]
  by (auto simp: ex_narrowed_def verdict_tool_schema_def)

lemma ex_narrowed_fine: "json_fine ft fl ex_narrowed"
  by (simp add: ex_narrowed_def verdict_tool_schema_def ex_schema_def action_type_enum_def narrowed_names)

theorem prompt_carries_request_witness:
  "\<exists>content p. build_prompt (\<lambda>_. ''0.9'') ex_schema (ex_request [dquote, CHR '','']) = Inr p \<and>
     cp_messages p ! 1 = J_Obj [(''role'', J_Str ''user''), (''content'', J_Str content)] \<and>
     json_loads (\<lambda>_. NaN) (\<lambda>_. CHR ''?'') content = Some (user_fields (ex_request [dquote, CHR '','']))"
proof -
  obtain p where p: "build_prompt (\<lambda>_. ''0.9'') ex_schema (ex_request [dquote, CHR '','']) = Inr p"
    using build_prompt_ok [OF ex_narrowed_schema] by blast
  from prompt_carries_request [OF p, of "\<lambda>_. NaN" "\<lambda>_. CHR ''?''"] p show ?thesis by blast
qed


theorem escalation_audit_readable_witness:
  "\<exists>new. db_audit_log (wdb (snd (escalate_message_or_quarantine ex_env Live ex_tiering ex_message ex_world))) = new \<and>
     (\<forall>e \<in> set new. readable_entry (\<lambda>_. NaN) (\<lambda>_. CHR ''?'') [''work''] e)"
proof -
  obtain r w' where run: "escalate_message_or_quarantine ex_env Live ex_tiering ex_message ex_world = (r, w')"
    by (cases "escalate_message_or_quarantine ex_env Live ex_tiering ex_message ex_world")
  have cats: "t_allowed_categories ex_tiering = [''work'']" "plain_text ''work''"
    by (simp_all add: ex_tiering_def plain_text_def quote_chars)
  have empty: "db_audit_log (wdb ex_world) = []" by (simp add: ex_world_def empty_db_def)
  from escalation_audit_readable [OF run, THEN conjunct1, of "\<lambda>_. NaN" "\<lambda>_. CHR ''?''"] cats empty run
  show ?thesis by auto
qed

end
