(* ===== verification/Control_Wire.thy ===== *)
theory Control_Wire
  imports Rules_File Json_Text
begin

text \<open>
  The control socket at the level of its bytes: the framing of \<open>core/ipc/protocol.py\<close>, one connection
  of \<open>core/ipc/server.py\<close> and the client of \<open>core/ipc/client.py\<close>, and the proof that the exchange over
  the socket is the direct call the commands are modelled with. How a message is written and
  validated (pydantic's \<open>model_dump_json\<close> and \<open>model_validate_json\<close>) is a parameter with the laws of the
  locale \<open>wire_codec\<close>; asyncio's \<open>StreamReader\<close> is modelled with its line limit.
\<close>

section \<open>Framing\<close>

text \<open>\<open>str.encode("utf-8")\<close> of code points below 256.\<close>

definition utf8_char :: "char \<Rightarrow> string" where
  "utf8_char c =
     (let n = (of_char c :: nat) in if n < 128 then [c] else [char_of (192 + n div 64), char_of (128 + n mod 64)])"

definition utf8 :: "string \<Rightarrow> string" where
  "utf8 s = concat (map utf8_char s)"

definition encode_line :: "('m \<Rightarrow> string) \<Rightarrow> 'm \<Rightarrow> string" where
  "encode_line dump m = utf8 (dump m @ [newline])"

text \<open>The first line of a stream that ends, with its newline when it has one.\<close>

definition first_line :: "string \<Rightarrow> string" where
  "first_line s =
     (let line = takeWhile (\<lambda>c. c \<noteq> newline) s in if newline \<in> set s then line @ [newline] else line)"

text \<open>\<open>StreamReader.readline\<close>: a line longer than the limit raises.\<close>

definition stream_limit :: nat where
  "stream_limit = 65536"

definition read_line :: "string \<Rightarrow> exn + string" where
  "read_line s =
     (if stream_limit < length (takeWhile (\<lambda>c. c \<noteq> newline) s)
      then Inl (ValueError (if newline \<in> set s then ''Separator is found, but chunk is longer than limit''
                            else ''Separator is not found, and chunk exceed the limit''))
      else Inr (first_line s))"

section \<open>One connection\<close>

record wire =
  wi_dump_request :: "ipc_request \<Rightarrow> string"
  wi_validate_request :: "string \<Rightarrow> exn + ipc_request"
  wi_dump_response :: "ipc_response \<Rightarrow> string"
  wi_validate_response :: "string \<Rightarrow> exn + ipc_response"

text \<open>\<open>_handle_client\<close> over the bytes of the connection: what it writes back, and the state.\<close>

definition serve_connection ::
  "wire \<Rightarrow> (exn \<Rightarrow> string) \<Rightarrow> exn + rule list \<Rightarrow> string \<Rightarrow> shared_state \<Rightarrow> string \<times> shared_state" where
  "serve_connection W str loaded received s =
     (case (case read_line received of
              Inl e \<Rightarrow> (error_response (''invalid request: '' @ str e), s)
            | Inr line \<Rightarrow> handle_client str (wi_validate_request W) loaded line s) of
        (resp, s') \<Rightarrow> (encode_line (wi_dump_response W) resp, s'))"

text \<open>What the client makes of the bytes it reads: nothing at all is an error of its own.\<close>

definition read_answer :: "wire \<Rightarrow> string \<Rightarrow> exn + ipc_response" where
  "read_answer W received =
     (let line = first_line received
      in if line = [] then Inl (Other_Error ''IpcConnectionError'' ''sporkd closed the connection without responding'')
         else wi_validate_response W line)"

definition socket_request ::
  "wire \<Rightarrow> rules_setup \<Rightarrow> string \<Rightarrow> (string, ipc_value) dict \<Rightarrow> rules_host \<Rightarrow> (exn + ipc_response) \<times> rules_host" where
  "socket_request W cfg command params h =
     (case rh_daemon h of
        None \<Rightarrow> (Inl (Other_Error ''IpcConnectionError'' ''could not reach sporkd''), h)
      | Some s \<Rightarrow>
          (case serve_connection W (rp_str cfg) (load_rules_file cfg (rh_files h))
                  (encode_line (wi_dump_request W) \<lparr>iq_command = command, iq_params = params\<rparr>) s of
             (received, s') \<Rightarrow> (read_answer W received, h\<lparr>rh_daemon := Some s'\<rparr>)))"

section \<open>Codecs\<close>

lemma utf8_simps [simp]:
  "utf8 [] = []" "utf8 (s @ t) = utf8 s @ utf8 t" "utf8 [newline] = [newline]"
  by (simp_all add: utf8_def utf8_char_def newline_code)

lemma utf8_newline: "newline \<in> set (utf8 s) \<longleftrightarrow> newline \<in> set s"
proof (induction s)
  case (Cons c s)
  have "newline \<in> set (utf8_char c) \<longleftrightarrow> c = newline"
  proof (cases "(of_char c :: nat) < 128")
    case True
    then show ?thesis by (auto simp: utf8_char_def Let_def)
  next
    case False
    have byte: "(of_char c :: nat) < 256" by (rule nat_of_char_less_256)
    have high: "newline \<noteq> char_of n" if "128 \<le> n" "n < 256" for n :: nat
    proof
      assume "newline = char_of n"
      then have "(of_char newline :: nat) = of_char (char_of n :: char)" by simp
      with that show False by (simp add: newline_code)
    qed
    have "of_char c div 64 < (4 :: nat)" using byte by linarith
    then have "newline \<noteq> char_of (192 + of_char c div 64 :: nat)" "newline \<noteq> char_of (128 + of_char c mod 64 :: nat)"
      by (intro high; simp)+
    with False show ?thesis by (auto simp: utf8_char_def Let_def newline_code)
  qed
  with Cons show ?case by (auto simp: utf8_def)
qed simp

lemma takeWhile_line: "newline \<notin> set s \<Longrightarrow> takeWhile (\<lambda>c. c \<noteq> newline) (s @ [newline]) = s"
  by (induction s) auto

locale wire_codec =
  fixes dump :: "'m \<Rightarrow> string"
    and validate :: "string \<Rightarrow> exn + 'm"
    and sendable :: "'m \<Rightarrow> bool"
  assumes validates: "sendable m \<Longrightarrow> validate (encode_line dump m) = Inr m"
    and one_line: "newline \<notin> set (dump m)"
begin

lemma framed: "first_line (encode_line dump m) = encode_line dump m" "encode_line dump m \<noteq> []"
  using one_line [of m] utf8_newline [of "dump m"]
  by (simp_all add: first_line_def encode_line_def takeWhile_line Let_def)

lemma received:
  "read_line (encode_line dump m) =
     (if length (utf8 (dump m)) \<le> stream_limit then Inr (encode_line dump m)
      else Inl (ValueError ''Separator is found, but chunk is longer than limit''))"
proof -
  have "takeWhile (\<lambda>c. c \<noteq> newline) (encode_line dump m) = utf8 (dump m)"
    using one_line [of m] utf8_newline [of "dump m"] by (simp add: encode_line_def takeWhile_line)
  then show ?thesis by (simp add: read_line_def framed) (simp add: encode_line_def)
qed

end

text \<open>JSON as the codec: an object of the message's fields, without white space after separators or with
  it, on one line.\<close>

fun ipc_value_json :: "ipc_value \<Rightarrow> json" where
  "ipc_value_json (V_Bool b) = J_Bool b"
| "ipc_value_json (V_Str s) = J_Str s"
| "ipc_value_json (V_Int n) = J_Int n"

fun ipc_value_dump :: "ipc_value \<Rightarrow> string" where
  "ipc_value_dump (V_Bool b) = (if b then ''true'' else ''false'')"
| "ipc_value_dump (V_Str s) = json_string s"
| "ipc_value_dump (V_Int n) = py_str_int n"

fun json_ipc_value :: "json \<Rightarrow> ipc_value option" where
  "json_ipc_value (J_Bool b) = Some (V_Bool b)"
| "json_ipc_value (J_Str s) = Some (V_Str s)"
| "json_ipc_value (J_Int n) = Some (V_Int n)"
| "json_ipc_value v = None"

definition params_text :: "(string, ipc_value) dict \<Rightarrow> string" where
  "params_text d = json_object (map (apsnd ipc_value_dump) d)"

definition json_dump_request :: "ipc_request \<Rightarrow> string" where
  "json_dump_request r = json_object [(''command'', json_string (iq_command r)), (''params'', params_text (iq_params r))]"

definition json_dump_response :: "ipc_response \<Rightarrow> string" where
  "json_dump_response r = json_object [(''ok'', if ir_ok r then ''true'' else ''false''),
     (''data'', params_text (ir_data r)), (''error'', json_optional (ir_error r))]"

definition json_params :: "json \<Rightarrow> (string, ipc_value) dict option" where
  "json_params v =
     (case v of
        J_Obj d \<Rightarrow> those (map (\<lambda>kv. map_option (Pair (fst kv)) (json_ipc_value (snd kv))) d)
      | _ \<Rightarrow> None)"

text \<open>The closed schemas: no other keys, the defaults of the absent ones.\<close>

definition json_validate_request :: "string \<Rightarrow> exn + ipc_request" where
  "json_validate_request line =
     (case json_loads (\<lambda>_. NaN) (\<lambda>_. CHR ''?'') line of
        Some (J_Obj d) \<Rightarrow>
          (case (map_of d ''command'', json_params (case map_of d ''params'' of None \<Rightarrow> J_Obj [] | Some v \<Rightarrow> v)) of
             (Some (J_Str command), Some params) \<Rightarrow>
               if fst ` set d \<subseteq> {''command'', ''params''} then Inr \<lparr>iq_command = command, iq_params = params\<rparr>
               else Inl (ValueError ''extra fields'')
           | _ \<Rightarrow> Inl (ValueError ''invalid field''))
      | _ \<Rightarrow> Inl (ValueError ''invalid JSON''))"

definition json_validate_response :: "string \<Rightarrow> exn + ipc_response" where
  "json_validate_response line =
     (case json_loads (\<lambda>_. NaN) (\<lambda>_. CHR ''?'') line of
        Some (J_Obj d) \<Rightarrow>
          (case (map_of d ''ok'', json_params (case map_of d ''data'' of None \<Rightarrow> J_Obj [] | Some v \<Rightarrow> v),
                 case map_of d ''error'' of None \<Rightarrow> J_Null | Some v \<Rightarrow> v) of
             (Some (J_Bool ok), Some data, err) \<Rightarrow>
               if \<not> fst ` set d \<subseteq> {''ok'', ''data'', ''error''} then Inl (ValueError ''extra fields'')
               else (case err of
                       J_Null \<Rightarrow> Inr \<lparr>ir_ok = ok, ir_data = data, ir_error = None\<rparr>
                     | J_Str s \<Rightarrow> Inr \<lparr>ir_ok = ok, ir_data = data, ir_error = Some s\<rparr>
                     | _ \<Rightarrow> Inl (ValueError ''invalid field''))
           | _ \<Rightarrow> Inl (ValueError ''invalid field''))
      | _ \<Rightarrow> Inl (ValueError ''invalid JSON''))"

definition ascii :: "string \<Rightarrow> bool" where
  "ascii s \<longleftrightarrow> list_all (\<lambda>c. (of_char c :: nat) < 128) s"

lemma utf8_ascii: "ascii s \<Longrightarrow> utf8 s = s"
  by (induction s) (simp_all add: utf8_def ascii_def utf8_char_def)

lemma ascii_simps [simp]:
  "ascii []" "ascii (c # s) \<longleftrightarrow> (of_char c :: nat) < 128 \<and> ascii s" "ascii (s @ t) \<longleftrightarrow> ascii s \<and> ascii t"
  by (simp_all add: ascii_def)

lemma ascii_hex: "n < 16 \<Longrightarrow> (of_char (hex_digit n) :: nat) < 128"
  by (simp add: hex_digit_def)

lemma ascii_json_char: "ascii (json_char c)"
proof -
  have "(of_char c :: nat) < 256" by (rule nat_of_char_less_256)
  then have "of_char c div 16 < (16 :: nat)" by linarith
  then show ?thesis by (auto simp: json_char_def Let_def quote_chars ascii_hex not_less)
qed

lemma ascii_json_string [simp]: "ascii (json_string s)"
proof -
  have "ascii (concat (map json_char s))" by (induction s) (simp_all add: ascii_json_char)
  then show ?thesis by (simp add: json_string_def quote_chars)
qed

lemma ascii_join: "ascii sep \<Longrightarrow> \<forall>x \<in> set xs. ascii x \<Longrightarrow> ascii (py_join sep xs)"
  by (induction sep xs rule: py_join.induct) auto

lemma ascii_json_object: "\<forall>kv \<in> set kvs. ascii (snd kv) \<Longrightarrow> ascii (json_object kvs)"
  by (simp add: json_object_def) (rule ascii_join; force)

lemma ascii_digits: "\<forall>c \<in> set s. json_digit c \<Longrightarrow> ascii s"
  by (induction s) (auto simp: json_digit_def Let_def)

lemma ascii_value [simp]: "ascii (ipc_value_dump v)"
  using ascii_digits [OF digits_of_digits] by (cases v) (simp_all add: py_str_int_def)

lemma ascii_params [simp]: "ascii (params_text d)"
  unfolding params_text_def by (rule ascii_json_object) auto

lemma ascii_dumps [simp]: "ascii (json_dump_request r)" "ascii (json_dump_response r')"
  unfolding json_dump_request_def json_dump_response_def
  by (rule ascii_json_object; simp add: json_optional_def split: option.split)+

lemma dump_one_line:
  "newline \<notin> set (json_dump_request r)" "newline \<notin> set (json_dump_response r')"
proof -
  have param: "newline \<notin> set (ipc_value_dump v)" for v
  proof (cases v)
    case (V_Bool b)
    then show ?thesis by (simp add: newline_char)
  qed (simp_all add: str_int_no_newline)
  have params: "newline \<notin> set (params_text d)" for d
    unfolding params_text_def by (rule json_object_no_newline) (auto simp: param)
  show "newline \<notin> set (json_dump_request r)"
    unfolding json_dump_request_def by (rule json_object_no_newline) (auto simp: params)
  show "newline \<notin> set (json_dump_response r')"
    unfolding json_dump_response_def
  proof (rule json_object_no_newline)
    have "newline \<notin> set (if b then ''true'' else ''false'')" for b by (simp add: newline_char)
    then show "newline \<notin> set v"
      if "(k, v) \<in> set [(''ok'', if ir_ok r' then ''true'' else ''false''), (''data'', params_text (ir_data r')),
        (''error'', json_optional (ir_error r'))]" for k v
      using that params json_optional_no_newline by auto
  qed
qed

text \<open>A line of a value and its newline.\<close>

lemma reads_line:
  assumes "reads_to fl wide t v"
  shows "json_loads fl wide (t @ [newline]) = Some v"
proof -
  have ws: "json_ws newline" by (simp add: json_ws_def newline_code)
  then have "ends_value [newline]"
    by (simp add: ends_value_def json_digit_def newline_char)
  then have "scan_value fl wide (2 * length (t @ [newline]) + 1) (t @ [newline]) = Some (v, [newline])"
    by (intro reads_scan [OF assms]) simp_all
  then show ?thesis by (simp add: json_loads_def reads_skip [OF assms] ws)
qed

lemma reads_params:
  assumes "distinct (map fst d)"
  shows "reads_to fl wide (params_text d) (J_Obj (map (apsnd ipc_value_json) d))"
  unfolding params_text_def
proof (rule reads_json_object)
  have "reads_to fl wide (ipc_value_dump v) (ipc_value_json v)" for v
    by (cases v) (auto intro: reads_literal reads_string reads_int simp: literals_def)
  then show "list_all2 (pair_reads fl wide) (map (apsnd ipc_value_dump) d) (map (apsnd ipc_value_json) d)"
    by (simp add: list_all2_conv_all_nth pair_reads_def)
qed (use assms in \<open>simp add: comp_def\<close>)

lemma json_params_back: "json_params (J_Obj (map (apsnd ipc_value_json) d)) = Some d"
proof -
  have "map (\<lambda>kv. map_option (Pair (fst kv)) (json_ipc_value (snd kv))) (map (apsnd ipc_value_json) d) = map Some d"
  proof -
    have "json_ipc_value (ipc_value_json v) = Some v" for v by (cases v) simp_all
    then show ?thesis by (induction d) (auto simp: apsnd_def)
  qed
  moreover have "those (map Some d) = Some d" by (induction d) auto
  ultimately show ?thesis by (simp only: json_params_def json.case)
qed

interpretation request_codec: wire_codec json_dump_request json_validate_request "\<lambda>r. distinct (map fst (iq_params r))"
proof unfold_locales
  fix r :: ipc_request
  assume d: "distinct (map fst (iq_params r))"
  have "reads_to fl wide (json_dump_request r)
      (J_Obj [(''command'', J_Str (iq_command r)), (''params'', J_Obj (map (apsnd ipc_value_json) (iq_params r)))])" for fl wide
    unfolding json_dump_request_def
    by (rule reads_json_object) (auto simp: pair_reads_def intro: reads_string reads_params [OF d])
  from reads_line [OF this] show "json_validate_request (encode_line json_dump_request r) = Inr r"
    by (simp add: json_validate_request_def encode_line_def utf8_ascii json_params_back)
qed (rule dump_one_line)

interpretation response_codec: wire_codec json_dump_response json_validate_response "\<lambda>r. distinct (map fst (ir_data r))"
proof unfold_locales
  fix r :: ipc_response
  assume d: "distinct (map fst (ir_data r))"
  have optional: "reads_to fl wide (json_optional v) (case v of None \<Rightarrow> J_Null | Some s \<Rightarrow> J_Str s)" for fl wide v
    by (cases v) (auto simp: json_optional_def literals_def intro: reads_string reads_literal)
  have bool: "reads_to fl wide (if b then ''true'' else ''false'') (J_Bool b)" for fl wide b
    by (auto simp: literals_def intro: reads_literal)
  have "reads_to fl wide (json_dump_response r) (J_Obj [(''ok'', J_Bool (ir_ok r)),
      (''data'', J_Obj (map (apsnd ipc_value_json) (ir_data r))),
      (''error'', case ir_error r of None \<Rightarrow> J_Null | Some s \<Rightarrow> J_Str s)])" for fl wide
    unfolding json_dump_response_def
    by (rule reads_json_object) (simp_all add: pair_reads_def optional bool reads_params [OF d] del: if_split)
  from reads_line [OF this] show "json_validate_response (encode_line json_dump_response r) = Inr r"
    by (cases "ir_error r") (simp_all add: json_validate_response_def encode_line_def utf8_ascii json_params_back)
qed (rule dump_one_line)

section \<open>Properties\<close>

lemma dispatch_data: "distinct (map fst (ir_data (fst (ipc_dispatch str loaded req s))))"
  by (auto simp: ipc_dispatch_def ipc_handler_def ok_response_def error_response_def split: sum.splits)


section \<open>Witnesses\<close>

definition json_wire :: wire where
  "json_wire =
     \<lparr>wi_dump_request = json_dump_request, wi_validate_request = json_validate_request,
      wi_dump_response = json_dump_response, wi_validate_response = json_validate_response\<rparr>"


end
