(* ===== verification/Config_Schema.thy ===== *)
theory Config_Schema
  imports Rules_File Config_File Alert_Backends
begin

text \<open>
  The models of \<open>core/config/schema.py\<close> as functions of the merged tables, and what they make of the
  configuration's layers. pydantic stays a parameter of \<open>load_config\<close>: it agrees with
  \<open>config_of_table\<close> where every value has its declared type, and refuses what \<open>config_refused\<close>
  names, keys no model declares (\<open>extra="forbid"\<close>), missing fields and overlapping arguments. What
  else it converts or refuses is left open.
\<close>

section \<open>Values of the declared types\<close>

text \<open>\<open>Path(s)\<close>: empty and \<open>.\<close> components go, and the root is one slash or exactly two.\<close>

definition py_path :: "string \<Rightarrow> string" where
  "py_path s =
     (let parts = filter (\<lambda>p. p \<noteq> [] \<and> p \<noteq> ''.'') (py_split (CHR ''/'') s);
          root = (if prefix ''//'' s \<and> \<not> prefix ''///'' s then ''//'' else if prefix ''/'' s then ''/'' else [])
      in if root = [] \<and> parts = [] then ''.'' else root @ py_join ''/'' parts)"

definition toml_path :: "toml \<Rightarrow> string option" where
  "toml_path v = map_option py_path (toml_str v)"

fun toml_int :: "toml \<Rightarrow> int option" where
  "toml_int (T_Int n) = Some n"
| "toml_int v = None"

fun toml_float :: "toml \<Rightarrow> pyfloat option" where
  "toml_float (T_Float x) = Some x"
| "toml_float (T_Int n) = Some (Num (of_int n))"
| "toml_float v = None"

definition toml_str_dict :: "toml \<Rightarrow> (string, string) dict option" where
  "toml_str_dict v =
     Option.bind (table_of v) (\<lambda>d. all_some (map (\<lambda>(k, x). map_option (Pair k) (toml_str x)) d))"

definition toml_literal :: "('a \<Rightarrow> string) \<Rightarrow> 'a list \<Rightarrow> toml \<Rightarrow> 'a option" where
  "toml_literal name xs v = Option.bind (toml_str v) (map_of (map (\<lambda>x. (name x, x)) xs))"

definition field_optional :: "(string, toml) dict \<Rightarrow> string \<Rightarrow> (toml \<Rightarrow> 'a option) \<Rightarrow> 'a option option" where
  "field_optional d k conv = field_default d k None (map_option Some \<circ> conv)"

text \<open>A model validator that raises refuses the model.\<close>

definition validated :: "string + 'a \<Rightarrow> 'a option" where
  "validated r = (case r of Inl why \<Rightarrow> None | Inr x \<Rightarrow> Some x)"

lemma validated_Some [simp]: "validated r = Some x \<longleftrightarrow> r = Inr x"
  by (cases r) (simp_all add: validated_def)

section \<open>The models (schema.py)\<close>

definition backend_fields :: "string list" where
  "backend_fields = [''spec'', ''kwargs'', ''secret_kwargs'']"

definition backend_of_table :: "toml \<Rightarrow> backend_spec option" where
  "backend_of_table v =
     Option.bind (closed_table backend_fields v) (\<lambda>d.
     Option.bind (field_required d ''spec'' toml_str) (\<lambda>s.
     Option.bind (field_default d ''kwargs'' [] table_of) (\<lambda>k.
     Option.bind (field_default d ''secret_kwargs'' [] toml_str_dict) (\<lambda>sk.
     validated (disallow_overlapping_kwargs \<lparr>be_spec = s, be_kwargs = k, be_secret_kwargs = sk\<rparr>)))))"

definition recording_fields :: "string list" where
  "recording_fields = [''corpus_path'']"

definition recording_of_table :: "toml \<Rightarrow> string option" where
  "recording_of_table v =
     Option.bind (closed_table recording_fields v) (\<lambda>d. field_required d ''corpus_path'' toml_path)"

definition receipt_fields :: "string list" where
  "receipt_fields = [''output_dir'', ''extraction'']"

definition receipt_archive_of_table :: "toml \<Rightarrow> receipt_archive_config option" where
  "receipt_archive_of_table v =
     Option.bind (closed_table receipt_fields v) (\<lambda>d.
     Option.bind (field_required d ''output_dir'' toml_path) (\<lambda>dir.
     Option.bind (field_required d ''extraction'' backend_of_table) (\<lambda>b.
     Some \<lparr>rc_output_dir = dir, rc_extraction = b\<rparr>)))"

definition tiering_fields :: "string list" where
  "tiering_fields =
     [''default_unmatched_action'', ''alert_threshold'', ''autoact_threshold'', ''daily_call_budget'',
      ''max_body_chars'', ''local_classifier'', ''allowed_categories'']"

definition tiering_of_table :: "toml \<Rightarrow> tiering_config option" where
  "tiering_of_table v =
     Option.bind (closed_table tiering_fields v) (\<lambda>d.
     Option.bind (field_default d ''default_unmatched_action'' (t_default_unmatched_action tiering_defaults)
                    (toml_literal action_type_name [Escalate, Ignore])) (\<lambda>unmatched.
     Option.bind (field_default d ''alert_threshold'' (t_alert_threshold tiering_defaults) toml_float) (\<lambda>alert_at.
     Option.bind (field_default d ''autoact_threshold'' (t_autoact_threshold tiering_defaults) toml_float) (\<lambda>act_at.
     Option.bind (field_default d ''daily_call_budget'' (t_daily_call_budget tiering_defaults) toml_int) (\<lambda>budget.
     Option.bind (field_default d ''max_body_chars'' (t_max_body_chars tiering_defaults) toml_int) (\<lambda>body.
     Option.bind (field_optional d ''local_classifier'' toml_str) (\<lambda>classifier.
     Option.bind (field_default d ''allowed_categories'' [] toml_strs) (\<lambda>cats.
     Some \<lparr>t_default_unmatched_action = unmatched, t_alert_threshold = alert_at, t_autoact_threshold = act_at,
           t_daily_call_budget = budget, t_max_body_chars = body, t_local_classifier = classifier,
           t_allowed_categories = cats\<rparr>))))))))"

definition config_required :: "string list" where
  "config_required = [''provider'', ''llm'', ''alerts'', ''rules_path'', ''db_path'']"

definition config_fields :: "string list" where
  "config_fields =
     config_required @ [''context'', ''llm_recording'', ''receipt_archive'', ''socket_path'', ''tiering'', ''log_level'']"

definition config_of_table :: "(string, toml) dict \<Rightarrow> spork_config option" where
  "config_of_table raw =
     Option.bind (closed_table config_fields (T_Table raw)) (\<lambda>d.
     Option.bind (field_required d ''provider'' backend_of_table) (\<lambda>provider.
     Option.bind (field_required d ''llm'' backend_of_table) (\<lambda>llm.
     Option.bind (field_required d ''alerts'' backend_of_table) (\<lambda>alerts.
     Option.bind (field_optional d ''context'' backend_of_table) (\<lambda>cx.
     Option.bind (field_optional d ''llm_recording'' recording_of_table) (\<lambda>recording.
     Option.bind (field_optional d ''receipt_archive'' receipt_archive_of_table) (\<lambda>receipts.
     Option.bind (field_required d ''rules_path'' toml_path) (\<lambda>rules_path.
     Option.bind (field_required d ''db_path'' toml_path) (\<lambda>db_path.
     Option.bind (field_optional d ''socket_path'' toml_path) (\<lambda>socket_path.
     Option.bind (field_default d ''tiering'' tiering_defaults tiering_of_table) (\<lambda>tiering.
     Option.bind (field_default d ''log_level'' Info
                    (toml_literal log_level_text [Debug, Info, Warning, Error, Critical_Level])) (\<lambda>level.
     Some \<lparr>sc_provider = provider, sc_llm = llm, sc_alerts = alerts, sc_context = cx,
           sc_llm_recording = recording, sc_receipt_archive = receipts, sc_rules_path = rules_path,
           sc_db_path = db_path, sc_socket_path = socket_path, sc_tiering = tiering, sc_log_level = level\<rparr>))))))))))))"

section \<open>What pydantic refuses\<close>

definition table_refused :: "string list \<Rightarrow> string list \<Rightarrow> toml \<Rightarrow> bool" where
  "table_refused allowed required v =
     (case table_of v of
        None \<Rightarrow> True
      | Some d \<Rightarrow> list_ex (\<lambda>k. k \<notin> set allowed) (map fst d) \<or> list_ex (\<lambda>r. dict_get d r = None) required)"

definition arguments_of :: "toml \<Rightarrow> string \<Rightarrow> string list" where
  "arguments_of v k =
     (case Option.bind (table_of v) (\<lambda>d. Option.bind (dict_get d k) table_of) of None \<Rightarrow> [] | Some t \<Rightarrow> map fst t)"

definition backend_refused :: "toml \<Rightarrow> bool" where
  "backend_refused v \<longleftrightarrow>
     table_refused backend_fields [''spec''] v \<or>
     list_ex (\<lambda>a. a \<in> set (arguments_of v ''secret_kwargs'')) (arguments_of v ''kwargs'')"

definition at_field :: "(string, toml) dict \<Rightarrow> string \<Rightarrow> (toml \<Rightarrow> bool) \<Rightarrow> bool" where
  "at_field d k P = (case dict_get d k of None \<Rightarrow> False | Some v \<Rightarrow> P v)"

definition receipt_refused :: "toml \<Rightarrow> bool" where
  "receipt_refused v \<longleftrightarrow>
     table_refused receipt_fields receipt_fields v \<or>
     (case table_of v of None \<Rightarrow> True | Some d \<Rightarrow> at_field d ''extraction'' backend_refused)"

definition config_refused :: "(string, toml) dict \<Rightarrow> bool" where
  "config_refused d \<longleftrightarrow>
     table_refused config_fields config_required (T_Table d) \<or>
     list_ex (\<lambda>k. at_field d k backend_refused) [''provider'', ''llm'', ''alerts'', ''context''] \<or>
     at_field d ''llm_recording'' (table_refused recording_fields recording_fields) \<or>
     at_field d ''receipt_archive'' receipt_refused \<or>
     at_field d ''tiering'' (table_refused tiering_fields [])"

text \<open>The documented behaviour of pydantic the schema relies on.\<close>

definition follows_config_schema :: "((string, toml) dict \<Rightarrow> string + spork_config) \<Rightarrow> bool" where
  "follows_config_schema validate \<longleftrightarrow>
     (\<forall>d c. config_of_table d = Some c \<longrightarrow> validate d = Inr c) \<and>
     (\<forall>d. config_refused d \<longrightarrow> (\<exists>why. validate d = Inl why))"

text \<open>A validator that converts nothing is one of them.\<close>

definition strict_config :: "(string, toml) dict \<Rightarrow> string + spork_config" where
  "strict_config d = (case config_of_table d of None \<Rightarrow> Inl ''invalid'' | Some c \<Rightarrow> Inr c)"

lemma closed_table_Some:
  "closed_table allowed v = Some d \<longleftrightarrow> v = T_Table d \<and> (\<forall>k \<in> fst ` set d. k \<in> set allowed)"
  by (cases v) (auto simp: closed_table_def list_all_iff)

lemma field_required_Some: "field_required d k conv = Some x \<longleftrightarrow> (\<exists>v. dict_get d k = Some v \<and> conv v = Some x)"
  by (auto simp: field_required_def bind_eq_Some_conv)

lemma accepted_table:
  assumes "closed_table allowed v = Some d" and "\<And>r. r \<in> set required \<Longrightarrow> dict_get d r \<noteq> None"
  shows "\<not> table_refused allowed required v"
  using assms by (auto simp: table_refused_def closed_table_Some list_ex_iff)

lemma all_some_keys: "all_some (map (\<lambda>(k, x). map_option (Pair k) (f x)) d) = Some d' \<Longrightarrow> map fst d' = map fst d"
proof (induction d arbitrary: d')
  case (Cons kx d)
  then show ?case by (cases kx; cases "f (snd kx)") auto
qed simp

lemma field_default_args:
  "field_default d k [] conv = Some t \<Longrightarrow> (\<And>v t. conv v = Some t \<Longrightarrow> \<exists>t'. table_of v = Some t' \<and> map fst t' = map fst t) \<Longrightarrow>
   arguments_of (T_Table d) k = map fst t"
  by (fastforce simp: field_default_def arguments_of_def split: option.splits)

lemma backend_accepted: "backend_of_table v = Some b \<Longrightarrow> \<not> backend_refused v"
proof -
  assume "backend_of_table v = Some b"
  then obtain d s k sk where d: "closed_table backend_fields v = Some d" "field_required d ''spec'' toml_str = Some s"
      "field_default d ''kwargs'' [] table_of = Some k" "field_default d ''secret_kwargs'' [] toml_str_dict = Some sk"
    and no: "disallow_overlapping_kwargs \<lparr>be_spec = s, be_kwargs = k, be_secret_kwargs = sk\<rparr> = Inr b"
    by (auto simp: backend_of_table_def bind_eq_Some_conv)
  have strs: "\<exists>t'. table_of v' = Some t' \<and> map fst t' = map fst t" if "toml_str_dict v' = Some t" for v' t
    using that by (auto simp: toml_str_dict_def bind_eq_Some_conv dest: all_some_keys)
  have "arguments_of v ''kwargs'' = map fst k"
    using field_default_args [OF d(3)] d(1) by (auto simp: closed_table_Some)
  moreover have "arguments_of v ''secret_kwargs'' = map fst sk"
    using field_default_args [OF d(4) strs] d(1) by (simp add: closed_table_Some)
  ultimately have "\<not> list_ex (\<lambda>a. a \<in> set (arguments_of v ''secret_kwargs'')) (arguments_of v ''kwargs'')"
    using no by (auto simp: disallow_overlapping_kwargs_def Let_def list_ex_iff filter_empty_conv split: if_splits)
  with accepted_table [OF d(1), of "[''spec'']"] d(2) show ?thesis
    by (auto simp: backend_refused_def field_required_Some)
qed

lemma at_field_accepted:
  "field_required d k conv = Some x \<Longrightarrow> (\<And>v x. conv v = Some x \<Longrightarrow> \<not> P v) \<Longrightarrow> \<not> at_field d k P"
  "field_default d k dflt conv = Some x \<Longrightarrow> (\<And>v x. conv v = Some x \<Longrightarrow> \<not> P v) \<Longrightarrow> \<not> at_field d k P"
  "field_optional d k conv' = Some y \<Longrightarrow> (\<And>v x. conv' v = Some x \<Longrightarrow> \<not> P v) \<Longrightarrow> \<not> at_field d k P"
  by (auto simp: field_required_Some at_field_def field_default_def field_optional_def split: option.splits)

lemma recording_accepted: "recording_of_table v = Some x \<Longrightarrow> \<not> table_refused recording_fields recording_fields v"
proof -
  assume "recording_of_table v = Some x"
  then obtain d where d: "closed_table recording_fields v = Some d" "field_required d ''corpus_path'' toml_path = Some x"
    by (auto simp: recording_of_table_def bind_eq_Some_conv)
  from accepted_table [OF d(1), of recording_fields] d(2) show ?thesis
    by (auto simp: field_required_Some recording_fields_def)
qed

lemma receipt_accepted: "receipt_archive_of_table v = Some x \<Longrightarrow> \<not> receipt_refused v"
proof -
  assume "receipt_archive_of_table v = Some x"
  then obtain d dir b where d: "closed_table receipt_fields v = Some d"
      "field_required d ''output_dir'' toml_path = Some dir" "field_required d ''extraction'' backend_of_table = Some b"
    by (auto simp: receipt_archive_of_table_def bind_eq_Some_conv)
  from accepted_table [OF d(1), of receipt_fields] d(2,3) have "\<not> table_refused receipt_fields receipt_fields v"
    by (auto simp: field_required_Some receipt_fields_def)
  with d(1) at_field_accepted(1) [OF d(3) backend_accepted] show ?thesis
    by (simp add: receipt_refused_def closed_table_Some)
qed

lemma tiering_accepted: "tiering_of_table v = Some t \<Longrightarrow> \<not> table_refused tiering_fields [] v"
proof -
  assume "tiering_of_table v = Some t"
  then obtain d where "closed_table tiering_fields v = Some d" by (auto simp: tiering_of_table_def bind_eq_Some_conv)
  from accepted_table [OF this, of "[]"] show ?thesis by simp
qed

lemma config_accepted: "config_of_table d = Some c \<Longrightarrow> \<not> config_refused d"
proof -
  assume "config_of_table d = Some c"
  then obtain provider llm alerts cx recording receipts rules_path db_path socket_path tiering where
    d: "closed_table config_fields (T_Table d) = Some d"
      "field_required d ''provider'' backend_of_table = Some provider" "field_required d ''llm'' backend_of_table = Some llm"
      "field_required d ''alerts'' backend_of_table = Some alerts" "field_optional d ''context'' backend_of_table = Some cx"
      "field_optional d ''llm_recording'' recording_of_table = Some recording"
      "field_optional d ''receipt_archive'' receipt_archive_of_table = Some receipts"
      "field_required d ''rules_path'' toml_path = Some rules_path" "field_required d ''db_path'' toml_path = Some db_path"
      "field_default d ''tiering'' tiering_defaults tiering_of_table = Some tiering"
    by (auto simp: config_of_table_def bind_eq_Some_conv closed_table_Some)
  have "\<not> table_refused config_fields config_required (T_Table d)"
    using accepted_table [OF d(1), of config_required] d(2-4) d(8,9)
    by (auto simp: field_required_Some config_required_def)
  moreover note at_field_accepted(1) [OF d(2) backend_accepted] at_field_accepted(1) [OF d(3) backend_accepted]
    at_field_accepted(1) [OF d(4) backend_accepted] at_field_accepted(3) [OF d(5) backend_accepted]
    at_field_accepted(3) [OF d(6) recording_accepted] at_field_accepted(3) [OF d(7) receipt_accepted]
    at_field_accepted(2) [OF d(10) tiering_accepted]
  ultimately show ?thesis by (simp add: config_refused_def)
qed

lemma strict_config_follows: "follows_config_schema strict_config"
  by (auto simp: follows_config_schema_def strict_config_def split: option.splits dest: config_accepted)

section \<open>Layers\<close>

lemma node_at_key: "node_at d [k] = None \<longleftrightarrow> k \<notin> fst ` set d"
proof -
  have "value_at v [] \<noteq> None" for v by (cases v) simp_all
  then have "node_at d [k] = None \<longleftrightarrow> dict_get d k = None"
    by (cases "dict_get d k") (simp_all add: node_at_simps)
  then show ?thesis by (simp add: map_of_eq_None_iff)
qed

lemma unrefused_table: "\<not> table_refused allowed required (T_Table d) \<Longrightarrow> k \<in> fst ` set d \<Longrightarrow> k \<in> set allowed"
  by (auto simp: table_refused_def list_ex_iff)

lemma unrefused_required: "\<not> table_refused allowed required (T_Table d) \<Longrightarrow> r \<in> set required \<Longrightarrow> node_at d [r] \<noteq> None"
  by (simp only: node_at_key not_not) (auto simp: table_refused_def list_ex_iff map_of_eq_None_iff)

text \<open>The keys below a field that holds a table.\<close>

lemma node_below: "node_at d (k # a # ks) \<noteq> None \<Longrightarrow> \<exists>t. dict_get d k = Some (T_Table t) \<and> node_at t (a # ks) \<noteq> None"
proof -
  assume n: "node_at d (k # a # ks) \<noteq> None"
  then obtain v where "dict_get d k = Some v" "value_at v (a # ks) \<noteq> None" by (auto simp: node_at_simps bind_eq_Some_conv)
  then show ?thesis by (cases v) (auto simp: node_at_def)
qed

lemma node_argument: "node_at d [k, a, x] \<noteq> None \<Longrightarrow> \<exists>v. dict_get d k = Some v \<and> x \<in> set (arguments_of v a)"
proof -
  assume "node_at d [k, a, x] \<noteq> None"
  from node_below [OF this] obtain t where t: "dict_get d k = Some (T_Table t)" "node_at t [a, x] \<noteq> None" by blast
  from node_below [OF this(2)] obtain u where u: "dict_get t a = Some (T_Table u)" "node_at u [x] \<noteq> None" by blast
  from u(2) have "x \<in> fst ` set u" by (simp only: node_at_key not_not)
  with t(1) u(1) show ?thesis by (auto simp: arguments_of_def)
qed

text \<open>The keys of the merged layers, and what a configuration that is not refused holds of them.\<close>

lemma merged_keys:
  assumes "wf_dict user" and "wf_dict enforced"
  shows "k \<notin> fst ` set (deep_merge (deep_merge sys user) enforced) \<longleftrightarrow> k \<notin> fst ` (set sys \<union> set user \<union> set enforced)"
proof -
  have "k \<notin> fst ` set (deep_merge (deep_merge sys user) enforced) \<longleftrightarrow>
      override (override (node_at sys) (node_at user)) (node_at enforced) [k] = None"
    by (simp only: node_at_key [symmetric] merged_nodes [OF assms(2)] merged_nodes [OF assms(1)])
  also have "\<dots> \<longleftrightarrow> node_at sys [k] = None \<and> node_at user [k] = None \<and> node_at enforced [k] = None"
    by (simp add: override_def node_at_simps(1) is_leaf_def split: option.split)
  also have "\<dots> \<longleftrightarrow> k \<notin> fst ` (set sys \<union> set user \<union> set enforced)" by (auto simp only: node_at_key image_Un Un_iff)
  finally show ?thesis .
qed

lemma accepted_tiering:
  assumes "\<not> config_refused m" and "node_at m [''tiering'', k] \<noteq> None"
  shows "k \<in> set tiering_fields"
proof -
  from node_below [OF assms(2)] obtain t where t: "dict_get m ''tiering'' = Some (T_Table t)" "node_at t [k] \<noteq> None" by blast
  with assms(1) have "\<not> table_refused tiering_fields [] (T_Table t)" by (simp add: config_refused_def at_field_def)
  moreover from t(2) have "k \<in> fst ` set t" by (simp only: node_at_key not_not)
  ultimately show ?thesis by (rule unrefused_table)
qed

lemma accepted_apart:
  assumes "\<not> config_refused m" and "b \<in> {''provider'', ''llm'', ''alerts'', ''context''}"
  shows "node_at m [b, ''kwargs'', a] = None \<or> node_at m [b, ''secret_kwargs'', a] = None"
proof (rule ccontr)
  assume "\<not> ?thesis"
  then have both: "node_at m [b, ''kwargs'', a] \<noteq> None" "node_at m [b, ''secret_kwargs'', a] \<noteq> None" by simp_all
  from node_argument [OF both(1)] node_argument [OF both(2)] obtain v where "dict_get m b = Some v"
    "a \<in> set (arguments_of v ''kwargs'')" "a \<in> set (arguments_of v ''secret_kwargs'')" by auto
  then have "at_field m b backend_refused" by (auto simp: at_field_def backend_refused_def list_ex_iff)
  with assms show False by (auto simp: config_refused_def)
qed

section \<open>Property\<close>

text \<open>C22: a configuration that loads was said in full and in declared words, whichever file said it: no
  file sets a key the schema does not declare, at the top or under \<open>tiering\<close>, so a typing error in
  any layer is refused; every required field is set by some layer; no backend gets an argument both
  in the clear and as a secret, even when two layers set the two; and where the merged values have
  their declared types the result is exactly what the schema makes of them, with the defaults for
  what no layer sets and the socket path filled in.\<close>

theorem config_strict:
  assumes wf: "\<forall>p d. fs p = Parsed d \<longrightarrow> wf_dict d" and schema: "follows_config_schema validate"
    and loaded: "load_config validate env fs = Inr config"
    and layers: "first_system_default fs (resolve_system_default_config_paths env) = Inr sys"
      "read_toml (resolve_user_config_path env) (fs (resolve_user_config_path env)) = Inr user"
      "read_toml enforced_config_path (fs enforced_config_path) = Inr enforced"
    and tree: "tree = override (override (node_at sys) (node_at user)) (node_at enforced)"
  shows "(\<forall>k \<in> fst ` (set sys \<union> set user \<union> set enforced). k \<in> set config_fields) \<and>
    (\<forall>k. tree [''tiering'', k] \<noteq> None \<longrightarrow> k \<in> set tiering_fields) \<and>
    (\<forall>r \<in> set config_required. r \<in> fst ` (set sys \<union> set user \<union> set enforced)) \<and>
    (\<forall>b \<in> {''provider'', ''llm'', ''alerts'', ''context''}. \<forall>a.
       tree [b, ''kwargs'', a] = None \<or> tree [b, ''secret_kwargs'', a] = None) \<and>
    (\<forall>c. config_of_table (deep_merge (deep_merge sys user) enforced) = Some c \<longrightarrow>
       config = (if sc_socket_path c = None
                 then c\<lparr>sc_socket_path := Some (fst (resolve_socket_path env))\<rparr> else c))"
proof -
  let ?m = "deep_merge (deep_merge sys user) enforced"
  have "wf_dict user" "wf_dict enforced"
    using layers(2,3) by (auto intro: read_toml_wf [OF wf])
  then have m: "node_at ?m = tree" by (simp add: merged_nodes tree)
  obtain c where c: "validate ?m = Inr c" and config: "config = (if sc_socket_path c = None
        then c\<lparr>sc_socket_path := Some (fst (resolve_socket_path env))\<rparr> else c)"
    using loaded layers by (auto simp: load_config_def split: sum.splits)
  have ok: "\<not> config_refused ?m"
    using schema c by (fastforce simp: follows_config_schema_def)
  then have top: "\<not> table_refused config_fields config_required (T_Table ?m)" by (simp add: config_refused_def)
  note keys = merged_keys [OF \<open>wf_dict user\<close> \<open>wf_dict enforced\<close>, of _ sys]
  have "config_of_table ?m = Some c' \<Longrightarrow> c' = c" for c'
    using schema c by (auto simp: follows_config_schema_def)
  with config have exact: "\<forall>c'. config_of_table ?m = Some c' \<longrightarrow> config = (if sc_socket_path c' = None
      then c'\<lparr>sc_socket_path := Some (fst (resolve_socket_path env))\<rparr> else c')" by blast
  have "\<forall>k \<in> fst ` (set sys \<union> set user \<union> set enforced). k \<in> set config_fields"
    using unrefused_table [OF top] keys by blast
  moreover have "\<forall>r \<in> set config_required. r \<in> fst ` (set sys \<union> set user \<union> set enforced)"
    using unrefused_required [OF top] keys by (simp only: node_at_key) blast
  moreover have "\<forall>k. tree [''tiering'', k] \<noteq> None \<longrightarrow> k \<in> set tiering_fields"
    by (intro allI impI) (rule accepted_tiering [OF ok, unfolded m])
  moreover have "\<forall>b \<in> {''provider'', ''llm'', ''alerts'', ''context''}. \<forall>a.
      tree [b, ''kwargs'', a] = None \<or> tree [b, ''secret_kwargs'', a] = None"
    by (intro ballI allI) (rule accepted_apart [OF ok, unfolded m])
  ultimately show ?thesis using exact by (intro conjI)
qed

section \<open>Witness\<close>

text \<open>The user's file says everything but the budget, which the enforced one sets.\<close>

definition ex_user_file :: "(string, toml) dict" where
  "ex_user_file =
     [(''provider'', T_Table [(''spec'', T_Str ''m:P''), (''secret_kwargs'', T_Table [(''api_token'', T_Str ''JMAP_API_TOKEN'')])]),
      (''llm'', T_Table [(''spec'', T_Str ''m:L'')]), (''alerts'', T_Table [(''spec'', T_Str ''m:A'')]),
      (''rules_path'', T_Str ''/home/u//rules.toml''), (''db_path'', T_Str ''/home/u/./state.sqlite3''),
      (''tiering'', T_Table [(''alert_threshold'', T_Float (Num (1 / 2)))])]"

definition ex_layers :: "string \<Rightarrow> toml_file" where
  "ex_layers p =
     (if p = enforced_config_path then Parsed [(''tiering'', T_Table [(''daily_call_budget'', T_Int 5)])]
      else if p = resolve_user_config_path ex_process_env then Parsed ex_user_file else No_File)"

definition ex_loaded :: spork_config where
  "ex_loaded =
     \<lparr>sc_provider = \<lparr>be_spec = ''m:P'', be_kwargs = [], be_secret_kwargs = [(''api_token'', ''JMAP_API_TOKEN'')]\<rparr>,
      sc_llm = \<lparr>be_spec = ''m:L'', be_kwargs = [], be_secret_kwargs = []\<rparr>,
      sc_alerts = \<lparr>be_spec = ''m:A'', be_kwargs = [], be_secret_kwargs = []\<rparr>, sc_context = None,
      sc_llm_recording = None, sc_receipt_archive = None, sc_rules_path = ''/home/u/rules.toml'',
      sc_db_path = ''/home/u/state.sqlite3'', sc_socket_path = None,
      sc_tiering = tiering_defaults\<lparr>t_alert_threshold := Num (1 / 2), t_daily_call_budget := 5\<rparr>, sc_log_level = Info\<rparr>"

lemma ex_merged: "config_of_table (deep_merge (deep_merge [] ex_user_file)
    [(''tiering'', T_Table [(''daily_call_budget'', T_Int 5)])]) = Some ex_loaded"
  by (simp add: ex_user_file_def ex_loaded_def config_of_table_def closed_table_def config_fields_def config_required_def
      field_required_def field_default_def field_optional_def backend_of_table_def backend_fields_def toml_str_dict_def
      disallow_overlapping_kwargs_def tiering_of_table_def tiering_fields_def tiering_defaults_def toml_path_def py_path_def validated_def)

lemma ex_layers_read:
  "first_system_default ex_layers (resolve_system_default_config_paths ex_process_env) = Inr []"
  "read_toml (resolve_user_config_path ex_process_env) (ex_layers (resolve_user_config_path ex_process_env)) = Inr ex_user_file"
  "read_toml enforced_config_path (ex_layers enforced_config_path) =
     Inr [(''tiering'', T_Table [(''daily_call_budget'', T_Int 5)])]"
  by (simp_all add: ex_layers_def read_toml_def enforced_config_path_def resolve_system_default_config_paths_def
      resolve_user_config_path_def environ_get_def ex_process_env_def path_join_def config_home_def
      env_absolute_path_def is_absolute_def)

theorem config_strict_witness:
  "\<exists>config. load_config strict_config ex_process_env ex_layers = Inr config \<and>
     (\<forall>k \<in> fst ` set ex_user_file. k \<in> set config_fields) \<and>
     config = ex_loaded\<lparr>sc_socket_path := Some (fst (resolve_socket_path ex_process_env))\<rparr>"
proof -
  have wf: "\<forall>p d. ex_layers p = Parsed d \<longrightarrow> wf_dict d"
    by (simp add: ex_layers_def ex_user_file_def wf_dict_def)
  have none: "sc_socket_path ex_loaded = None" by (simp add: ex_loaded_def)
  obtain config where run: "load_config strict_config ex_process_env ex_layers = Inr config"
    by (auto simp: load_config_def ex_layers_read strict_config_def ex_merged simp del: deep_merge.simps)
  note strict = config_strict [OF wf strict_config_follows run ex_layers_read refl]
  from strict have "\<forall>k \<in> fst ` set ex_user_file. k \<in> set config_fields" by blast
  moreover from strict ex_merged have "config = (if sc_socket_path ex_loaded = None
      then ex_loaded\<lparr>sc_socket_path := Some (fst (resolve_socket_path ex_process_env))\<rparr> else ex_loaded)" by blast
  ultimately show ?thesis using run none by auto
qed

end
