(* ===== verification/Spec2Isabelle.thy ===== *)
theory Spec2Isabelle
  imports Receipt_Documents Html_Text Jmap_Daemon Jmap_Backfill Json_Records Control_Wire Config_Schema
begin

text \<open>
  A verification development for spork, a mail triage daemon (\<open>sporkd\<close>) and its command line
  (\<open>spork\<close>), under \<open>src/src/spork\<close>.

  \<^bold>\<open>The program.\<close> A source (JMAP push with an interval timer behind it, or a JSON file) hands
  batches of messages to the daemon's loop. Each message runs through the Tier 1 pipeline: an
  idempotency gate, the rule engine, then one route: a terminal action, an escalation, or the
  receipt archive. An escalated message runs through the Tier 2 pipeline: a budget gate, context,
  a prompt, one model call, validation, and a route by confidence band. Output no verdict can be
  made of is quarantined. A cursor is acknowledged after its batch. A control socket serves
  status, pause, resume and reload between the loop's steps. All state is one SQLite file.

  \<^bold>\<open>The model.\<close> Python code is a function to \<open>exn + 'a\<close>, or, where it has effects, a program on
  a \<open>world\<close>: the database and the history of calls made across the Protocol boundaries. What a
  collaborator (server, model, clock, keyring, file) answers is a function argument, for most of
  them of that history, so any deterministic collaborator is an instance. The loop and the socket
  form one transition system, a step being the code between two awaits; a run of the process is a
  function of the schedule in which the loop's steps, the requests and the signals come.

  \<^bold>\<open>Theories, in the order of their imports, and the files they model.\<close>
  \<^item> \<open>Spork_Prelude\<close>: Python strings, dicts and floats; the lemma collections.
  \<^item> \<open>Spork_Data\<close>: \<open>core/models.py\<close> and the value types of the \<open>base.py\<close> modules.
  \<^item> \<open>State_Store\<close>: \<open>core/state/db.py\<close>. Locales \<open>keyed_table\<close> and \<open>append_log\<close> give the laws of
    its tables; \<open>db_ok\<close> is the store invariant.
  \<^item> \<open>Spork_Effects\<close>: worlds, calls and programs; the locale \<open>effect_frame\<close>.
  \<^item> \<open>Pipeline_Core\<close>: \<open>core/pipeline/core.py\<close>, \<open>observer.py\<close>, \<open>tracing.py\<close> and the executor; frames
    of a pipeline from its stages, and the simulation between traced and bare pipelines.
  \<^item> \<open>Rule_Engine\<close>, \<open>Local_Classify\<close>: \<open>core/rules/engine.py\<close>, \<open>core/classify\<close>, \<open>core/dispatch\<close>;
    the engine is proved equal to a reference written with \<open>find\<close>.
  \<^item> \<open>Tier1_Modules\<close>, \<open>Receipt_Archive\<close>, \<open>Tier1_Pipeline\<close>: \<open>core/pipeline/modules.py\<close>,
    \<open>default.py\<close> and \<open>core/receipts\<close>: the exact effect of each route of Tier 1.
  \<^item> \<open>Llm_Gate\<close>, \<open>Tier2_Modules\<close>, \<open>Tier2_Pipeline\<close>: \<open>core/llm\<close> and \<open>core/pipeline/tier2\<close>: gates,
    clients (locale \<open>llm_client\<close>), the pipeline, escalation and quarantine.
  \<^item> \<open>Daemon_Control\<close>, \<open>Daemon_Loop\<close>: \<open>daemon/state.py\<close>, \<open>core/ipc\<close>, \<open>daemon/loop.py\<close>: the
    handlers and the transition system, with invariants of every reachable daemon.
  \<^item> \<open>Mail_Sources\<close>, \<open>Jmap_Client\<close>, \<open>Jmap_Provider\<close>: \<open>core/sources\<close> and \<open>core/providers\<close>.
    Locales \<open>replaying\<close> and \<open>windowed_listing\<close> are the contracts of a source and a listing.
  \<^item> \<open>Operator_Commands\<close>: \<open>spork backfill\<close>, \<open>reclassify\<close> and \<open>logs\<close>; their wiring is in
    \<open>Command_Wiring\<close>.
  \<^item> \<open>Toml_Text\<close>, \<open>Rules_File\<close>: the rules file, from its text to rules and back, and the
    \<open>spork rules\<close> commands with the daemon they reload.
  \<^item> \<open>Config_File\<close>, \<open>Secret_Store\<close>: \<open>core/config\<close>, \<open>core/secrets.py\<close>, \<open>core/secret_store.py\<close>,
    \<open>spork config show\<close> and \<open>spork secrets enroll\<close>. The merge of the configuration's layers is
    refined from \<open>override\<close> on paths; \<open>Config_Schema\<close> has the models of \<open>core/config/schema.py\<close>
    as functions of the merged tables.
  \<^item> \<open>Entity_Context\<close>, \<open>Prompt_Recording\<close>: \<open>core/context/clients\<close>, \<open>core/llm/prompt.py\<close> and
    \<open>recording.py\<close> (again an \<open>llm_client\<close>).
  \<^item> \<open>Html_Text\<close>: the tag stripper of \<open>core/llm/clean.py\<close> and \<open>html.parser\<close> on a text without
    markup: what of a mail body reaches the model.
  \<^item> \<open>Json_Text\<close>: \<open>json.loads\<close>, a reader for the text \<open>json.dumps\<close> writes; \<open>Json_Records\<close> reads
    back what the program writes with it: prompts, the recorded corpus and the audit log's details.
  \<^item> \<open>Alert_Backends\<close>: \<open>core/alerts\<close> and \<open>core/logging_setup.py\<close>. Locales \<open>alerter\<close> and
    \<open>sure_alerter\<close> are the contracts of a backend and of a fallback.
  \<^item> \<open>Composition\<close>: the five loaders, \<open>core/runtime.py\<close>, the composition in \<open>run_daemon\<close> and
    \<open>daemon/main.py\<close>.
  \<^item> \<open>System_Commands\<close>: \<open>core/systemd\<close>, \<open>spork doctor\<close>, \<open>pause\<close>, \<open>resume\<close>, \<open>status\<close>,
    \<open>install-service\<close> and \<open>secrets wait\<close>.
  \<^item> \<open>Receipt_Documents\<close>: \<open>core/receipts/pdf.py\<close> and the recorded extractions; the locale
    \<open>page_source\<close> is the contract of what adds pages.
  \<^item> \<open>Command_Wiring\<close>: the wiring and the error handling of \<open>spork backfill\<close> and \<open>reclassify\<close>,
    \<open>spork config init\<close> and \<open>edit\<close>, the callback of \<open>cli/main.py\<close>, the socket's file.
  \<^item> \<open>Control_Wire\<close>: \<open>core/ipc/protocol.py\<close>, \<open>server.py\<close> and \<open>client.py\<close> byte by byte: UTF-8
    lines, the reader's limit, one request per connection. The locale \<open>wire_codec\<close> states what
    pydantic's JSON codecs owe, and is interpreted on the JSON of \<open>Json_Text\<close>.
  \<^item> \<open>Pipeline_Writes\<close>, \<open>Daemon_Spec\<close>: which rows a message's processing writes; the abstract
    machine of the daemon and the simulation (locale \<open>simulation\<close>) of the loop by it.
  \<^item> \<open>Daemon_Run\<close>: \<open>run_daemon\<close> and \<open>daemon/main.py\<close> from start to exit: the composition, the
    stored cursor, the task group, the signals and the exit status.
  \<^item> \<open>Pipeline_Frames\<close>, \<open>Pipeline_Calls\<close>: the frames of a whole message (in the locale
    \<open>effect_frame\<close>), and which calls a message and a step of the loop can make.
  \<^item> \<open>Jmap_Adapters\<close>, \<open>Jmap_Backfill\<close>: \<open>JmapProvider\<close>'s adapters around its one client, and
    \<open>spork backfill\<close> and \<open>reclassify\<close> on a JMAP account. The locale \<open>paged_listing\<close> is a listing of
    which items may vanish while it is swept.
  \<^item> \<open>Jmap_Daemon\<close>: \<open>JmapProvider\<close> as the daemon's provider. The locale \<open>checkpointed_history\<close> is
    what the loop relies on of a checkpointed source; the JMAP source provides it. Lives of the
    process follow one another on one database.

  \<^bold>\<open>What is shown.\<close> Of the pipelines: the exact outcome of a run on every branch, at most one
  mailbox write per message and only of a validated suggestion, idempotency, failure atomicity, the
  call budget. Of the daemon: no cursor before its batch, no control event lost while it runs, the
  store invariant, the refinement of an abstract machine of batches, handled ids, cursors and
  control events; of its process: no change of mail under \<open>--observe\<close>, an exit within a bound of
  steps after a signal, a restart on a cursor behind which everything is handled, and, on a JMAP
  account, no mail lost over any number of lives, whatever fails. Of the text it
  writes: prompts, recordings and audit details read back as what they were written from, and a
  request over the socket is the direct call. Of the providers: every new message handed
  out once, complete fetches, the backoff schedule, and what a backfill leaves behind. Of the files: round trips of rules and secrets,
  the precedence of the configuration's layers, what is accepted and what is refused, undeclared
  keys of any layer among it. Of the
  composition: which failures at start are caught, and what \<open>doctor\<close> says of the start.

  \<^bold>\<open>Bounds and fuel.\<close> Strings are lists of the code points 0 to 255, Python's unbounded integers
  are \<open>int\<close>, scores and times are exact rationals, prices and confidences \<open>pyfloat\<close> (rationals with
  NaN and the infinities). The TOML reader's fuel is the length of the text, which bounds both the
  number of statements and the nesting. The JSON reader's fuel is twice the length of the text and one
  more; \<open>scan_enough\<close> shows that more fuel changes nothing. \<open>secrets wait\<close> is a partial function, proved to return.
  Every other loop is a total function, by structure or by a measure.

  \<^bold>\<open>Parameters.\<close> pydantic's validation and serialisation, \<open>json.loads\<close> where files are read (a decoded
  value or an error; its text level is \<open>Json_Text\<close>), \<open>html.parser\<close> on markup, \<open>importlib\<close>, jmapc and the JMAP server, LiteLLM, the keyring and secretspec
  packages, reportlab and pypdf, \<open>systemctl\<close>, \<open>notify-send\<close>, the SMTP server, clocks and the uuid
  generator. Where a property needs a law of one of them it is a named hypothesis with a witness:
  \<open>answers_history\<close>, \<open>serves_history\<close>, \<open>serves_listing\<close> (JMAP), \<open>keyring_laws\<close>, \<open>follows_schema\<close> and \<open>follows_config_schema\<close>
  (pydantic on rule tables and on the configuration), \<open>tools_ok\<close> (the PDF libraries).

  \<^bold>\<open>Not modelled.\<close> Timeouts of the control socket and asyncio's scheduling, of which only the order
  of the steps is kept; SQLite's failures; option parsing and terminal output (typer); what the editor
  started by \<open>spork config edit\<close> does; TOML outside the subset the rules writer uses; the interpreter's
  limits on recursion and on the digits of an integer; characters above 255 (dashes in a few messages
  are written as two hyphens); the bodies of jmapc, LiteLLM, reportlab and pypdf.
\<close>

end
